(* ===== verification/Prelude.thy ===== *)
theory Prelude
  imports Main "HOL-Library.Word" "HOL-Library.Signed_Division"
begin

text \<open>
  Shared vocabulary of the development: the C integer types, the C conversions
  between them, the lemma collections the component theories feed, and generic
  facts on words, lists, runs of elements and on a window of a circular buffer.

  Unsigned C types are words of their width, so that arithmetic wraps as in C.
  Signed C types are \<open>int\<close>; a conversion to a signed type of width \<open>w\<close> is
  \<open>signed_take_bit (w - 1)\<close>, written \<open>to_i8\<close> \<dots> \<open>to_i64\<close>. C division truncates
  towards zero: it is the \<open>sdiv\<close> / \<open>smod\<close> of the library.
\<close>

unbundle bit_operations_syntax

section \<open>C integer types\<close>

type_synonym u8 = "8 word"
type_synonym u16 = "16 word"
type_synonym u32 = "32 word"
type_synonym u64 = "64 word"

abbreviation to_i8 :: "int \<Rightarrow> int" where "to_i8 \<equiv> signed_take_bit 7"
abbreviation to_i16 :: "int \<Rightarrow> int" where "to_i16 \<equiv> signed_take_bit 15"
abbreviation to_i32 :: "int \<Rightarrow> int" where "to_i32 \<equiv> signed_take_bit 31"
abbreviation to_i64 :: "int \<Rightarrow> int" where "to_i64 \<equiv> signed_take_bit 63"

text \<open>A byte-addressed memory area (the IOmap of a process data group).\<close>

type_synonym iomap = "nat \<Rightarrow> u8"

section \<open>Collections\<close>

named_theorems field_simps_dev \<open>frame facts: fields an operation leaves alone\<close>
named_theorems inv_intros \<open>preservation of component invariants\<close>
named_theorems step_defs \<open>definitions of the stages of a step function\<close>

section \<open>Words\<close>

text \<open>The C index expression \<open>i & (cap - 1)\<close> with \<open>cap\<close> a power of two.\<close>

lemma unat_and_mask: "unat (w AND mask n) = unat w mod 2 ^ n" for w :: "'a::len word"
  by (simp only: take_bit_eq_mask [symmetric] unsigned_take_bit_eq) (simp add: take_bit_eq_mod)

lemma unat_mask: "unat (mask n :: 'a::len word) = mask (min LENGTH('a) n)"
proof -
  have "unat (of_nat (mask n) :: 'a word) = take_bit LENGTH('a) (mask n)"
    by (simp only: unsigned_of_nat of_nat_id)
  then show ?thesis by (simp add: of_nat_mask_eq)
qed

lemma unat_bound: "unat w < 2 ^ LENGTH('a)" for w :: "'a::len word"
  by (rule unsigned_less)

lemma unat_ucast_up:
  "LENGTH('a) \<le> LENGTH('b) \<Longrightarrow> unat (ucast w :: 'b::len word) = unat w" for w :: "'a::len word"
proof -
  assume "LENGTH('a) \<le> LENGTH('b)"
  then have "(2 :: nat) ^ LENGTH('a) \<le> 2 ^ LENGTH('b)" by (simp add: power_increasing)
  with unat_bound [of w] have "unat w < 2 ^ LENGTH('b)" by linarith
  then show ?thesis by (simp add: unsigned_ucast_eq take_bit_nat_eq_self)
qed

lemma unat_of_int:
  "0 \<le> i \<Longrightarrow> i < 2 ^ LENGTH('a) \<Longrightarrow> unat (of_int i :: 'a::len word) = nat i"
  by (simp add: unsigned_of_int take_bit_int_eq_self)

lemma unat_add_of_nat_mod:
  fixes a :: "'w::len word"
  assumes "m dvd 2 ^ LENGTH('w)"
  shows "unat (a + of_nat k) mod m = (unat a + k) mod m"
proof -
  have "unat (a + of_nat k) = (unat a + k) mod 2 ^ LENGTH('w)"
    by (simp add: unat_word_ariths unat_of_nat mod_simps)
  with assms show ?thesis
    by (simp add: mod_mod_cancel)
qed

lemma unat_add_of_nat:
  fixes a :: "'w::len word"
  assumes "unat a + k < 2 ^ LENGTH('w)"
  shows "unat (a + of_nat k) = unat a + k"
  using unat_add_of_nat_mod [of "2 ^ LENGTH('w)" a k] assms by (simp add: unsigned_less)

lemma unat_add_diff_mod:
  fixes a b :: "'w::len word"
  assumes "m dvd 2 ^ LENGTH('w)"
  shows "(unat b + unat (a - b)) mod m = unat a mod m"
  using unat_add_of_nat_mod [OF assms, of b "unat (a - b)"] by simp

lemma unat_diff_Suc:
  fixes a b :: "'w::len word"
  assumes "unat (a - b) < m" and "m < 2 ^ LENGTH('w)"
  shows "unat (a + 1 - b) = Suc (unat (a - b))"
proof -
  have "unat ((a - b) + 1) = (unat (a - b) + 1) mod 2 ^ LENGTH('w)"
    using unat_add_of_nat_mod [of "2 ^ LENGTH('w)" "a - b" 1] by (simp add: unsigned_less)
  moreover have "unat (a - b) + 1 < 2 ^ LENGTH('w)" using assms by linarith
  moreover have "a + 1 - b = (a - b) + 1" by simp
  ultimately show ?thesis by (simp only:) simp
qed

lemma unat_diff_pred:
  fixes a b :: "'w::len word"
  assumes "a \<noteq> b"
  shows "unat (a - b) = Suc (unat (a - (b + 1)))"
proof -
  have "a - (b + 1) = (a - b) - 1" by simp
  moreover have "a - b \<noteq> 0" using assms by simp
  ultimately show ?thesis
    by (metis Suc_pred' unat_gt_0 unat_minus_one)
qed

section \<open>A window of a circular buffer\<close>

text \<open>
  The elements a ring of capacity \<open>m\<close> holds between a free-running \<open>tail\<close> and
  \<open>head\<close> index: the abstraction function of every single-producer
  single-consumer ring of the program.
\<close>

definition ring_win :: "nat \<Rightarrow> (nat \<Rightarrow> 'a) \<Rightarrow> 'w::len word \<Rightarrow> 'w word \<Rightarrow> 'a list" where
  "ring_win m buf tail head = map (\<lambda>k. buf ((unat tail + k) mod m)) [0..<unat (head - tail)]"

lemma length_ring_win [simp]: "length (ring_win m buf tail head) = unat (head - tail)"
  by (simp add: ring_win_def)

lemma ring_win_empty_iff: "ring_win m buf tail head = [] \<longleftrightarrow> tail = head"
proof -
  have "ring_win m buf tail head = [] \<longleftrightarrow> unat (head - tail) = 0"
    by (simp add: ring_win_def)
  also have "\<dots> \<longleftrightarrow> head - tail = 0" by (simp add: unat_eq_0)
  finally show ?thesis by auto
qed

lemma ring_slot_distinct:
  fixes k n m t :: nat
  assumes "k < n" and "n < m"
  shows "(t + k) mod m \<noteq> (t + n) mod m"
proof
  assume "(t + k) mod m = (t + n) mod m"
  then have "m dvd (t + n) - (t + k)"
    using assms by (metis add_le_mono1 less_imp_le_nat mod_eq_dvd_iff_nat nat_add_left_cancel_le)
  then have "m dvd n - k" by simp
  with assms show False by (meson dvd_imp_le le_trans less_imp_diff_less less_le_not_le not_le zero_less_diff)
qed

lemma ring_win_write:
  fixes tail head :: "'w::len word"
  assumes "m dvd 2 ^ LENGTH('w)" and "m < 2 ^ LENGTH('w)" and room: "unat (head - tail) < m"
  shows "ring_win m (buf(unat head mod m := x)) tail (head + 1) = ring_win m buf tail head @ [x]"
proof -
  let ?n = "unat (head - tail)"
  have n: "unat (head + 1 - tail) = Suc ?n"
    using room assms(2) by (rule unat_diff_Suc)
  have slot: "unat head mod m = (unat tail + ?n) mod m"
    using unat_add_diff_mod [OF assms(1), of tail head] by simp
  have "map (\<lambda>k. (buf(unat head mod m := x)) ((unat tail + k) mod m)) [0..<?n]
      = map (\<lambda>k. buf ((unat tail + k) mod m)) [0..<?n]"
    using ring_slot_distinct [OF _ room] by (intro map_cong) (auto simp: slot)
  then show ?thesis
    unfolding ring_win_def n by (simp add: slot)
qed

lemma ring_win_unwritten:
  fixes tail head :: "'w::len word"
  assumes "m dvd 2 ^ LENGTH('w)" and room: "unat (head - tail) < m"
  shows "ring_win m (buf(unat head mod m := x)) tail head = ring_win m buf tail head"
proof -
  have slot: "unat head mod m = (unat tail + unat (head - tail)) mod m"
    using unat_add_diff_mod [OF assms(1), of tail head] by simp
  show ?thesis
    unfolding ring_win_def
    using ring_slot_distinct [OF _ room] by (intro map_cong) (auto simp: slot)
qed

lemma ring_win_pop:
  fixes tail head :: "'w::len word"
  assumes "m dvd 2 ^ LENGTH('w)" and "tail \<noteq> head"
  shows "ring_win m buf tail head = buf (unat tail mod m) # ring_win m buf (tail + 1) head"
proof -
  let ?n = "unat (head - (tail + 1))"
  have n: "unat (head - tail) = Suc ?n"
    using assms(2) by (intro unat_diff_pred) simp
  have "map (\<lambda>k. buf ((unat tail + k) mod m)) [0..<Suc ?n]
      = buf (unat tail mod m) # map (\<lambda>k. buf ((unat tail + Suc k) mod m)) [0..<?n]"
    by (simp add: upt_rec [of 0] map_Suc_upt [symmetric] comp_def del: upt_Suc)
  moreover have "(unat (tail + 1) + k) mod m = (unat tail + Suc k) mod m" for k
    using unat_add_of_nat_mod [OF assms(1), of tail 1]
    by (metis Suc_eq_plus1 add.commute add_Suc_right mod_add_left_eq of_nat_1 plus_1_eq_Suc)
  ultimately show ?thesis
    unfolding ring_win_def n by simp
qed

lemma ring_win_room:
  fixes tail head :: "'w::len word"
  assumes "tail \<noteq> head"
  shows "unat (head - (tail + 1)) < unat (head - tail)"
  using unat_diff_pred [of head tail] assms by simp

section \<open>Runs of elements\<close>

text \<open>The run of elements with a property at the end of a list, and any run of a given length.\<close>

definition trailing :: "('a \<Rightarrow> bool) \<Rightarrow> 'a list \<Rightarrow> nat" where
  "trailing P xs = length (takeWhile P (rev xs))"

definition has_run :: "('a \<Rightarrow> bool) \<Rightarrow> nat \<Rightarrow> 'a list \<Rightarrow> bool" where
  "has_run P n xs \<longleftrightarrow> (\<exists>ys zs ws. xs = ys @ zs @ ws \<and> length zs = n \<and> (\<forall>z\<in>set zs. P z))"

lemma trailing_snoc: "trailing P (xs @ [x]) = (if P x then Suc (trailing P xs) else 0)"
  by (simp add: trailing_def)

lemma trailing_suffix: "n \<le> trailing P xs \<longleftrightarrow> (\<exists>ys zs. xs = ys @ zs \<and> length zs = n \<and> (\<forall>z\<in>set zs. P z))"
proof
  assume n: "n \<le> trailing P xs"
  let ?zs = "rev (take n (takeWhile P (rev xs)))"
  have "rev xs = takeWhile P (rev xs) @ dropWhile P (rev xs)" by simp
  then have "rev xs = take n (takeWhile P (rev xs)) @ drop n (takeWhile P (rev xs)) @ dropWhile P (rev xs)"
    by (metis append.assoc append_take_drop_id)
  then have "xs = rev (drop n (takeWhile P (rev xs)) @ dropWhile P (rev xs)) @ ?zs"
    by (metis rev_append rev_rev_ident)
  moreover have "length ?zs = n" using n by (simp add: trailing_def)
  moreover have "\<forall>z\<in>set ?zs. P z" by (auto dest: in_set_takeD set_takeWhileD)
  ultimately show "\<exists>ys zs. xs = ys @ zs \<and> length zs = n \<and> (\<forall>z\<in>set zs. P z)" by blast
next
  assume "\<exists>ys zs. xs = ys @ zs \<and> length zs = n \<and> (\<forall>z\<in>set zs. P z)"
  then obtain ys zs where "xs = ys @ zs" "length zs = n" "\<forall>z\<in>set zs. P z" by blast
  then show "n \<le> trailing P xs" by (simp add: trailing_def takeWhile_append)
qed

lemma trailing_has_run:
  assumes "n \<le> trailing P xs"
  shows "has_run P n xs"
proof -
  obtain ys zs where "xs = ys @ zs @ []" "length zs = n" "\<forall>z\<in>set zs. P z"
    using assms unfolding trailing_suffix by auto
  then show ?thesis unfolding has_run_def by blast
qed

lemma has_run_append: "has_run P n xs \<Longrightarrow> has_run P n (xs @ ws)"
  unfolding has_run_def by force

lemma has_run_snoc: "has_run P n (xs @ [x]) \<longleftrightarrow> has_run P n xs \<or> n \<le> trailing P (xs @ [x])"
proof
  assume "has_run P n (xs @ [x])"
  then obtain ys zs ws where h: "xs @ [x] = ys @ zs @ ws" "length zs = n" "\<forall>z\<in>set zs. P z"
    unfolding has_run_def by blast
  show "has_run P n xs \<or> n \<le> trailing P (xs @ [x])"
  proof (cases ws rule: rev_cases)
    case Nil
    with h show ?thesis unfolding trailing_suffix by auto
  next
    case (snoc vs v)
    with h have "xs = ys @ zs @ vs" by simp
    with h show ?thesis unfolding has_run_def by blast
  qed
next
  assume "has_run P n xs \<or> n \<le> trailing P (xs @ [x])"
  then show "has_run P n (xs @ [x])"
    using has_run_append trailing_has_run by blast
qed

lemma has_run_Nil: "has_run P n [] \<longleftrightarrow> n = 0"
  by (auto simp: has_run_def)

end
