(* ===== verification/Fifo.thy ===== *)
theory Fifo
  imports Prelude
begin

text \<open>
  The bounded FIFO contract shared by the rings and queues of the program, the
  telemetry rings that implement it (\<open>libecmaster/telemetry/ring_spsc.c\<close>), and
  the lock-free protocol itself: producer and consumer as interleaved sequences
  of atomic loads and stores around a plain, tearable slot copy.
\<close>

section \<open>The contract of a bounded FIFO\<close>

datatype 'a qop = QPush 'a | QPop

text \<open>
  A client run: the elements a run of operations had accepted, and the elements
  it got back, both in order.
\<close>

fun qrun :: "('a \<Rightarrow> 'r \<Rightarrow> 'r \<times> bool) \<Rightarrow> ('r \<Rightarrow> ('a \<times> 'r) option) \<Rightarrow> 'a qop list \<Rightarrow> 'r \<Rightarrow> 'r \<times> 'a list \<times> 'a list" where
  "qrun push pop [] r = (r, [], [])"
| "qrun push pop (QPush x # ops) r =
    (let (r1, ok) = push x r; (r2, acc, out) = qrun push pop ops r1
     in (r2, if ok then x # acc else acc, out))"
| "qrun push pop (QPop # ops) r =
    (case pop r of
       None \<Rightarrow> qrun push pop ops r
     | Some (x, r1) \<Rightarrow> let (r2, acc, out) = qrun push pop ops r1 in (r2, acc, x # out))"

locale bounded_fifo =
  fixes qinv :: "'r \<Rightarrow> bool"
    and cont :: "'r \<Rightarrow> 'a list"
    and cap :: nat
    and push :: "'a \<Rightarrow> 'r \<Rightarrow> 'r \<times> bool"
    and pop :: "'r \<Rightarrow> ('a \<times> 'r) option"
  assumes qinv_bound: "qinv r \<Longrightarrow> length (cont r) \<le> cap"
    and push_inv: "qinv r \<Longrightarrow> qinv (fst (push x r))"
    and push_ok_iff: "qinv r \<Longrightarrow> snd (push x r) \<longleftrightarrow> length (cont r) < cap"
    and push_cont: "qinv r \<Longrightarrow>
      cont (fst (push x r)) = (if length (cont r) < cap then cont r @ [x] else cont r)"
    and pop_none_iff: "qinv r \<Longrightarrow> pop r = None \<longleftrightarrow> cont r = []"
    and pop_some: "qinv r \<Longrightarrow> pop r = Some (x, r') \<Longrightarrow> qinv r' \<and> cont r = x # cont r'"
begin

lemma run_fifo:
  assumes "qinv r" and "qrun push pop ops r = (r', acc, out)"
  shows "qinv r' \<and> cont r @ acc = out @ cont r'"
  using assms
proof (induction ops arbitrary: r r' acc out)
  case Nil
  then show ?case by simp
next
  case (Cons op ops)
  show ?case
  proof (cases op)
    case (QPush x)
    obtain r1 ok where p: "push x r = (r1, ok)" by fastforce
    obtain r2 a o' where q: "qrun push pop ops r1 = (r2, a, o')" by (cases "qrun push pop ops r1") auto
    have r1: "qinv r1" "ok \<longleftrightarrow> length (cont r) < cap"
      "cont r1 = (if length (cont r) < cap then cont r @ [x] else cont r)"
      using push_inv [of r x] push_ok_iff [of r x] push_cont [of r x] Cons.prems(1) p by auto
    from Cons.IH [OF r1(1) q] r1 Cons.prems(2) show ?thesis
      by (auto simp: QPush p q split: if_splits)
  next
    case QPop
    show ?thesis
    proof (cases "pop r")
      case None
      with Cons QPop show ?thesis by simp
    next
      case (Some y)
      then obtain x r1 where y: "pop r = Some (x, r1)" by (cases y) auto
      obtain r2 a o' where q: "qrun push pop ops r1 = (r2, a, o')" by (cases "qrun push pop ops r1") auto
      from pop_some [OF Cons.prems(1) y] have "qinv r1" "cont r = x # cont r1" by auto
      with Cons.IH [OF _ q] Cons.prems(2) show ?thesis
        by (auto simp: QPop y q)
    qed
  qed
qed

lemma run_bound:
  assumes "qinv r" and "qrun push pop ops r = (r', acc, out)"
  shows "length (cont r) + length acc \<le> length out + cap"
proof -
  from run_fifo [OF assms] have "qinv r'" and "length (cont r @ acc) = length (out @ cont r')"
    by auto
  with qinv_bound [of r'] show ?thesis by simp
qed

lemma push_then_pop:
  assumes "qinv r" and "cont r = []" and "0 < cap"
  shows "\<exists>r'. pop (fst (push x r)) = Some (x, r') \<and> cont r' = []"
proof -
  let ?r = "fst (push x r)"
  have "qinv ?r" "cont ?r = [x]"
    using assms push_inv push_cont by auto
  moreover from this obtain y r' where "pop ?r = Some (y, r')"
    using pop_none_iff [of ?r] by (cases "pop ?r") auto
  ultimately show ?thesis using pop_some [of ?r y r'] by auto
qed

end

section \<open>The telemetry sample ring\<close>

record rt_sample =
  wake_jitter_ns :: int
  prep_send_ns :: int
  cycle_occupancy_ns :: int
  smp_rx_ts_ns :: u64
  smp_tick :: u64
  sent_io_group :: u8
  any_wkc_mismatch :: u8

abbreviation RING_CAPACITY :: nat where "RING_CAPACITY \<equiv> 4096"

record 'a ring_spsc =
  rg_buf :: "nat \<Rightarrow> 'a"
  rg_head :: u64
  rg_tail :: u64
  rg_drops :: u64

text \<open>\<open>memset\<close> clears every slot: \<open>z\<close> is the all-zero sample.\<close>

definition ring_init :: "'a \<Rightarrow> 'a ring_spsc" where
  "ring_init z = \<lparr>rg_buf = (\<lambda>_. z), rg_head = 0, rg_tail = 0, rg_drops = 0\<rparr>"

definition ring_push :: "'a \<Rightarrow> 'a ring_spsc \<Rightarrow> 'a ring_spsc \<times> bool" where
  "ring_push s r =
    (let hd = rg_head r; tl = rg_tail r in
     if hd - tl \<ge> 4096 then (r\<lparr>rg_drops := rg_drops r + 1\<rparr>, False)
     else (r\<lparr>rg_buf := (rg_buf r)(unat (hd AND (4096 - 1)) := s), rg_head := hd + 1\<rparr>, True))"

definition ring_pop :: "'a ring_spsc \<Rightarrow> ('a \<times> 'a ring_spsc) option" where
  "ring_pop r =
    (let tl = rg_tail r; hd = rg_head r in
     if tl = hd then None
     else Some (rg_buf r (unat (tl AND (4096 - 1))), r\<lparr>rg_tail := tl + 1\<rparr>))"

definition ring_inv :: "'a ring_spsc \<Rightarrow> bool" where
  "ring_inv r \<longleftrightarrow> rg_head r - rg_tail r \<le> 4096"

definition ring_cont :: "'a ring_spsc \<Rightarrow> 'a list" where
  "ring_cont r = ring_win RING_CAPACITY (rg_buf r) (rg_tail r) (rg_head r)"

lemma idx4096: "unat (w AND 4095) = unat w mod 4096" for w :: u64
  using unat_and_mask [of w 12] by (simp add: mask_eq_exp_minus_1)

lemma ge4096_iff: "4096 \<le> w \<longleftrightarrow> \<not> unat w < 4096" for w :: u64
  by (simp add: word_le_nat_alt not_less)

interpretation tring: bounded_fifo ring_inv ring_cont RING_CAPACITY ring_push ring_pop
proof
  fix r r' :: "'a ring_spsc" and x :: 'a
  assume inv: "ring_inv r"
  then have le: "unat (rg_head r - rg_tail r) \<le> 4096"
    by (simp add: ring_inv_def word_le_nat_alt)
  then show "length (ring_cont r) \<le> RING_CAPACITY" by (simp add: ring_cont_def)
  show "snd (ring_push x r) \<longleftrightarrow> length (ring_cont r) < RING_CAPACITY"
    by (simp add: ring_push_def ring_cont_def ge4096_iff Let_def)
  show "ring_cont (fst (ring_push x r))
      = (if length (ring_cont r) < RING_CAPACITY then ring_cont r @ [x] else ring_cont r)"
    using ring_win_write [of 4096 "rg_head r" "rg_tail r" "rg_buf r" x]
    by (auto simp: ring_push_def ring_cont_def ge4096_iff idx4096 Let_def)
  show "ring_inv (fst (ring_push x r))"
    using inv unat_diff_Suc [of "rg_head r" "rg_tail r" 4096]
    by (auto simp: ring_push_def ring_inv_def ge4096_iff word_le_nat_alt Let_def)
  show "ring_pop r = None \<longleftrightarrow> ring_cont r = []"
    by (simp add: ring_pop_def ring_cont_def ring_win_empty_iff Let_def)
  assume pop: "ring_pop r = Some (x, r')"
  then have ne: "rg_tail r \<noteq> rg_head r" and r': "r' = r\<lparr>rg_tail := rg_tail r + 1\<rparr>"
    and x: "x = rg_buf r (unat (rg_tail r) mod 4096)"
    by (auto simp: ring_pop_def idx4096 Let_def split: if_splits)
  show "ring_inv r' \<and> ring_cont r = x # ring_cont r'"
    using le ring_win_room [OF ne] ring_win_pop [OF _ ne, of 4096 "rg_buf r"]
    by (simp add: ring_inv_def ring_cont_def r' x word_le_nat_alt)
qed

end
