(* ===== verification/Spsc.thy ===== *)
theory Spsc
  imports Fifo
begin

text \<open>
  The lock-free single-producer single-consumer protocol of the rings as an
  interleaving of the two threads' atomic accesses. Each thread is a small
  program counter: load the own index, load the other side's index, test,
  copy the slot, publish the own index. The slot copy is not atomic: between
  its first and its last byte the slot may hold anything (\<open>P_tear\<close>). The capacity
  \<open>m\<close> and the index width are parameters; \<open>ring_spsc\<close> is \<open>m = 4096\<close> over
  \<open>size_t\<close>, the exchange rings are \<open>m = cap\<close> over \<open>uint32_t\<close>.
\<close>

datatype ('a, 'i) prod_pc =
    PIdle
  | PHead 'a 'i         \<comment> \<open>own head loaded\<close>
  | PBoth 'a 'i 'i      \<comment> \<open>head and (possibly stale) tail loaded\<close>
  | PCopy 'a 'i         \<comment> \<open>room seen, copying the slot\<close>
  | PPublish 'a 'i      \<comment> \<open>slot complete, about to store head + 1\<close>

datatype ('a, 'i) cons_pc =
    CIdle
  | CTail 'i
  | CBoth 'i 'i
  | CCopy 'i
  | CPublish 'i 'a

record ('a, 'i) spsc =
  s_buf :: "nat \<Rightarrow> 'a"
  s_head :: 'i
  s_tail :: 'i
  s_prod :: "('a, 'i) prod_pc"
  s_cons :: "('a, 'i) cons_pc"
  s_pushed :: "'a list"   \<comment> \<open>ghost: published elements\<close>
  s_popped :: "'a list"   \<comment> \<open>ghost: consumed elements\<close>
  s_dropped :: nat        \<comment> \<open>ghost: refused elements\<close>

definition spsc_init :: "'a \<Rightarrow> ('a, 'w::len word) spsc" where
  "spsc_init z = \<lparr>s_buf = (\<lambda>_. z), s_head = 0, s_tail = 0, s_prod = PIdle, s_cons = CIdle,
     s_pushed = [], s_popped = [], s_dropped = 0\<rparr>"

inductive spsc_step :: "nat \<Rightarrow> ('a, 'w::len word) spsc \<Rightarrow> ('a, 'w word) spsc \<Rightarrow> bool" for m where
  P_load_head: "s_prod s = PIdle \<Longrightarrow> spsc_step m s (s\<lparr>s_prod := PHead x (s_head s)\<rparr>)"
| P_load_tail: "s_prod s = PHead x h \<Longrightarrow> spsc_step m s (s\<lparr>s_prod := PBoth x h (s_tail s)\<rparr>)"
| P_full: "s_prod s = PBoth x h t \<Longrightarrow> m \<le> unat (h - t) \<Longrightarrow>
    spsc_step m s (s\<lparr>s_prod := PIdle, s_dropped := s_dropped s + 1\<rparr>)"
| P_room: "s_prod s = PBoth x h t \<Longrightarrow> unat (h - t) < m \<Longrightarrow> spsc_step m s (s\<lparr>s_prod := PCopy x h\<rparr>)"
| P_tear: "s_prod s = PCopy x h \<Longrightarrow>
    spsc_step m s (s\<lparr>s_buf := (s_buf s)(unat h mod m := garbage)\<rparr>)"
| P_copied: "s_prod s = PCopy x h \<Longrightarrow>
    spsc_step m s (s\<lparr>s_buf := (s_buf s)(unat h mod m := x), s_prod := PPublish x h\<rparr>)"
| P_store: "s_prod s = PPublish x h \<Longrightarrow>
    spsc_step m s (s\<lparr>s_head := h + 1, s_prod := PIdle, s_pushed := s_pushed s @ [x]\<rparr>)"
| C_load_tail: "s_cons s = CIdle \<Longrightarrow> spsc_step m s (s\<lparr>s_cons := CTail (s_tail s)\<rparr>)"
| C_load_head: "s_cons s = CTail t \<Longrightarrow> spsc_step m s (s\<lparr>s_cons := CBoth t (s_head s)\<rparr>)"
| C_empty: "s_cons s = CBoth t h \<Longrightarrow> t = h \<Longrightarrow> spsc_step m s (s\<lparr>s_cons := CIdle\<rparr>)"
| C_avail: "s_cons s = CBoth t h \<Longrightarrow> t \<noteq> h \<Longrightarrow> spsc_step m s (s\<lparr>s_cons := CCopy t\<rparr>)"
| C_copied: "s_cons s = CCopy t \<Longrightarrow>
    spsc_step m s (s\<lparr>s_cons := CPublish t (s_buf s (unat t mod m))\<rparr>)"
| C_store: "s_cons s = CPublish t y \<Longrightarrow>
    spsc_step m s (s\<lparr>s_tail := t + 1, s_cons := CIdle, s_popped := s_popped s @ [y]\<rparr>)"

abbreviation spsc_reach :: "nat \<Rightarrow> 'a \<Rightarrow> ('a, 'w::len word) spsc \<Rightarrow> bool" where
  "spsc_reach m z s \<equiv> (spsc_step m)\<^sup>*\<^sup>* (spsc_init z) s"

text \<open>
  What each thread's registers say about the shared state. The producer's view
  of \<open>tail\<close> is stale in the safe direction (it underestimates the room), and so
  is the consumer's view of \<open>head\<close>.
\<close>

fun prod_view :: "nat \<Rightarrow> ('a, 'w::len word) spsc \<Rightarrow> bool" where
  "prod_view m s = (case s_prod s of
     PIdle \<Rightarrow> True
   | PHead x h \<Rightarrow> h = s_head s
   | PBoth x h t \<Rightarrow> h = s_head s \<and> unat (s_head s - s_tail s) \<le> unat (s_head s - t)
   | PCopy x h \<Rightarrow> h = s_head s \<and> unat (s_head s - s_tail s) < m
   | PPublish x h \<Rightarrow> h = s_head s \<and> unat (s_head s - s_tail s) < m \<and> s_buf s (unat h mod m) = x)"

fun cons_view :: "nat \<Rightarrow> ('a, 'w::len word) spsc \<Rightarrow> bool" where
  "cons_view m s = (case s_cons s of
     CIdle \<Rightarrow> True
   | CTail t \<Rightarrow> t = s_tail s
   | CBoth t h \<Rightarrow> t = s_tail s \<and> unat (h - s_tail s) \<le> unat (s_head s - s_tail s)
   | CCopy t \<Rightarrow> t = s_tail s \<and> s_tail s \<noteq> s_head s
   | CPublish t y \<Rightarrow> t = s_tail s \<and> s_tail s \<noteq> s_head s \<and> y = s_buf s (unat t mod m))"

definition spsc_inv :: "nat \<Rightarrow> ('a, 'w::len word) spsc \<Rightarrow> bool" where
  "spsc_inv m s \<longleftrightarrow>
     s_popped s @ ring_win m (s_buf s) (s_tail s) (s_head s) = s_pushed s \<and>
     unat (s_head s - s_tail s) \<le> m \<and> prod_view m s \<and> cons_view m s"

lemma spsc_inv_init: "spsc_inv m (spsc_init z)"
  by (simp add: spsc_inv_def spsc_init_def ring_win_def)

lemma tail_slot_free:
  fixes h t :: "'w::len word"
  assumes "m dvd 2 ^ LENGTH('w)" and "t \<noteq> h" and "unat (h - t) < m"
  shows "unat t mod m \<noteq> unat h mod m"
proof -
  have "0 < unat (h - t)" using assms(2) unat_diff_pred [of h t] by simp
  with ring_slot_distinct [of 0 "unat (h - t)" m "unat t"] assms show ?thesis
    by (simp add: unat_add_diff_mod)
qed

lemma diff_nonzero: "t \<noteq> h \<Longrightarrow> 0 < unat (h - t)" for t h :: "'w::len word"
  using unat_diff_pred [of h t] by simp

lemma prod_step_inv:
  fixes s s' :: "('a, 'w::len word) spsc"
  assumes "m dvd 2 ^ LENGTH('w)" and "m < 2 ^ LENGTH('w)" and "spsc_inv m s"
    and "s_cons s' = s_cons s" and "spsc_step m s s'"
  shows "spsc_inv m s'"
  using assms(5,3,4)
proof cases
  case (P_store x h)
  then have room: "unat (s_head s - s_tail s) < m" and h: "h = s_head s"
    and x: "s_buf s (unat (s_head s) mod m) = x"
    using assms(3) by (auto simp: spsc_inv_def)
  have "ring_win m (s_buf s) (s_tail s) (s_head s + 1) = ring_win m (s_buf s) (s_tail s) (s_head s) @ [x]"
    using ring_win_write [OF assms(1,2) room, of "s_buf s" x] x by (simp add: fun_upd_idem)
  moreover have "unat (s_head s + 1 - s_tail s) = Suc (unat (s_head s - s_tail s))"
    using room assms(2) by (rule unat_diff_Suc)
  ultimately show ?thesis
    using assms(3) P_store room h
    by (auto simp: spsc_inv_def split: cons_pc.splits)
qed (use assms in \<open>auto simp: spsc_inv_def ring_win_unwritten tail_slot_free
       split: cons_pc.splits prod_pc.splits\<close>)

lemma cons_step_inv:
  fixes s s' :: "('a, 'w::len word) spsc"
  assumes "m dvd 2 ^ LENGTH('w)" and "m < 2 ^ LENGTH('w)" and "spsc_inv m s"
    and "s_prod s' = s_prod s" and "spsc_step m s s'"
  shows "spsc_inv m s'"
  using assms(5,3,4)
proof cases
  case (C_store t y)
  then have ne: "s_tail s \<noteq> s_head s" and t: "t = s_tail s"
    and y: "y = s_buf s (unat (s_tail s) mod m)"
    using assms(3) by (auto simp: spsc_inv_def)
  have "ring_win m (s_buf s) (s_tail s) (s_head s) = y # ring_win m (s_buf s) (s_tail s + 1) (s_head s)"
    using ring_win_pop [OF assms(1) ne] y by simp
  moreover have "unat (s_head s - (s_tail s + 1)) < unat (s_head s - s_tail s)"
    using ne by (rule ring_win_room)
  ultimately show ?thesis
    using assms(3) C_store t
    by (auto simp: spsc_inv_def split: prod_pc.splits)
next
  case (C_avail t h)
  then show ?thesis
    using assms(3) diff_nonzero [of "s_tail s" h]
    by (auto simp: spsc_inv_def split: prod_pc.splits)
qed (use assms in \<open>auto simp: spsc_inv_def ring_win_unwritten tail_slot_free
       split: cons_pc.splits prod_pc.splits\<close>)

lemma spsc_step_one_thread:
  "spsc_step m s s' \<Longrightarrow> s_cons s' = s_cons s \<or> s_prod s' = s_prod s"
  by (cases rule: spsc_step.cases) auto

lemma spsc_reach_inv:
  fixes s :: "('a, 'w::len word) spsc"
  assumes "m dvd 2 ^ LENGTH('w)" and "m < 2 ^ LENGTH('w)" and "spsc_reach m z s"
  shows "spsc_inv m s"
  using assms(3)
proof (induction rule: rtranclp_induct)
  case base
  show ?case by (rule spsc_inv_init)
next
  case (step s s')
  then show ?case
    using spsc_step_one_thread [of m s s'] prod_step_inv [OF assms(1,2)] cons_step_inv [OF assms(1,2)]
    by blast
qed

lemma spsc_reach_no_race:
  fixes s :: "('a, 'w::len word) spsc"
  assumes "m dvd 2 ^ LENGTH('w)" and "m < 2 ^ LENGTH('w)" and "spsc_reach m z s"
    and "s_prod s = PCopy x h" and "s_cons s = CCopy t"
  shows "unat h mod m \<noteq> unat t mod m"
proof -
  from spsc_reach_inv [OF assms(1-3)] assms(4,5)
  have "h = s_head s" "t = s_tail s" "s_tail s \<noteq> s_head s" "unat (s_head s - s_tail s) < m"
    by (auto simp: spsc_inv_def)
  with tail_slot_free [OF assms(1), of t h] show ?thesis by auto
qed

text \<open>
  The sequential operations are the protocol run without interruption: the
  atomic sections of \<open>ring_push\<close> and \<open>ring_pop\<close> compose to the functions of
  \<open>Fifo\<close>.
\<close>

definition spsc_of_ring :: "'a ring_spsc \<Rightarrow> ('a, u64) spsc \<Rightarrow> ('a, u64) spsc" where
  "spsc_of_ring r s = s\<lparr>s_buf := rg_buf r, s_head := rg_head r, s_tail := rg_tail r\<rparr>"

lemma ring_push_is_protocol_run:
  assumes "s_prod s = PIdle" and "ring_push x r = (r', True)"
  shows "(spsc_step RING_CAPACITY)\<^sup>*\<^sup>* (spsc_of_ring r s)
           ((spsc_of_ring r' s)\<lparr>s_pushed := s_pushed s @ [x]\<rparr>)"
proof -
  let ?s = "spsc_of_ring r s" and ?h = "rg_head r"
  have room: "unat (?h - rg_tail r) < 4096"
    and r': "r' = r\<lparr>rg_buf := (rg_buf r)(unat ?h mod 4096 := x), rg_head := ?h + 1\<rparr>"
    using assms(2) by (auto simp: ring_push_def Let_def ge4096_iff idx4096 split: if_splits)
  define s1 where "s1 = ?s\<lparr>s_prod := PHead x ?h\<rparr>"
  define s2 where "s2 = s1\<lparr>s_prod := PBoth x ?h (rg_tail r)\<rparr>"
  define s3 where "s3 = s2\<lparr>s_prod := PCopy x ?h\<rparr>"
  define s4 where "s4 = s3\<lparr>s_buf := (s_buf s3)(unat ?h mod 4096 := x), s_prod := PPublish x ?h\<rparr>"
  define s5 where "s5 = s4\<lparr>s_head := ?h + 1, s_prod := PIdle, s_pushed := s_pushed s4 @ [x]\<rparr>"
  note ss = s1_def s2_def s3_def s4_def s5_def spsc_of_ring_def
  have "spsc_step 4096 ?s s1"
    using P_load_head [of ?s 4096 x] assms(1) by (simp add: ss)
  moreover have "spsc_step 4096 s1 s2"
    using P_load_tail [of s1 x ?h 4096] by (simp add: ss)
  moreover have "spsc_step 4096 s2 s3"
    using P_room [of s2 x ?h "rg_tail r" 4096] room by (simp add: ss)
  moreover have "spsc_step 4096 s3 s4"
    using P_copied [of s3 x ?h 4096] by (simp add: ss)
  moreover have "spsc_step 4096 s4 s5"
    using P_store [of s4 x ?h 4096] by (simp add: ss)
  ultimately have "(spsc_step 4096)\<^sup>*\<^sup>* ?s s5"
    by (meson converse_rtranclp_into_rtranclp rtranclp.rtrancl_refl)
  moreover have "s5 = (spsc_of_ring r' s)\<lparr>s_pushed := s_pushed s @ [x]\<rparr>"
    using assms(1) by (simp add: ss r')
  ultimately show ?thesis by simp
qed

end
