(* ===== verification/Cstr.thy ===== *)
theory Cstr
  imports Prelude
begin

text \<open>
  The parts of the C library the text parsers of the program call, on
  \<open>string\<close> (the bytes of a C string before its terminating NUL): \<open>isspace\<close>,
  \<open>strtol\<close>, \<open>strtoul\<close>, \<open>strtoull\<close> for bases 0, 8, 10 and 16, with the
  \<open>errno = ERANGE\<close> outcome as a flag, and the end pointer as the unread rest;
  \<open>strtok_r\<close>, and the decimal and hexadecimal texts of \<open>snprintf\<close>.
\<close>

definition isspace :: "char \<Rightarrow> bool" where
  "isspace c \<longleftrightarrow> c \<in> {CHR '' '', CHR 0x09, CHR 0x0A, CHR 0x0B, CHR 0x0C, CHR 0x0D}"

definition char_code :: "char \<Rightarrow> nat" where "char_code c = of_char c"

definition digit_val :: "char \<Rightarrow> nat option" where
  "digit_val c = (let n = char_code c in
     if 48 \<le> n \<and> n \<le> 57 then Some (n - 48)
     else if 97 \<le> n \<and> n \<le> 122 then Some (n - 87)
     else if 65 \<le> n \<and> n \<le> 90 then Some (n - 55)
     else None)"

definition is_digit :: "nat \<Rightarrow> char \<Rightarrow> bool" where
  "is_digit base c = (case digit_val c of None \<Rightarrow> False | Some d \<Rightarrow> d < base)"

fun digits_val :: "nat \<Rightarrow> nat \<Rightarrow> string \<Rightarrow> nat" where
  "digits_val base acc [] = acc"
| "digits_val base acc (c # cs) = digits_val base (acc * base + (case digit_val c of None \<Rightarrow> 0 | Some d \<Rightarrow> d)) cs"

text \<open>The sign, the base prefix and the digits; \<open>None\<close> when there is no conversion.\<close>

definition take_sign :: "string \<Rightarrow> bool \<times> string" where
  "take_sign s = (case s of
     CHR ''-'' # r \<Rightarrow> (True, r) | CHR ''+'' # r \<Rightarrow> (False, r) | _ \<Rightarrow> (False, s))"

definition take_base :: "nat \<Rightarrow> string \<Rightarrow> nat \<times> string" where
  "take_base base s = (case s of
     z # x # c # r \<Rightarrow>
       if (base = 0 \<or> base = 16) \<and> z = CHR ''0'' \<and> (x = CHR ''x'' \<or> x = CHR ''X'') \<and> is_digit 16 c
       then (16, c # r)
       else if base = 0 then (if z = CHR ''0'' then 8 else 10, s) else (base, s)
   | z # r \<Rightarrow> if base = 0 then (if z = CHR ''0'' then 8 else 10, s) else (base, s)
   | [] \<Rightarrow> (base, s))"

definition strto_core :: "nat \<Rightarrow> string \<Rightarrow> (bool \<times> nat \<times> string) option" where
  "strto_core base s =
    (let (neg, s1) = take_sign (dropWhile isspace s);
         (b, s2) = take_base base s1;
         ds = takeWhile (is_digit b) s2
     in if ds = [] then None
        else Some (neg, digits_val b 0 ds, dropWhile (is_digit b) s2))"

record 'v strto =
  sv :: 'v          \<comment> \<open>the value returned\<close>
  srange :: bool    \<comment> \<open>\<open>errno\<close> set to \<open>ERANGE\<close>\<close>
  srest :: string   \<comment> \<open>what the end pointer points to\<close>
  sconv :: bool     \<comment> \<open>\<open>end != s\<close>\<close>

definition strtol :: "string \<Rightarrow> nat \<Rightarrow> int strto" where
  "strtol s base = (case strto_core base s of
     None \<Rightarrow> \<lparr>sv = 0, srange = False, srest = s, sconv = False\<rparr>
   | Some (neg, n, r) \<Rightarrow>
       let v = if neg then - int n else int n in
       if v < - (2 ^ 63) then \<lparr>sv = - (2 ^ 63), srange = True, srest = r, sconv = True\<rparr>
       else if 2 ^ 63 \<le> v then \<lparr>sv = 2 ^ 63 - 1, srange = True, srest = r, sconv = True\<rparr>
       else \<lparr>sv = v, srange = False, srest = r, sconv = True\<rparr>)"

definition strtoul :: "string \<Rightarrow> nat \<Rightarrow> u64 strto" where
  "strtoul s base = (case strto_core base s of
     None \<Rightarrow> \<lparr>sv = 0, srange = False, srest = s, sconv = False\<rparr>
   | Some (neg, n, r) \<Rightarrow>
       if 2 ^ 64 \<le> n then \<lparr>sv = - 1, srange = True, srest = r, sconv = True\<rparr>
       else \<lparr>sv = (if neg then - of_nat n else of_nat n), srange = False, srest = r, sconv = True\<rparr>)"

lemma strtol_range: "- (2 ^ 63) \<le> sv (strtol s base) \<and> sv (strtol s base) < 2 ^ 63"
  by (auto simp: strtol_def Let_def split: option.splits)

text \<open>All tokens a \<open>strtok_r\<close> loop sees: maximal runs of non-delimiters.\<close>

function strtok_all :: "string \<Rightarrow> string \<Rightarrow> string list" where
  "strtok_all delims s =
    (let s1 = dropWhile (\<lambda>c. c \<in> set delims) s in
     if s1 = [] then []
     else takeWhile (\<lambda>c. c \<notin> set delims) s1 # strtok_all delims (dropWhile (\<lambda>c. c \<notin> set delims) s1))"
  by pat_completeness auto
termination
proof (relation "measure (\<lambda>(d, s). length s)", goal_cases)
  case (2 delims s s1)
  from 2(2) obtain c cs where c: "s1 = c # cs" unfolding neq_Nil_conv by blast
  have "c \<notin> set delims"
    using hd_dropWhile [of "\<lambda>c. c \<in> set delims" s] c 2(2) unfolding 2(1) by (metis list.sel(1))
  then have "length (dropWhile (\<lambda>c. c \<notin> set delims) s1) < length s1"
    using c length_dropWhile_le [of "\<lambda>c. c \<notin> set delims" cs] by simp
  also have "length s1 \<le> length s" using 2 by (simp add: length_dropWhile_le)
  finally show ?case by simp
qed simp

declare strtok_all.simps [simp del]

definition tolower :: "char \<Rightarrow> char" where
  "tolower c = (let n = char_code c in if 65 \<le> n \<and> n \<le> 90 then char_of (n + 32) else c)"

definition toupper :: "char \<Rightarrow> char" where
  "toupper c = (let n = char_code c in if 97 \<le> n \<and> n \<le> 122 then char_of (n - 32) else c)"

definition strcaseeq :: "string \<Rightarrow> string \<Rightarrow> bool" where
  "strcaseeq a b \<longleftrightarrow> map tolower a = map tolower b"

lemmas ctype_eval = toupper_def tolower_def char_code_def char_of_def bit_Suc_0_iff Let_def

text \<open>\<open>snprintf(buf, cap, "%s", s)\<close> into an array of \<open>cap\<close> bytes.\<close>

definition fit :: "nat \<Rightarrow> string \<Rightarrow> string" where
  "fit cap s = take (cap - 1) s"

text \<open>Decimal digits of a number, as \<open>printf\<close> writes them.\<close>

fun dec :: "nat \<Rightarrow> string" where
  "dec n = (if n < 10 then [char_of (48 + n)] else dec (n div 10) @ [char_of (48 + n mod 10)])"

declare dec.simps [simp del]

definition dec_int :: "int \<Rightarrow> string" where
  "dec_int i = (if i < 0 then ''-'' @ dec (nat (- i)) else dec (nat i))"

definition hex_digit :: "nat \<Rightarrow> char" where
  "hex_digit n = (if n < 10 then char_of (48 + n) else char_of (55 + n))"

text \<open>\<open>%0wX\<close> of a number below \<open>16 ^ w\<close>.\<close>

primrec hexw :: "nat \<Rightarrow> nat \<Rightarrow> string" where
  "hexw 0 n = []"
| "hexw (Suc w) n = hexw w (n div 16) @ [hex_digit (n mod 16)]"

definition cstr :: "string \<Rightarrow> string" where
  "cstr s = takeWhile (\<lambda>c. c \<noteq> CHR 0x00) s"

lemma fit_length: "length (fit cap s) \<le> cap - 1"
  by (simp add: fit_def)

text \<open>Splitting a joined list gives the list back.\<close>

fun join :: "char \<Rightarrow> string list \<Rightarrow> string" where
  "join d [] = []"
| "join d [t] = t"
| "join d (t # ts) = t @ d # join d ts"

lemma strtok_all_Cons:
  assumes "t \<noteq> []" and "set t \<inter> set ds = {}" and "d \<in> set ds"
  shows "strtok_all ds (t @ d # s) = t # strtok_all ds s"
proof -
  have t: "\<And>c. c \<in> set t \<Longrightarrow> c \<notin> set ds" using assms(2) by auto
  have "strtok_all ds (t @ d # s) = t # strtok_all ds (d # s)"
    using assms(1,3) t by (subst strtok_all.simps) (cases t; auto simp: Let_def)
  also have "strtok_all ds (d # s) = strtok_all ds s"
    using assms(3) by (subst (1 2) strtok_all.simps) simp
  finally show ?thesis .
qed

lemma strtok_all_single:
  assumes "t \<noteq> []" and "set t \<inter> set ds = {}"
  shows "strtok_all ds t = [t]"
proof -
  have t: "\<And>c. c \<in> set t \<Longrightarrow> c \<notin> set ds" using assms(2) by auto
  then have tw: "takeWhile (\<lambda>c. c \<notin> set ds) t = t" and dw: "dropWhile (\<lambda>c. c \<notin> set ds) t = []"
    by (auto simp: takeWhile_eq_all_conv dropWhile_eq_Nil_conv)
  have d1: "dropWhile (\<lambda>c. c \<in> set ds) t = t" using assms(1) t by (cases t) auto
  have d2: "strtok_all ds [] = []" by (subst strtok_all.simps) simp
  show ?thesis by (subst strtok_all.simps) (simp only: Let_def d1 tw dw d2 assms(1) if_False)
qed

lemma strtok_all_join:
  assumes "\<And>t. t \<in> set ts \<Longrightarrow> t \<noteq> [] \<and> set t \<inter> set ds = {}" and "d \<in> set ds"
  shows "strtok_all ds (join d ts) = ts"
  using assms(1)
proof (induction ts)
  case Nil
  show ?case by (subst strtok_all.simps) simp
next
  case (Cons t ts)
  then have t: "t \<noteq> []" "set t \<inter> set ds = {}" and IH: "strtok_all ds (join d ts) = ts" by auto
  show ?case
  proof (cases ts)
    case Nil
    with t show ?thesis by (simp add: strtok_all_single)
  next
    case (Cons u us)
    with strtok_all_Cons [OF t assms(2), of "join d ts"] IH show ?thesis by simp
  qed
qed

end
