(* ===== verification/Pdo.thy ===== *)
theory Pdo
  imports Cstr
begin

text \<open>
  The process data table and its bit-exact access to the IOmap
  (\<open>libecmaster/pdo/ecm_pdo.c\<close>): the table of mapped objects, binding an object
  to a handle, and reading and writing a handle. The diagnostic text each
  function may write into \<open>err\<close> is not modelled; its return value is.
\<close>

section \<open>Data\<close>

abbreviation ECM_PDO_MAX_ENTRIES :: nat where "ECM_PDO_MAX_ENTRIES \<equiv> 1024"
abbreviation ECM_PDO_MAX_SLAVES :: int where "ECM_PDO_MAX_SLAVES \<equiv> 64"

datatype ecm_pdo_dir = ECM_PDO_OUT | ECM_PDO_IN

record ecm_pdo_entry =
  pe_slave :: u16
  pe_dir :: ecm_pdo_dir
  pe_pdo :: u16
  pe_index :: u16
  pe_sub :: u8
  pe_bits :: u16
  pe_bit_off :: u32

record ecm_pdo_table =
  entries :: "ecm_pdo_entry list"                    \<comment> \<open>\<open>e[0..n-1]\<close>\<close>
  totals :: "ecm_pdo_dir \<Rightarrow> nat \<Rightarrow> u32"               \<comment> \<open>\<open>bits[dir][slave]\<close>\<close>

record ecm_pdo_loc =
  l_group :: u8
  out_bit :: u32
  in_bit :: u32

record ecm_pdo_handle =
  h_slave :: u16
  h_group :: u8
  h_dir :: ecm_pdo_dir
  h_bit :: u32
  h_bits :: u16

section \<open>Operations\<close>

definition ecm_pdo_table_init :: ecm_pdo_table where
  "ecm_pdo_table_init = \<lparr>entries = [], totals = (\<lambda>_ _. 0)\<rparr>"

definition ecm_pdo_add ::
  "ecm_pdo_table \<Rightarrow> int \<Rightarrow> ecm_pdo_dir \<Rightarrow> u16 \<Rightarrow> u16 \<Rightarrow> u8 \<Rightarrow> u16 \<Rightarrow> ecm_pdo_table option" where
  "ecm_pdo_add t sl d p ix sb bs =
    (if length (entries t) \<ge> ECM_PDO_MAX_ENTRIES \<or> sl < 1 \<or> sl > ECM_PDO_MAX_SLAVES \<or> bs = 0 then None
     else let e = \<lparr>pe_slave = of_int sl, pe_dir = d, pe_pdo = p, pe_index = ix, pe_sub = sb, pe_bits = bs,
                   pe_bit_off = totals t d (nat sl)\<rparr>
          in Some \<lparr>entries = entries t @ [e],
                   totals = (totals t)(d := (totals t d)(nat sl := totals t d (nat sl) + ucast bs))\<rparr>)"

definition entry_differs :: "ecm_pdo_entry \<Rightarrow> ecm_pdo_entry \<Rightarrow> bool" where
  "entry_differs x y \<longleftrightarrow>
     pe_slave x \<noteq> pe_slave y \<or> pe_dir x \<noteq> pe_dir y \<or> pe_pdo x \<noteq> pe_pdo y \<or> pe_index x \<noteq> pe_index y \<or>
     pe_sub x \<noteq> pe_sub y \<or> pe_bits x \<noteq> pe_bits y \<or> pe_bit_off x \<noteq> pe_bit_off y"

definition ecm_pdo_table_compare :: "ecm_pdo_table \<Rightarrow> ecm_pdo_table \<Rightarrow> nat" where
  "ecm_pdo_table_compare a b =
    (let n = min (length (entries a)) (length (entries b));
         bad = length (filter (\<lambda>i. entry_differs (entries a ! i) (entries b ! i)) [0..<n])
     in if length (entries a) \<noteq> length (entries b) then bad + 1 else bad)"

definition ecm_pdo_check_sizes :: "ecm_pdo_table \<Rightarrow> int \<Rightarrow> (nat \<Rightarrow> u32) \<Rightarrow> (nat \<Rightarrow> u32) \<Rightarrow> nat" where
  "ecm_pdo_check_sizes t n obits ibits =
     length (filter (\<lambda>s. totals t ECM_PDO_OUT s \<noteq> obits s \<or> totals t ECM_PDO_IN s \<noteq> ibits s)
       [1..<Suc (nat (min n ECM_PDO_MAX_SLAVES))])"

definition bind_handle :: "(nat \<Rightarrow> ecm_pdo_loc) \<Rightarrow> int \<Rightarrow> ecm_pdo_entry \<Rightarrow> ecm_pdo_handle" where
  "bind_handle loc sl e = \<lparr>h_slave = of_int sl, h_group = l_group (loc (nat sl)), h_dir = pe_dir e,
     h_bit = (if pe_dir e = ECM_PDO_OUT then out_bit (loc (nat sl)) else in_bit (loc (nat sl))) + pe_bit_off e,
     h_bits = pe_bits e\<rparr>"

text \<open>The first matching entry decides: more than 64 bits is refused, not skipped.\<close>

fun bind_scan :: "(nat \<Rightarrow> ecm_pdo_loc) \<Rightarrow> int \<Rightarrow> u16 \<Rightarrow> u8 \<Rightarrow> ecm_pdo_entry list \<Rightarrow> ecm_pdo_handle option" where
  "bind_scan loc sl ix sb [] = None"
| "bind_scan loc sl ix sb (e # es) =
    (if uint (pe_slave e) \<noteq> sl \<or> pe_index e \<noteq> ix \<or> pe_sub e \<noteq> sb then bind_scan loc sl ix sb es
     else if pe_bits e > 64 then None
     else Some (bind_handle loc sl e))"

definition ecm_pdo_bind ::
  "ecm_pdo_table \<Rightarrow> (nat \<Rightarrow> ecm_pdo_loc) \<Rightarrow> int \<Rightarrow> u16 \<Rightarrow> u8 \<Rightarrow> ecm_pdo_handle option" where
  "ecm_pdo_bind t loc sl ix sb = (if ix = 0 then None else bind_scan loc sl ix sb (entries t))"

text \<open>
  The copy loops move the bits of one byte at a time: \<open>k\<close> bits are done, \<open>b\<close> is
  the absolute bit offset of the next one.
\<close>

definition chunk :: "nat \<Rightarrow> nat \<Rightarrow> u32 \<Rightarrow> nat" where
  "chunk n k b = (let sh = unat (b AND 7) in if 8 - sh > n - k then n - k else 8 - sh)"

lemma and7: "unat (b AND 7) = unat b mod 8" for b :: u32
  using unat_and_mask [of b 3] by (simp add: mask_eq_exp_minus_1)

lemma chunk_pos: "k < n \<Longrightarrow> 0 < chunk n k b"
  by (simp add: chunk_def Let_def and7)

lemma chunk_less: "k < n \<Longrightarrow> n - (k + chunk n k b) < n - k"
  using chunk_pos [of k n b] by simp

lemma chunk_le: "chunk n k b \<le> n - k" "unat b mod 8 + chunk n k b \<le> 8"
  by (auto simp: chunk_def Let_def and7)

definition get_part :: "iomap \<Rightarrow> u32 \<Rightarrow> nat \<Rightarrow> u64" where
  "get_part io b t = drop_bit (unat (b AND 7)) (ucast (io (unat (drop_bit 3 b)))) AND (push_bit t 1 - 1)"

function pdo_get_loop :: "nat \<Rightarrow> iomap \<Rightarrow> nat \<Rightarrow> u32 \<Rightarrow> u64 \<Rightarrow> u64" where
  "pdo_get_loop n io k b v =
    (if k < n then
       let t = chunk n k b
       in pdo_get_loop n io (k + t) (b + of_nat t) (v OR push_bit k (get_part io b t))
     else v)"
  by pat_completeness auto
termination
  by (relation "measure (\<lambda>(n, io, k, b, v). n - k)") (auto simp: chunk_less)

definition ecm_pdo_get :: "ecm_pdo_handle \<Rightarrow> iomap \<Rightarrow> u64" where
  "ecm_pdo_get h io = pdo_get_loop (unat (h_bits h)) io 0 (h_bit h) 0"

definition set_part :: "u8 \<Rightarrow> u32 \<Rightarrow> nat \<Rightarrow> nat \<Rightarrow> u64 \<Rightarrow> u8" where
  "set_part old b t k v =
    (let sh = unat (b AND 7);
         msk = push_bit sh (push_bit t 1 - 1);
         part = ucast (push_bit sh (drop_bit k v AND (push_bit t 1 - 1)))
     in (old AND NOT msk) OR part)"

function pdo_set_loop :: "nat \<Rightarrow> iomap \<Rightarrow> nat \<Rightarrow> u32 \<Rightarrow> u64 \<Rightarrow> iomap" where
  "pdo_set_loop n io k b v =
    (if k < n then
       let byte = unat (drop_bit 3 b); t = chunk n k b
       in pdo_set_loop n (io(byte := set_part (io byte) b t k v)) (k + t) (b + of_nat t) v
     else io)"
  by pat_completeness auto
termination
  by (relation "measure (\<lambda>(n, io, k, b, v). n - k)") (auto simp: chunk_less)

definition ecm_pdo_set :: "ecm_pdo_handle \<Rightarrow> iomap \<Rightarrow> u64 \<Rightarrow> iomap" where
  "ecm_pdo_set h io v = pdo_set_loop (unat (h_bits h)) io 0 (h_bit h) v"

declare pdo_get_loop.simps [simp del] pdo_set_loop.simps [simp del]

definition ecm_pdo_parse_ref :: "string \<Rightarrow> (int \<times> u16 \<times> u8) option" where
  "ecm_pdo_parse_ref s =
    (let a = strtol s 0 in
     if \<not> sconv a \<or> take 1 (srest a) \<noteq> '':'' \<or> sv a < 1 \<or> sv a > ECM_PDO_MAX_SLAVES then None
     else let p = drop 1 (srest a); b = strtoul p 0 in
     if \<not> sconv b \<or> take 1 (srest b) \<noteq> '':'' \<or> sv b = 0 \<or> sv b > 0xFFFF then None
     else let q = drop 1 (srest b); c = strtoul q 0 in
     if \<not> sconv c \<or> srest c \<noteq> [] \<or> sv c > 0xFF then None
     else Some (sv a, ucast (sv b), ucast (sv c)))"

text \<open>Slaves with bound objects, in order of first mention, that no own vendor id covers.\<close>

fun scan_required_loop ::
  "(nat \<Rightarrow> u32) \<Rightarrow> int \<Rightarrow> u32 list \<Rightarrow> u16 list \<Rightarrow> int set \<Rightarrow> int list \<Rightarrow> int list" where
  "scan_required_loop vendor n own [] seen acc = acc"
| "scan_required_loop vendor n own (b # bs) seen acc =
    (let s = uint b in
     if s < 1 \<or> s > n \<or> s > ECM_PDO_MAX_SLAVES \<or> s \<in> seen
     then scan_required_loop vendor n own bs seen acc
     else if vendor (nat s) \<in> set own then scan_required_loop vendor n own bs (insert s seen) acc
     else scan_required_loop vendor n own bs (insert s seen) (acc @ [s]))"

definition ecm_pdo_scan_required :: "(nat \<Rightarrow> u32) \<Rightarrow> int \<Rightarrow> u16 list \<Rightarrow> u32 list \<Rightarrow> nat" where
  "ecm_pdo_scan_required vendor n bound own = length (scan_required_loop vendor n own bound {} [])"

section \<open>Bit-exact access\<close>

text \<open>Bit \<open>p\<close> of an IOmap: least significant bit of a byte first.\<close>

definition io_bit :: "iomap \<Rightarrow> nat \<Rightarrow> bool" where
  "io_bit io p \<longleftrightarrow> bit (io (p div 8)) (p mod 8)"

lemma io_eqI:
  assumes "\<And>p. io_bit io p \<longleftrightarrow> io_bit io' p"
  shows "io = io'"
proof
  fix a
  have "bit (io a) j \<longleftrightarrow> bit (io' a) j" if "j < 8" for j
    using assms [of "8 * a + j"] that by (simp add: io_bit_def)
  then show "io a = io' a" by (auto intro: bit_word_eqI)
qed

lemma push1_mask: "push_bit n 1 - 1 = (mask n :: 'a::len word)"
  by (simp add: mask_eq_exp_minus_1 push_bit_eq_mult)

lemma drop3: "unat (drop_bit 3 b) = unat b div 8" for b :: u32
proof -
  have "unat (drop_bit 3 b) = drop_bit 3 (unat b)" by (rule unat_drop_bit_eq)
  then show ?thesis by (simp add: drop_bit_eq_div)
qed

lemma byte_add:
  fixes x j :: nat
  assumes "x mod 8 + j < 8"
  shows "(x + j) div 8 = x div 8" and "(x + j) mod 8 = x mod 8 + j"
proof -
  show "(x + j) div 8 = x div 8"
    using assms by (simp add: div_add1_eq [of x j])
  have "(x + j) mod 8 = (x mod 8 + j) mod 8" by (simp add: mod_simps)
  with assms show "(x + j) mod 8 = x mod 8 + j" by simp
qed

lemma bit_get_part:
  assumes "unat b mod 8 + t \<le> 8"
  shows "bit (get_part io b t) j \<longleftrightarrow> j < t \<and> io_bit io (unat b + j)"
proof (cases "j < t")
  case True
  with assms have "unat b mod 8 + j < 8" by linarith
  with byte_add [OF this] True assms show ?thesis
    unfolding get_part_def push1_mask and7 drop3
    by (simp add: bit_and_iff bit_drop_bit_eq bit_mask_iff io_bit_def bit_ucast_iff)
next
  case False
  then show ?thesis
    unfolding get_part_def push1_mask by (simp add: bit_and_iff bit_mask_iff)
qed

lemma pdo_get_loop_bit:
  assumes "k \<le> n" and "unat b + (n - k) < 2 ^ 32"
  shows "bit (pdo_get_loop n io k b v) i
    \<longleftrightarrow> bit v i \<or> (k \<le> i \<and> i < n \<and> i < 64 \<and> io_bit io (unat b + (i - k)))"
  using assms
proof (induction n io k b v rule: pdo_get_loop.induct)
  case (1 n io k b v)
  show ?case
  proof (cases "k < n")
    case False
    then show ?thesis by (subst pdo_get_loop.simps) auto
  next
    case True
    let ?t = "chunk n k b" and ?p = "get_part io b (chunk n k b)"
    have t: "?t \<le> n - k" "unat b mod 8 + ?t \<le> 8" by (rule chunk_le)+
    then have b': "unat (b + of_nat ?t) = unat b + ?t"
      using 1(3) True by (intro unat_add_of_nat) simp
    have "bit (pdo_get_loop n io k b v) i \<longleftrightarrow> bit (v OR push_bit k ?p) i
      \<or> (k + ?t \<le> i \<and> i < n \<and> i < 64 \<and> io_bit io (unat b + ?t + (i - (k + ?t))))"
      using 1(1) [OF True refl] 1(3) True t b'
      by (subst pdo_get_loop.simps) (simp add: Let_def)
    also have "bit (v OR push_bit k ?p) i
        \<longleftrightarrow> bit v i \<or> (k \<le> i \<and> i < k + ?t \<and> i < 64 \<and> io_bit io (unat b + (i - k)))"
      using t by (auto simp: bit_or_iff bit_push_bit_iff bit_get_part)
    finally show ?thesis using t True by auto
  qed
qed

lemma bit_set_part:
  assumes "unat b mod 8 + t \<le> 8" and "j < 8"
  shows "bit (set_part old b t k v) j \<longleftrightarrow>
    (if unat b mod 8 \<le> j \<and> j < unat b mod 8 + t then bit v (k + (j - unat b mod 8)) else bit old j)"
  using assms unfolding set_part_def Let_def push1_mask and7
  by (auto simp: bit_or_iff bit_and_iff bit_not_iff bit_push_bit_iff bit_mask_iff bit_drop_bit_eq
      bit_ucast_iff)

lemma io_bit_set_part:
  fixes b :: u32
  assumes t: "unat b mod 8 + t \<le> 8"
  defines "a \<equiv> unat (drop_bit 3 b)"
  shows "io_bit (io(a := set_part (io a) b t k v)) p \<longleftrightarrow>
    (if unat b \<le> p \<and> p < unat b + t then bit v (k + (p - unat b)) else io_bit io p)"
proof (cases "p div 8 = unat b div 8")
  case True
  have p: "p = 8 * (unat b div 8) + p mod 8" and b: "unat b = 8 * (unat b div 8) + unat b mod 8"
    using True by (metis mult_div_mod_eq) simp
  then have "unat b \<le> p \<longleftrightarrow> unat b mod 8 \<le> p mod 8" and "p - unat b = p mod 8 - unat b mod 8"
    and "p < unat b + t \<longleftrightarrow> p mod 8 < unat b mod 8 + t"
    by linarith+
  with True bit_set_part [OF t, of "p mod 8" "io a" k v] show ?thesis
    by (simp add: io_bit_def a_def drop3)
next
  case False
  then have "\<not> (unat b \<le> p \<and> p < unat b + t)"
    using byte_add(1) [of "unat b" "p - unat b"] t by fastforce
  with False show ?thesis by (auto simp: io_bit_def a_def drop3)
qed

lemma pdo_set_loop_bit:
  assumes "k \<le> n" and "unat b + (n - k) < 2 ^ 32"
  shows "io_bit (pdo_set_loop n io k b v) p \<longleftrightarrow>
    (if unat b \<le> p \<and> p < unat b + (n - k) then bit v (k + (p - unat b)) else io_bit io p)"
  using assms
proof (induction n io k b v rule: pdo_set_loop.induct)
  case (1 n io k b v)
  show ?case
  proof (cases "k < n")
    case False
    then show ?thesis by (subst pdo_set_loop.simps) auto
  next
    case True
    let ?t = "chunk n k b" and ?a = "unat (drop_bit 3 b)"
    have t: "?t \<le> n - k" "unat b mod 8 + ?t \<le> 8" by (rule chunk_le)+
    then have b': "unat (b + of_nat ?t) = unat b + ?t"
      using 1(3) True by (intro unat_add_of_nat) simp
    define io1 where "io1 = io(?a := set_part (io ?a) b ?t k v)"
    have "pdo_set_loop n io k b v = pdo_set_loop n io1 (k + ?t) (b + of_nat ?t) v"
      using True by (subst pdo_set_loop.simps) (simp add: Let_def io1_def)
    moreover have "io_bit (pdo_set_loop n io1 (k + ?t) (b + of_nat ?t) v) p \<longleftrightarrow>
      (if unat b + ?t \<le> p \<and> p < unat b + ?t + (n - (k + ?t)) then bit v (k + ?t + (p - (unat b + ?t)))
       else io_bit io1 p)"
      using 1(1) [OF True refl refl, folded io1_def] 1(3) True t unfolding b' by linarith
    ultimately have "io_bit (pdo_set_loop n io k b v) p \<longleftrightarrow>
      (if unat b + ?t \<le> p \<and> p < unat b + ?t + (n - (k + ?t)) then bit v (k + ?t + (p - (unat b + ?t)))
       else io_bit io1 p)"
      by simp
    also have "\<dots> \<longleftrightarrow> (if unat b \<le> p \<and> p < unat b + (n - k) then bit v (k + (p - unat b)) else io_bit io p)"
      using t True by (auto simp: io_bit_set_part io1_def)
    finally show ?thesis .
  qed
qed

text \<open>A handle whose bits lie below \<open>2\<^sup>3\<^sup>2\<close>: bit offsets do not wrap.\<close>

definition handle_ok :: "ecm_pdo_handle \<Rightarrow> bool" where
  "handle_ok h \<longleftrightarrow> unat (h_bit h) + unat (h_bits h) < 2 ^ 32 \<and> unat (h_bits h) \<le> 64"

definition in_handle :: "ecm_pdo_handle \<Rightarrow> nat \<Rightarrow> bool" where
  "in_handle h p \<longleftrightarrow> unat (h_bit h) \<le> p \<and> p < unat (h_bit h) + unat (h_bits h)"

lemma bit_ecm_pdo_get:
  "handle_ok h \<Longrightarrow> bit (ecm_pdo_get h io) i \<longleftrightarrow> i < unat (h_bits h) \<and> io_bit io (unat (h_bit h) + i)"
  using pdo_get_loop_bit [of 0 "unat (h_bits h)" "h_bit h" io 0 i]
  by (auto simp: ecm_pdo_get_def handle_ok_def)

lemma io_bit_ecm_pdo_set:
  "handle_ok h \<Longrightarrow> io_bit (ecm_pdo_set h io v) p \<longleftrightarrow>
    (if in_handle h p then bit v (p - unat (h_bit h)) else io_bit io p)"
  using pdo_set_loop_bit [of 0 "unat (h_bits h)" "h_bit h" io v p]
  by (auto simp: ecm_pdo_set_def handle_ok_def in_handle_def)

lemma pdo_get_set_same:
  assumes "handle_ok h"
  shows "ecm_pdo_get h (ecm_pdo_set h io v) = take_bit (unat (h_bits h)) v"
  by (rule bit_word_eqI)
     (use assms in \<open>auto simp: bit_ecm_pdo_get io_bit_ecm_pdo_set in_handle_def bit_take_bit_iff\<close>)

lemma pdo_get_set_other:
  assumes "handle_ok h" and "handle_ok g" and "\<And>p. \<not> (in_handle h p \<and> in_handle g p)"
  shows "ecm_pdo_get g (ecm_pdo_set h io v) = ecm_pdo_get g io"
proof (rule bit_word_eqI)
  fix i
  show "bit (ecm_pdo_get g (ecm_pdo_set h io v)) i \<longleftrightarrow> bit (ecm_pdo_get g io) i"
    using assms(1,2) assms(3) [of "unat (h_bit g) + i"]
    by (auto simp: bit_ecm_pdo_get io_bit_ecm_pdo_set in_handle_def)
qed

lemma pdo_set_get_same:
  assumes "handle_ok h"
  shows "ecm_pdo_set h io (ecm_pdo_get h io) = io"
  by (rule io_eqI) (use assms in \<open>auto simp: bit_ecm_pdo_get io_bit_ecm_pdo_set in_handle_def\<close>)

section \<open>The layout of a table\<close>

text \<open>The bits of one slave and direction in a list of entries, as an exact number.\<close>

definition ds_total :: "ecm_pdo_entry list \<Rightarrow> ecm_pdo_dir \<Rightarrow> nat \<Rightarrow> nat" where
  "ds_total es d s = sum_list (map (\<lambda>e. unat (pe_bits e)) (filter (\<lambda>e. pe_dir e = d \<and> unat (pe_slave e) = s) es))"

definition table_wf :: "ecm_pdo_table \<Rightarrow> bool" where
  "table_wf t \<longleftrightarrow> length (entries t) \<le> ECM_PDO_MAX_ENTRIES \<and>
     (\<forall>e\<in>set (entries t). 1 \<le> unat (pe_slave e) \<and> unat (pe_slave e) \<le> 64 \<and> pe_bits e \<noteq> 0) \<and>
     (\<forall>d s. unat (totals t d s) = ds_total (entries t) d s) \<and>
     (\<forall>i<length (entries t). let e = entries t ! i in
        unat (pe_bit_off e) = ds_total (take i (entries t)) (pe_dir e) (unat (pe_slave e)))"

lemma ds_total_Nil [simp]: "ds_total [] d s = 0"
  by (simp add: ds_total_def)

lemma ds_total_append [simp]: "ds_total (es @ fs) d s = ds_total es d s + ds_total fs d s"
  by (simp add: ds_total_def)

lemma ds_total_single:
  "ds_total [e] d s = (if pe_dir e = d \<and> unat (pe_slave e) = s then unat (pe_bits e) else 0)"
  by (simp add: ds_total_def)

lemma ds_total_le: "ds_total es d s \<le> 65535 * length es"
proof (induction es)
  case (Cons e es)
  have "unat (pe_bits e) \<le> 65535" using unat_bound [of "pe_bits e"] by simp
  with Cons show ?case by (auto simp: ds_total_def)
qed (simp add: ds_total_def)

lemma table_wf_init: "table_wf ecm_pdo_table_init"
  by (simp add: table_wf_def ecm_pdo_table_init_def ds_total_def)

lemma unat_of_slave: "1 \<le> sl \<Longrightarrow> sl \<le> 64 \<Longrightarrow> unat (of_int sl :: u16) = nat sl"
  by (rule unat_of_int) simp_all

lemma table_wf_add:
  assumes "table_wf t" and "ecm_pdo_add t sl d p ix sb bs = Some t'"
  shows "table_wf t'"
proof -
  let ?n = "length (entries t)"
  define e where "e = \<lparr>pe_slave = of_int sl, pe_dir = d, pe_pdo = p, pe_index = ix, pe_sub = sb, pe_bits = bs,
                       pe_bit_off = totals t d (nat sl)\<rparr>"
  have guards: "?n < 1024" "1 \<le> sl" "sl \<le> 64" "bs \<noteq> 0"
    and es: "entries t' = entries t @ [e]"
    and tot: "totals t' = (totals t)(d := (totals t d)(nat sl := totals t d (nat sl) + ucast bs))"
    using assms(2) by (auto simp: ecm_pdo_add_def e_def Let_def split: if_splits)
  have sl: "unat (pe_slave e) = nat sl" using guards by (simp add: e_def unat_of_slave)
  have old: "unat (totals t d (nat sl)) = ds_total (entries t) d (nat sl)" for d
    using assms(1) by (simp add: table_wf_def)
  have "ds_total (entries t) d (nat sl) + unat bs < 2 ^ 32"
    using ds_total_le [of "entries t" d "nat sl"] guards(1) unat_bound [of bs] by simp
  then have new: "unat (totals t d (nat sl) + ucast bs) = ds_total (entries t) d (nat sl) + unat bs"
    using unat_add_of_nat [of "totals t d (nat sl)" "unat bs"] old by simp
  show ?thesis
    unfolding table_wf_def es tot
    using assms(1) guards sl old new
    by (auto simp: table_wf_def ds_total_single nth_append Let_def less_Suc_eq e_def)
qed

lemma ds_total_take_mono: "i \<le> j \<Longrightarrow> ds_total (take i es) d s \<le> ds_total (take j es) d s"
proof -
  assume "i \<le> j"
  then have "take j es = take i es @ drop i (take j es)"
    using append_take_drop_id [of i "take j es"] by (simp add: min_def)
  then have "ds_total (take j es) d s = ds_total (take i es) d s + ds_total (drop i (take j es)) d s"
    by (simp flip: ds_total_append)
  then show ?thesis by simp
qed

lemma layout_end:
  assumes "table_wf t" and "i < length (entries t)"
  defines "e \<equiv> entries t ! i"
  shows "unat (pe_bit_off e) + unat (pe_bits e) = ds_total (take (Suc i) (entries t)) (pe_dir e) (unat (pe_slave e))"
  using assms by (simp add: table_wf_def take_Suc_conv_app_nth ds_total_single Let_def)

lemma layout_bounds:
  assumes "table_wf t" and "i < length (entries t)"
  defines "e \<equiv> entries t ! i"
  shows "unat (pe_bit_off e) + unat (pe_bits e) \<le> unat (totals t (pe_dir e) (unat (pe_slave e)))"
  using layout_end [OF assms(1,2)] assms
    ds_total_take_mono [of "Suc i" "length (entries t)" "entries t" "pe_dir e" "unat (pe_slave e)"]
  by (simp add: table_wf_def)

lemma layout_disjoint:
  assumes "table_wf t" and "i < j" and "j < length (entries t)"
    and "pe_dir (entries t ! i) = pe_dir (entries t ! j)" and "pe_slave (entries t ! i) = pe_slave (entries t ! j)"
  shows "unat (pe_bit_off (entries t ! i)) + unat (pe_bits (entries t ! i)) \<le> unat (pe_bit_off (entries t ! j))"
  using layout_end [OF assms(1), of i] assms
    ds_total_take_mono [of "Suc i" j "entries t" "pe_dir (entries t ! j)" "unat (pe_slave (entries t ! j))"]
  by (simp add: table_wf_def Let_def)

lemma bind_scan_entry:
  assumes "bind_scan loc sl ix sb es = Some h"
  shows "\<exists>i<length es. h = bind_handle loc sl (es ! i) \<and> uint (pe_slave (es ! i)) = sl \<and>
     pe_index (es ! i) = ix \<and> pe_sub (es ! i) = sb \<and> pe_bits (es ! i) \<le> 64"
  using assms
proof (induction es)
  case (Cons e es)
  show ?case
  proof (cases "uint (pe_slave e) \<noteq> sl \<or> pe_index e \<noteq> ix \<or> pe_sub e \<noteq> sb")
    case True
    with Cons obtain i where "i < length es \<and> h = bind_handle loc sl (es ! i) \<and> uint (pe_slave (es ! i)) = sl \<and>
        pe_index (es ! i) = ix \<and> pe_sub (es ! i) = sb \<and> pe_bits (es ! i) \<le> 64"
      by auto
    then show ?thesis by (intro exI [of _ "Suc i"]) simp
  next
    case False
    with Cons.prems show ?thesis by (intro exI [of _ 0]) (auto split: if_splits)
  qed
qed simp

lemma bind_entry:
  assumes "ecm_pdo_bind t loc sl ix sb = Some h"
  obtains i where "i < length (entries t)" "h = bind_handle loc sl (entries t ! i)"
    "uint (pe_slave (entries t ! i)) = sl" "pe_index (entries t ! i) = ix" "pe_sub (entries t ! i) = sb"
    "pe_bits (entries t ! i) \<le> 64"
  using bind_scan_entry [of loc sl ix sb "entries t" h] assms
  by (auto simp: ecm_pdo_bind_def split: if_splits)

definition loc_base :: "(nat \<Rightarrow> ecm_pdo_loc) \<Rightarrow> ecm_pdo_dir \<Rightarrow> nat \<Rightarrow> u32" where
  "loc_base loc d s = (if d = ECM_PDO_OUT then out_bit (loc s) else in_bit (loc s))"

lemma bind_handle_range:
  assumes "table_wf t" and "i < length (entries t)"
    and "unat (loc_base loc (pe_dir (entries t ! i)) (nat sl))
       + unat (totals t (pe_dir (entries t ! i)) (unat (pe_slave (entries t ! i)))) < 2 ^ 32"
    and "pe_bits (entries t ! i) \<le> 64"
  defines "h \<equiv> bind_handle loc sl (entries t ! i)"
  shows "handle_ok h"
    and "unat (h_bit h) = unat (loc_base loc (pe_dir (entries t ! i)) (nat sl)) + unat (pe_bit_off (entries t ! i))"
proof -
  let ?e = "entries t ! i"
  have b: "unat (pe_bit_off ?e) + unat (pe_bits ?e) \<le> unat (totals t (pe_dir ?e) (unat (pe_slave ?e)))"
    using assms(1,2) by (rule layout_bounds)
  show eq: "unat (h_bit h) = unat (loc_base loc (pe_dir ?e) (nat sl)) + unat (pe_bit_off ?e)"
    using unat_add_of_nat [of "loc_base loc (pe_dir ?e) (nat sl)" "unat (pe_bit_off ?e)"] b assms(3)
    by (simp add: h_def bind_handle_def loc_base_def)
  show "handle_ok h"
    unfolding handle_ok_def eq using b assms(3,4)
    by (simp add: h_def bind_handle_def word_le_nat_alt)
qed

text \<open>C9. A write through a bound handle reads back as the low bits of the value,
  writes no other bit of the IOmap, and writing back what was read changes nothing.\<close>

theorem pdo_access_exact:
  assumes "handle_ok h"
  shows "ecm_pdo_get h (ecm_pdo_set h io v) = take_bit (unat (h_bits h)) v \<and>
    (\<forall>p. \<not> in_handle h p \<longrightarrow> io_bit (ecm_pdo_set h io v) p = io_bit io p) \<and>
    ecm_pdo_set h io (ecm_pdo_get h io) = io"
  using assms pdo_get_set_same pdo_set_get_same io_bit_ecm_pdo_set by auto

theorem pdo_access_exact_witness:
  "ecm_pdo_get \<lparr>h_slave = 1, h_group = 1, h_dir = ECM_PDO_OUT, h_bit = 5, h_bits = 12\<rparr>
     (ecm_pdo_set \<lparr>h_slave = 1, h_group = 1, h_dir = ECM_PDO_OUT, h_bit = 5, h_bits = 12\<rparr> (\<lambda>_. 0) 0xABCD)
   = 0xBCD"
  using pdo_access_exact [of "\<lparr>h_slave = 1, h_group = 1, h_dir = ECM_PDO_OUT, h_bit = 5, h_bits = 12\<rparr>"
      "\<lambda>_. 0" "0xABCD"]
  by (simp add: handle_ok_def take_bit_eq_mod)

lemma bind_handles_apart:
  assumes "table_wf t"
    and "ecm_pdo_bind t loc sl ix sb = Some h" and "ecm_pdo_bind t loc sl ix' sb' = Some g"
    and "(ix, sb) \<noteq> (ix', sb')" and "h_dir h = h_dir g"
    and "unat (loc_base loc (h_dir h) (nat sl)) + unat (totals t (h_dir h) (nat sl)) < 2 ^ 32"
  shows "handle_ok h \<and> handle_ok g \<and> (\<forall>p. \<not> (in_handle h p \<and> in_handle g p))"
proof -
  obtain i where i: "i < length (entries t)" "h = bind_handle loc sl (entries t ! i)"
    "uint (pe_slave (entries t ! i)) = sl" "pe_index (entries t ! i) = ix" "pe_sub (entries t ! i) = sb"
    "pe_bits (entries t ! i) \<le> 64"
    using assms(2) by (rule bind_entry)
  obtain j where j: "j < length (entries t)" "g = bind_handle loc sl (entries t ! j)"
    "uint (pe_slave (entries t ! j)) = sl" "pe_index (entries t ! j) = ix'" "pe_sub (entries t ! j) = sb'"
    "pe_bits (entries t ! j) \<le> 64"
    using assms(3) by (rule bind_entry)
  have d: "pe_dir (entries t ! i) = h_dir h" "pe_dir (entries t ! j) = h_dir h"
    using i(2) j(2) assms(5) by (auto simp: bind_handle_def)
  have s: "unat (pe_slave (entries t ! i)) = nat sl" "unat (pe_slave (entries t ! j)) = nat sl"
    using i(3) j(3) by (simp_all add: unat_eq_nat_uint)
  note hr = bind_handle_range [OF assms(1) i(1) _ i(6), of loc sl, folded i(2), unfolded d s, OF assms(6)]
  note gr = bind_handle_range [OF assms(1) j(1) _ j(6), of loc sl, folded j(2), unfolded d s, OF assms(6)]
  have ne: "i \<noteq> j" using i(4,5) j(4,5) assms(4) by auto
  have sl: "pe_slave (entries t ! i) = pe_slave (entries t ! j)"
    using i(3) j(3) by (metis word_of_int_uint)
  have dd: "pe_dir (entries t ! i) = pe_dir (entries t ! j)" using d by simp
  have nb: "h_bits h = pe_bits (entries t ! i)" "h_bits g = pe_bits (entries t ! j)"
    using i(2) j(2) by (simp_all add: bind_handle_def)
  consider "i < j" | "j < i" using ne by linarith
  then have "unat (h_bit h) + unat (h_bits h) \<le> unat (h_bit g) \<or>
      unat (h_bit g) + unat (h_bits g) \<le> unat (h_bit h)"
  proof cases
    case 1
    from layout_disjoint [OF assms(1) this j(1) dd sl] show ?thesis unfolding hr(2) gr(2) nb by simp
  next
    case 2
    from layout_disjoint [OF assms(1) this i(1) dd [symmetric] sl [symmetric]]
    show ?thesis unfolding hr(2) gr(2) nb by simp
  qed
  then have "\<not> (in_handle h p \<and> in_handle g p)" for p
    unfolding in_handle_def by linarith
  with hr(1) gr(1) show ?thesis by blast
qed

text \<open>C10. Two objects bound from one table to the same slave and direction never share
  a bit: a write to one leaves the value of the other.\<close>

theorem pdo_bind_disjoint:
  assumes "table_wf t"
    and "ecm_pdo_bind t loc sl ix sb = Some h" and "ecm_pdo_bind t loc sl ix' sb' = Some g"
    and "(ix, sb) \<noteq> (ix', sb')" and "h_dir h = h_dir g"
    and "unat (loc_base loc (h_dir h) (nat sl)) + unat (totals t (h_dir h) (nat sl)) < 2 ^ 32"
  shows "ecm_pdo_get g (ecm_pdo_set h io v) = ecm_pdo_get g io"
  using bind_handles_apart [OF assms] by (intro pdo_get_set_other) auto

theorem pdo_bind_disjoint_witness:
  "\<exists>t h g. ecm_pdo_add (the (ecm_pdo_add ecm_pdo_table_init 1 ECM_PDO_OUT 0x1600 0x6040 0 16))
        1 ECM_PDO_OUT 0x1600 0x607A 0 32 = Some t \<and>
     ecm_pdo_bind t (\<lambda>_. \<lparr>l_group = 1, out_bit = 3, in_bit = 0\<rparr>) 1 0x6040 0 = Some h \<and>
     ecm_pdo_bind t (\<lambda>_. \<lparr>l_group = 1, out_bit = 3, in_bit = 0\<rparr>) 1 0x607A 0 = Some g \<and>
     (\<forall>io v. ecm_pdo_get g (ecm_pdo_set h io v) = ecm_pdo_get g io)"
proof -
  let ?loc = "\<lambda>_. \<lparr>l_group = 1, out_bit = 3, in_bit = 0\<rparr>"
  define t0 where "t0 = the (ecm_pdo_add ecm_pdo_table_init 1 ECM_PDO_OUT 0x1600 0x6040 0 16)"
  have t0: "ecm_pdo_add ecm_pdo_table_init 1 ECM_PDO_OUT 0x1600 0x6040 0 16 = Some t0"
    by (simp add: t0_def ecm_pdo_add_def ecm_pdo_table_init_def Let_def)
  define t where "t = the (ecm_pdo_add t0 1 ECM_PDO_OUT 0x1600 0x607A 0 32)"
  have t: "ecm_pdo_add t0 1 ECM_PDO_OUT 0x1600 0x607A 0 32 = Some t"
    by (simp add: t_def t0_def ecm_pdo_add_def ecm_pdo_table_init_def Let_def)
  have wf: "table_wf t" using table_wf_add [OF table_wf_add [OF table_wf_init t0] t] .
  define h where "h = the (ecm_pdo_bind t ?loc 1 0x6040 0)"
  define g where "g = the (ecm_pdo_bind t ?loc 1 0x607A 0)"
  note ev = t_def t0_def ecm_pdo_add_def ecm_pdo_table_init_def ecm_pdo_bind_def bind_handle_def Let_def
  have h: "ecm_pdo_bind t ?loc 1 0x6040 0 = Some h" by (simp add: h_def ev)
  have g: "ecm_pdo_bind t ?loc 1 0x607A 0 = Some g" by (simp add: g_def ev)
  have d: "h_dir h = h_dir g" by (simp add: h_def g_def ev)
  have b: "unat (loc_base ?loc (h_dir h) (nat 1)) + unat (totals t (h_dir h) (nat 1)) < 2 ^ 32"
    by (simp add: h_def loc_base_def ev)
  have "\<forall>io v. ecm_pdo_get g (ecm_pdo_set h io v) = ecm_pdo_get g io"
    using pdo_bind_disjoint [OF wf h g _ d b] by simp
  with t h g show ?thesis unfolding t0_def by blast
qed

lemma entry_differs_iff: "entry_differs x y \<longleftrightarrow> x \<noteq> y"
  unfolding entry_differs_def
  using ecm_pdo_entry.equality [of x y] by auto

text \<open>Comparing two tables finds no difference exactly when they hold the same
  entries in the same order.\<close>

theorem pdo_table_compare_zero:
  "ecm_pdo_table_compare a b = 0 \<longleftrightarrow> entries a = entries b"
proof -
  let ?n = "min (length (entries a)) (length (entries b))"
  have "ecm_pdo_table_compare a b = 0 \<longleftrightarrow>
      length (entries a) = length (entries b) \<and> (\<forall>i<?n. entries a ! i = entries b ! i)"
    unfolding ecm_pdo_table_compare_def Let_def entry_differs_iff
    by (auto simp: filter_empty_conv)
  also have "\<dots> \<longleftrightarrow> entries a = entries b"
    by (auto simp: list_eq_iff_nth_eq)
  finally show ?thesis .
qed

end
