(* ===== verification/Xchg.thy ===== *)
theory Xchg
  imports Pdo Spsc
begin

text \<open>
  The exchange between application and real-time thread
  (\<open>libecmaster/xchg/ecm_xchg.c\<close>): the ring of 32-byte elements, the seqlock
  record, and the per-tick hook that applies commands, picks the setpoints of the
  next frame and publishes the state. Elements are typed here where the C code
  copies four words. \<open>Seqlock\<close> treats the same record under interleaving.
\<close>

section \<open>Data\<close>

abbreviation ECM_XRING_CAP :: u64 where "ECM_XRING_CAP \<equiv> 512"
abbreviation ECM_XCHG_CMD_CAP :: u64 where "ECM_XCHG_CMD_CAP \<equiv> 256"
abbreviation ECM_XCHG_MAX_SLOTS :: nat where "ECM_XCHG_MAX_SLOTS \<equiv> 32"
abbreviation ECM_XCHG_CMD_PER_TICK :: nat where "ECM_XCHG_CMD_PER_TICK \<equiv> 8"
abbreviation ECM_XCHG_SP_SKIP_MAX :: nat where "ECM_XCHG_SP_SKIP_MAX \<equiv> 16"
abbreviation ECM_XST_WORDS :: nat where "ECM_XST_WORDS \<equiv> 8"
abbreviation ECM_XST_TRIES :: nat where "ECM_XST_TRIES \<equiv> 64"

abbreviation ECM_XOP_NOP :: u16 where "ECM_XOP_NOP \<equiv> 0"
abbreviation ECM_XOP_SET :: u16 where "ECM_XOP_SET \<equiv> 1"
abbreviation ECM_XOP_USER :: u16 where "ECM_XOP_USER \<equiv> 0x100"

record ecm_xcmd =
  c_tick :: u64
  c_target :: u16
  c_op :: u16
  c_seq :: u32
  c_arg0 :: int
  c_arg1 :: int

record ecm_xsp =
  e_tick :: u64
  e_v :: "int \<times> int \<times> int"

record 'e ecm_xring =
  r_buf :: "nat \<Rightarrow> 'e"
  r_mask :: u64
  r_head :: u64
  r_tail :: u64
  full_drops :: u64

record ecm_xst =
  st_seq :: u32
  st_tick :: u64
  st_w :: "nat \<Rightarrow> u64"

record ecm_xslot =
  sl_h :: ecm_pdo_handle
  is_out :: bool
  sl_armed :: bool
  sl_last :: int
  sl_used :: u64
  sl_late :: u64
  sl_underrun :: u64
  dropped_lost :: u64

record ecm_xchg =
  nslots :: nat
  cycle_ns :: u64
  x_slot :: "nat \<Rightarrow> ecm_xslot"
  x_cmd :: "ecm_xcmd ecm_xring"
  x_sp :: "nat \<Rightarrow> ecm_xsp ecm_xring"
  x_st :: "nat \<Rightarrow> ecm_xst"
  x_clock :: ecm_xst
  cmd_applied :: u64
  cmd_deferred :: u64
  cmd_unknown :: u64
  x_last_seq :: u32

definition xcmd_zero :: ecm_xcmd where
  "xcmd_zero = \<lparr>c_tick = 0, c_target = 0, c_op = 0, c_seq = 0, c_arg0 = 0, c_arg1 = 0\<rparr>"

definition xsp_zero :: ecm_xsp where
  "xsp_zero = \<lparr>e_tick = 0, e_v = (0, 0, 0)\<rparr>"

definition xst_zero :: ecm_xst where
  "xst_zero = \<lparr>st_seq = 0, st_tick = 0, st_w = (\<lambda>_. 0)\<rparr>"

section \<open>The ring\<close>

definition ecm_xring_init :: "'e \<Rightarrow> u64 \<Rightarrow> 'e ecm_xring" where
  "ecm_xring_init z cap =
    (let cap' = if cap = 0 \<or> cap > ECM_XRING_CAP \<or> cap AND (cap - 1) \<noteq> 0 then ECM_XRING_CAP else cap
     in \<lparr>r_buf = (\<lambda>_. z), r_mask = cap' - 1, r_head = 0, r_tail = 0, full_drops = 0\<rparr>)"

definition ecm_xring_push :: "'e \<Rightarrow> 'e ecm_xring \<Rightarrow> 'e ecm_xring \<times> bool" where
  "ecm_xring_push e r =
    (if r_head r - r_tail r > r_mask r then (r\<lparr>full_drops := full_drops r + 1\<rparr>, False)
     else (r\<lparr>r_buf := (r_buf r)(unat (r_head r AND r_mask r) := e), r_head := r_head r + 1\<rparr>, True))"

definition ecm_xring_peek :: "'e ecm_xring \<Rightarrow> 'e option" where
  "ecm_xring_peek r =
    (if r_tail r = r_head r then None else Some (r_buf r (unat (r_tail r AND r_mask r))))"

definition ecm_xring_pop :: "'e ecm_xring \<Rightarrow> 'e ecm_xring" where
  "ecm_xring_pop r = r\<lparr>r_tail := r_tail r + 1\<rparr>"

definition xring_take :: "'e ecm_xring \<Rightarrow> ('e \<times> 'e ecm_xring) option" where
  "xring_take r = map_option (\<lambda>e. (e, ecm_xring_pop r)) (ecm_xring_peek r)"

section \<open>The seqlock record, uninterrupted\<close>

definition ecm_xst_write :: "ecm_xst \<Rightarrow> u64 \<Rightarrow> (nat \<Rightarrow> u64) \<Rightarrow> nat \<Rightarrow> ecm_xst" where
  "ecm_xst_write s tk w n = s\<lparr>st_seq := st_seq s + 2, st_tick := tk,
     st_w := (\<lambda>i. if i < n \<and> i < ECM_XST_WORDS then w i else st_w s i)\<rparr>"

text \<open>A read that nothing interrupts: the first try decides. The words beyond
  \<open>n\<close> are those of the caller's buffer, which is not part of the result.\<close>

definition ecm_xst_read :: "ecm_xst \<Rightarrow> nat \<Rightarrow> nat \<Rightarrow> (u64 \<times> u64 list) option" where
  "ecm_xst_read s n tries =
    (if tries = 0 \<or> st_seq s AND 1 \<noteq> 0 then None
     else Some (st_tick s, map (st_w s) [0..<min n ECM_XST_WORDS]))"

section \<open>The exchange\<close>

definition ecm_xchg_init :: "u64 \<Rightarrow> ecm_xchg" where
  "ecm_xchg_init cyc = \<lparr>nslots = 0, cycle_ns = cyc,
     x_slot = (\<lambda>_. \<lparr>sl_h = \<lparr>h_slave = 0, h_group = 0, h_dir = ECM_PDO_OUT, h_bit = 0, h_bits = 0\<rparr>,
       is_out = False, sl_armed = False, sl_last = 0, sl_used = 0, sl_late = 0, sl_underrun = 0,
       dropped_lost = 0\<rparr>),
     x_cmd = ecm_xring_init xcmd_zero ECM_XCHG_CMD_CAP,
     x_sp = (\<lambda>_. ecm_xring_init xsp_zero ECM_XRING_CAP),
     x_st = (\<lambda>_. xst_zero), x_clock = xst_zero,
     cmd_applied = 0, cmd_deferred = 0, cmd_unknown = 0, x_last_seq = 0\<rparr>"

definition ecm_xchg_add_slot :: "ecm_xchg \<Rightarrow> ecm_pdo_handle option \<Rightarrow> ecm_xchg \<times> nat option" where
  "ecm_xchg_add_slot x ho = (case ho of
     None \<Rightarrow> (x, None)
   | Some h \<Rightarrow>
       if nslots x \<ge> ECM_XCHG_MAX_SLOTS \<or> h_bits h = 0 then (x, None)
       else (x\<lparr>x_slot := (x_slot x)(nslots x := \<lparr>sl_h = h, is_out = (h_dir h = ECM_PDO_OUT), sl_armed = False,
                  sl_last = 0, sl_used = 0, sl_late = 0, sl_underrun = 0, dropped_lost = 0\<rparr>),
               nslots := nslots x + 1\<rparr>, Some (nslots x)))"

definition xapply :: "ecm_xslot \<Rightarrow> iomap \<Rightarrow> int \<Rightarrow> ecm_xslot \<times> iomap" where
  "xapply s io v = (s\<lparr>sl_last := v, sl_armed := True\<rparr>, ecm_pdo_set (sl_h s) io (of_int v))"

text \<open>One command of the hook: SET on an output while the bus is there; owner ops are counted.\<close>

definition rt_cmd :: "bool \<Rightarrow> ecm_xcmd \<Rightarrow> ecm_xchg \<Rightarrow> iomap \<Rightarrow> ecm_xchg \<times> iomap" where
  "rt_cmd bus_lost c x io =
    (let t = unat (c_target c);
         (x1, io1) =
           if c_op c = ECM_XOP_SET \<and> t < nslots x \<and> is_out (x_slot x t) \<and> \<not> bus_lost
           then let (s, io') = xapply (x_slot x t) io (c_arg0 c) in (x\<lparr>x_slot := (x_slot x)(t := s)\<rparr>, io')
           else if c_op c \<noteq> ECM_XOP_NOP \<and> c_op c \<noteq> ECM_XOP_SET
           then (x\<lparr>cmd_unknown := cmd_unknown x + 1\<rparr>, io)
           else (x, io)
     in (x1\<lparr>x_last_seq := c_seq c, cmd_applied := cmd_applied x1 + 1,
            x_cmd := ecm_xring_pop (x_cmd x1)\<rparr>, io1))"

text \<open>The command loop; the first argument is what is left of the tick's budget.\<close>

fun rt_cmds :: "nat \<Rightarrow> bool \<Rightarrow> u64 \<Rightarrow> ecm_xchg \<Rightarrow> iomap \<Rightarrow> ecm_xchg \<times> iomap" where
  "rt_cmds budget bus_lost k1 x io =
    (case ecm_xring_peek (x_cmd x) of
       None \<Rightarrow> (x, io)
     | Some c \<Rightarrow>
         if c_tick c > k1 then (x, io)
         else (case budget of
                 0 \<Rightarrow> (x\<lparr>cmd_deferred := cmd_deferred x + 1\<rparr>, io)
               | Suc b \<Rightarrow> let (x', io') = rt_cmd bus_lost c x io in rt_cmds b bus_lost k1 x' io'))"

declare rt_cmds.simps [simp del]

text \<open>The setpoint loop of one output slot, with the skip budget; returns \<open>got\<close> last.\<close>

fun rt_sp :: "nat \<Rightarrow> bool \<Rightarrow> u64 \<Rightarrow> ecm_xslot \<Rightarrow> ecm_xsp ecm_xring \<Rightarrow> iomap
    \<Rightarrow> ecm_xslot \<times> ecm_xsp ecm_xring \<times> iomap \<times> bool" where
  "rt_sp budget bus_lost k1 s r io =
    (case ecm_xring_peek r of
       None \<Rightarrow> (s, r, io, False)
     | Some e \<Rightarrow>
         if e_tick e < k1 \<or> (bus_lost \<and> e_tick e = k1) then
           (case budget of
              0 \<Rightarrow> (s, r, io, False)
            | Suc b \<Rightarrow>
                rt_sp b bus_lost k1
                  (if bus_lost then s\<lparr>dropped_lost := dropped_lost s + 1\<rparr> else s\<lparr>sl_late := sl_late s + 1\<rparr>)
                  (ecm_xring_pop r) io)
         else if bus_lost then (s, r, io, False)
         else if e_tick e = k1 then
           (let (s1, io1) = xapply s io (fst (e_v e))
            in (s1\<lparr>sl_used := sl_used s1 + 1\<rparr>, ecm_xring_pop r, io1, True))
         else (s, r, io, False))"

declare rt_sp.simps [simp del]

definition rt_slot :: "bool \<Rightarrow> u64 \<Rightarrow> nat \<Rightarrow> ecm_xchg \<times> iomap \<Rightarrow> ecm_xchg \<times> iomap" where
  "rt_slot bus_lost k1 i = (\<lambda>(x, io).
     if \<not> is_out (x_slot x i) then (x, io)
     else let (s, r, io1, got) = rt_sp ECM_XCHG_SP_SKIP_MAX bus_lost k1 (x_slot x i) (x_sp x i) io;
              hold = \<not> got \<and> sl_armed s \<and> \<not> bus_lost;
              s1 = if hold then s\<lparr>sl_underrun := sl_underrun s + 1\<rparr> else s;
              io2 = if hold then ecm_pdo_set (sl_h s) io1 (of_int (sl_last s)) else io1
          in (x\<lparr>x_slot := (x_slot x)(i := s1), x_sp := (x_sp x)(i := r)\<rparr>, io2))"

definition words_of :: "u64 list \<Rightarrow> nat \<Rightarrow> u64" where
  "words_of ws i = (if i < length ws then ws ! i else 0)"

definition rt_state :: "iomap \<Rightarrow> u64 \<Rightarrow> bool \<Rightarrow> nat \<Rightarrow> ecm_xchg \<Rightarrow> ecm_xchg" where
  "rt_state io tk in_valid i x =
    (let s = x_slot x i;
         valid = if is_out s then sl_armed s else in_valid;
         v0 = if is_out s \<or> in_valid then ecm_pdo_get (sl_h s) io else 0;
         v = if \<not> is_out s \<and> \<not> in_valid
             then (case ecm_xst_read (x_st x i) 6 1 of None \<Rightarrow> v0 | Some (t0, old) \<Rightarrow> old ! 0)
             else v0
     in x\<lparr>x_st := (x_st x)(i := ecm_xst_write (x_st x i) tk
            (words_of [v, sl_used s, sl_late s, sl_underrun s, dropped_lost s, of_bool valid]) 6)\<rparr>)"

definition ecm_xchg_rt :: "ecm_xchg \<Rightarrow> iomap \<Rightarrow> u64 \<Rightarrow> u64 \<Rightarrow> bool \<Rightarrow> bool \<Rightarrow> ecm_xchg \<times> iomap" where
  "ecm_xchg_rt x io tk t_send in_valid bus_lost =
    (let k1 = tk + 1;
         (x1, io1) = rt_cmds ECM_XCHG_CMD_PER_TICK bus_lost k1 x io;
         (x2, io2) = fold (rt_slot bus_lost k1) [0..<nslots x1] (x1, io1);
         x3 = fold (rt_state io2 tk in_valid) [0..<nslots x2] x2
     in (x3\<lparr>x_clock := ecm_xst_write (x_clock x3) tk
           (words_of [t_send, cycle_ns x3, of_bool in_valid, of_bool bus_lost, cmd_applied x3,
              cmd_deferred x3, ucast (x_last_seq x3), cmd_unknown x3]) 8\<rparr>, io2))"

definition ecm_xchg_cmd :: "ecm_xchg \<Rightarrow> ecm_xcmd \<Rightarrow> ecm_xchg \<times> bool" where
  "ecm_xchg_cmd x c = (let (r, ok) = ecm_xring_push c (x_cmd x) in (x\<lparr>x_cmd := r\<rparr>, ok))"

definition ecm_xchg_setpoint :: "ecm_xchg \<Rightarrow> int \<Rightarrow> u64 \<Rightarrow> int \<Rightarrow> ecm_xchg \<times> bool" where
  "ecm_xchg_setpoint x sl tk v0 =
    (if sl < 0 \<or> sl \<ge> int (nslots x) \<or> \<not> is_out (x_slot x (nat sl)) then (x, False)
     else let (r, ok) = ecm_xring_push \<lparr>e_tick = tk, e_v = (v0, 0, 0)\<rparr> (x_sp x (nat sl))
          in (x\<lparr>x_sp := (x_sp x)(nat sl := r)\<rparr>, ok))"

definition ecm_xchg_read_clock :: "ecm_xchg \<Rightarrow> (u64 \<times> u64 list) option" where
  "ecm_xchg_read_clock x = ecm_xst_read (x_clock x) 8 ECM_XST_TRIES"

definition ecm_xchg_read_slot :: "ecm_xchg \<Rightarrow> int \<Rightarrow> (u64 \<times> u64 list) option" where
  "ecm_xchg_read_slot x sl =
    (if sl < 0 \<or> sl \<ge> int (nslots x) then None else ecm_xst_read (x_st x (nat sl)) 6 ECM_XST_TRIES)"

section \<open>The ring is a bounded FIFO\<close>

definition xring_inv :: "nat \<Rightarrow> 'e ecm_xring \<Rightarrow> bool" where
  "xring_inv j r \<longleftrightarrow> j \<le> 9 \<and> r_mask r = mask j \<and> unat (r_head r - r_tail r) \<le> 2 ^ j"

definition xring_cont :: "'e ecm_xring \<Rightarrow> 'e list" where
  "xring_cont r = ring_win (unat (r_mask r) + 1) (r_buf r) (r_tail r) (r_head r)"

lemma xring_cap:
  assumes "xring_inv j r"
  shows "unat (r_mask r) + 1 = 2 ^ j" and "(2 :: nat) ^ j dvd 2 ^ LENGTH(64)" and "(2 :: nat) ^ j < 2 ^ LENGTH(64)"
proof -
  have "j \<le> 9" "r_mask r = mask j" using assms by (auto simp: xring_inv_def)
  then show "unat (r_mask r) + 1 = 2 ^ j" by (simp only: unat_mask) (simp add: min_def mask_eq_exp_minus_1)
  show "(2 :: nat) ^ j dvd 2 ^ LENGTH(64)" using \<open>j \<le> 9\<close> by (intro le_imp_power_dvd) simp
  show "(2 :: nat) ^ j < 2 ^ LENGTH(64)" using \<open>j \<le> 9\<close> by (intro power_strict_increasing) auto
qed

lemma xring_idx: "xring_inv j r \<Longrightarrow> unat (w AND r_mask r) = unat w mod 2 ^ j"
  by (simp add: xring_inv_def unat_and_mask)

lemma xring_full_iff: "xring_inv j r \<Longrightarrow> r_mask r < w \<longleftrightarrow> \<not> unat w < 2 ^ j"
  using xring_cap(1) [of j r] by (auto simp: word_less_nat_alt)

lemma xring_cont_win: "xring_inv j r \<Longrightarrow> xring_cont r = ring_win (2 ^ j) (r_buf r) (r_tail r) (r_head r)"
  using xring_cap(1) [of j r] by (simp add: xring_cont_def)

lemma xring_inv_push: "xring_inv j r \<Longrightarrow> xring_inv j (fst (ecm_xring_push x r))"
  using unat_diff_Suc [of "r_head r" "r_tail r" "2 ^ j"] xring_cap(3) [of j r]
  by (auto simp: ecm_xring_push_def xring_full_iff) (auto simp: xring_inv_def)

lemma xring_inv_pop: "xring_inv j r \<Longrightarrow> r_tail r \<noteq> r_head r \<Longrightarrow> xring_inv j (ecm_xring_pop r)"
  using ring_win_room [of "r_tail r" "r_head r"] by (auto simp: ecm_xring_pop_def xring_inv_def)

interpretation xr: bounded_fifo "xring_inv j" xring_cont "2 ^ j" ecm_xring_push xring_take
proof
  fix r r' :: "'e ecm_xring" and x :: 'e
  assume inv: "xring_inv j r"
  note cw = xring_cont_win [OF inv] and cap = xring_cap [OF inv] and idx = xring_idx [OF inv]
  show "length (xring_cont r) \<le> 2 ^ j"
    using inv by (simp add: cw xring_inv_def)
  show "xring_inv j (fst (ecm_xring_push x r))" using inv by (rule xring_inv_push)
  show "snd (ecm_xring_push x r) \<longleftrightarrow> length (xring_cont r) < 2 ^ j"
    by (simp add: ecm_xring_push_def cw xring_full_iff [OF inv])
  show "xring_cont (fst (ecm_xring_push x r))
      = (if length (xring_cont r) < 2 ^ j then xring_cont r @ [x] else xring_cont r)"
    using ring_win_write [OF cap(2,3), of "r_head r" "r_tail r" "r_buf r" x]
      xring_cont_win [OF xring_inv_push [OF inv, of x]]
    by (auto simp: ecm_xring_push_def cw xring_full_iff [OF inv] idx)
  show "xring_take r = None \<longleftrightarrow> xring_cont r = []"
    by (simp add: xring_take_def ecm_xring_peek_def xring_cont_def ring_win_empty_iff)
  assume "xring_take r = Some (x, r')"
  then have ne: "r_tail r \<noteq> r_head r" and r': "r' = ecm_xring_pop r"
    and x: "x = r_buf r (unat (r_tail r) mod 2 ^ j)"
    by (auto simp: xring_take_def ecm_xring_peek_def idx split: if_splits)
  show "xring_inv j r' \<and> xring_cont r = x # xring_cont r'"
    using xring_inv_pop [OF inv ne] xring_cont_win [OF xring_inv_pop [OF inv ne]]
      ring_win_pop [OF cap(2) ne, of "r_buf r"]
    by (simp add: r' x cw) (simp add: ecm_xring_pop_def)
qed

lemma xring_init_inv:
  "xring_inv 8 (ecm_xring_init z ECM_XCHG_CMD_CAP)" "xring_inv 9 (ecm_xring_init z ECM_XRING_CAP)"
  by (simp_all add: xring_inv_def ecm_xring_init_def mask_eq_exp_minus_1)

lemma xring_init_cont: "xring_cont (ecm_xring_init z cap) = []"
  by (simp add: xring_cont_def ecm_xring_init_def Let_def ring_win_empty_iff)

text \<open>The peek and pop of the consumer loops, on the contents.\<close>

lemma xring_peek_cont:
  assumes "xring_inv j r"
  shows "ecm_xring_peek r = (case xring_cont r of [] \<Rightarrow> None | e # _ \<Rightarrow> Some e)"
proof (cases "xring_take r")
  case None
  with xr.pop_none_iff [OF assms] show ?thesis by (simp add: xring_take_def)
next
  case (Some p)
  with xr.pop_some [OF assms, of "fst p" "snd p"] show ?thesis by (auto simp: xring_take_def)
qed

lemma xring_pop_cont:
  assumes "xring_inv j r" and "ecm_xring_peek r = Some e"
  shows "xring_inv j (ecm_xring_pop r) \<and> xring_cont r = e # xring_cont (ecm_xring_pop r)"
  using xr.pop_some [OF assms(1), of e "ecm_xring_pop r"] assms(2) by (simp add: xring_take_def)

section \<open>The hook on the contents of its rings\<close>

lemma rt_cmd_ring: "x_cmd (fst (rt_cmd bl c x io)) = ecm_xring_pop (x_cmd x)"
  by (auto simp: rt_cmd_def Let_def split: prod.splits if_splits)

definition ready_cmds :: "u64 \<Rightarrow> ecm_xchg \<Rightarrow> ecm_xcmd list" where
  "ready_cmds k1 x = takeWhile (\<lambda>c. c_tick c \<le> k1) (xring_cont (x_cmd x))"

lemma rt_cmds_fold:
  assumes "xring_inv j (x_cmd x)"
  shows "rt_cmds b bl k1 x io =
    (let (x', io') = fold (\<lambda>c (x, io). rt_cmd bl c x io) (take b (ready_cmds k1 x)) (x, io)
     in (if b < length (ready_cmds k1 x) then x'\<lparr>cmd_deferred := cmd_deferred x' + 1\<rparr> else x', io'))"
  using assms
proof (induction b arbitrary: x io)
  case 0
  then show ?case
    by (subst rt_cmds.simps)
       (auto simp: xring_peek_cont [of j] ready_cmds_def not_less split: list.splits)
next
  case (Suc b)
  show ?case
  proof (cases "ecm_xring_peek (x_cmd x)")
    case None
    with Suc.prems have "ready_cmds k1 x = []"
      by (auto simp: xring_peek_cont [of j] ready_cmds_def split: list.splits)
    with None show ?thesis by (subst rt_cmds.simps) simp
  next
    case (Some c)
    from xring_pop_cont [OF Suc.prems Some]
    have inv: "xring_inv j (ecm_xring_pop (x_cmd x))"
      and q: "xring_cont (x_cmd x) = c # xring_cont (ecm_xring_pop (x_cmd x))" by auto
    show ?thesis
    proof (cases "c_tick c > k1")
      case True
      with q have "ready_cmds k1 x = []" by (simp add: ready_cmds_def)
      with True Some show ?thesis by (subst rt_cmds.simps) simp
    next
      case False
      obtain x1 io1 where r: "rt_cmd bl c x io = (x1, io1)" by fastforce
      then have x1: "x_cmd x1 = ecm_xring_pop (x_cmd x)" using rt_cmd_ring [of bl c x io] by simp
      with q False have rd: "ready_cmds k1 x = c # ready_cmds k1 x1"
        by (simp add: ready_cmds_def not_less)
      have "rt_cmds (Suc b) bl k1 x io = rt_cmds b bl k1 x1 io1"
        using Some False r by (subst rt_cmds.simps) simp
      with Suc.IH [of x1 io1] inv x1 rd r show ?thesis by simp
    qed
  qed
qed

lemma rt_cmd_fold_ring:
  assumes "xring_inv j (x_cmd x)" and "n \<le> length (xring_cont (x_cmd x))"
  defines "cs \<equiv> take n (xring_cont (x_cmd x))"
  shows "let x' = fst (fold (\<lambda>c (x, io). rt_cmd bl c x io) cs (x, io)) in
    xring_inv j (x_cmd x') \<and> xring_cont (x_cmd x') = drop n (xring_cont (x_cmd x)) \<and>
    cmd_applied x' = cmd_applied x + of_nat n"
  using assms(1,2) unfolding cs_def
proof (induction n arbitrary: x io)
  case (Suc n)
  then obtain c q where q: "xring_cont (x_cmd x) = c # q" by (cases "xring_cont (x_cmd x)") auto
  then have "ecm_xring_peek (x_cmd x) = Some c" using xring_peek_cont [OF Suc.prems(1)] by simp
  from xring_pop_cont [OF Suc.prems(1) this] q
  have inv: "xring_inv j (ecm_xring_pop (x_cmd x))" and q': "xring_cont (ecm_xring_pop (x_cmd x)) = q"
    by auto
  obtain x1 io1 where r: "rt_cmd bl c x io = (x1, io1)" by fastforce
  have x1: "x_cmd x1 = ecm_xring_pop (x_cmd x)" using rt_cmd_ring [of bl c x io] r by simp
  have ap: "cmd_applied x1 = cmd_applied x + 1"
    using r by (auto simp: rt_cmd_def Let_def split: prod.splits if_splits)
  show ?case
    using Suc.IH [of x1 io1] Suc.prems(2) inv q q' x1 ap r by (simp add: Let_def)
qed simp

text \<open>An entry the setpoint loop drops: late, or due in a frame that is not sent.\<close>

definition sp_stale :: "bool \<Rightarrow> u64 \<Rightarrow> ecm_xsp \<Rightarrow> bool" where
  "sp_stale bl k1 e \<longleftrightarrow> e_tick e < k1 \<or> (bl \<and> e_tick e = k1)"

text \<open>What the loop does, on a list: drop at most \<open>b\<close> stale entries, then take an
  entry due exactly in the next frame.\<close>

definition sp_spec :: "nat \<Rightarrow> bool \<Rightarrow> u64 \<Rightarrow> ecm_xsp list \<Rightarrow> nat \<times> int option \<times> ecm_xsp list" where
  "sp_spec b bl k1 q =
    (let n = length (take b (takeWhile (sp_stale bl k1) q)) in
     case drop n q of
       [] \<Rightarrow> (n, None, [])
     | e # es \<Rightarrow> if \<not> bl \<and> e_tick e = k1 then (n, Some (fst (e_v e)), es) else (n, None, e # es))"

definition count_skips :: "bool \<Rightarrow> nat \<Rightarrow> ecm_xslot \<Rightarrow> ecm_xslot" where
  "count_skips bl n s = (if bl then s\<lparr>dropped_lost := dropped_lost s + of_nat n\<rparr>
                         else s\<lparr>sl_late := sl_late s + of_nat n\<rparr>)"

lemma count_skips_0 [simp]: "count_skips bl 0 s = s"
  by (simp add: count_skips_def)

lemma count_skips_Suc:
  "count_skips bl n (if bl then s\<lparr>dropped_lost := dropped_lost s + 1\<rparr> else s\<lparr>sl_late := sl_late s + 1\<rparr>)
    = count_skips bl (Suc n) s"
  by (simp add: count_skips_def algebra_simps)

lemma rt_sp_spec:
  assumes "xring_inv j r"
  shows "\<exists>r'. xring_inv j r' \<and> (case sp_spec b bl k1 (xring_cont r) of
     (n, None, rest) \<Rightarrow> rt_sp b bl k1 s r io = (count_skips bl n s, r', io, False) \<and> xring_cont r' = rest
   | (n, Some v, rest) \<Rightarrow>
       let s1 = (count_skips bl n s)\<lparr>sl_last := v, sl_armed := True\<rparr> in
       rt_sp b bl k1 s r io = (s1\<lparr>sl_used := sl_used s1 + 1\<rparr>, r', ecm_pdo_set (sl_h s) io (of_int v), True)
       \<and> xring_cont r' = rest)"
  using assms
proof (induction b arbitrary: s r io)
  case (0 s r io)
  show ?case
  proof (cases "ecm_xring_peek r")
    case None
    then show ?thesis
      using 0 by (subst (1 2) rt_sp.simps) (auto simp: sp_spec_def xring_peek_cont [OF 0] split: list.splits)
  next
    case (Some e)
    with xring_pop_cont [OF 0 Some] 0 show ?thesis
      by (subst (1 2) rt_sp.simps) (auto simp: sp_spec_def sp_stale_def xapply_def Let_def count_skips_def)
  qed
next
  case (Suc b s r io)
  show ?case
  proof (cases "ecm_xring_peek r")
    case None
    then show ?thesis
      using Suc.prems
      by (subst (1 2) rt_sp.simps) (auto simp: sp_spec_def xring_peek_cont [OF Suc.prems] split: list.splits)
  next
    case (Some e)
    note pop = xring_pop_cont [OF Suc.prems Some]
    let ?s = "if bl then s\<lparr>dropped_lost := dropped_lost s + 1\<rparr> else s\<lparr>sl_late := sl_late s + 1\<rparr>"
    show ?thesis
    proof (cases "sp_stale bl k1 e")
      case False
      with pop Some Suc.prems show ?thesis
        by (subst (1 2) rt_sp.simps) (auto simp: sp_spec_def sp_stale_def xapply_def Let_def count_skips_def)
    next
      case True
      then have step: "rt_sp (Suc b) bl k1 s r io = rt_sp b bl k1 ?s (ecm_xring_pop r) io"
        using Some by (subst rt_sp.simps) (simp add: sp_stale_def)
      have spec: "sp_spec (Suc b) bl k1 (xring_cont r)
          = (case sp_spec b bl k1 (xring_cont (ecm_xring_pop r)) of (n, z) \<Rightarrow> (Suc n, z))"
        using pop True by (auto simp: sp_spec_def Let_def split: list.splits)
      have h: "sl_h ?s = sl_h s" by simp
      obtain n z rest where z: "sp_spec b bl k1 (xring_cont (ecm_xring_pop r)) = (n, z, rest)"
        by (metis prod_cases3)
      from Suc.IH [of "ecm_xring_pop r" ?s io] pop show ?thesis
        unfolding step spec h z count_skips_Suc by (cases z) simp_all
    qed
  qed
qed

lemma rt_sp_inv:
  assumes "xring_inv j r"
  shows "xring_inv j (fst (snd (rt_sp b bl k1 s r io)))"
proof -
  obtain n z rest where z: "sp_spec b bl k1 (xring_cont r) = (n, z, rest)" by (metis prod_cases3)
  from rt_sp_spec [OF assms, of b bl k1 s io] show ?thesis
    unfolding z by (cases z) (auto simp: Let_def)
qed

section \<open>Invariant\<close>

definition xst_quiet :: "ecm_xst \<Rightarrow> bool" where
  "xst_quiet s \<longleftrightarrow> st_seq s AND 1 = 0"

definition xchg_inv :: "ecm_xchg \<Rightarrow> bool" where
  "xchg_inv x \<longleftrightarrow> nslots x \<le> ECM_XCHG_MAX_SLOTS \<and> xring_inv 8 (x_cmd x) \<and>
     (\<forall>i. xring_inv 9 (x_sp x i)) \<and> (\<forall>i. xst_quiet (x_st x i)) \<and> xst_quiet (x_clock x)"

lemma xst_quiet_iff: "xst_quiet s \<longleftrightarrow> even (st_seq s)"
  by (simp add: xst_quiet_def and_one_eq mod_2_eq_odd)

lemma xst_quiet_write [inv_intros]: "xst_quiet s \<Longrightarrow> xst_quiet (ecm_xst_write s tk w n)"
  by (simp add: xst_quiet_iff ecm_xst_write_def)

lemma xst_read_write:
  assumes "xst_quiet s" and "0 < tries" and "n \<le> ECM_XST_WORDS"
  shows "ecm_xst_read (ecm_xst_write s tk w n) n tries = Some (tk, map w [0..<n])"
proof -
  let ?s = "ecm_xst_write s tk w n"
  have "st_seq ?s AND 1 = 0"
    using xst_quiet_write [OF assms(1), of tk w n] unfolding xst_quiet_def .
  moreover have "st_tick ?s = tk" by (simp add: ecm_xst_write_def)
  moreover have "map (st_w ?s) [0..<min n ECM_XST_WORDS] = map w [0..<n]"
    using assms(3) by (auto simp: ecm_xst_write_def min_def)
  ultimately show ?thesis unfolding ecm_xst_read_def using assms(2) by simp
qed

lemma map_words_of: "map (words_of ws) [0..<length ws] = ws"
  by (rule nth_equalityI) (simp_all add: words_of_def)

lemma xchg_inv_init [inv_intros]: "xchg_inv (ecm_xchg_init cyc)"
  by (simp add: xchg_inv_def ecm_xchg_init_def xring_init_inv xst_quiet_def xst_zero_def)

lemma xchg_inv_add_slot [inv_intros]: "xchg_inv x \<Longrightarrow> xchg_inv (fst (ecm_xchg_add_slot x h))"
  by (auto simp: xchg_inv_def ecm_xchg_add_slot_def split: option.splits)

lemma xchg_inv_cmd [inv_intros]: "xchg_inv x \<Longrightarrow> xchg_inv (fst (ecm_xchg_cmd x c))"
  using xring_inv_push [of 8 "x_cmd x" c]
  by (auto simp: xchg_inv_def ecm_xchg_cmd_def split: prod.splits)

lemma xchg_inv_setpoint [inv_intros]: "xchg_inv x \<Longrightarrow> xchg_inv (fst (ecm_xchg_setpoint x i tk v))"
  using xring_inv_push [of 9 "x_sp x (nat i)" "\<lparr>e_tick = tk, e_v = (v, 0, 0)\<rparr>"]
  by (auto simp: xchg_inv_def ecm_xchg_setpoint_def split: prod.splits)

lemma rt_cmd_frame [field_simps_dev]:
  assumes "rt_cmd bl c x io = (x', io')"
  shows "nslots x' = nslots x" "x_sp x' = x_sp x" "x_st x' = x_st x" "x_clock x' = x_clock x"
    "cycle_ns x' = cycle_ns x"
  using assms by (auto simp: rt_cmd_def Let_def split: prod.splits if_splits)

lemma xchg_inv_rt_cmds: "xchg_inv x \<Longrightarrow> xchg_inv (fst (rt_cmds b bl k1 x io))"
proof (induction b arbitrary: x io)
  case 0
  then show ?case
    by (subst rt_cmds.simps) (auto simp: xchg_inv_def split: option.splits)
next
  case (Suc b)
  show ?case
  proof (cases "ecm_xring_peek (x_cmd x)")
    case None
    with Suc.prems show ?thesis by (subst rt_cmds.simps) simp
  next
    case (Some c)
    obtain x1 io1 where r: "rt_cmd bl c x io = (x1, io1)" by fastforce
    have "xring_inv 8 (x_cmd x1)"
      using xring_pop_cont [of 8 "x_cmd x" c] Some Suc.prems rt_cmd_ring [of bl c x io] r
      by (simp add: xchg_inv_def)
    then have "xchg_inv x1" using Suc.prems rt_cmd_frame [OF r] by (simp add: xchg_inv_def)
    with Suc.IH [of x1 io1] Suc.prems Some r show ?thesis by (subst rt_cmds.simps) simp
  qed
qed

lemma xchg_inv_rt_slot: "xchg_inv (fst p) \<Longrightarrow> xchg_inv (fst (rt_slot bl k1 i p))"
proof -
  assume inv: "xchg_inv (fst p)"
  obtain x io where p: "p = (x, io)" by fastforce
  obtain s r io1 got where sp: "rt_sp 16 bl k1 (x_slot x i) (x_sp x i) io = (s, r, io1, got)"
    by (metis prod_cases4)
  have "xring_inv 9 (x_sp x i)" using inv p by (simp add: xchg_inv_def)
  from rt_sp_inv [OF this, of 16 bl k1 "x_slot x i" io] sp have "xring_inv 9 r" by simp
  with inv p sp show ?thesis by (auto simp: rt_slot_def xchg_inv_def Let_def)
qed

lemma xchg_inv_rt_state: "xchg_inv x \<Longrightarrow> xchg_inv (rt_state io tk iv i x)"
  by (auto simp: rt_state_def xchg_inv_def Let_def intro: xst_quiet_write)

lemma fold_invariant:
  assumes "P a" and "\<And>x a. P a \<Longrightarrow> P (f x a)"
  shows "P (fold f xs a)"
  using assms(1) by (induction xs arbitrary: a) (auto intro: assms(2))

lemma xchg_inv_rt [inv_intros]: "xchg_inv x \<Longrightarrow> xchg_inv (fst (ecm_xchg_rt x io tk ts iv bl))"
proof -
  assume inv: "xchg_inv x"
  let ?k = "tk + 1"
  obtain x1 io1 where 1: "rt_cmds 8 bl ?k x io = (x1, io1)" by fastforce
  have i1: "xchg_inv x1" using xchg_inv_rt_cmds [OF inv, of 8 bl ?k io] 1 by simp
  obtain x2 io2 where 2: "fold (rt_slot bl ?k) [0..<nslots x1] (x1, io1) = (x2, io2)" by fastforce
  have i2: "xchg_inv x2"
    using fold_invariant [of "\<lambda>p. xchg_inv (fst p)" "(x1, io1)" "rt_slot bl ?k" "[0..<nslots x1]"]
      xchg_inv_rt_slot i1 2 by simp
  have i3: "xchg_inv (fold (rt_state io2 tk iv) [0..<nslots x2] x2)"
    by (rule fold_invariant) (auto intro: xchg_inv_rt_state i2)
  then show ?thesis
    using 1 2 by (simp add: ecm_xchg_rt_def Let_def xchg_inv_def xst_quiet_write)
qed

section \<open>Properties\<close>

text \<open>A tick applies the commands that are due, oldest first, at most eight of them;
  the rest keep their place in the queue, and exactly then the deferral is counted.\<close>

theorem xchg_cmds_bounded_fifo:
  fixes k1 :: u64 and x :: ecm_xchg
  assumes "xring_inv j (x_cmd x)"
  defines "n \<equiv> min ECM_XCHG_CMD_PER_TICK (length (ready_cmds k1 x))"
  shows "let (x', io') = rt_cmds ECM_XCHG_CMD_PER_TICK bl k1 x io in
     xring_cont (x_cmd x') = drop n (xring_cont (x_cmd x)) \<and>
     cmd_applied x' = cmd_applied x + of_nat n \<and>
     io' = snd (fold (\<lambda>c (x, io). rt_cmd bl c x io) (take n (xring_cont (x_cmd x))) (x, io)) \<and>
     (\<forall>c \<in> set (take n (xring_cont (x_cmd x))). c_tick c \<le> k1)"
proof -
  let ?q = "xring_cont (x_cmd x)" and ?b = ECM_XCHG_CMD_PER_TICK
  have n: "n \<le> length ?q"
    using length_takeWhile_le [of "\<lambda>c. c_tick c \<le> k1" ?q] by (simp add: n_def ready_cmds_def)
  have tk: "take ?b (ready_cmds k1 x) = take n ?q"
  proof -
    have "take ?b (ready_cmds k1 x) = take n (ready_cmds k1 x)" by (simp add: n_def min_def)
    also have "\<dots> = take n (take (length (ready_cmds k1 x)) ?q)"
      unfolding ready_cmds_def by (rule arg_cong [OF takeWhile_eq_take])
    also have "\<dots> = take n ?q" by (simp add: n_def min_def)
    finally show ?thesis .
  qed
  have due: "\<forall>c \<in> set (take n ?q). c_tick c \<le> k1"
    unfolding tk [symmetric] using set_takeWhileD by (fastforce simp: ready_cmds_def dest: in_set_takeD)
  obtain x' io' where f: "fold (\<lambda>c (x, io). rt_cmd bl c x io) (take n ?q) (x, io) = (x', io')"
    by fastforce
  from rt_cmd_fold_ring [OF assms(1) n, of bl io] f
  have "xring_cont (x_cmd x') = drop n ?q" "cmd_applied x' = cmd_applied x + of_nat n"
    by (auto simp: Let_def)
  with rt_cmds_fold [OF assms(1), of ?b bl k1 io] due f show ?thesis
    unfolding tk by (simp add: Let_def)
qed

text \<open>The output slots are what the binding gives: good handles that share no bit.\<close>

definition outs_apart :: "ecm_xchg \<Rightarrow> bool" where
  "outs_apart x \<longleftrightarrow> (\<forall>i<nslots x. is_out (x_slot x i) \<longrightarrow> handle_ok (sl_h (x_slot x i)) \<and>
     (\<forall>j<nslots x. is_out (x_slot x j) \<longrightarrow> i \<noteq> j \<longrightarrow>
        (let h = sl_h (x_slot x i); g = sl_h (x_slot x j) in
         unat (h_bit h) + unat (h_bits h) \<le> unat (h_bit g) \<or> unat (h_bit g) + unat (h_bits g) \<le> unat (h_bit h))))"

lemma outs_apart_get:
  assumes "outs_apart x" and "i < nslots x" "is_out (x_slot x i)" and "j < nslots x" "is_out (x_slot x j)" and "i \<noteq> j"
  shows "ecm_pdo_get (sl_h (x_slot x i)) (ecm_pdo_set (sl_h (x_slot x j)) io v) = ecm_pdo_get (sl_h (x_slot x i)) io"
proof (rule pdo_get_set_other)
  show "handle_ok (sl_h (x_slot x j))" "handle_ok (sl_h (x_slot x i))" using assms by (auto simp: outs_apart_def)
  show "\<not> (in_handle (sl_h (x_slot x j)) p \<and> in_handle (sl_h (x_slot x i)) p)" for p
    using assms(1) [unfolded outs_apart_def Let_def, rule_format, OF assms(2,3)] assms(4-6)
    by (fastforce simp: in_handle_def)
qed

text \<open>The same slots, up to what a tick changes in them.\<close>

definition same_slots :: "ecm_xchg \<Rightarrow> ecm_xchg \<Rightarrow> bool" where
  "same_slots x x' \<longleftrightarrow> nslots x' = nslots x \<and>
     (\<forall>j. sl_h (x_slot x' j) = sl_h (x_slot x j) \<and> is_out (x_slot x' j) = is_out (x_slot x j))"

lemma same_slots_apart: "same_slots x x' \<Longrightarrow> outs_apart x' = outs_apart x"
  by (simp add: same_slots_def outs_apart_def)

text \<open>What the commands of a tick do to output slot \<open>i\<close>: nothing, or a SET armed it.\<close>

definition cmd_rel :: "bool \<Rightarrow> nat \<Rightarrow> ecm_xchg \<times> iomap \<Rightarrow> ecm_xchg \<times> iomap \<Rightarrow> bool" where
  "cmd_rel bl i = (\<lambda>(x, io) (x', io'). same_slots x x' \<and> x_sp x' = x_sp x \<and>
     sl_used (x_slot x' i) = sl_used (x_slot x i) \<and> sl_late (x_slot x' i) = sl_late (x_slot x i) \<and>
     sl_underrun (x_slot x' i) = sl_underrun (x_slot x i) \<and> dropped_lost (x_slot x' i) = dropped_lost (x_slot x i) \<and>
     (x_slot x' i = x_slot x i \<and> ecm_pdo_get (sl_h (x_slot x i)) io' = ecm_pdo_get (sl_h (x_slot x i)) io
      \<or> sl_armed (x_slot x' i) \<and> \<not> bl))"

lemma cmd_rel_trans: "cmd_rel bl i p q \<Longrightarrow> cmd_rel bl i q r \<Longrightarrow> cmd_rel bl i p r"
  by (cases p; cases q; cases r) (auto simp: cmd_rel_def same_slots_def)

lemma cmd_rel_rt_cmd:
  assumes "outs_apart x" and "i < nslots x" and "is_out (x_slot x i)"
  shows "cmd_rel bl i (x, io) (rt_cmd bl c x io)"
proof (cases "c_op c = ECM_XOP_SET \<and> unat (c_target c) < nslots x \<and> is_out (x_slot x (unat (c_target c))) \<and> \<not> bl")
  case True
  then show ?thesis
    using outs_apart_get [OF assms, of "unat (c_target c)" io "of_int (c_arg0 c)"]
    by (cases "unat (c_target c) = i") (auto simp: rt_cmd_def cmd_rel_def same_slots_def xapply_def Let_def)
next
  case False
  then show ?thesis by (auto simp: rt_cmd_def cmd_rel_def same_slots_def Let_def)
qed

lemma cmd_rel_rt_cmds:
  assumes "outs_apart x" and "i < nslots x" and "is_out (x_slot x i)"
  shows "cmd_rel bl i (x, io) (rt_cmds b bl k1 x io)"
  using assms
proof (induction b arbitrary: x io)
  case 0
  then show ?case by (subst rt_cmds.simps) (auto simp: cmd_rel_def same_slots_def split: option.splits)
next
  case (Suc b)
  have r: "cmd_rel bl i (x, io) (x, io)" by (simp add: cmd_rel_def same_slots_def)
  show ?case
  proof (cases "ecm_xring_peek (x_cmd x)")
    case None
    then show ?thesis using r by (subst rt_cmds.simps) simp
  next
    case (Some c)
    obtain x1 io1 where e: "rt_cmd bl c x io = (x1, io1)" by fastforce
    have 1: "cmd_rel bl i (x, io) (x1, io1)" using cmd_rel_rt_cmd [OF Suc.prems, of bl io c] e by simp
    then have ss: "same_slots x x1" by (simp add: cmd_rel_def)
    then have "cmd_rel bl i (x1, io1) (rt_cmds b bl k1 x1 io1)"
      using Suc.prems same_slots_apart [OF ss] by (intro Suc.IH) (auto simp: same_slots_def)
    with cmd_rel_trans [OF 1] Some e r show ?thesis by (subst rt_cmds.simps) simp
  qed
qed

text \<open>One slot's turn: the split of its queue decides.\<close>

lemma rt_slot_exact:
  assumes "xring_inv 9 (x_sp x i)" and "is_out (x_slot x i)" and "handle_ok (sl_h (x_slot x i))"
    and "sp_spec ECM_XCHG_SP_SKIP_MAX bl k1 (xring_cont (x_sp x i)) = (n, v, rest)"
    and "rt_slot bl k1 i (x, io) = (x', io')"
  defines "s \<equiv> x_slot x i" and "s' \<equiv> x_slot x' i" and "h \<equiv> sl_h (x_slot x i)"
  shows "xring_cont (x_sp x' i) = rest \<and> same_slots x x' \<and> (v \<noteq> None \<longrightarrow> \<not> bl) \<and>
    s' = (case v of
            Some w \<Rightarrow> (count_skips bl n s)\<lparr>sl_last := w, sl_armed := True, sl_used := sl_used s + 1\<rparr>
          | None \<Rightarrow> (count_skips bl n s)\<lparr>sl_underrun := sl_underrun s + of_bool (sl_armed s \<and> \<not> bl)\<rparr>) \<and>
    io' = (case v of
             Some w \<Rightarrow> ecm_pdo_set h io (of_int w)
           | None \<Rightarrow> if sl_armed s \<and> \<not> bl then ecm_pdo_set h io (of_int (sl_last s)) else io)"
proof -
  have bl: "v \<noteq> None \<Longrightarrow> \<not> bl"
    using assms(4) by (auto simp: sp_spec_def Let_def split: list.splits if_splits)
  obtain r where r: "xring_cont r = rest" and sp:
    "rt_sp 16 bl k1 s (x_sp x i) io = (case v of
       None \<Rightarrow> (count_skips bl n s, r, io, False)
     | Some w \<Rightarrow> ((count_skips bl n s)\<lparr>sl_last := w, sl_armed := True,
                   sl_used := sl_used (count_skips bl n s) + 1\<rparr>, r, ecm_pdo_set h io (of_int w), True))"
    using rt_sp_spec [OF assms(1), of 16 bl k1 s io] assms(4) unfolding s_def h_def by (cases v) (auto simp: Let_def)
  show ?thesis
    using assms(2,5) r bl sp unfolding s_def s'_def h_def
    by (cases v) (auto simp: rt_slot_def Let_def count_skips_def same_slots_def split: if_splits)
qed

text \<open>The turn of another slot leaves slot \<open>i\<close>, its queue and its bits of the process image alone.\<close>

definition slot_rel :: "nat \<Rightarrow> ecm_xchg \<times> iomap \<Rightarrow> ecm_xchg \<times> iomap \<Rightarrow> bool" where
  "slot_rel i = (\<lambda>(x, io) (x', io'). same_slots x x' \<and> x_slot x' i = x_slot x i \<and> x_sp x' i = x_sp x i \<and>
     ecm_pdo_get (sl_h (x_slot x i)) io' = ecm_pdo_get (sl_h (x_slot x i)) io)"

lemma slot_rel_rt_slot:
  assumes "xchg_inv x" and "outs_apart x" and "i < nslots x" "is_out (x_slot x i)" and "j < nslots x" "j \<noteq> i"
  shows "slot_rel i (x, io) (rt_slot bl k1 j (x, io))"
proof (cases "is_out (x_slot x j)")
  case False
  then show ?thesis by (simp add: rt_slot_def slot_rel_def same_slots_def)
next
  case True
  obtain n v rest where z: "sp_spec 16 bl k1 (xring_cont (x_sp x j)) = (n, v, rest)" by (metis prod_cases3)
  obtain x' io' where r: "rt_slot bl k1 j (x, io) = (x', io')" by fastforce
  have g: "ecm_pdo_get (sl_h (x_slot x i)) (ecm_pdo_set (sl_h (x_slot x j)) io w) = ecm_pdo_get (sl_h (x_slot x i)) io" for w
    using outs_apart_get [OF assms(2-5) True] assms(6) by simp
  have "xring_inv 9 (x_sp x j)" "handle_ok (sl_h (x_slot x j))"
    using assms(1,2,5) True by (auto simp: xchg_inv_def outs_apart_def)
  from rt_slot_exact [OF this(1) True this(2) z r]
  have e: "same_slots x x'" "ecm_pdo_get (sl_h (x_slot x i)) io' = ecm_pdo_get (sl_h (x_slot x i)) io"
    using g by (auto split: option.splits)
  have "x_slot x' i = x_slot x i" "x_sp x' i = x_sp x i"
    using r assms(6) by (auto simp: rt_slot_def Let_def split: prod.splits if_splits)
  with e r show ?thesis by (simp add: slot_rel_def)
qed

lemma slot_rel_fold:
  assumes "xchg_inv x" and "outs_apart x" and "i < nslots x" "is_out (x_slot x i)" and "\<forall>j\<in>set js. j < nslots x \<and> j \<noteq> i"
  shows "slot_rel i (x, io) (fold (rt_slot bl k1) js (x, io))"
  using assms
proof (induction js arbitrary: x io)
  case Nil
  then show ?case by (simp add: slot_rel_def same_slots_def)
next
  case (Cons j js)
  obtain x1 io1 where r: "rt_slot bl k1 j (x, io) = (x1, io1)" by fastforce
  have 1: "slot_rel i (x, io) (x1, io1)" using slot_rel_rt_slot [OF Cons.prems(1-4), of j io bl k1] Cons.prems(5) r by simp
  have "xchg_inv x1" using xchg_inv_rt_slot [of "(x, io)" bl k1 j] Cons.prems(1) r by simp
  then have "slot_rel i (x1, io1) (fold (rt_slot bl k1) js (x1, io1))"
    using 1 Cons.prems same_slots_apart [of x x1] by (intro Cons.IH) (auto simp: slot_rel_def same_slots_def)
  with 1 r show ?case
    by (cases "fold (rt_slot bl k1) js (x1, io1)") (auto simp: slot_rel_def same_slots_def)
qed

lemma fold_slots_at:
  assumes "xchg_inv x" and "outs_apart x" and "i < nslots x" "is_out (x_slot x i)"
    and "fold (rt_slot bl k1) [0..<nslots x] (x, io) = (x', io')"
  shows "\<exists>y io0 y' io1. slot_rel i (x, io) (y, io0) \<and> xchg_inv y \<and> rt_slot bl k1 i (y, io0) = (y', io1) \<and>
    slot_rel i (y', io1) (x', io')"
proof -
  have l: "[0..<nslots x] = [0..<i] @ i # [Suc i..<nslots x]"
    using assms(3) upt_add_eq_append [of 0 i "nslots x - i"] by (simp add: upt_conv_Cons)
  obtain y io0 where y: "fold (rt_slot bl k1) [0..<i] (x, io) = (y, io0)" by fastforce
  obtain y' io1 where y': "rt_slot bl k1 i (y, io0) = (y', io1)" by fastforce
  have 0: "slot_rel i (x, io) (y, io0)"
    using slot_rel_fold [OF assms(1-4), of "[0..<i]" io bl k1] assms(3) y by simp
  have i0: "xchg_inv y"
    using fold_invariant [of "\<lambda>p. xchg_inv (fst p)" "(x, io)" "rt_slot bl k1" "[0..<i]"] xchg_inv_rt_slot assms(1) y by simp
  have oy: "is_out (x_slot y i)" "handle_ok (sl_h (x_slot y i))" using 0 assms(2-4) by (auto simp: slot_rel_def outs_apart_def)
  have ry: "xring_inv 9 (x_sp y i)" using i0 by (simp add: xchg_inv_def)
  obtain n v rest where "sp_spec 16 bl k1 (xring_cont (x_sp y i)) = (n, v, rest)" by (metis prod_cases3)
  from rt_slot_exact [OF ry oy this y'] have ss: "same_slots y y'" by simp
  have "xchg_inv y'" "outs_apart y'" "i < nslots y'" "is_out (x_slot y' i)"
    using xchg_inv_rt_slot [of "(y, io0)" bl k1 i] i0 y' same_slots_apart [OF ss] same_slots_apart [of x y] ss 0 assms(2-4)
    by (auto simp: slot_rel_def same_slots_def)
  then have "slot_rel i (y', io1) (fold (rt_slot bl k1) [Suc i..<nslots x] (y', io1))"
    using ss 0 by (intro slot_rel_fold) (auto simp: slot_rel_def same_slots_def)
  then show ?thesis using 0 i0 y y' assms(5) by (auto simp: l)
qed

text \<open>C6. Setpoints in a whole tick \<open>tk\<close> of the hook, for an output slot. With \<open>sp_spec\<close> the split of
  the slot's queue at the next frame's tick \<open>tk + 1\<close> (at most 16 stale entries, then an entry
  named for exactly that tick): the stale ones are dropped and counted, as late, or as lost
  while the bus is lost; the due entry is what the IOmap carries at the end of the tick, after
  all commands and all other slots; without one, an armed slot holds its last value, which a
  SET command of this tick may have set, and counts an underrun; an unarmed slot and a lost bus
  leave the slot's bits alone; the entries behind keep their place.\<close>

theorem xchg_setpoint_tick_exact:
  assumes "xchg_inv x" and "outs_apart x" and "i < nslots x" and "is_out (x_slot x i)"
    and "sp_spec ECM_XCHG_SP_SKIP_MAX bl (tk + 1) (xring_cont (x_sp x i)) = (n, v, rest)"
    and "rt_cmds ECM_XCHG_CMD_PER_TICK bl (tk + 1) x io = (x1, io1)"
    and "ecm_xchg_rt x io tk ts iv bl = (x', io')"
  shows "let s = x_slot x i; s1 = x_slot x1 i; s' = x_slot x' i; bits = unat (h_bits (sl_h s)) in
    xring_cont (x_sp x' i) = rest \<and>
    sl_late s' = sl_late s + (if bl then 0 else of_nat n) \<and> dropped_lost s' = dropped_lost s + (if bl then of_nat n else 0) \<and>
    (case v of
       Some w \<Rightarrow> \<not> bl \<and> ecm_pdo_get (sl_h s) io' = take_bit bits (of_int w) \<and>
         sl_used s' = sl_used s + 1 \<and> sl_underrun s' = sl_underrun s \<and> sl_last s' = w \<and> sl_armed s'
     | None \<Rightarrow> sl_used s' = sl_used s \<and> sl_last s' = sl_last s1 \<and> sl_armed s' = sl_armed s1 \<and>
         sl_underrun s' = sl_underrun s + of_bool (sl_armed s1 \<and> \<not> bl) \<and>
         ecm_pdo_get (sl_h s) io' =
           (if sl_armed s1 \<and> \<not> bl then take_bit bits (of_int (sl_last s1)) else ecm_pdo_get (sl_h s) io))"
proof -
  note C = cmd_rel_rt_cmds [OF assms(2-4), of bl io 8 "tk + 1", unfolded assms(6) cmd_rel_def prod.case]
  have 1: "xchg_inv x1" "outs_apart x1" "i < nslots x1" "is_out (x_slot x1 i)"
    using xchg_inv_rt_cmds [OF assms(1), of 8 bl "tk + 1" io] C assms same_slots_apart [of x x1] by (auto simp: same_slots_def)
  obtain x2 io2 where 2: "fold (rt_slot bl (tk + 1)) [0..<nslots x1] (x1, io1) = (x2, io2)" by fastforce
  have e: "io' = io2" "x_slot x' = x_slot x2" "x_sp x' = x_sp x2"
    using assms(7) fold_invariant [of "\<lambda>y. x_slot y = x_slot x2 \<and> x_sp y = x_sp x2" x2 "rt_state io2 tk iv" "[0..<nslots x2]"]
    by (auto simp: ecm_xchg_rt_def assms(6) 2 Let_def rt_state_def)
  obtain y io0 y' io3 where y: "slot_rel i (x1, io1) (y, io0)" "xchg_inv y" "rt_slot bl (tk + 1) i (y, io0) = (y', io3)"
    "slot_rel i (y', io3) (x2, io2)"
    using fold_slots_at [OF 1 2] by blast
  have z: "sp_spec 16 bl (tk + 1) (xring_cont (x_sp y i)) = (n, v, rest)" and o: "is_out (x_slot y i)"
    and h: "handle_ok (sl_h (x_slot y i))" "sl_h (x_slot y i) = sl_h (x_slot x i)" and i: "xring_inv 9 (x_sp y i)"
    using y(1,2) C assms 1 by (auto simp: slot_rel_def xchg_inv_def outs_apart_def same_slots_def)
  from rt_slot_exact [OF i o h(1) z y(3)] show ?thesis
    using y C pdo_get_set_same [OF h(1)] h(2)
    by (cases v; cases bl) (auto simp: e slot_rel_def same_slots_def Let_def count_skips_def)
qed

definition demo_handle :: ecm_pdo_handle where
  "demo_handle = \<lparr>h_slave = 1, h_group = 1, h_dir = ECM_PDO_OUT, h_bit = 16, h_bits = 32\<rparr>"

text \<open>Setpoints for the ticks 3 and 6, the tick 5 running: the first is late, the second due.\<close>

definition demo_xchg :: ecm_xchg where
  "demo_xchg = fst (ecm_xchg_setpoint (fst (ecm_xchg_setpoint
     (fst (ecm_xchg_add_slot (ecm_xchg_init 1000) (Some demo_handle))) 0 3 7)) 0 6 42)"

theorem xchg_setpoint_tick_exact_witness:
  "let (x', io') = ecm_xchg_rt demo_xchg (\<lambda>_. 0) 5 0 True False in
   ecm_pdo_get demo_handle io' = 42 \<and> sl_late (x_slot x' 0) = 1 \<and> sl_used (x_slot x' 0) = 1"
proof -
  note d = demo_xchg_def demo_handle_def ecm_xchg_setpoint_def ecm_xchg_add_slot_def ecm_xchg_init_def
  have inv: "xchg_inv demo_xchg"
    unfolding demo_xchg_def by (intro xchg_inv_setpoint xchg_inv_add_slot xchg_inv_init)
  let ?e = "\<lparr>e_tick = 3, e_v = (7, 0, 0)\<rparr>" and ?f = "\<lparr>e_tick = 6, e_v = (42, 0, 0)\<rparr>"
  have i1: "xring_inv 9 (fst (ecm_xring_push ?e (ecm_xring_init xsp_zero ECM_XRING_CAP)))"
    by (intro xring_inv_push xring_init_inv)
  have q: "xring_cont (x_sp demo_xchg 0) = [?e, ?f]"
    using xr.push_cont [OF xring_init_inv(2), of ?e xsp_zero] xr.push_cont [OF i1, of ?f]
    by (simp add: d xring_init_cont case_prod_beta)
  have o: "is_out (x_slot demo_xchg 0)" "sl_h (x_slot demo_xchg 0) = demo_handle" "nslots demo_xchg = 1"
    "sl_late (x_slot demo_xchg 0) = 0" "sl_used (x_slot demo_xchg 0) = 0"
    by (simp_all add: d split: prod.splits)
  have ap: "outs_apart demo_xchg" using o by (auto simp: outs_apart_def demo_handle_def handle_ok_def)
  have sp: "sp_spec ECM_XCHG_SP_SKIP_MAX False (5 + 1) (xring_cont (x_sp demo_xchg 0)) = (1, Some 42, [])"
    unfolding q by (simp add: sp_spec_def sp_stale_def)
  obtain x1 io1 where c: "rt_cmds ECM_XCHG_CMD_PER_TICK False (5 + 1) demo_xchg (\<lambda>_. 0) = (x1, io1)" by fastforce
  obtain x' io' where r: "ecm_xchg_rt demo_xchg (\<lambda>_. 0) 5 0 True False = (x', io')" by fastforce
  from xchg_setpoint_tick_exact [OF inv ap _ o(1) sp c r] r show ?thesis
    by (simp add: o Let_def) (simp add: demo_handle_def take_bit_eq_mod)
qed

end
