(* ===== verification/Seqlock.thy ===== *)
theory Seqlock
  imports Xchg
begin

text \<open>
  The seqlock record of \<open>ecm_xchg.c\<close> under interleaving: the writer
  (\<open>ecm_xst_write\<close>) and one reader attempt (the loop body of \<open>ecm_xst_read\<close>) as
  sequences of single-word atomic accesses. Both orders of the accesses are those
  the fences of the source keep. The reader may read any number of times. The 32-bit
  counter wraps: that fewer than \<open>2\<^sup>3\<^sup>2\<close> stores to it fall into one attempt is a
  hypothesis of what is shown.
\<close>

section \<open>The protocol\<close>

text \<open>The record as \<open>n\<close> cells: cell 0 is the tick, cell \<open>i + 1\<close> is word \<open>i\<close>.\<close>

datatype wr_pc = WIdle | WCopy nat        \<comment> \<open>cells below the index are stored\<close>

datatype rd_pc =
    RIdle
  | RCopy u32 "u64 list"                  \<comment> \<open>first \<open>seq\<close>, cells loaded so far\<close>
  | RDone "u64 list"                      \<comment> \<open>returned 0 with this record\<close>
  | RTorn                                 \<comment> \<open>this try failed\<close>

record seqlock =
  q_seq :: u32
  q_cell :: "nat \<Rightarrow> u64"
  q_wr :: wr_pc
  q_rd :: rd_pc
  q_new :: "u64 list"                     \<comment> \<open>the writer's argument\<close>
  g_ver :: nat                            \<comment> \<open>ghost: stores to \<open>seq\<close>\<close>
  g_start :: nat                          \<comment> \<open>ghost: \<open>g_ver\<close> at the reader's first load\<close>
  g_end :: nat                            \<comment> \<open>ghost: \<open>g_ver\<close> at its last load, when it succeeds\<close>
  g_hist :: "u64 list list"               \<comment> \<open>ghost: records completed, oldest first\<close>

definition seqlock_init :: seqlock where
  "seqlock_init = \<lparr>q_seq = 0, q_cell = (\<lambda>_. 0), q_wr = WIdle, q_rd = RIdle, q_new = [],
     g_ver = 0, g_start = 0, g_end = 0, g_hist = []\<rparr>"

fun rd_busy :: "rd_pc \<Rightarrow> bool" where
  "rd_busy (RCopy s1 xs) = True"
| "rd_busy r = False"

inductive seqlock_step :: "nat \<Rightarrow> seqlock \<Rightarrow> seqlock \<Rightarrow> bool" for n where
  W_begin: "q_wr s = WIdle \<Longrightarrow> length ws = n \<Longrightarrow>
    seqlock_step n s (s\<lparr>q_seq := q_seq s + 1, g_ver := g_ver s + 1, q_wr := WCopy 0, q_new := ws\<rparr>)"
| W_store: "q_wr s = WCopy i \<Longrightarrow> i < n \<Longrightarrow>
    seqlock_step n s (s\<lparr>q_cell := (q_cell s)(i := q_new s ! i), q_wr := WCopy (Suc i)\<rparr>)"
| W_end: "q_wr s = WCopy n \<Longrightarrow>
    seqlock_step n s (s\<lparr>q_seq := q_seq s + 1, g_ver := g_ver s + 1, q_wr := WIdle,
      g_hist := g_hist s @ [q_new s]\<rparr>)"
| R_begin: "\<not> rd_busy (q_rd s) \<Longrightarrow> even (q_seq s) \<Longrightarrow>
    seqlock_step n s (s\<lparr>q_rd := RCopy (q_seq s) [], g_start := g_ver s\<rparr>)"
| R_odd: "\<not> rd_busy (q_rd s) \<Longrightarrow> odd (q_seq s) \<Longrightarrow> seqlock_step n s (s\<lparr>q_rd := RTorn\<rparr>)"
| R_load: "q_rd s = RCopy s1 xs \<Longrightarrow> length xs < n \<Longrightarrow>
    seqlock_step n s (s\<lparr>q_rd := RCopy s1 (xs @ [q_cell s (length xs)])\<rparr>)"
| R_ok: "q_rd s = RCopy s1 xs \<Longrightarrow> length xs = n \<Longrightarrow> q_seq s = s1 \<Longrightarrow>
    seqlock_step n s (s\<lparr>q_rd := RDone xs, g_end := g_ver s\<rparr>)"
| R_torn: "q_rd s = RCopy s1 xs \<Longrightarrow> length xs = n \<Longrightarrow> q_seq s \<noteq> s1 \<Longrightarrow>
    seqlock_step n s (s\<lparr>q_rd := RTorn\<rparr>)"

text \<open>
  The counter is the number of its stores modulo \<open>2\<^sup>3\<^sup>2\<close>, odd exactly inside a
  write, and half of it counts the completed records; when the writer is idle the cells
  are the newest of them, or the zeroed memory when there is none; while the reader's
  start version is still current, the cells loaded so far are those of that record.
\<close>

definition cells :: "nat \<Rightarrow> seqlock \<Rightarrow> u64 list" where
  "cells n s = map (q_cell s) [0..<n]"

text \<open>The \<open>k\<close>-th completed record, from 1; the zeroed memory for 0.\<close>

definition rec_at :: "nat \<Rightarrow> u64 list list \<Rightarrow> nat \<Rightarrow> u64 list" where
  "rec_at n h k = (if k = 0 then replicate n 0 else h ! (k - 1))"

lemma rec_at_append [simp]: "k \<le> length h \<Longrightarrow> rec_at n (h @ [w]) k = rec_at n h k"
  by (auto simp: rec_at_def nth_append)

lemma rec_at_last [simp]: "rec_at n (h @ [w]) (Suc (length h)) = w"
  by (simp add: rec_at_def)

definition seqlock_inv :: "nat \<Rightarrow> seqlock \<Rightarrow> bool" where
  "seqlock_inv n s \<longleftrightarrow>
     q_seq s = of_nat (g_ver s) \<and> g_ver s div 2 = length (g_hist s) \<and>
     (case q_wr s of
        WIdle \<Rightarrow> even (g_ver s) \<and> cells n s = rec_at n (g_hist s) (length (g_hist s))
      | WCopy i \<Rightarrow> odd (g_ver s) \<and> i \<le> n \<and> length (q_new s) = n \<and> (\<forall>k<i. q_cell s k = q_new s ! k)) \<and>
     (case q_rd s of
        RCopy s1 xs \<Rightarrow> s1 = of_nat (g_start s) \<and> even (g_start s) \<and> g_start s \<le> g_ver s \<and> length xs \<le> n \<and>
          (g_ver s = g_start s \<longrightarrow> xs = take (length xs) (rec_at n (g_hist s) (length (g_hist s))))
      | RDone xs \<Rightarrow> even (g_start s) \<and> g_start s \<le> g_ver s \<and>
          (g_end s < g_start s + 2 ^ 32 \<longrightarrow> length xs = n \<and> xs = rec_at n (g_hist s) (g_start s div 2))
      | _ \<Rightarrow> True)"

abbreviation seqlock_reach :: "nat \<Rightarrow> seqlock \<Rightarrow> bool" where
  "seqlock_reach n s \<equiv> (seqlock_step n)\<^sup>*\<^sup>* seqlock_init s"

lemma even_of_nat_u32: "even (of_nat v :: u32) \<longleftrightarrow> even v"
  by transfer simp

lemma of_nat_u32_eq:
  assumes "(of_nat v :: u32) = of_nat u" and "u \<le> v" and "v < u + 2 ^ 32"
  shows "v = u"
proof -
  have "(of_nat (v - u) :: u32) = 0" using assms(1,2) by (simp add: of_nat_diff)
  then have "(v - u) mod 2 ^ 32 = 0"
    by (simp add: word_of_nat_eq_0_iff dvd_eq_mod_eq_0)
  with assms show ?thesis by simp
qed

lemma seqlock_inv_init: "seqlock_inv n seqlock_init"
  by (auto simp: seqlock_inv_def seqlock_init_def cells_def rec_at_def map_replicate_const)

lemma seqlock_ok_exact:
  assumes "seqlock_inv n s" and "q_rd s = RCopy s1 xs" and "length xs = n" and "q_seq s = s1" and "g_ver s < g_start s + 2 ^ 32"
  shows "xs = rec_at n (g_hist s) (g_start s div 2)"
proof -
  have v: "g_ver s = g_start s"
    using assms by (intro of_nat_u32_eq) (auto simp: seqlock_inv_def)
  then have "cells n s = rec_at n (g_hist s) (length (g_hist s))"
    using assms(1,2) by (auto simp: seqlock_inv_def split: wr_pc.splits)
  then have "length (rec_at n (g_hist s) (length (g_hist s))) = n" by (metis cells_def diff_zero length_map length_upt)
  then show ?thesis using assms(1-3) v by (auto simp: seqlock_inv_def)
qed

lemma seqlock_inv_step:
  assumes "seqlock_inv n s" and "seqlock_step n s s'"
  shows "seqlock_inv n s'"
  using assms(2,1)
proof cases
  case (W_store i)
  with assms(1) show ?thesis
    by (auto simp: seqlock_inv_def less_Suc_eq split: rd_pc.splits)
next
  case W_end
  then have c: "cells n s = q_new s" and o: "odd (g_ver s)" "g_ver s div 2 = length (g_hist s)"
    using assms(1) by (auto simp: seqlock_inv_def cells_def intro: nth_equalityI)
  have "Suc (g_ver s) div 2 = Suc (length (g_hist s))" using o by presburger
  moreover have "g_start s div 2 \<le> length (g_hist s)" if "g_start s \<le> g_ver s" using that o by (metis div_le_mono)
  ultimately show ?thesis using c o W_end assms(1)
    by (auto simp: seqlock_inv_def cells_def split: rd_pc.splits)
next
  case (R_load s1 xs)
  have "xs @ [q_cell s (length xs)] = take (Suc (length xs)) (rec_at n (g_hist s) (length (g_hist s)))"
    if "g_ver s = g_start s"
  proof -
    have c: "cells n s = rec_at n (g_hist s) (length (g_hist s))"
      and xs: "xs = take (length xs) (rec_at n (g_hist s) (length (g_hist s)))"
      using R_load assms(1) that by (auto simp: seqlock_inv_def split: wr_pc.splits)
    have "q_cell s (length xs) = cells n s ! length xs" "length xs < length (cells n s)"
      using R_load by (simp_all add: cells_def)
    with c xs show ?thesis by (metis take_Suc_conv_app_nth)
  qed
  with R_load assms(1) show ?thesis
    by (auto simp: seqlock_inv_def cells_def min_def split: wr_pc.splits)
next
  case (R_ok s1 xs)
  from seqlock_ok_exact [OF assms(1) R_ok(2,3,4)] R_ok assms(1) show ?thesis
    by (auto simp: seqlock_inv_def cells_def split: wr_pc.splits)
next
  case R_begin
  with assms(1) show ?thesis
    by (auto simp: seqlock_inv_def cells_def even_of_nat_u32 split: wr_pc.splits)
next
  case W_begin
  with assms(1) show ?thesis
    by (auto simp: seqlock_inv_def cells_def split: rd_pc.splits)
qed (use assms(1) in \<open>auto simp: seqlock_inv_def cells_def split: wr_pc.splits rd_pc.splits\<close>)

lemma seqlock_reach_inv: "seqlock_reach n s \<Longrightarrow> seqlock_inv n s"
  by (induction rule: rtranclp_induct) (auto intro: seqlock_inv_init seqlock_inv_step)

text \<open>The sequential write of \<open>Xchg\<close> is one uninterrupted pass of the writer.\<close>

fun store_cells :: "u64 list \<Rightarrow> nat \<Rightarrow> nat \<Rightarrow> (nat \<Rightarrow> u64) \<Rightarrow> nat \<Rightarrow> u64" where
  "store_cells ws i 0 c = c"
| "store_cells ws i (Suc k) c = store_cells ws (Suc i) k (c(i := ws ! i))"

lemma writer_pass:
  assumes "q_wr s = WCopy i" and "i + k = n"
  shows "(seqlock_step n)\<^sup>*\<^sup>* s (s\<lparr>q_cell := store_cells (q_new s) i k (q_cell s), q_wr := WCopy n\<rparr>)"
  using assms
proof (induction k arbitrary: i s)
  case 0
  then have "s\<lparr>q_cell := q_cell s, q_wr := WCopy n\<rparr> = s" by simp
  then show ?case by simp
next
  case (Suc k)
  let ?s = "s\<lparr>q_cell := (q_cell s)(i := q_new s ! i), q_wr := WCopy (Suc i)\<rparr>"
  have "seqlock_step n s ?s" using Suc.prems by (intro W_store) auto
  moreover have "(seqlock_step n)\<^sup>*\<^sup>* ?s
      (?s\<lparr>q_cell := store_cells (q_new ?s) (Suc i) k (q_cell ?s), q_wr := WCopy n\<rparr>)"
    using Suc.prems by (intro Suc.IH) auto
  ultimately show ?case by (simp add: converse_rtranclp_into_rtranclp)
qed

lemma store_cells_at: "store_cells ws i k c j = (if i \<le> j \<and> j < i + k then ws ! j else c j)"
  by (induction k arbitrary: i c) auto

definition as_cells :: "ecm_xst \<Rightarrow> nat \<Rightarrow> u64" where
  "as_cells st k = (if k = 0 then st_tick st else st_w st (k - 1))"

lemma xst_write_is_protocol_run:
  fixes tk :: u64 and w :: "nat \<Rightarrow> u64"
  assumes "n \<le> ECM_XST_WORDS" and "q_wr s = WIdle" and "q_seq s = st_seq st" and "q_cell s = as_cells st"
  defines "st' \<equiv> ecm_xst_write st tk w n" and "ws \<equiv> tk # map w [0..<n]"
  shows "\<exists>s'. (seqlock_step (Suc n))\<^sup>*\<^sup>* s s' \<and> q_wr s' = WIdle \<and> q_seq s' = st_seq st' \<and>
    q_cell s' = as_cells st' \<and> last (g_hist s') = ws \<and> q_rd s' = q_rd s"
proof -
  let ?n = "Suc n"
  define s1 where "s1 = s\<lparr>q_seq := q_seq s + 1, g_ver := g_ver s + 1, q_wr := WCopy 0, q_new := ws\<rparr>"
  define s2 where "s2 = s1\<lparr>q_cell := store_cells ws 0 ?n (q_cell s1), q_wr := WCopy ?n\<rparr>"
  define s3 where "s3 = s2\<lparr>q_seq := q_seq s2 + 1, g_ver := g_ver s2 + 1, q_wr := WIdle,
      g_hist := g_hist s2 @ [q_new s2]\<rparr>"
  have "seqlock_step ?n s s1"
    unfolding s1_def by (rule W_begin) (simp_all add: assms(2) ws_def)
  moreover have "(seqlock_step ?n)\<^sup>*\<^sup>* s1 s2"
    using writer_pass [of s1 0 ?n ?n] by (simp add: s1_def s2_def)
  moreover have "seqlock_step ?n s2 s3"
    unfolding s3_def by (rule W_end) (simp add: s2_def)
  ultimately have "(seqlock_step ?n)\<^sup>*\<^sup>* s s3"
    by (meson converse_rtranclp_into_rtranclp rtranclp.rtrancl_into_rtrancl)
  moreover have "q_cell s3 = as_cells st'"
    using assms(1,4) by (auto simp: s3_def s2_def s1_def st'_def ws_def store_cells_at as_cells_def
        ecm_xst_write_def nth_Cons' fun_eq_iff)
  moreover have "q_seq s3 = st_seq st'"
    using assms(3) by (simp add: s3_def s2_def s1_def st'_def ecm_xst_write_def)
  ultimately show ?thesis
    by (intro exI [of _ s3]) (simp add: s3_def s2_def s1_def)
qed

text \<open>C5. A reader that returns success has, whole, exactly the newest record that was complete
  when its attempt began, however its loads interleave with the writer's stores: record
  number \<open>g_start div 2\<close> of those the writer finished. If none was finished then it has the
  zeroes of the fresh region, which the code also returns as success. The attempt must
  have seen fewer than \<open>2\<^sup>3\<^sup>2\<close> stores to the 32-bit counter.\<close>

theorem seqlock_no_torn_read:
  assumes "seqlock_reach n s" and "q_rd s = RDone xs" and "g_end s < g_start s + 2 ^ 32"
  shows "length xs = n \<and> g_start s div 2 \<le> length (g_hist s) \<and>
    xs = (if g_start s = 0 then replicate n 0 else g_hist s ! (g_start s div 2 - 1))"
proof -
  note I = seqlock_reach_inv [OF assms(1), unfolded seqlock_inv_def assms(2), simplified]
  have "g_start s div 2 \<le> g_ver s div 2" using I by (intro div_le_mono) simp
  then have "g_start s div 2 \<le> length (g_hist s)" using I by simp
  moreover have "even (g_start s)" using I by simp
  then have "g_start s div 2 = 0 \<longleftrightarrow> g_start s = 0" by presburger
  ultimately show ?thesis using I assms(3) by (auto simp: rec_at_def)
qed

text \<open>A reader that first meets the writer half way in the record \<open>[7]\<close>, fails, and reads it in its
  second attempt; the writer has begun the next record since.\<close>

theorem seqlock_no_torn_read_witness:
  "\<exists>s. seqlock_reach 1 s \<and> q_rd s = RDone [7] \<and> q_wr s = WCopy 0 \<and> g_start s = 2 \<and> g_hist s ! (g_start s div 2 - 1) = [7]"
proof -
  define s1 where "s1 = seqlock_init\<lparr>q_seq := 1, g_ver := 1, q_wr := WCopy 0, q_new := [7]\<rparr>"
  define s2 where "s2 = s1\<lparr>q_rd := RTorn\<rparr>"
  define s3 where "s3 = s2\<lparr>q_cell := (q_cell s2)(0 := 7), q_wr := WCopy 1\<rparr>"
  define s4 where "s4 = s3\<lparr>q_seq := 2, g_ver := 2, q_wr := WIdle, g_hist := [[7]]\<rparr>"
  define s5 where "s5 = s4\<lparr>q_rd := RCopy 2 [], g_start := 2\<rparr>"
  define s6 where "s6 = s5\<lparr>q_rd := RCopy 2 [7]\<rparr>"
  define s7 where "s7 = s6\<lparr>q_rd := RDone [7], g_end := 2\<rparr>"
  define s8 where "s8 = s7\<lparr>q_seq := 3, g_ver := 3, q_wr := WCopy 0, q_new := [9]\<rparr>"
  note ds = s8_def s7_def s6_def s5_def s4_def s3_def s2_def s1_def seqlock_init_def
  have "seqlock_step 1 seqlock_init s1" "seqlock_step 1 s1 s2" "seqlock_step 1 s2 s3" "seqlock_step 1 s3 s4"
    using W_begin [of seqlock_init "[7]" 1] R_odd [of s1 1] W_store [of s2 0 1] W_end [of s3 1] by (simp_all add: ds eval_nat_numeral)
  moreover have "seqlock_step 1 s4 s5" "seqlock_step 1 s5 s6" "seqlock_step 1 s6 s7" "seqlock_step 1 s7 s8"
    using R_begin [of s4 1] R_load [of s5 2 "[]" 1] R_ok [of s6 2 "[7]" 1] W_begin [of s7 "[9]" 1] by (simp_all add: ds eval_nat_numeral)
  ultimately have r: "seqlock_reach 1 s8" by (meson converse_rtranclp_into_rtranclp rtranclp.rtrancl_refl)
  have d: "q_rd s8 = RDone [7]" "g_end s8 < g_start s8 + 2 ^ 32" "g_start s8 = 2" "q_wr s8 = WCopy 0" by (simp_all add: ds)
  from seqlock_no_torn_read [OF r d(1,2)] r d show ?thesis by (intro exI [of _ s8]) simp
qed

end
