(* ===== verification/Cia402_Cfg.thy ===== *)
theory Cia402_Cfg
  imports Pdo
begin

text \<open>
  Configuration of the drive axes (\<open>libecm_cia402/ecm_cia402_cfg.c\<close>): mode lists,
  axis lists, the axis file, and binding the CiA 402 objects of an axis to the
  process data its modes need. The file is the list of lines \<open>fgets\<close> returns;
  error texts are not modelled, the outcome is.
\<close>

section \<open>Data\<close>

abbreviation ECM_AXIS_MAX :: nat where "ECM_AXIS_MAX \<equiv> 32"

abbreviation ECM_MODE_PP :: u32 where "ECM_MODE_PP \<equiv> 0x001"
abbreviation ECM_MODE_PV :: u32 where "ECM_MODE_PV \<equiv> 0x004"
abbreviation ECM_MODE_HM :: u32 where "ECM_MODE_HM \<equiv> 0x020"
abbreviation ECM_MODE_CSP :: u32 where "ECM_MODE_CSP \<equiv> 0x080"
abbreviation ECM_MODE_CSV :: u32 where "ECM_MODE_CSV \<equiv> 0x100"
abbreviation ECM_MODE_CST :: u32 where "ECM_MODE_CST \<equiv> 0x200"

definition ECM_MODE_KNOWN :: u32 where
  "ECM_MODE_KNOWN = ECM_MODE_PP OR ECM_MODE_PV OR ECM_MODE_HM OR ECM_MODE_CSP OR ECM_MODE_CSV OR ECM_MODE_CST"

record ecm_axis_cfg =
  ax_slave :: u16
  ax_n :: u8
  ax_modes :: u32
  ax_name :: string

record ecm_axis_bind_t =
  b_cw :: ecm_pdo_handle
  b_sw :: ecm_pdo_handle
  b_tpos :: ecm_pdo_handle
  b_apos :: ecm_pdo_handle
  b_tvel :: ecm_pdo_handle
  b_avel :: ecm_pdo_handle
  b_ttq :: ecm_pdo_handle
  b_atq :: ecm_pdo_handle
  b_mode :: ecm_pdo_handle
  b_mode_disp :: ecm_pdo_handle
  b_err :: ecm_pdo_handle
  mode_by_sdo :: bool

definition handle_zero :: ecm_pdo_handle where
  "handle_zero = \<lparr>h_slave = 0, h_group = 0, h_dir = ECM_PDO_OUT, h_bit = 0, h_bits = 0\<rparr>"

definition MODES :: "(string \<times> u32) list" where
  "MODES = [(''pp'', ECM_MODE_PP), (''pv'', ECM_MODE_PV), (''hm'', ECM_MODE_HM),
            (''csp'', ECM_MODE_CSP), (''csv'', ECM_MODE_CSV), (''cst'', ECM_MODE_CST)]"

section \<open>Mode and axis lists\<close>

primrec modes_str_loop :: "u32 \<Rightarrow> nat \<Rightarrow> (string \<times> u32) list \<Rightarrow> string \<Rightarrow> string" where
  "modes_str_loop modes cap [] out = out"
| "modes_str_loop modes cap (m # ms) out =
    (if modes AND snd m = 0 then modes_str_loop modes cap ms out
     else let out1 = (if out = [] then out else out @ '','');
              out2 = out1 @ take (cap - 1 - length out1) (map toupper (fst m))
          in if length out2 + 1 \<ge> cap then out2 else modes_str_loop modes cap ms out2)"

definition ecm_axis_modes_str :: "u32 \<Rightarrow> nat \<Rightarrow> string" where
  "ecm_axis_modes_str modes cap = (if cap = 0 then [] else modes_str_loop modes cap MODES [])"

fun mode_lookup :: "(string \<times> u32) list \<Rightarrow> string \<Rightarrow> u32 option" where
  "mode_lookup [] t = None"
| "mode_lookup ((nm, b) # ms) t = (if strcaseeq t nm then Some b else mode_lookup ms t)"

fun parse_modes_loop :: "string list \<Rightarrow> u32 \<Rightarrow> u32 option" where
  "parse_modes_loop [] m = (if m = 0 then None else Some m)"
| "parse_modes_loop (t # ts) m =
    (case mode_lookup MODES t of None \<Rightarrow> None | Some b \<Rightarrow> parse_modes_loop ts (m OR b))"

definition ecm_axis_parse_modes :: "string \<Rightarrow> u32 option" where
  "ecm_axis_parse_modes s = parse_modes_loop (strtok_all '','' (fit 128 s)) 0"

definition int_str :: "int \<Rightarrow> string" where
  "int_str i = (if i < 0 then ''-'' @ dec (nat (- i)) else dec (nat i))"

definition cfg_add_axis :: "ecm_axis_cfg list \<Rightarrow> nat \<Rightarrow> int \<Rightarrow> int \<Rightarrow> u32 \<Rightarrow> string \<Rightarrow> ecm_axis_cfg list option" where
  "cfg_add_axis ax mx sl n modes nm =
    (if sl < 1 \<or> sl > ECM_PDO_MAX_SLAVES \<or> n < 0 \<or> n > 7 then None
     else if \<exists>a\<in>set ax. uint (ax_slave a) = sl \<and> uint (ax_n a) = n then None
     else if length ax \<ge> mx then None
     else Some (ax @ [\<lparr>ax_slave = of_int sl, ax_n = of_int n, ax_modes = modes,
        ax_name = fit 24 (if nm \<noteq> [] then nm else int_str sl @ '':'' @ int_str n)\<rparr>]))"

text \<open>One \<open>SLAVE[:AXIS]\<close> token.\<close>

definition parse_axis_ref :: "string \<Rightarrow> (int \<times> int) option" where
  "parse_axis_ref t =
    (let a = strtol t 0 in
     if \<not> sconv a then None
     else if take 1 (srest a) = '':'' then
       (let b = strtol (drop 1 (srest a)) 0 in
        if \<not> sconv b \<or> srest b \<noteq> [] then None else Some (sv a, sv b))
     else if srest a \<noteq> [] then None
     else Some (sv a, 0))"

text \<open>The axes added before an error stay added: the array and count are the caller's.\<close>

fun parse_list_loop :: "string list \<Rightarrow> u32 \<Rightarrow> ecm_axis_cfg list \<Rightarrow> nat \<Rightarrow> ecm_axis_cfg list \<times> bool" where
  "parse_list_loop [] modes ax mx = (ax, True)"
| "parse_list_loop (t # ts) modes ax mx =
    (case parse_axis_ref t of
       None \<Rightarrow> (ax, False)
     | Some (sl, n) \<Rightarrow>
         (case cfg_add_axis ax mx sl n modes [] of
            None \<Rightarrow> (ax, False)
          | Some ax' \<Rightarrow> parse_list_loop ts modes ax' mx))"

definition ecm_axis_parse_list :: "string \<Rightarrow> u32 \<Rightarrow> ecm_axis_cfg list \<Rightarrow> nat \<Rightarrow> ecm_axis_cfg list \<times> bool" where
  "ecm_axis_parse_list s modes ax mx =
    (let ts = strtok_all '','' (fit 256 s) in
     if ts = [] then (ax, False) else parse_list_loop ts modes ax mx)"

section \<open>The axis file\<close>

fun line_opts :: "string list \<Rightarrow> string option \<Rightarrow> string option \<Rightarrow> (string option \<times> string option) option" where
  "line_opts (k # v # ts) mstr nm =
    (if k = ''modes'' then line_opts ts (Some v) nm
     else if k = ''name'' then line_opts ts mstr (Some v)
     else None)"
| "line_opts _ mstr nm = Some (mstr, nm)"

definition load_axis :: "string \<Rightarrow> u32 \<Rightarrow> string option \<Rightarrow> ecm_axis_cfg list \<Rightarrow> nat \<Rightarrow> ecm_axis_cfg list \<times> bool" where
  "load_axis ref m nm ax mx =
    (let (ax', ok) = ecm_axis_parse_list ref m ax mx in
     if \<not> ok \<or> length ax' \<noteq> length ax + 1 then (ax', False)
     else (case nm of
             None \<Rightarrow> (ax', True)
           | Some s \<Rightarrow> (ax'[length ax' - 1 := (last ax')\<lparr>ax_name := fit 24 s\<rparr>], True)))"

definition load_line :: "string \<Rightarrow> ecm_axis_cfg list \<Rightarrow> nat \<Rightarrow> ecm_axis_cfg list \<times> bool" where
  "load_line line ax mx =
    (let toks = take 8 (strtok_all [CHR '' '', CHR 0x09, CHR 0x0D, CHR 0x0A]
                  (takeWhile (\<lambda>c. c \<noteq> CHR ''#'') line)) in
     if toks = [] then (ax, True)
     else if toks ! 0 \<noteq> ''axis'' \<or> length toks < 4 then (ax, False)
     else (case line_opts (drop 2 toks) None None of
         Some (Some mstr, nm) \<Rightarrow>
           (case ecm_axis_parse_modes mstr of
              None \<Rightarrow> (ax, False)
            | Some m \<Rightarrow> load_axis (toks ! 1) m nm ax mx)
       | _ \<Rightarrow> (ax, False)))"

fun load_lines :: "string list \<Rightarrow> ecm_axis_cfg list \<Rightarrow> nat \<Rightarrow> ecm_axis_cfg list \<times> bool" where
  "load_lines [] ax mx = (ax, True)"
| "load_lines (l # ls) ax mx =
    (let (ax', ok) = load_line l ax mx in if ok then load_lines ls ax' mx else (ax', False))"

text \<open>\<open>None\<close> for the lines is a file that cannot be opened.\<close>

definition ecm_axis_load_cfg :: "string list option \<Rightarrow> ecm_axis_cfg list \<Rightarrow> nat \<Rightarrow> ecm_axis_cfg list \<times> bool" where
  "ecm_axis_load_cfg file ax mx =
    (case file of
       None \<Rightarrow> (ax, False)
     | Some ls \<Rightarrow> let (ax', ok) = load_lines ls ax mx in (ax', ok \<and> ax' \<noteq> []))"

section \<open>Binding\<close>

definition ecm_axis_index :: "ecm_axis_cfg \<Rightarrow> u16 \<Rightarrow> u16" where
  "ecm_axis_index a base = base + 0x800 * ucast (ax_n a)"

definition need :: "ecm_axis_cfg \<Rightarrow> ecm_pdo_table \<Rightarrow> (nat \<Rightarrow> ecm_pdo_loc) \<Rightarrow> u16 \<Rightarrow> ecm_pdo_dir \<Rightarrow> bool
    \<Rightarrow> ecm_pdo_handle option" where
  "need a t loc base d optional =
    (case ecm_pdo_bind t loc (uint (ax_slave a)) (ecm_axis_index a base) 0 of
       None \<Rightarrow> if optional then Some handle_zero else None
     | Some h \<Rightarrow> if h_dir h \<noteq> d then None else Some h)"

text \<open>A call whose result is ignored leaves the handle absent when it fails.\<close>

definition want :: "ecm_axis_cfg \<Rightarrow> ecm_pdo_table \<Rightarrow> (nat \<Rightarrow> ecm_pdo_loc) \<Rightarrow> u16 \<Rightarrow> ecm_pdo_dir \<Rightarrow> ecm_pdo_handle" where
  "want a t loc base d = (case need a t loc base d True of None \<Rightarrow> handle_zero | Some h \<Rightarrow> h)"

definition need_if :: "bool \<Rightarrow> ecm_axis_cfg \<Rightarrow> ecm_pdo_table \<Rightarrow> (nat \<Rightarrow> ecm_pdo_loc) \<Rightarrow> u16 \<Rightarrow> ecm_pdo_dir
    \<Rightarrow> ecm_pdo_handle option" where
  "need_if c a t loc base d = (if c then need a t loc base d False else Some handle_zero)"

definition ecm_axis_bind :: "ecm_axis_cfg \<Rightarrow> ecm_pdo_table \<Rightarrow> (nat \<Rightarrow> ecm_pdo_loc) \<Rightarrow> ecm_axis_bind_t option" where
  "ecm_axis_bind a t loc =
    (let m = ax_modes a in
     if m = 0 \<or> m AND NOT ECM_MODE_KNOWN \<noteq> 0 then None
     else
     Option.bind (need a t loc 0x6040 ECM_PDO_OUT False) (\<lambda>cw.
     Option.bind (need a t loc 0x6041 ECM_PDO_IN False) (\<lambda>sw.
     Option.bind (need_if (m AND (ECM_MODE_CSP OR ECM_MODE_PP) \<noteq> 0) a t loc 0x607A ECM_PDO_OUT) (\<lambda>tpos.
     Option.bind (need_if (m AND (ECM_MODE_CSP OR ECM_MODE_PP OR ECM_MODE_HM) \<noteq> 0) a t loc 0x6064 ECM_PDO_IN) (\<lambda>apos.
     let vel = m AND (ECM_MODE_CSV OR ECM_MODE_PV) \<noteq> 0 in
     Option.bind (need_if vel a t loc 0x60FF ECM_PDO_OUT) (\<lambda>tvel.
     let avel = if vel then want a t loc 0x606C ECM_PDO_IN else handle_zero in
     Option.bind (if vel \<and> h_bits avel = 0 then need a t loc 0x6064 ECM_PDO_IN False else Some apos) (\<lambda>apos.
     Option.bind (need_if (m AND ECM_MODE_CST \<noteq> 0) a t loc 0x6071 ECM_PDO_OUT) (\<lambda>ttq.
     Option.bind (need_if (m AND ECM_MODE_CST \<noteq> 0) a t loc 0x6077 ECM_PDO_IN) (\<lambda>atq.
     let several = m AND (m - 1) \<noteq> 0 in
     Option.bind (need a t loc 0x6060 ECM_PDO_OUT (\<not> several)) (\<lambda>mode.
     Option.bind (need a t loc 0x6061 ECM_PDO_IN (\<not> several)) (\<lambda>disp.
     Some \<lparr>b_cw = cw, b_sw = sw, b_tpos = tpos,
       b_apos = (if h_bits apos = 0 then want a t loc 0x6064 ECM_PDO_IN else apos),
       b_tvel = tvel,
       b_avel = (if h_bits avel = 0 then want a t loc 0x606C ECM_PDO_IN else avel),
       b_ttq = ttq, b_atq = atq, b_mode = mode, b_mode_disp = disp,
       b_err = want a t loc 0x603F ECM_PDO_IN,
       mode_by_sdo = (h_bits mode = 0)\<rparr>)))))))))))"

definition ecm_axis_check_modes :: "ecm_axis_cfg \<Rightarrow> u32 \<Rightarrow> bool" where
  "ecm_axis_check_modes a supported \<longleftrightarrow> ax_modes a AND NOT supported = 0"

section \<open>Mode lists print and parse\<close>

lemma mode_upper:
  "map toupper ''pp'' = ''PP''" "map toupper ''pv'' = ''PV''" "map toupper ''hm'' = ''HM''"
  "map toupper ''csp'' = ''CSP''" "map toupper ''csv'' = ''CSV''" "map toupper ''cst'' = ''CST''"
  by (simp_all add: ctype_eval)

lemma mode_lookup_upper:
  "mode_lookup MODES ''PP'' = Some ECM_MODE_PP" "mode_lookup MODES ''PV'' = Some ECM_MODE_PV"
  "mode_lookup MODES ''HM'' = Some ECM_MODE_HM" "mode_lookup MODES ''CSP'' = Some ECM_MODE_CSP"
  "mode_lookup MODES ''CSV'' = Some ECM_MODE_CSV" "mode_lookup MODES ''CST'' = Some ECM_MODE_CST"
  by (simp_all add: MODES_def strcaseeq_def ctype_eval)

text \<open>The text of a set of modes, given which of the six are in it.\<close>

definition mode_text :: "bool \<Rightarrow> bool \<Rightarrow> bool \<Rightarrow> bool \<Rightarrow> bool \<Rightarrow> bool \<Rightarrow> string list" where
  "mode_text a b c d e f = (if a then [''PP''] else []) @ (if b then [''PV''] else []) @
     (if c then [''HM''] else []) @ (if d then [''CSP''] else []) @ (if e then [''CSV''] else []) @
     (if f then [''CST''] else [])"

lemma modes_str_text:
  "ecm_axis_modes_str m 64 = join (CHR '','') (mode_text
     (m AND ECM_MODE_PP \<noteq> 0) (m AND ECM_MODE_PV \<noteq> 0) (m AND ECM_MODE_HM \<noteq> 0)
     (m AND ECM_MODE_CSP \<noteq> 0) (m AND ECM_MODE_CSV \<noteq> 0) (m AND ECM_MODE_CST \<noteq> 0))"
  unfolding ecm_axis_modes_str_def MODES_def mode_text_def
  by (simp only: modes_str_loop.simps fst_conv snd_conv mode_upper) simp

lemma mode_text_parse:
  "parse_modes_loop (mode_text a b c d e f) 0 =
    (let m = (if a then ECM_MODE_PP else 0) OR (if b then ECM_MODE_PV else 0) OR (if c then ECM_MODE_HM else 0)
        OR (if d then ECM_MODE_CSP else 0) OR (if e then ECM_MODE_CSV else 0) OR (if f then ECM_MODE_CST else 0)
     in if m = 0 then None else Some m)"
  by (cases a; cases b; cases c; cases d; cases e; cases f) (simp_all add: mode_text_def mode_lookup_upper)

lemma and_pow_word: "w AND 2 ^ n = (if bit w n then 2 ^ n else 0)" for w :: "'a::len word"
  by (rule bit_word_eqI) (auto simp: bit_and_iff bit_exp_iff)

lemma and_mode_bit:
  fixes m :: u32
  shows "m AND ECM_MODE_PP = (if m AND ECM_MODE_PP \<noteq> 0 then ECM_MODE_PP else 0)"
    "m AND ECM_MODE_PV = (if m AND ECM_MODE_PV \<noteq> 0 then ECM_MODE_PV else 0)"
    "m AND ECM_MODE_HM = (if m AND ECM_MODE_HM \<noteq> 0 then ECM_MODE_HM else 0)"
    "m AND ECM_MODE_CSP = (if m AND ECM_MODE_CSP \<noteq> 0 then ECM_MODE_CSP else 0)"
    "m AND ECM_MODE_CSV = (if m AND ECM_MODE_CSV \<noteq> 0 then ECM_MODE_CSV else 0)"
    "m AND ECM_MODE_CST = (if m AND ECM_MODE_CST \<noteq> 0 then ECM_MODE_CST else 0)"
  using and_pow_word [of m 0] and_pow_word [of m 2] and_pow_word [of m 5]
    and_pow_word [of m 7] and_pow_word [of m 8] and_pow_word [of m 9]
  by (auto split: if_splits)

lemma known_modes_split:
  fixes m :: u32
  assumes "m AND NOT ECM_MODE_KNOWN = 0"
  shows "m = (m AND ECM_MODE_PP) OR (m AND ECM_MODE_PV) OR (m AND ECM_MODE_HM) OR
    (m AND ECM_MODE_CSP) OR (m AND ECM_MODE_CSV) OR (m AND ECM_MODE_CST)"
proof -
  have "m = (m AND ECM_MODE_KNOWN) OR (m AND NOT ECM_MODE_KNOWN)"
    by (rule bit_word_eqI) (auto simp: bit_simps)
  also have "\<dots> = m AND ECM_MODE_KNOWN" using assms by simp
  also have "\<dots> = (m AND ECM_MODE_PP) OR (m AND ECM_MODE_PV) OR (m AND ECM_MODE_HM) OR
      (m AND ECM_MODE_CSP) OR (m AND ECM_MODE_CSV) OR (m AND ECM_MODE_CST)"
    unfolding ECM_MODE_KNOWN_def by (simp only: bit.conj_disj_distrib)
  finally show ?thesis .
qed

lemma modes_roundtrip:
  assumes "m \<noteq> 0" and "m AND NOT ECM_MODE_KNOWN = 0"
  shows "ecm_axis_parse_modes (ecm_axis_modes_str m 64) = Some m"
proof -
  let ?ts = "mode_text (m AND ECM_MODE_PP \<noteq> 0) (m AND ECM_MODE_PV \<noteq> 0) (m AND ECM_MODE_HM \<noteq> 0)
     (m AND ECM_MODE_CSP \<noteq> 0) (m AND ECM_MODE_CSV \<noteq> 0) (m AND ECM_MODE_CST \<noteq> 0)"
  have len: "length (join (CHR '','') (mode_text a b c d e f)) \<le> 127" for a b c d e f
    by (cases a; cases b; cases c; cases d; cases e; cases f) (simp_all add: mode_text_def)
  have tok: "strtok_all '','' (join (CHR '','') ?ts) = ?ts"
    by (rule strtok_all_join) (auto simp: mode_text_def split: if_splits)
  have "ecm_axis_parse_modes (ecm_axis_modes_str m 64) = parse_modes_loop ?ts 0"
    unfolding ecm_axis_parse_modes_def modes_str_text fit_def using len tok by simp
  also have "\<dots> = Some m"
    unfolding mode_text_parse and_mode_bit [symmetric] known_modes_split [OF assms(2), symmetric]
    using assms(1) by (simp add: Let_def)
  finally show ?thesis .
qed

section \<open>Axis lists are well formed\<close>

definition axes_wf :: "nat \<Rightarrow> ecm_axis_cfg list \<Rightarrow> bool" where
  "axes_wf mx ax \<longleftrightarrow> length ax \<le> mx \<and> distinct (map (\<lambda>a. (ax_slave a, ax_n a)) ax) \<and>
     (\<forall>a\<in>set ax. 1 \<le> uint (ax_slave a) \<and> uint (ax_slave a) \<le> ECM_PDO_MAX_SLAVES \<and>
        uint (ax_n a) \<le> 7 \<and> length (ax_name a) < 24)"

lemma axes_wf_add:
  assumes "axes_wf mx ax" and "cfg_add_axis ax mx sl n modes nm = Some ax'"
  shows "axes_wf mx ax' \<and> length ax' = length ax + 1"
proof -
  have g: "1 \<le> sl" "sl \<le> 64" "0 \<le> n" "n \<le> 7" "length ax < mx"
    "\<not> (\<exists>a\<in>set ax. uint (ax_slave a) = sl \<and> uint (ax_n a) = n)"
    and ax': "ax' = ax @ [\<lparr>ax_slave = of_int sl, ax_n = of_int n, ax_modes = modes,
        ax_name = fit 24 (if nm \<noteq> [] then nm else int_str sl @ '':'' @ int_str n)\<rparr>]"
    using assms(2) by (auto simp: cfg_add_axis_def split: if_splits)
  have u: "uint (of_int sl :: u16) = sl" "uint (of_int n :: u8) = n"
    using g by (simp_all add: uint_word_of_int_eq take_bit_int_eq_self)
  have f: "length (fit 24 s) < 24" for s using fit_length [of 24 s] by linarith
  show ?thesis
    using assms(1) g u f unfolding ax' axes_wf_def by (auto simp: image_iff)
qed

lemma axes_wf_parse_list:
  assumes "axes_wf mx ax" and "ecm_axis_parse_list s modes ax mx = (ax', ok)"
  shows "axes_wf mx ax'"
proof -
  have "axes_wf mx ax'" if "axes_wf mx ax" and "parse_list_loop ts modes ax mx = (ax', ok)" for ts ax
    using that
  proof (induction ts arbitrary: ax)
    case (Cons t ts)
    then show ?case
      using axes_wf_add [of mx ax] by (fastforce split: option.splits prod.splits)
  qed simp
  with assms show ?thesis by (auto simp: ecm_axis_parse_list_def Let_def split: if_splits)
qed

lemma axes_wf_rename:
  assumes "axes_wf mx ax" and "ax \<noteq> []"
  shows "axes_wf mx (ax[length ax - 1 := (last ax)\<lparr>ax_name := fit 24 s\<rparr>])"
proof -
  obtain ys y where ax: "ax = ys @ [y]" using assms(2) by (meson rev_exhaust)
  have "length (fit 24 s) < 24" using fit_length [of 24 s] by linarith
  with assms(1) show ?thesis unfolding ax axes_wf_def by (auto simp: list_update_append)
qed

lemma axes_wf_load_axis:
  assumes "axes_wf mx ax"
  shows "axes_wf mx (fst (load_axis ref m nm ax mx))"
proof -
  obtain ax' ok where p: "ecm_axis_parse_list ref m ax mx = (ax', ok)" by fastforce
  have w: "axes_wf mx ax'" using axes_wf_parse_list [OF assms p] .
  show ?thesis
  proof (cases "\<not> ok \<or> length ax' \<noteq> length ax + 1")
    case False
    then have "ax' \<noteq> []" by auto
    with False w axes_wf_rename [OF w this] show ?thesis by (simp add: load_axis_def p split: option.splits)
  qed (simp add: load_axis_def p w)
qed

lemma axes_wf_load_line:
  assumes "axes_wf mx ax"
  shows "axes_wf mx (fst (load_line l ax mx))"
  unfolding load_line_def Let_def
  by (simp add: assms axes_wf_load_axis split: if_splits option.split prod.split)

lemma axes_wf_load_lines:
  "axes_wf mx ax \<Longrightarrow> load_lines ls ax mx = (ax', ok) \<Longrightarrow> axes_wf mx ax'"
proof (induction ls arbitrary: ax)
  case (Cons l ls)
  then show ?case
    using axes_wf_load_line [of mx ax l] by (auto split: prod.splits if_splits)
qed simp

section \<open>A bound axis\<close>

lemma need_Some:
  assumes "need a t loc base d opt = Some h"
  shows "(opt \<and> h = handle_zero) \<or>
    (ecm_pdo_bind t loc (uint (ax_slave a)) (ecm_axis_index a base) 0 = Some h \<and> h_dir h = d)"
  using assms by (auto simp: need_def split: option.splits if_splits)

lemma want_cases:
  "want a t loc base d = handle_zero \<or>
    (ecm_pdo_bind t loc (uint (ax_slave a)) (ecm_axis_index a base) 0 = Some (want a t loc base d) \<and>
     h_dir (want a t loc base d) = d)"
  using need_Some [of a t loc base d True] by (auto simp: want_def split: option.splits)

lemma need_if_Some:
  assumes "need_if c a t loc base d = Some h"
  shows "(\<not> c \<and> h = handle_zero) \<or>
    (ecm_pdo_bind t loc (uint (ax_slave a)) (ecm_axis_index a base) 0 = Some h \<and> h_dir h = d)"
  using assms need_Some [of a t loc base d False h] by (auto simp: need_if_def split: if_splits)

text \<open>Absent, or bound to the axis's object in the right direction.\<close>

definition bound_as :: "ecm_axis_cfg \<Rightarrow> ecm_pdo_table \<Rightarrow> (nat \<Rightarrow> ecm_pdo_loc) \<Rightarrow> u16 \<Rightarrow> ecm_pdo_dir \<Rightarrow> ecm_pdo_handle \<Rightarrow> bool" where
  "bound_as a t loc base d h \<longleftrightarrow> h = handle_zero \<or>
    (ecm_pdo_bind t loc (uint (ax_slave a)) (ecm_axis_index a base) 0 = Some h \<and> h_dir h = d)"

lemma axis_bindE:
  assumes "ecm_axis_bind a t loc = Some b"
  obtains cw tpos tvel mode where
    "need a t loc 0x6040 ECM_PDO_OUT False = Some cw"
    "need_if (ax_modes a AND (ECM_MODE_CSP OR ECM_MODE_PP) \<noteq> 0) a t loc 0x607A ECM_PDO_OUT = Some tpos"
    "need_if (ax_modes a AND (ECM_MODE_CSV OR ECM_MODE_PV) \<noteq> 0) a t loc 0x60FF ECM_PDO_OUT = Some tvel"
    "need a t loc 0x6060 ECM_PDO_OUT (\<not> ax_modes a AND (ax_modes a - 1) \<noteq> 0) = Some mode"
    "b_cw b = cw" "b_tpos b = tpos" "b_tvel b = tvel" "b_mode b = mode"
proof (cases "ax_modes a = 0 \<or> ax_modes a AND NOT ECM_MODE_KNOWN \<noteq> 0")
  case True
  with assms show ?thesis by (simp add: ecm_axis_bind_def)
next
  case False
  show ?thesis
    using assms that unfolding ecm_axis_bind_def Let_def if_not_P [OF False]
    by (clarsimp simp only: bind_eq_Some_conv option.inject) simp
qed

text \<open>Two handles share no bit, and neither wraps.\<close>

definition apart :: "ecm_pdo_handle \<Rightarrow> ecm_pdo_handle \<Rightarrow> bool" where
  "apart h g \<longleftrightarrow> (\<forall>p. \<not> (in_handle h p \<and> in_handle g p))"

definition axis_bind_ok :: "ecm_axis_bind_t \<Rightarrow> bool" where
  "axis_bind_ok b \<longleftrightarrow>
     handle_ok (b_cw b) \<and> handle_ok (b_tpos b) \<and> handle_ok (b_tvel b) \<and> handle_ok (b_mode b) \<and>
     apart (b_cw b) (b_tpos b) \<and> apart (b_cw b) (b_tvel b) \<and> apart (b_cw b) (b_mode b) \<and>
     apart (b_tpos b) (b_mode b) \<and> apart (b_tvel b) (b_mode b) \<and> apart (b_tpos b) (b_tvel b)"

lemma apart_sym: "apart h g \<Longrightarrow> apart g h"
  by (auto simp: apart_def)

lemma handle_zero_apart [simp]: "handle_ok handle_zero" "apart handle_zero g" "apart g handle_zero"
  by (simp_all add: handle_ok_def handle_zero_def apart_def in_handle_def)

definition out_room :: "ecm_axis_cfg \<Rightarrow> ecm_pdo_table \<Rightarrow> (nat \<Rightarrow> ecm_pdo_loc) \<Rightarrow> bool" where
  "out_room a t loc \<longleftrightarrow> unat (loc_base loc ECM_PDO_OUT (nat (uint (ax_slave a))))
     + unat (totals t ECM_PDO_OUT (nat (uint (ax_slave a)))) < 2 ^ 32"

lemma bound_apart:
  assumes "table_wf t" and "out_room a t loc"
    and "bound_as a t loc x ECM_PDO_OUT h" and "bound_as a t loc y ECM_PDO_OUT g" and "x \<noteq> y"
  shows "handle_ok h \<and> handle_ok g \<and> apart h g"
proof (cases "h = handle_zero \<or> g = handle_zero")
  case False
  then have h: "ecm_pdo_bind t loc (uint (ax_slave a)) (ecm_axis_index a x) 0 = Some h" "h_dir h = ECM_PDO_OUT"
    and g: "ecm_pdo_bind t loc (uint (ax_slave a)) (ecm_axis_index a y) 0 = Some g" "h_dir g = ECM_PDO_OUT"
    using assms(3,4) by (auto simp: bound_as_def)
  have "ecm_axis_index a x \<noteq> ecm_axis_index a y" using assms(5) by (simp add: ecm_axis_index_def)
  with bind_handles_apart [OF assms(1) h(1) g(1)] h(2) g(2) assms(2) show ?thesis
    by (simp add: out_room_def apart_def)
next
  case True
  have ok: "handle_ok k" if "bound_as a t loc z ECM_PDO_OUT k" for z k
    using that
  proof (cases "k = handle_zero")
    case False
    then have k: "ecm_pdo_bind t loc (uint (ax_slave a)) (ecm_axis_index a z) 0 = Some k"
      and d: "h_dir k = ECM_PDO_OUT"
      using that by (auto simp: bound_as_def)
    from k obtain i where i: "i < length (entries t)" "k = bind_handle loc (uint (ax_slave a)) (entries t ! i)"
      "uint (pe_slave (entries t ! i)) = uint (ax_slave a)" "pe_bits (entries t ! i) \<le> 64"
      by (rule bind_entry)
    have dr: "pe_dir (entries t ! i) = ECM_PDO_OUT" using d i(2) by (simp add: bind_handle_def)
    have sl: "unat (pe_slave (entries t ! i)) = nat (uint (ax_slave a))"
      using i(3) by (simp only: unat_eq_nat_uint)
    show ?thesis
      unfolding i(2) by (rule bind_handle_range(1) [OF assms(1) i(1) _ i(4)])
        (use assms(2) in \<open>simp only: out_room_def dr sl\<close>)
  qed simp
  with True assms(3,4) show ?thesis by auto
qed

lemma axis_bind_apart:
  assumes "table_wf t" and "out_room a t loc" and "ecm_axis_bind a t loc = Some b"
  shows "axis_bind_ok b"
proof -
  obtain cw tpos tvel mode where n:
    "need a t loc 0x6040 ECM_PDO_OUT False = Some cw"
    "need_if (ax_modes a AND (ECM_MODE_CSP OR ECM_MODE_PP) \<noteq> 0) a t loc 0x607A ECM_PDO_OUT = Some tpos"
    "need_if (ax_modes a AND (ECM_MODE_CSV OR ECM_MODE_PV) \<noteq> 0) a t loc 0x60FF ECM_PDO_OUT = Some tvel"
    "need a t loc 0x6060 ECM_PDO_OUT (\<not> ax_modes a AND (ax_modes a - 1) \<noteq> 0) = Some mode"
    "b_cw b = cw" "b_tpos b = tpos" "b_tvel b = tvel" "b_mode b = mode"
    using assms(3) by (rule axis_bindE)
  have bs: "bound_as a t loc 0x6040 ECM_PDO_OUT cw" "bound_as a t loc 0x607A ECM_PDO_OUT tpos"
    "bound_as a t loc 0x60FF ECM_PDO_OUT tvel" "bound_as a t loc 0x6060 ECM_PDO_OUT mode"
    unfolding bound_as_def
    using need_Some [OF n(1)] need_if_Some [OF n(2)] need_if_Some [OF n(3)] need_Some [OF n(4)] by blast+
  note ap = bound_apart [OF assms(1,2)]
  show ?thesis
    unfolding axis_bind_ok_def n(5-8)
    using ap [OF bs(1,2)] ap [OF bs(1,3)] ap [OF bs(1,4)] ap [OF bs(2,4)] ap [OF bs(3,4)] ap [OF bs(2,3)]
    by simp
qed

section \<open>Properties\<close>

text \<open>The mode list printed for a configured axis parses back to the same modes.\<close>

theorem axis_modes_roundtrip:
  assumes "m \<noteq> 0" and "m AND NOT ECM_MODE_KNOWN = 0"
  shows "ecm_axis_parse_modes (ecm_axis_modes_str m 64) = Some m"
  using assms by (rule modes_roundtrip)

text \<open>C11. Whatever the axis file holds, the axes loaded from it fit the table, name a
  slave of the process data table and an axis 0..7 of it, and no axis twice; the load
  succeeds only with at least one axis. On an error the axes of the lines before it
  stay, still well formed.\<close>

theorem axis_file_wf:
  assumes "axes_wf mx ax" and "ecm_axis_load_cfg file ax mx = (ax', ok)"
  shows "axes_wf mx ax' \<and> (ok \<longrightarrow> ax' \<noteq> [])"
proof (cases "file")
  case (Some ls)
  obtain ay o1 where l: "load_lines ls ax mx = (ay, o1)" by fastforce
  with assms(2) Some have "ax' = ay" "ok = (o1 \<and> ay \<noteq> [])" by (auto simp: ecm_axis_load_cfg_def)
  with axes_wf_load_lines [OF assms(1) l] show ?thesis by simp
qed (use assms in \<open>simp add: ecm_axis_load_cfg_def\<close>)

lemma axes_wf_empty: "axes_wf mx []"
  by (simp add: axes_wf_def)

theorem axis_file_wf_witness:
  "axes_wf 2 (fst (ecm_axis_load_cfg (Some [''axis 1:0 modes csp,csv name x'', ''axis 1:0 modes pp'']) [] 2))"
  using axis_file_wf [OF axes_wf_empty surjective_pairing] by blast

text \<open>The outputs an axis binds (controlword, target position, target velocity, mode)
  never overlap: a write to one leaves what the drive reads from the others.\<close>

theorem axis_outputs_disjoint:
  assumes "table_wf t" and "out_room a t loc" and "ecm_axis_bind a t loc = Some b"
    and "h \<in> {b_cw b, b_tpos b, b_tvel b, b_mode b}" and "g \<in> {b_cw b, b_tpos b, b_tvel b, b_mode b}"
    and "h \<noteq> g"
  shows "ecm_pdo_get g (ecm_pdo_set h io v) = ecm_pdo_get g io \<and>
    ecm_pdo_get h (ecm_pdo_set h io v) = take_bit (unat (h_bits h)) v"
proof -
  have ok: "axis_bind_ok b" using assms(1-3) by (rule axis_bind_apart)
  have hg: "handle_ok h" "handle_ok g" "apart h g"
    using ok assms(4-6) apart_sym unfolding axis_bind_ok_def by auto
  then show ?thesis
    by (auto simp: apart_def intro: pdo_get_set_other pdo_get_set_same)
qed

definition demo_table :: ecm_pdo_table where
  "demo_table = the (ecm_pdo_add (the (ecm_pdo_add (the (ecm_pdo_add (the (ecm_pdo_add ecm_pdo_table_init
     1 ECM_PDO_OUT 0x1600 0x6040 0 16)) 1 ECM_PDO_OUT 0x1600 0x607A 0 32))
     1 ECM_PDO_IN 0x1A00 0x6041 0 16)) 1 ECM_PDO_IN 0x1A00 0x6064 0 32)"

lemmas table_eval = ecm_pdo_add_def ecm_pdo_table_init_def Let_def

lemma demo_table_wf: "table_wf demo_table"
proof -
  define a where "a = the (ecm_pdo_add ecm_pdo_table_init 1 ECM_PDO_OUT 0x1600 0x6040 0 16)"
  define b where "b = the (ecm_pdo_add a 1 ECM_PDO_OUT 0x1600 0x607A 0 32)"
  define c where "c = the (ecm_pdo_add b 1 ECM_PDO_IN 0x1A00 0x6041 0 16)"
  have "ecm_pdo_add ecm_pdo_table_init 1 ECM_PDO_OUT 0x1600 0x6040 0 16 = Some a" by (simp add: a_def table_eval)
  moreover have "ecm_pdo_add a 1 ECM_PDO_OUT 0x1600 0x607A 0 32 = Some b" by (simp add: a_def b_def table_eval)
  moreover have "ecm_pdo_add b 1 ECM_PDO_IN 0x1A00 0x6041 0 16 = Some c" by (simp add: a_def b_def c_def table_eval)
  moreover have "ecm_pdo_add c 1 ECM_PDO_IN 0x1A00 0x6064 0 32 = Some demo_table"
    by (simp add: a_def b_def c_def demo_table_def table_eval)
  ultimately show ?thesis using table_wf_init by (blast intro: table_wf_add)
qed

end
