(* ===== verification/Cia402_Axis.thy ===== *)
theory Cia402_Axis
  imports Cia402_Cfg Xchg
begin

text \<open>
  The CiA 402 axis layer (\<open>libecm_cia402/ecm_cia402_axis.c\<close>): statusword
  decoding, the commands, the per-tick step of one axis with its safety latches
  S1 to S7, the profile modes, and the published state. \<open>axis_rt\<close> is the C
  function of that name, composed of one definition per numbered stage of its
  body. The negative-control switch \<open>ECM_CIA402_BROKEN\<close> is 0, as in every product
  build. Signed 64-bit differences are exact integers.
\<close>

section \<open>Data\<close>

datatype ecm_ds = ECM_DS_UNKNOWN | ECM_DS_NOT_READY | ECM_DS_SOD | ECM_DS_RTSO | ECM_DS_SO
  | ECM_DS_OE | ECM_DS_QSA | ECM_DS_FRA | ECM_DS_FAULT

datatype ecm_tgt = ECM_TGT_DISABLED | ECM_TGT_ENABLED | ECM_TGT_QUICKSTOP

datatype ecm_hm = ECM_HM_IDLE | ECM_HM_RUNNING | ECM_HM_DONE | ECM_HM_FAILED

primrec ds_num :: "ecm_ds \<Rightarrow> u8" where
  "ds_num ECM_DS_UNKNOWN = 0" | "ds_num ECM_DS_NOT_READY = 1" | "ds_num ECM_DS_SOD = 2"
| "ds_num ECM_DS_RTSO = 3" | "ds_num ECM_DS_SO = 4" | "ds_num ECM_DS_OE = 5"
| "ds_num ECM_DS_QSA = 6" | "ds_num ECM_DS_FRA = 7" | "ds_num ECM_DS_FAULT = 8"

primrec tgt_num :: "ecm_tgt \<Rightarrow> u8" where
  "tgt_num ECM_TGT_DISABLED = 0" | "tgt_num ECM_TGT_ENABLED = 1" | "tgt_num ECM_TGT_QUICKSTOP = 2"

primrec hm_num :: "ecm_hm \<Rightarrow> u8" where
  "hm_num ECM_HM_IDLE = 0" | "hm_num ECM_HM_RUNNING = 1" | "hm_num ECM_HM_DONE = 2" | "hm_num ECM_HM_FAILED = 3"

abbreviation ECM_AXERR_NONE :: u8 where "ECM_AXERR_NONE \<equiv> 0"
abbreviation ECM_AXERR_TIMEOUT :: u8 where "ECM_AXERR_TIMEOUT \<equiv> 1"
abbreviation ECM_AXERR_FAULT :: u8 where "ECM_AXERR_FAULT \<equiv> 2"
abbreviation ECM_AXERR_BUS_LOST :: u8 where "ECM_AXERR_BUS_LOST \<equiv> 3"
abbreviation ECM_AXERR_MODE :: u8 where "ECM_AXERR_MODE \<equiv> 4"
abbreviation ECM_AXERR_IN_FAULT :: u8 where "ECM_AXERR_IN_FAULT \<equiv> 5"
abbreviation ECM_AXERR_DROPPED :: u8 where "ECM_AXERR_DROPPED \<equiv> 6"
abbreviation ECM_AXERR_STEP :: u8 where "ECM_AXERR_STEP \<equiv> 7"
abbreviation ECM_AXERR_SHUTDOWN :: u8 where "ECM_AXERR_SHUTDOWN \<equiv> 8"
abbreviation ECM_AXERR_HANDSHAKE :: u8 where "ECM_AXERR_HANDSHAKE \<equiv> 9"
abbreviation ECM_AXERR_HOMING :: u8 where "ECM_AXERR_HOMING \<equiv> 10"

abbreviation ECM_CIA_OP_ENABLE :: u16 where "ECM_CIA_OP_ENABLE \<equiv> 0x101"
abbreviation ECM_CIA_OP_DISABLE :: u16 where "ECM_CIA_OP_DISABLE \<equiv> 0x102"
abbreviation ECM_CIA_OP_QUICKSTOP :: u16 where "ECM_CIA_OP_QUICKSTOP \<equiv> 0x103"
abbreviation ECM_CIA_OP_FAULT_RESET :: u16 where "ECM_CIA_OP_FAULT_RESET \<equiv> 0x104"
abbreviation ECM_CIA_OP_SET_MODE :: u16 where "ECM_CIA_OP_SET_MODE \<equiv> 0x105"
abbreviation ECM_CIA_OP_PP_POINT :: u16 where "ECM_CIA_OP_PP_POINT \<equiv> 0x106"
abbreviation ECM_CIA_OP_PV_VEL :: u16 where "ECM_CIA_OP_PV_VEL \<equiv> 0x107"
abbreviation ECM_CIA_OP_HOME :: u16 where "ECM_CIA_OP_HOME \<equiv> 0x108"

abbreviation ECM_OPMODE_PP :: int where "ECM_OPMODE_PP \<equiv> 1"
abbreviation ECM_OPMODE_PV :: int where "ECM_OPMODE_PV \<equiv> 3"
abbreviation ECM_OPMODE_HM :: int where "ECM_OPMODE_HM \<equiv> 6"
abbreviation ECM_OPMODE_CSP :: int where "ECM_OPMODE_CSP \<equiv> 8"
abbreviation ECM_OPMODE_CSV :: int where "ECM_OPMODE_CSV \<equiv> 9"

abbreviation ECM_PP_REL :: u8 where "ECM_PP_REL \<equiv> 1"
abbreviation ECM_PP_IMM :: u8 where "ECM_PP_IMM \<equiv> 2"

record ecm_cia402_axis =
  a_cfg :: ecm_axis_cfg
  a_b :: ecm_axis_bind_t
  a_ds :: ecm_ds
  a_ds_wait :: ecm_ds
  a_sw :: u16
  a_cw :: u16
  a_target :: ecm_tgt
  a_err :: u8
  a_err_ds :: u8
  a_reset_pulse :: u8
  a_armed :: bool
  a_mode_ok :: bool
  a_mode_req :: int
  a_mode_disp :: int
  a_apos :: int
  a_avel :: int
  a_apos_prev :: int
  a_apos_prev_ok :: bool
  a_ecode :: u16
  a_last_sp :: int
  a_last_delta :: int
  a_last_sent :: int
  a_max_step_pos :: int
  a_max_step_vel :: int
  a_step_seen :: int
  a_reached_oe :: bool
  a_pp_q :: "nat \<Rightarrow> int"
  a_pp_qf :: "nat \<Rightarrow> u8"
  a_pp_head :: u8
  a_pp_n :: u8
  a_pp_phase :: u8
  a_pp_flags :: u8
  a_pp_cur :: int
  a_pp_since :: u64
  a_pp_sent :: u64
  a_pp_acked :: u64
  a_pp_lost :: u64
  a_pv_vel :: int
  a_hm_phase :: ecm_hm
  a_hm_seen_low :: bool
  a_homed :: bool
  a_running :: bool
  a_hm_since :: u64
  a_step_since :: u64
  a_used :: u64
  a_late :: u64
  a_underrun :: u64
  a_dropped :: u64
  a_transitions :: u64
  a_step_refused :: u64
  a_last_seq :: u32

record ecm_cia402 =
  naxes :: nat
  cia_cycle_ns :: u64
  step_timeout_ticks :: u32
  home_timeout_ticks :: u32
  c_ax :: "nat \<Rightarrow> ecm_cia402_axis"
  c_cmd :: "ecm_xcmd ecm_xring"
  c_sp :: "nat \<Rightarrow> ecm_xsp ecm_xring"
  c_st :: "nat \<Rightarrow> ecm_xst"
  c_clk :: ecm_xst
  n_applied :: u64
  n_deferred :: u64
  n_bad :: u64
  c_shutdown :: bool
  c_ext_err :: "nat \<Rightarrow> u8"

definition ecm_cia402_decode :: "u16 \<Rightarrow> ecm_ds" where
  "ecm_cia402_decode w =
    (let m = w AND 0x4F; n = w AND 0x6F in
     if m = 0x00 then ECM_DS_NOT_READY
     else if m = 0x40 then ECM_DS_SOD
     else if m = 0x0F then ECM_DS_FRA
     else if m = 0x08 then ECM_DS_FAULT
     else if n = 0x21 then ECM_DS_RTSO
     else if n = 0x23 then ECM_DS_SO
     else if n = 0x27 then ECM_DS_OE
     else if n = 0x07 then ECM_DS_QSA
     else ECM_DS_UNKNOWN)"

section \<open>Setup\<close>

definition axis_zero :: "ecm_axis_cfg \<Rightarrow> ecm_axis_bind_t \<Rightarrow> ecm_cia402_axis" where
  "axis_zero g b = \<lparr>a_cfg = g, a_b = b, a_ds = ECM_DS_UNKNOWN, a_ds_wait = ECM_DS_UNKNOWN, a_sw = 0, a_cw = 0,
     a_target = ECM_TGT_DISABLED, a_err = 0, a_err_ds = 0, a_reset_pulse = 0, a_armed = False, a_mode_ok = False,
     a_mode_req = 0, a_mode_disp = 0, a_apos = 0, a_avel = 0, a_apos_prev = 0, a_apos_prev_ok = False, a_ecode = 0,
     a_last_sp = 0, a_last_delta = 0, a_last_sent = 0, a_max_step_pos = 0, a_max_step_vel = 0, a_step_seen = 0,
     a_reached_oe = False, a_pp_q = (\<lambda>_. 0), a_pp_qf = (\<lambda>_. 0), a_pp_head = 0, a_pp_n = 0, a_pp_phase = 0,
     a_pp_flags = 0, a_pp_cur = 0, a_pp_since = 0, a_pp_sent = 0, a_pp_acked = 0, a_pp_lost = 0, a_pv_vel = 0,
     a_hm_phase = ECM_HM_IDLE, a_hm_seen_low = False, a_homed = False, a_running = False, a_hm_since = 0,
     a_step_since = 0, a_used = 0, a_late = 0, a_underrun = 0, a_dropped = 0, a_transitions = 0,
     a_step_refused = 0, a_last_seq = 0\<rparr>"

definition cfg_zero :: ecm_axis_cfg where
  "cfg_zero = \<lparr>ax_slave = 0, ax_n = 0, ax_modes = 0, ax_name = []\<rparr>"

definition bind_zero :: ecm_axis_bind_t where
  "bind_zero = \<lparr>b_cw = handle_zero, b_sw = handle_zero, b_tpos = handle_zero, b_apos = handle_zero,
     b_tvel = handle_zero, b_avel = handle_zero, b_ttq = handle_zero, b_atq = handle_zero,
     b_mode = handle_zero, b_mode_disp = handle_zero, b_err = handle_zero, mode_by_sdo = False\<rparr>"

text \<open>Milliseconds to ticks, rounded up, at least one; the product wraps at 64 bits and
  the quotient is cut to 32, as in C.\<close>

definition ms_ticks :: "u64 \<Rightarrow> u32 \<Rightarrow> u32" where
  "ms_ticks cyc ms = (let t = ucast ((ucast ms * 1000000 + cyc - 1) div cyc) in if t = 0 then 1 else t)"

definition ecm_cia402_set_home_timeout :: "ecm_cia402 \<Rightarrow> u32 \<Rightarrow> ecm_cia402" where
  "ecm_cia402_set_home_timeout c ms = c\<lparr>home_timeout_ticks := ms_ticks (cia_cycle_ns c) ms\<rparr>"

definition ecm_cia402_init :: "u64 \<Rightarrow> u32 \<Rightarrow> ecm_cia402" where
  "ecm_cia402_init cyc ms =
    (let cy = if cyc \<noteq> 0 then cyc else 1000000 in
     ecm_cia402_set_home_timeout
      \<lparr>naxes = 0, cia_cycle_ns = cy, step_timeout_ticks = ms_ticks cy ms, home_timeout_ticks = 0,
       c_ax = (\<lambda>_. axis_zero cfg_zero bind_zero), c_cmd = ecm_xring_init xcmd_zero ECM_XCHG_CMD_CAP,
       c_sp = (\<lambda>_. ecm_xring_init xsp_zero ECM_XRING_CAP), c_st = (\<lambda>_. xst_zero), c_clk = xst_zero,
       n_applied = 0, n_deferred = 0, n_bad = 0, c_shutdown = False, c_ext_err = (\<lambda>_. 0)\<rparr> 30000)"

definition ecm_cia402_add_axis :: "ecm_cia402 \<Rightarrow> ecm_axis_cfg \<Rightarrow> ecm_axis_bind_t \<Rightarrow> ecm_cia402 \<times> nat option" where
  "ecm_cia402_add_axis c g b =
    (if naxes c \<ge> ECM_AXIS_MAX then (c, None)
     else let m = ax_modes g;
              r = if m AND ECM_MODE_CSP \<noteq> 0 then ECM_OPMODE_CSP
                  else if m AND ECM_MODE_CSV \<noteq> 0 then ECM_OPMODE_CSV
                  else if m AND ECM_MODE_PP \<noteq> 0 then ECM_OPMODE_PP
                  else if m AND ECM_MODE_PV \<noteq> 0 then ECM_OPMODE_PV
                  else if m AND ECM_MODE_HM \<noteq> 0 then ECM_OPMODE_HM else 0
          in (c\<lparr>c_ax := (c_ax c)(naxes c := (axis_zero g b)\<lparr>a_mode_req := r\<rparr>), naxes := naxes c + 1\<rparr>, Some (naxes c)))"

definition ecm_cia402_set_ext_error :: "ecm_cia402 \<Rightarrow> int \<Rightarrow> int \<Rightarrow> ecm_cia402" where
  "ecm_cia402_set_ext_error c axis e =
    (if axis < 0 \<or> axis \<ge> int (naxes c) then c else c\<lparr>c_ext_err := (c_ext_err c)(nat axis := of_int e)\<rparr>)"

definition ecm_cia402_set_step_limit :: "ecm_cia402 \<Rightarrow> int \<Rightarrow> int \<Rightarrow> int \<Rightarrow> ecm_cia402" where
  "ecm_cia402_set_step_limit c axis max_pos max_vel =
    (if axis < 0 \<or> axis \<ge> int (naxes c) then c
     else c\<lparr>c_ax := (c_ax c)(nat axis := (c_ax c (nat axis))\<lparr>a_max_step_pos := max max_pos 0,
                                                       a_max_step_vel := max max_vel 0\<rparr>)\<rparr>)"

definition ecm_cia402_shutdown :: "ecm_cia402 \<Rightarrow> ecm_cia402" where
  "ecm_cia402_shutdown c = c\<lparr>c_shutdown := True,
     c_ax := (\<lambda>i. if i < naxes c then (c_ax c i)\<lparr>a_target := ECM_TGT_DISABLED\<rparr> else c_ax c i)\<rparr>"

definition ecm_cia402_all_down :: "ecm_cia402 \<Rightarrow> bool \<Rightarrow> bool" where
  "ecm_cia402_all_down c bus_lost \<longleftrightarrow> bus_lost \<or>
     list_all (\<lambda>i. a_ds (c_ax c i) \<notin> {ECM_DS_RTSO, ECM_DS_SO, ECM_DS_OE, ECM_DS_QSA}) [0..<naxes c]"

section \<open>Commands\<close>

definition sext :: "u64 \<Rightarrow> u16 \<Rightarrow> int" where
  "sext v n =
    (if n = 0 \<or> n \<ge> 64 then sint v
     else let m = push_bit (unat n - 1) 1; v1 = v AND (push_bit (unat n) 1 - 1)
          in sint ((v1 XOR m) - m))"

definition mode_allowed :: "ecm_cia402_axis \<Rightarrow> int \<Rightarrow> bool" where
  "mode_allowed a m =
    (let ms = ax_modes (a_cfg a) in
     if m = ECM_OPMODE_CSP then ms AND ECM_MODE_CSP \<noteq> 0
     else if m = ECM_OPMODE_CSV then ms AND ECM_MODE_CSV \<noteq> 0
     else if m = ECM_OPMODE_PP then ms AND ECM_MODE_PP \<noteq> 0
     else if m = ECM_OPMODE_PV then ms AND ECM_MODE_PV \<noteq> 0
     else if m = ECM_OPMODE_HM then ms AND ECM_MODE_HM \<noteq> 0
     else False)"

text \<open>The branches of \<open>apply_cmd\<close>, one definition per command that has conditions.\<close>

definition cmd_enable :: "bool \<Rightarrow> u8 \<Rightarrow> u64 \<Rightarrow> ecm_cia402_axis \<Rightarrow> ecm_cia402_axis" where
  "cmd_enable sd xe tk a =
    (if sd then a\<lparr>a_err := ECM_AXERR_SHUTDOWN\<rparr>
     else if xe \<noteq> 0 then a\<lparr>a_err := xe, a_target := ECM_TGT_DISABLED\<rparr>
     else if a_ds a = ECM_DS_FAULT \<or> a_ds a = ECM_DS_FRA
     then a\<lparr>a_err := ECM_AXERR_IN_FAULT, a_target := ECM_TGT_DISABLED\<rparr>
     else if \<not> mode_allowed a (a_mode_req a)
     then a\<lparr>a_err := ECM_AXERR_MODE, a_target := ECM_TGT_DISABLED\<rparr>
     else a\<lparr>a_target := ECM_TGT_ENABLED, a_err := ECM_AXERR_NONE, a_err_ds := 0, a_ds_wait := a_ds a,
            a_step_since := tk, a_reached_oe := False\<rparr>)"

definition cmd_fault_reset :: "ecm_cia402_axis \<Rightarrow> ecm_cia402_axis" where
  "cmd_fault_reset a = a\<lparr>a_target := ECM_TGT_DISABLED,
     a_reset_pulse := (if a_ds a = ECM_DS_FAULT then 2 else a_reset_pulse a),
     a_err := (if a_err a = ECM_AXERR_FAULT \<or> a_err a = ECM_AXERR_IN_FAULT then ECM_AXERR_NONE else a_err a)\<rparr>"

definition cmd_set_mode :: "int \<Rightarrow> ecm_cia402_axis \<Rightarrow> ecm_cia402_axis" where
  "cmd_set_mode arg0 a =
    (if \<not> mode_allowed a arg0 \<or> (h_bits (b_mode (a_b a)) = 0 \<and> arg0 \<noteq> a_mode_req a)
     then a\<lparr>a_err := ECM_AXERR_MODE\<rparr>
     else if arg0 \<noteq> a_mode_req a
     then a\<lparr>a_mode_req := to_i8 arg0, a_mode_ok := False, a_armed := False\<rparr>
     else a)"

definition pp_enq :: "int \<times> u8 \<Rightarrow> ecm_cia402_axis \<Rightarrow> ecm_cia402_axis" where
  "pp_enq = (\<lambda>(v, f) a. let i = (unat (a_pp_head a) + unat (a_pp_n a)) mod 16
     in a\<lparr>a_pp_q := (a_pp_q a)(i := v), a_pp_qf := (a_pp_qf a)(i := f), a_pp_n := a_pp_n a + 1\<rparr>)"

definition cmd_pp_point :: "int \<Rightarrow> int \<Rightarrow> ecm_cia402_axis \<Rightarrow> ecm_cia402_axis" where
  "cmd_pp_point arg0 arg1 a =
    (if \<not> a_running a \<or> a_mode_req a \<noteq> ECM_OPMODE_PP
     then a\<lparr>a_err := ECM_AXERR_MODE, a_pp_lost := a_pp_lost a + 1\<rparr>
     else if a_pp_n a = 16 then a\<lparr>a_pp_lost := a_pp_lost a + 1\<rparr>
     else pp_enq (arg0, of_int arg1) a)"

definition cmd_pv_vel :: "int \<Rightarrow> ecm_cia402_axis \<Rightarrow> ecm_cia402_axis" where
  "cmd_pv_vel arg0 a =
    (if \<not> a_running a \<or> a_mode_req a \<noteq> ECM_OPMODE_PV then a\<lparr>a_err := ECM_AXERR_MODE\<rparr>
     else a\<lparr>a_pv_vel := arg0\<rparr>)"

definition cmd_home :: "u64 \<Rightarrow> ecm_cia402_axis \<Rightarrow> ecm_cia402_axis" where
  "cmd_home tk a =
    (if \<not> a_running a \<or> a_mode_req a \<noteq> ECM_OPMODE_HM then a\<lparr>a_err := ECM_AXERR_MODE\<rparr>
     else a\<lparr>a_hm_phase := ECM_HM_RUNNING, a_hm_since := tk, a_hm_seen_low := False, a_homed := False\<rparr>)"

definition axis_cmd :: "bool \<Rightarrow> u8 \<Rightarrow> ecm_xcmd \<Rightarrow> u64 \<Rightarrow> ecm_cia402_axis \<Rightarrow> ecm_cia402_axis" where
  "axis_cmd sd xe x tk a0 =
    (let a = a0\<lparr>a_last_seq := c_seq x\<rparr>; op = c_op x in
     if op = ECM_CIA_OP_ENABLE then cmd_enable sd xe tk a
     else if op = ECM_CIA_OP_DISABLE then a\<lparr>a_target := ECM_TGT_DISABLED\<rparr>
     else if op = ECM_CIA_OP_QUICKSTOP then a\<lparr>a_target := ECM_TGT_QUICKSTOP\<rparr>
     else if op = ECM_CIA_OP_FAULT_RESET then cmd_fault_reset a
     else if op = ECM_CIA_OP_SET_MODE then cmd_set_mode (c_arg0 x) a
     else if op = ECM_CIA_OP_PP_POINT then cmd_pp_point (c_arg0 x) (c_arg1 x) a
     else if op = ECM_CIA_OP_PV_VEL then cmd_pv_vel (c_arg0 x) a
     else if op = ECM_CIA_OP_HOME then cmd_home tk a
     else a)"

definition known_op :: "u16 \<Rightarrow> bool" where
  "known_op op \<longleftrightarrow> ECM_CIA_OP_ENABLE \<le> op \<and> op \<le> ECM_CIA_OP_HOME"

definition apply_cmd :: "ecm_cia402 \<Rightarrow> nat \<Rightarrow> ecm_xcmd \<Rightarrow> u64 \<Rightarrow> ecm_cia402" where
  "apply_cmd c i x tk =
    (let c1 = c\<lparr>c_ax := (c_ax c)(i := axis_cmd (c_shutdown c) (c_ext_err c i) x tk (c_ax c i))\<rparr>
     in if known_op (c_op x) then c1 else c1\<lparr>n_bad := n_bad c1 + 1\<rparr>)"

section \<open>The step of one axis\<close>

text \<open>1. Inputs: a bad frame keeps the last good ones.\<close>

definition st_velocity :: "u64 \<Rightarrow> ecm_cia402_axis \<Rightarrow> ecm_cia402_axis" where
  "st_velocity cyc a = a\<lparr>a_avel :=
       (if a_apos_prev_ok a
        then to_i32 ((to_i32 (a_apos a - a_apos_prev a) * 1000000000) sdiv sint cyc) else 0),
     a_apos_prev := a_apos a, a_apos_prev_ok := True\<rparr>"

definition in_apos :: "iomap \<Rightarrow> ecm_cia402_axis \<Rightarrow> ecm_cia402_axis" where
  "in_apos io a = (let h = b_apos (a_b a) in
     if h_bits h \<noteq> 0 then a\<lparr>a_apos := to_i32 (sext (ecm_pdo_get h io) (h_bits h))\<rparr> else a)"

definition in_avel :: "u64 \<Rightarrow> iomap \<Rightarrow> ecm_cia402_axis \<Rightarrow> ecm_cia402_axis" where
  "in_avel cyc io a = (let h = b_avel (a_b a) in
     if h_bits h \<noteq> 0 then a\<lparr>a_avel := to_i32 (sext (ecm_pdo_get h io) (h_bits h))\<rparr>
     else if h_bits (b_apos (a_b a)) \<noteq> 0 then st_velocity cyc a else a)"

definition in_ecode :: "iomap \<Rightarrow> ecm_cia402_axis \<Rightarrow> ecm_cia402_axis" where
  "in_ecode io a = (let h = b_err (a_b a) in
     if h_bits h \<noteq> 0 then a\<lparr>a_ecode := ucast (ecm_pdo_get h io)\<rparr> else a)"

definition in_mode :: "iomap \<Rightarrow> ecm_cia402_axis \<Rightarrow> ecm_cia402_axis" where
  "in_mode io a = (let h = b_mode_disp (a_b a) in
     a\<lparr>a_mode_disp := (if h_bits h \<noteq> 0 then to_i8 (sext (ecm_pdo_get h io) (h_bits h)) else a_mode_req a)\<rparr>)"

definition in_ds :: "ecm_cia402_axis \<Rightarrow> ecm_cia402_axis" where
  "in_ds a = (let d = ecm_cia402_decode (a_sw a) in
     a\<lparr>a_transitions := (if d \<noteq> a_ds a then a_transitions a + 1 else a_transitions a), a_ds := d\<rparr>)"

definition in_mode_ok :: "ecm_cia402_axis \<Rightarrow> ecm_cia402_axis" where
  "in_mode_ok a = a\<lparr>a_mode_ok := (a_mode_req a \<noteq> 0 \<and> a_mode_disp a = a_mode_req a)\<rparr>"

definition st_inputs :: "u64 \<Rightarrow> iomap \<Rightarrow> bool \<Rightarrow> ecm_cia402_axis \<Rightarrow> ecm_cia402_axis" where
  "st_inputs cyc io in_valid a =
    in_mode_ok
      (if in_valid
       then in_ds (in_mode io (in_ecode io (in_avel cyc io (in_apos io
              (a\<lparr>a_sw := ucast (ecm_pdo_get (b_sw (a_b a)) io)\<rparr>)))))
       else a\<lparr>a_apos_prev_ok := False\<rparr>)"

text \<open>2. Latches: bus lost (S5), drive fault, an error of the monitor, and S1.\<close>

definition st_latch :: "bool \<Rightarrow> ecm_cia402_axis \<Rightarrow> ecm_cia402_axis" where
  "st_latch bus_lost a =
    (if bus_lost then
       (if a_target a \<noteq> ECM_TGT_DISABLED
        then a\<lparr>a_target := ECM_TGT_DISABLED, a_err := ECM_AXERR_BUS_LOST\<rparr> else a)
     else if (a_ds a = ECM_DS_FAULT \<or> a_ds a = ECM_DS_FRA) \<and> a_target a \<noteq> ECM_TGT_DISABLED
     then a\<lparr>a_target := ECM_TGT_DISABLED, a_err := ECM_AXERR_FAULT, a_err_ds := ds_num (a_ds a)\<rparr>
     else a)"

definition st_ext :: "u8 \<Rightarrow> ecm_cia402_axis \<Rightarrow> ecm_cia402_axis" where
  "st_ext xe a = (if xe \<noteq> 0 then a\<lparr>a_target := ECM_TGT_DISABLED, a_err := xe\<rparr> else a)"

definition st_dropped :: "bool \<Rightarrow> ecm_cia402_axis \<Rightarrow> ecm_cia402_axis" where
  "st_dropped in_valid a =
    (if in_valid \<and> a_target a = ECM_TGT_ENABLED then
       (if a_ds a = ECM_DS_OE then a\<lparr>a_reached_oe := True\<rparr>
        else if a_reached_oe a
        then a\<lparr>a_target := ECM_TGT_DISABLED, a_err := ECM_AXERR_DROPPED, a_err_ds := ds_num (a_ds a)\<rparr>
        else a)
     else a)"

text \<open>4. Controlword, with \<open>enabling_now\<close>.\<close>

definition walk_cw :: "ecm_tgt \<Rightarrow> ecm_ds \<Rightarrow> bool \<Rightarrow> u16" where
  "walk_cw t d mok = (case t of
     ECM_TGT_ENABLED \<Rightarrow>
       (case d of
          ECM_DS_SOD \<Rightarrow> 0x0006 | ECM_DS_RTSO \<Rightarrow> 0x0007
        | ECM_DS_SO \<Rightarrow> if mok then 0x000F else 0x0007
        | ECM_DS_OE \<Rightarrow> 0x000F | _ \<Rightarrow> 0x0000)
   | ECM_TGT_QUICKSTOP \<Rightarrow> if d = ECM_DS_OE \<or> d = ECM_DS_QSA then 0x0002 else 0x0000
   | ECM_TGT_DISABLED \<Rightarrow> (case d of ECM_DS_OE \<Rightarrow> 0x0007 | ECM_DS_SO \<Rightarrow> 0x0006 | _ \<Rightarrow> 0x0000))"

definition st_cw :: "ecm_cia402_axis \<Rightarrow> ecm_cia402_axis \<times> u16 \<times> bool" where
  "st_cw a =
    (let w = walk_cw (a_target a) (a_ds a) (a_mode_ok a);
         enabling = (a_target a = ECM_TGT_ENABLED \<and> a_ds a = ECM_DS_SO \<and> a_mode_ok a);
         a1 = if a_target a = ECM_TGT_QUICKSTOP \<and> a_ds a \<noteq> ECM_DS_OE \<and> a_ds a \<noteq> ECM_DS_QSA
              then a\<lparr>a_target := ECM_TGT_DISABLED\<rparr> else a
     in if a_reset_pulse a1 = 2 then (a1\<lparr>a_reset_pulse := 1\<rparr>, 0x0080, enabling)
        else if a_reset_pulse a1 = 1 then (a1\<lparr>a_reset_pulse := 0\<rparr>, 0x0000, enabling)
        else (a1, w, enabling))"

text \<open>5. Timeout of a commanded transition.\<close>

definition st_timeout :: "u32 \<Rightarrow> u64 \<Rightarrow> bool \<Rightarrow> ecm_cia402_axis \<Rightarrow> u16 \<Rightarrow> ecm_cia402_axis \<times> u16" where
  "st_timeout tmo tk bus_lost a w =
    (if a_target a = ECM_TGT_ENABLED \<and> a_ds a \<noteq> ECM_DS_OE \<and> \<not> bus_lost then
       (if a_ds a \<noteq> a_ds_wait a then (a\<lparr>a_ds_wait := a_ds a, a_step_since := tk\<rparr>, w)
        else if tk - a_step_since a > ucast tmo
        then (a\<lparr>a_err := ECM_AXERR_TIMEOUT, a_err_ds := ds_num (a_ds a), a_target := ECM_TGT_DISABLED\<rparr>,
              if a_ds a = ECM_DS_SO then 0x0006 else 0x0000)
        else (a, w))
     else (a, w))"

text \<open>6. Setpoints for the next frame.\<close>

fun sp_loop :: "nat \<Rightarrow> bool \<Rightarrow> bool \<Rightarrow> u64 \<Rightarrow> ecm_cia402_axis \<Rightarrow> ecm_xsp ecm_xring
    \<Rightarrow> ecm_cia402_axis \<times> ecm_xsp ecm_xring \<times> bool" where
  "sp_loop budget run cyclic k1 a r =
    (case ecm_xring_peek r of
       None \<Rightarrow> (a, r, False)
     | Some e \<Rightarrow>
         if e_tick e > k1 then (a, r, False)
         else if e_tick e < k1 \<or> \<not> run \<or> \<not> cyclic then
           (case budget of
              0 \<Rightarrow> (a, r, False)
            | Suc b \<Rightarrow>
                sp_loop b run cyclic k1
                  (if e_tick e < k1 then a\<lparr>a_late := a_late a + 1\<rparr> else a\<lparr>a_dropped := a_dropped a + 1\<rparr>)
                  (ecm_xring_pop r))
         else (a\<lparr>a_last_sp := fst (e_v e), a_armed := True, a_used := a_used a + 1\<rparr>, ecm_xring_pop r, True))"

declare sp_loop.simps [simp del]

definition st_underrun :: "bool \<Rightarrow> bool \<Rightarrow> bool \<Rightarrow> ecm_cia402_axis \<Rightarrow> ecm_cia402_axis" where
  "st_underrun run cyclic got a =
    (if run \<and> cyclic \<and> \<not> got \<and> a_armed a then a\<lparr>a_underrun := a_underrun a + 1\<rparr> else a)"

definition step_limit :: "ecm_cia402_axis \<Rightarrow> int" where
  "step_limit a = (if a_mode_req a = ECM_OPMODE_CSP then a_max_step_pos a
                   else if a_mode_req a = ECM_OPMODE_CSV then a_max_step_vel a else 0)"

text \<open>S4: returns axis, controlword, \<open>got\<close> and \<open>running\<close>.\<close>

definition st_step :: "bool \<Rightarrow> bool \<Rightarrow> ecm_cia402_axis \<Rightarrow> u16 \<Rightarrow> ecm_cia402_axis \<times> u16 \<times> bool \<times> bool" where
  "st_step got run a w =
    (let lim = step_limit a; ref = a_last_sent a; d = a_last_sp a - ref in
     if got \<and> lim \<noteq> 0 \<and> (d > lim \<or> d < - lim)
     then (a\<lparr>a_step_seen := d, a_step_refused := a_step_refused a + 1, a_err := ECM_AXERR_STEP,
             a_target := ECM_TGT_QUICKSTOP, a_last_sp := ref, a_armed := False\<rparr>,
           if a_ds a = ECM_DS_OE then 0x0002 else w, False, False)
     else (a, w, got, run))"

definition st_csp :: "bool \<Rightarrow> bool \<Rightarrow> bool \<Rightarrow> ecm_cia402_axis \<Rightarrow> iomap \<Rightarrow> ecm_cia402_axis \<times> iomap" where
  "st_csp got run enabling a io =
    (let hold = \<not> run \<or> enabling \<or> \<not> a_armed a;
         t = if hold then a_apos a else a_last_sp a;
         a1 = if hold then a\<lparr>a_armed := (a_armed a \<and> run), a_last_sp := t, a_last_delta := 0\<rparr>
              else if got then a\<lparr>a_last_delta := t - a_last_sent a\<rparr> else a
     in (a1\<lparr>a_last_sent := t\<rparr>, ecm_pdo_set (b_tpos (a_b a)) io (of_int t)))"

definition st_csv :: "bool \<Rightarrow> bool \<Rightarrow> ecm_cia402_axis \<Rightarrow> iomap \<Rightarrow> ecm_cia402_axis \<times> iomap" where
  "st_csv got run a io =
    (let v = if run \<and> got then a_last_sp a else 0
     in (a\<lparr>a_armed := (a_armed a \<and> run), a_last_sent := v\<rparr>, ecm_pdo_set (b_tvel (a_b a)) io (of_int v)))"

definition st_cyclic :: "bool \<Rightarrow> bool \<Rightarrow> bool \<Rightarrow> ecm_cia402_axis \<Rightarrow> iomap \<Rightarrow> ecm_cia402_axis \<times> iomap" where
  "st_cyclic got run enabling a io =
    (if a_mode_req a = ECM_OPMODE_CSP \<and> h_bits (b_tpos (a_b a)) \<noteq> 0 then st_csp got run enabling a io
     else if a_mode_req a = ECM_OPMODE_CSV \<and> h_bits (b_tvel (a_b a)) \<noteq> 0 then st_csv got run a io
     else (a, io))"

text \<open>7. Profile modes: nothing in flight survives a stop.\<close>

definition st_stop :: "bool \<Rightarrow> ecm_cia402_axis \<Rightarrow> ecm_cia402_axis" where
  "st_stop run a =
    (if run then a
     else let a1 = a\<lparr>a_pp_lost := a_pp_lost a + ucast (a_pp_n a) + (if a_pp_phase a = 1 then 1 else 0),
                     a_pp_n := 0, a_pp_phase := 0, a_pv_vel := 0\<rparr>
          in if a_hm_phase a1 = ECM_HM_RUNNING
             then a1\<lparr>a_hm_phase := ECM_HM_FAILED,
                     a_err := (if a_err a1 \<noteq> 0 then a_err a1 else ECM_AXERR_HOMING)\<rparr>
             else a1)"

definition pp_deq :: "ecm_cia402_axis \<Rightarrow> ecm_cia402_axis" where
  "pp_deq a = a\<lparr>a_pp_head := of_nat ((unat (a_pp_head a) + 1) mod 16), a_pp_n := a_pp_n a - 1\<rparr>"

definition pp_next :: "u32 \<Rightarrow> u64 \<Rightarrow> bool \<Rightarrow> ecm_cia402_axis \<Rightarrow> u16 \<Rightarrow> ecm_cia402_axis \<times> u16" where
  "pp_next tmo tk run a w =
    (let s = a_sw a; ack = (s AND 0x1000 \<noteq> 0); hd = unat (a_pp_head a) in
     if \<not> run then (a\<lparr>a_pp_cur := a_apos a\<rparr>, w)
     else if a_pp_phase a = 0 then
       (if a_pp_n a \<noteq> 0 \<and> \<not> ack \<and> (a_pp_qf a hd AND ECM_PP_IMM \<noteq> 0 \<or> s AND 0x0400 \<noteq> 0)
        then ((pp_deq a)\<lparr>a_pp_cur := a_pp_q a hd, a_pp_flags := a_pp_qf a hd, a_pp_phase := 1,
                a_pp_since := tk, a_pp_sent := a_pp_sent a + 1\<rparr>, w)
        else (a, w))
     else if a_pp_phase a = 1 then
       (if ack \<and> tk \<ge> a_pp_since a + 2 then (a\<lparr>a_pp_phase := 2, a_pp_acked := a_pp_acked a + 1\<rparr>, w)
        else if tk - a_pp_since a > ucast tmo
        then (a\<lparr>a_err := ECM_AXERR_HANDSHAKE, a_target := ECM_TGT_DISABLED, a_pp_phase := 0,
                a_pp_lost := a_pp_lost a + 1\<rparr>, 0x0007)
        else (a, w))
     else if \<not> ack then (a\<lparr>a_pp_phase := 0\<rparr>, w)
     else (a, w))"

definition st_pp :: "u32 \<Rightarrow> u64 \<Rightarrow> bool \<Rightarrow> ecm_cia402_axis \<Rightarrow> u16 \<Rightarrow> iomap \<Rightarrow> ecm_cia402_axis \<times> u16 \<times> iomap" where
  "st_pp tmo tk run a w io =
    (let (a1, w1) = pp_next tmo tk run a w;
         io1 = if h_bits (b_tpos (a_b a1)) \<noteq> 0 then ecm_pdo_set (b_tpos (a_b a1)) io (of_int (a_pp_cur a1)) else io;
         w2 = if run \<and> w1 = 0x000F \<and> a_pp_phase a1 = 1
              then w1 OR (0x0010 OR (if a_pp_flags a1 AND ECM_PP_IMM \<noteq> 0 then 0x0020 else 0)
                                 OR (if a_pp_flags a1 AND ECM_PP_REL \<noteq> 0 then 0x0040 else 0))
              else w1
     in (a1, w2, io1))"

definition st_hm :: "u32 \<Rightarrow> u64 \<Rightarrow> ecm_cia402_axis \<Rightarrow> u16 \<Rightarrow> ecm_cia402_axis \<times> u16" where
  "st_hm htmo tk a w =
    (let s = a_sw a; seen = (tk \<ge> a_hm_since a + 2);
         a1 = if seen \<and> s AND 0x1000 = 0 then a\<lparr>a_hm_seen_low := True\<rparr> else a;
         a2 = if seen \<and> s AND 0x2000 \<noteq> 0
              then a1\<lparr>a_hm_phase := ECM_HM_FAILED, a_err := ECM_AXERR_HOMING\<rparr>
              else if seen \<and> s AND 0x1400 = 0x1400 \<and> (a_hm_seen_low a1 \<or> tk \<ge> a_hm_since a1 + 10)
              then a1\<lparr>a_hm_phase := ECM_HM_DONE, a_homed := True\<rparr>
              else if tk - a_hm_since a1 > ucast htmo
              then a1\<lparr>a_hm_phase := ECM_HM_FAILED, a_err := ECM_AXERR_HOMING\<rparr>
              else a1
     in (a2, if a_hm_phase a2 = ECM_HM_RUNNING \<and> w = 0x000F then w OR 0x0010 else w))"

definition st_profile :: "u32 \<Rightarrow> u32 \<Rightarrow> u64 \<Rightarrow> bool \<Rightarrow> ecm_cia402_axis \<Rightarrow> u16 \<Rightarrow> iomap
    \<Rightarrow> ecm_cia402_axis \<times> u16 \<times> iomap" where
  "st_profile tmo htmo tk run a w io =
    (if a_mode_req a = ECM_OPMODE_PP then st_pp tmo tk run a w io
     else if a_mode_req a = ECM_OPMODE_PV then
       (a, w, if h_bits (b_tvel (a_b a)) \<noteq> 0
              then ecm_pdo_set (b_tvel (a_b a)) io (of_int (if run then a_pv_vel a else 0)) else io)
     else if a_mode_req a = ECM_OPMODE_HM \<and> run \<and> a_hm_phase a = ECM_HM_RUNNING then
       (let (a1, w1) = st_hm htmo tk a w in (a1, w1, io))
     else (a, w, io))"

definition st_write :: "ecm_cia402_axis \<Rightarrow> u16 \<Rightarrow> iomap \<Rightarrow> ecm_cia402_axis \<times> iomap" where
  "st_write a w io =
    (let io1 = if h_bits (b_mode (a_b a)) \<noteq> 0
               then ecm_pdo_set (b_mode (a_b a)) io (of_int (a_mode_req a mod 256)) else io
     in (a\<lparr>a_cw := w\<rparr>, ecm_pdo_set (b_cw (a_b a)) io1 (ucast w)))"

text \<open>The stages up to the early return on a lost bus, and the rest.\<close>

definition axis_front :: "u64 \<Rightarrow> u32 \<Rightarrow> u8 \<Rightarrow> u64 \<Rightarrow> bool \<Rightarrow> bool \<Rightarrow> iomap \<Rightarrow> ecm_cia402_axis
    \<Rightarrow> ecm_cia402_axis \<times> u16 \<times> bool" where
  "axis_front cyc tmo xe tk in_valid bus_lost io a =
    (let a1 = st_dropped in_valid (st_ext xe (st_latch bus_lost (st_inputs cyc io in_valid a)));
         (a2, w2, enabling) = st_cw a1;
         (a3, w3) = st_timeout tmo tk bus_lost a2 w2
     in (a3, w3, enabling))"

definition axis_back :: "u32 \<Rightarrow> u32 \<Rightarrow> u64 \<Rightarrow> bool \<Rightarrow> ecm_cia402_axis \<Rightarrow> u16 \<Rightarrow> ecm_xsp ecm_xring \<Rightarrow> iomap
    \<Rightarrow> ecm_cia402_axis \<times> ecm_xsp ecm_xring \<times> iomap" where
  "axis_back tmo htmo tk enabling a3 w3 r io =
    (let run = (a_target a3 = ECM_TGT_ENABLED \<and> a_ds a3 = ECM_DS_OE \<and> a_mode_ok a3);
         cyclic = (a_mode_req a3 = ECM_OPMODE_CSP \<or> a_mode_req a3 = ECM_OPMODE_CSV);
         (a5, r1, got) = sp_loop ECM_XCHG_SP_SKIP_MAX run cyclic (tk + 1) (a3\<lparr>a_running := run\<rparr>) r;
         a6 = st_underrun run cyclic got a5;
         (a7, w7, got7, run7) = st_step got run a6 w3;
         (a8, io8) = st_cyclic got7 run7 enabling a7 io;
         a9 = st_stop run7 a8;
         (a10, w10, io10) = st_profile tmo htmo tk run7 a9 w7 io8;
         (a11, io11) = st_write a10 w10 io10
     in (a11, r1, io11))"

definition axis_step :: "u64 \<Rightarrow> u32 \<Rightarrow> u32 \<Rightarrow> u8 \<Rightarrow> u64 \<Rightarrow> bool \<Rightarrow> bool
    \<Rightarrow> ecm_cia402_axis \<Rightarrow> ecm_xsp ecm_xring \<Rightarrow> iomap \<Rightarrow> ecm_cia402_axis \<times> ecm_xsp ecm_xring \<times> iomap" where
  "axis_step cyc tmo htmo xe tk in_valid bus_lost a r io =
    (let (a3, w3, enabling) = axis_front cyc tmo xe tk in_valid bus_lost io a
     in if bus_lost then (a3, r, io) else axis_back tmo htmo tk enabling a3 w3 r io)"

definition axis_rt :: "ecm_cia402 \<Rightarrow> nat \<Rightarrow> iomap \<Rightarrow> u64 \<Rightarrow> bool \<Rightarrow> bool \<Rightarrow> ecm_cia402 \<times> iomap" where
  "axis_rt c i io tk in_valid bus_lost =
    (let (a, r, io1) = axis_step (cia_cycle_ns c) (step_timeout_ticks c) (home_timeout_ticks c)
                         (c_ext_err c i) tk in_valid bus_lost (c_ax c i) (c_sp c i) io
     in (c\<lparr>c_ax := (c_ax c)(i := a), c_sp := (c_sp c)(i := r)\<rparr>, io1))"

section \<open>Publishing\<close>

definition pub_words :: "ecm_cia402_axis \<Rightarrow> u64 list" where
  "pub_words a =
    [ucast (a_sw a) OR push_bit 16 (ucast (a_cw a)) OR push_bit 32 (ucast (ds_num (a_ds a)))
       OR push_bit 40 (ucast (tgt_num (a_target a))) OR push_bit 48 (ucast (a_err a))
       OR push_bit 56 (ucast (a_err_ds a)),
     ucast (of_int (a_apos a) :: u32) OR push_bit 32 (ucast (of_int (a_avel a) :: u32)),
     ucast (a_ecode a) OR push_bit 16 (ucast (of_int (a_mode_disp a) :: u8))
       OR push_bit 24 (of_bool (a_mode_ok a)) OR push_bit 32 (ucast (of_int (a_mode_req a) :: u8))
       OR push_bit 40 (of_bool (a_homed a)) OR push_bit 41 (ucast (hm_num (a_hm_phase a)))
       OR push_bit 43 (ucast (a_pp_phase a)) OR push_bit 45 (ucast (a_pp_n a)),
     a_used a, a_late a, a_underrun a,
     ucast (a_last_seq a) OR push_bit 32 (a_step_refused a AND 0xFFFFFFFF),
     (a_dropped a AND 0xFFFFFFFF) OR push_bit 32 (a_pp_acked a AND 0xFFFFFFFF)]"

definition publish :: "nat \<Rightarrow> u64 \<Rightarrow> ecm_cia402 \<Rightarrow> ecm_cia402" where
  "publish i tk c =
     c\<lparr>c_st := (c_st c)(i := ecm_xst_write (c_st c i) tk (words_of (pub_words (c_ax c i))) ECM_XST_WORDS)\<rparr>"

section \<open>The hook\<close>

definition cia_cmd :: "ecm_xcmd \<Rightarrow> u64 \<Rightarrow> ecm_cia402 \<Rightarrow> ecm_cia402" where
  "cia_cmd x tk c =
    (let c1 = if unat (c_target x) < naxes c then apply_cmd c (unat (c_target x)) x tk
              else c\<lparr>n_bad := n_bad c + 1\<rparr>
     in c1\<lparr>n_applied := n_applied c1 + 1, c_cmd := ecm_xring_pop (c_cmd c1)\<rparr>)"

fun cia_cmds :: "nat \<Rightarrow> u64 \<Rightarrow> ecm_cia402 \<Rightarrow> ecm_cia402" where
  "cia_cmds budget tk c =
    (case ecm_xring_peek (c_cmd c) of
       None \<Rightarrow> c
     | Some x \<Rightarrow>
         if c_tick x > tk + 1 then c
         else (case budget of
                 0 \<Rightarrow> c\<lparr>n_deferred := n_deferred c + 1\<rparr>
               | Suc b \<Rightarrow> cia_cmds b tk (cia_cmd x tk c)))"

declare cia_cmds.simps [simp del]

definition cia_axis :: "u64 \<Rightarrow> bool \<Rightarrow> bool \<Rightarrow> nat \<Rightarrow> ecm_cia402 \<times> iomap \<Rightarrow> ecm_cia402 \<times> iomap" where
  "cia_axis tk in_valid bus_lost i = (\<lambda>(c, io).
     let (c1, io1) = axis_rt c i io tk in_valid bus_lost in (publish i tk c1, io1))"

definition ecm_cia402_rt :: "ecm_cia402 \<Rightarrow> iomap \<Rightarrow> u64 \<Rightarrow> u64 \<Rightarrow> bool \<Rightarrow> bool \<Rightarrow> ecm_cia402 \<times> iomap" where
  "ecm_cia402_rt c io tk t_send in_valid bus_lost =
    (let c1 = cia_cmds ECM_XCHG_CMD_PER_TICK tk c;
         (c2, io2) = fold (cia_axis tk in_valid bus_lost) [0..<naxes c1] (c1, io)
     in (c2\<lparr>c_clk := ecm_xst_write (c_clk c2) tk
            (words_of [t_send, cia_cycle_ns c2, of_bool in_valid, of_bool bus_lost,
                       n_applied c2, n_deferred c2, n_bad c2, 0]) ECM_XST_WORDS\<rparr>, io2))"

section \<open>Application side\<close>

definition ecm_cia402_cmd2 :: "ecm_cia402 \<Rightarrow> int \<Rightarrow> int \<Rightarrow> int \<Rightarrow> int \<Rightarrow> u32 \<Rightarrow> u64 \<Rightarrow> ecm_cia402 \<times> bool" where
  "ecm_cia402_cmd2 c axis op arg0 arg1 sq tk =
    (if axis < 0 \<or> axis \<ge> int (naxes c) then (c, False)
     else let (r, ok) = ecm_xring_push \<lparr>c_tick = tk, c_target = of_int axis, c_op = of_int op, c_seq = sq,
                                         c_arg0 = arg0, c_arg1 = arg1\<rparr> (c_cmd c)
          in (c\<lparr>c_cmd := r\<rparr>, ok))"

definition ecm_cia402_cmd :: "ecm_cia402 \<Rightarrow> int \<Rightarrow> int \<Rightarrow> int \<Rightarrow> u32 \<Rightarrow> u64 \<Rightarrow> ecm_cia402 \<times> bool" where
  "ecm_cia402_cmd c axis op arg sq tk =
    (if axis < 0 \<or> axis \<ge> int (naxes c) then (c, False)
     else let (r, ok) = ecm_xring_push \<lparr>c_tick = tk, c_target = of_int axis, c_op = of_int op, c_seq = sq,
                                         c_arg0 = arg, c_arg1 = 0\<rparr> (c_cmd c)
          in (c\<lparr>c_cmd := r\<rparr>, ok))"

definition ecm_cia402_setpoint :: "ecm_cia402 \<Rightarrow> int \<Rightarrow> u64 \<Rightarrow> int \<Rightarrow> ecm_cia402 \<times> bool" where
  "ecm_cia402_setpoint c axis tk v =
    (if axis < 0 \<or> axis \<ge> int (naxes c) then (c, False)
     else let (r, ok) = ecm_xring_push \<lparr>e_tick = tk, e_v = (v, 0, 0)\<rparr> (c_sp c (nat axis))
          in (c\<lparr>c_sp := (c_sp c)(nat axis := r)\<rparr>, ok))"

record ecm_cia402_state =
  os_tick :: u64
  os_sw :: u16
  os_cw :: u16
  os_ecode :: u16
  os_ds :: u8
  os_target :: u8
  os_err :: u8
  os_err_ds :: u8
  os_mode_ok :: u8
  os_mode_disp :: int
  os_mode_req :: int
  os_apos :: int
  os_avel :: int
  os_used :: u64
  os_late :: u64
  os_underrun :: u64
  os_dropped :: u64
  os_last_seq :: u32
  os_step_refused :: u32
  os_homed :: u8
  os_hm_phase :: u8
  os_pp_phase :: u8
  os_pp_n :: u8
  os_pp_acked :: u32

definition unpack :: "u64 \<Rightarrow> u64 list \<Rightarrow> ecm_cia402_state" where
  "unpack t w = \<lparr>os_tick = t,
     os_sw = ucast (w ! 0), os_cw = ucast (drop_bit 16 (w ! 0)), os_ecode = ucast (w ! 2),
     os_ds = ucast (drop_bit 32 (w ! 0)), os_target = ucast (drop_bit 40 (w ! 0)),
     os_err = ucast (drop_bit 48 (w ! 0)), os_err_ds = ucast (drop_bit 56 (w ! 0)),
     os_mode_ok = ucast (drop_bit 24 (w ! 2)), os_mode_disp = sint (ucast (drop_bit 16 (w ! 2)) :: u8),
     os_mode_req = sint (ucast (drop_bit 32 (w ! 2)) :: u8),
     os_apos = sint (ucast (w ! 1) :: u32), os_avel = sint (ucast (drop_bit 32 (w ! 1)) :: u32),
     os_used = w ! 3, os_late = w ! 4, os_underrun = w ! 5, os_dropped = ucast (ucast (w ! 7) :: u32),
     os_last_seq = ucast (w ! 6), os_step_refused = ucast (drop_bit 32 (w ! 6)),
     os_homed = ucast (drop_bit 40 (w ! 2)) AND 1, os_hm_phase = ucast (drop_bit 41 (w ! 2)) AND 3,
     os_pp_phase = ucast (drop_bit 43 (w ! 2)) AND 3, os_pp_n = ucast (drop_bit 45 (w ! 2)) AND 31,
     os_pp_acked = ucast (drop_bit 32 (w ! 7))\<rparr>"

definition ecm_cia402_read :: "ecm_cia402 \<Rightarrow> int \<Rightarrow> ecm_cia402_state option" where
  "ecm_cia402_read c axis =
    (if axis < 0 \<or> axis \<ge> int (naxes c) then None
     else map_option (\<lambda>(t, w). unpack t w) (ecm_xst_read (c_st c (nat axis)) ECM_XST_WORDS ECM_XST_TRIES))"

definition ecm_cia402_read_clock :: "ecm_cia402 \<Rightarrow> (u64 \<times> u64) option" where
  "ecm_cia402_read_clock c =
     map_option (\<lambda>(t, w). (t, w ! 0)) (ecm_xst_read (c_clk c) ECM_XST_WORDS ECM_XST_TRIES)"

end
