(* ===== verification/Cia402_Stages.thy ===== *)
theory Cia402_Stages
  imports Cia402_Axis
begin

text \<open>
  What each stage of \<open>axis_step\<close> changes and what it leaves alone, and from that
  how the step as a whole treats the target, the controlword and the reset pulse.
\<close>

section \<open>Stages\<close>

text \<open>The fields each stage leaves alone.\<close>

lemma in_apos_frame [simp]:
  "a_cfg (in_apos io a) = a_cfg a" "a_b (in_apos io a) = a_b a" "a_ds (in_apos io a) = a_ds a"
  "a_ds_wait (in_apos io a) = a_ds_wait a" "a_sw (in_apos io a) = a_sw a" "a_cw (in_apos io a) = a_cw a"
  "a_target (in_apos io a) = a_target a" "a_err (in_apos io a) = a_err a"
  "a_reset_pulse (in_apos io a) = a_reset_pulse a" "a_armed (in_apos io a) = a_armed a"
  "a_mode_ok (in_apos io a) = a_mode_ok a" "a_mode_req (in_apos io a) = a_mode_req a"
  "a_last_sp (in_apos io a) = a_last_sp a" "a_last_sent (in_apos io a) = a_last_sent a"
  "a_max_step_pos (in_apos io a) = a_max_step_pos a" "a_max_step_vel (in_apos io a) = a_max_step_vel a"
  "a_reached_oe (in_apos io a) = a_reached_oe a" "a_pp_q (in_apos io a) = a_pp_q a"
  "a_pp_qf (in_apos io a) = a_pp_qf a" "a_pp_head (in_apos io a) = a_pp_head a"
  "a_pp_n (in_apos io a) = a_pp_n a" "a_pp_phase (in_apos io a) = a_pp_phase a"
  "a_pp_flags (in_apos io a) = a_pp_flags a" "a_pp_cur (in_apos io a) = a_pp_cur a"
  "a_running (in_apos io a) = a_running a" "a_step_since (in_apos io a) = a_step_since a"
  "a_hm_phase (in_apos io a) = a_hm_phase a"
  by (simp_all add: in_apos_def Let_def)

lemma st_velocity_frame [simp]:
  "a_cfg (st_velocity cyc a) = a_cfg a" "a_b (st_velocity cyc a) = a_b a" "a_ds (st_velocity cyc a) = a_ds a"
  "a_ds_wait (st_velocity cyc a) = a_ds_wait a" "a_sw (st_velocity cyc a) = a_sw a"
  "a_cw (st_velocity cyc a) = a_cw a" "a_target (st_velocity cyc a) = a_target a"
  "a_err (st_velocity cyc a) = a_err a" "a_reset_pulse (st_velocity cyc a) = a_reset_pulse a"
  "a_armed (st_velocity cyc a) = a_armed a" "a_mode_ok (st_velocity cyc a) = a_mode_ok a"
  "a_mode_req (st_velocity cyc a) = a_mode_req a" "a_apos (st_velocity cyc a) = a_apos a"
  "a_last_sp (st_velocity cyc a) = a_last_sp a" "a_last_sent (st_velocity cyc a) = a_last_sent a"
  "a_max_step_pos (st_velocity cyc a) = a_max_step_pos a"
  "a_max_step_vel (st_velocity cyc a) = a_max_step_vel a" "a_reached_oe (st_velocity cyc a) = a_reached_oe a"
  "a_pp_q (st_velocity cyc a) = a_pp_q a" "a_pp_qf (st_velocity cyc a) = a_pp_qf a"
  "a_pp_head (st_velocity cyc a) = a_pp_head a" "a_pp_n (st_velocity cyc a) = a_pp_n a"
  "a_pp_phase (st_velocity cyc a) = a_pp_phase a" "a_pp_flags (st_velocity cyc a) = a_pp_flags a"
  "a_pp_cur (st_velocity cyc a) = a_pp_cur a" "a_running (st_velocity cyc a) = a_running a"
  "a_step_since (st_velocity cyc a) = a_step_since a" "a_hm_phase (st_velocity cyc a) = a_hm_phase a"
  by (simp_all add: st_velocity_def Let_def)

lemma in_avel_frame [simp]:
  "a_cfg (in_avel cyc io a) = a_cfg a" "a_b (in_avel cyc io a) = a_b a" "a_ds (in_avel cyc io a) = a_ds a"
  "a_ds_wait (in_avel cyc io a) = a_ds_wait a" "a_sw (in_avel cyc io a) = a_sw a"
  "a_cw (in_avel cyc io a) = a_cw a" "a_target (in_avel cyc io a) = a_target a"
  "a_err (in_avel cyc io a) = a_err a" "a_reset_pulse (in_avel cyc io a) = a_reset_pulse a"
  "a_armed (in_avel cyc io a) = a_armed a" "a_mode_ok (in_avel cyc io a) = a_mode_ok a"
  "a_mode_req (in_avel cyc io a) = a_mode_req a" "a_apos (in_avel cyc io a) = a_apos a"
  "a_last_sp (in_avel cyc io a) = a_last_sp a" "a_last_sent (in_avel cyc io a) = a_last_sent a"
  "a_max_step_pos (in_avel cyc io a) = a_max_step_pos a"
  "a_max_step_vel (in_avel cyc io a) = a_max_step_vel a" "a_reached_oe (in_avel cyc io a) = a_reached_oe a"
  "a_pp_q (in_avel cyc io a) = a_pp_q a" "a_pp_qf (in_avel cyc io a) = a_pp_qf a"
  "a_pp_head (in_avel cyc io a) = a_pp_head a" "a_pp_n (in_avel cyc io a) = a_pp_n a"
  "a_pp_phase (in_avel cyc io a) = a_pp_phase a" "a_pp_flags (in_avel cyc io a) = a_pp_flags a"
  "a_pp_cur (in_avel cyc io a) = a_pp_cur a" "a_running (in_avel cyc io a) = a_running a"
  "a_step_since (in_avel cyc io a) = a_step_since a" "a_hm_phase (in_avel cyc io a) = a_hm_phase a"
  by (simp_all add: in_avel_def Let_def)

lemma in_ecode_frame [simp]:
  "a_cfg (in_ecode io a) = a_cfg a" "a_b (in_ecode io a) = a_b a" "a_ds (in_ecode io a) = a_ds a"
  "a_ds_wait (in_ecode io a) = a_ds_wait a" "a_sw (in_ecode io a) = a_sw a" "a_cw (in_ecode io a) = a_cw a"
  "a_target (in_ecode io a) = a_target a" "a_err (in_ecode io a) = a_err a"
  "a_reset_pulse (in_ecode io a) = a_reset_pulse a" "a_armed (in_ecode io a) = a_armed a"
  "a_mode_ok (in_ecode io a) = a_mode_ok a" "a_mode_req (in_ecode io a) = a_mode_req a"
  "a_apos (in_ecode io a) = a_apos a" "a_last_sp (in_ecode io a) = a_last_sp a"
  "a_last_sent (in_ecode io a) = a_last_sent a" "a_max_step_pos (in_ecode io a) = a_max_step_pos a"
  "a_max_step_vel (in_ecode io a) = a_max_step_vel a" "a_reached_oe (in_ecode io a) = a_reached_oe a"
  "a_pp_q (in_ecode io a) = a_pp_q a" "a_pp_qf (in_ecode io a) = a_pp_qf a"
  "a_pp_head (in_ecode io a) = a_pp_head a" "a_pp_n (in_ecode io a) = a_pp_n a"
  "a_pp_phase (in_ecode io a) = a_pp_phase a" "a_pp_flags (in_ecode io a) = a_pp_flags a"
  "a_pp_cur (in_ecode io a) = a_pp_cur a" "a_running (in_ecode io a) = a_running a"
  "a_step_since (in_ecode io a) = a_step_since a" "a_hm_phase (in_ecode io a) = a_hm_phase a"
  by (simp_all add: in_ecode_def Let_def)

lemma in_mode_frame [simp]:
  "a_cfg (in_mode io a) = a_cfg a" "a_b (in_mode io a) = a_b a" "a_ds (in_mode io a) = a_ds a"
  "a_ds_wait (in_mode io a) = a_ds_wait a" "a_sw (in_mode io a) = a_sw a" "a_cw (in_mode io a) = a_cw a"
  "a_target (in_mode io a) = a_target a" "a_err (in_mode io a) = a_err a"
  "a_reset_pulse (in_mode io a) = a_reset_pulse a" "a_armed (in_mode io a) = a_armed a"
  "a_mode_ok (in_mode io a) = a_mode_ok a" "a_mode_req (in_mode io a) = a_mode_req a"
  "a_apos (in_mode io a) = a_apos a" "a_last_sp (in_mode io a) = a_last_sp a"
  "a_last_sent (in_mode io a) = a_last_sent a" "a_max_step_pos (in_mode io a) = a_max_step_pos a"
  "a_max_step_vel (in_mode io a) = a_max_step_vel a" "a_reached_oe (in_mode io a) = a_reached_oe a"
  "a_pp_q (in_mode io a) = a_pp_q a" "a_pp_qf (in_mode io a) = a_pp_qf a"
  "a_pp_head (in_mode io a) = a_pp_head a" "a_pp_n (in_mode io a) = a_pp_n a"
  "a_pp_phase (in_mode io a) = a_pp_phase a" "a_pp_flags (in_mode io a) = a_pp_flags a"
  "a_pp_cur (in_mode io a) = a_pp_cur a" "a_running (in_mode io a) = a_running a"
  "a_step_since (in_mode io a) = a_step_since a" "a_hm_phase (in_mode io a) = a_hm_phase a"
  by (simp_all add: in_mode_def Let_def)

lemma in_ds_frame [simp]:
  "a_cfg (in_ds a) = a_cfg a" "a_b (in_ds a) = a_b a" "a_ds_wait (in_ds a) = a_ds_wait a"
  "a_sw (in_ds a) = a_sw a" "a_cw (in_ds a) = a_cw a" "a_target (in_ds a) = a_target a"
  "a_err (in_ds a) = a_err a" "a_reset_pulse (in_ds a) = a_reset_pulse a" "a_armed (in_ds a) = a_armed a"
  "a_mode_ok (in_ds a) = a_mode_ok a" "a_mode_req (in_ds a) = a_mode_req a" "a_apos (in_ds a) = a_apos a"
  "a_last_sp (in_ds a) = a_last_sp a" "a_last_sent (in_ds a) = a_last_sent a"
  "a_max_step_pos (in_ds a) = a_max_step_pos a" "a_max_step_vel (in_ds a) = a_max_step_vel a"
  "a_reached_oe (in_ds a) = a_reached_oe a" "a_pp_q (in_ds a) = a_pp_q a" "a_pp_qf (in_ds a) = a_pp_qf a"
  "a_pp_head (in_ds a) = a_pp_head a" "a_pp_n (in_ds a) = a_pp_n a" "a_pp_phase (in_ds a) = a_pp_phase a"
  "a_pp_flags (in_ds a) = a_pp_flags a" "a_pp_cur (in_ds a) = a_pp_cur a" "a_running (in_ds a) = a_running a"
  "a_step_since (in_ds a) = a_step_since a" "a_hm_phase (in_ds a) = a_hm_phase a"
  by (simp_all add: in_ds_def Let_def)

lemma in_mode_ok_frame [simp]:
  "a_cfg (in_mode_ok a) = a_cfg a" "a_b (in_mode_ok a) = a_b a" "a_ds (in_mode_ok a) = a_ds a"
  "a_ds_wait (in_mode_ok a) = a_ds_wait a" "a_sw (in_mode_ok a) = a_sw a" "a_cw (in_mode_ok a) = a_cw a"
  "a_target (in_mode_ok a) = a_target a" "a_err (in_mode_ok a) = a_err a"
  "a_reset_pulse (in_mode_ok a) = a_reset_pulse a" "a_armed (in_mode_ok a) = a_armed a"
  "a_mode_req (in_mode_ok a) = a_mode_req a" "a_apos (in_mode_ok a) = a_apos a"
  "a_last_sp (in_mode_ok a) = a_last_sp a" "a_last_sent (in_mode_ok a) = a_last_sent a"
  "a_max_step_pos (in_mode_ok a) = a_max_step_pos a" "a_max_step_vel (in_mode_ok a) = a_max_step_vel a"
  "a_reached_oe (in_mode_ok a) = a_reached_oe a" "a_pp_q (in_mode_ok a) = a_pp_q a"
  "a_pp_qf (in_mode_ok a) = a_pp_qf a" "a_pp_head (in_mode_ok a) = a_pp_head a"
  "a_pp_n (in_mode_ok a) = a_pp_n a" "a_pp_phase (in_mode_ok a) = a_pp_phase a"
  "a_pp_flags (in_mode_ok a) = a_pp_flags a" "a_pp_cur (in_mode_ok a) = a_pp_cur a"
  "a_running (in_mode_ok a) = a_running a" "a_step_since (in_mode_ok a) = a_step_since a"
  "a_hm_phase (in_mode_ok a) = a_hm_phase a"
  by (simp_all add: in_mode_ok_def Let_def)

lemma st_latch_frame [simp]:
  "a_cfg (st_latch bl a) = a_cfg a" "a_b (st_latch bl a) = a_b a" "a_ds (st_latch bl a) = a_ds a"
  "a_ds_wait (st_latch bl a) = a_ds_wait a" "a_sw (st_latch bl a) = a_sw a" "a_cw (st_latch bl a) = a_cw a"
  "a_reset_pulse (st_latch bl a) = a_reset_pulse a" "a_armed (st_latch bl a) = a_armed a"
  "a_mode_ok (st_latch bl a) = a_mode_ok a" "a_mode_req (st_latch bl a) = a_mode_req a"
  "a_apos (st_latch bl a) = a_apos a" "a_last_sp (st_latch bl a) = a_last_sp a"
  "a_last_sent (st_latch bl a) = a_last_sent a" "a_max_step_pos (st_latch bl a) = a_max_step_pos a"
  "a_max_step_vel (st_latch bl a) = a_max_step_vel a" "a_reached_oe (st_latch bl a) = a_reached_oe a"
  "a_pp_q (st_latch bl a) = a_pp_q a" "a_pp_qf (st_latch bl a) = a_pp_qf a"
  "a_pp_head (st_latch bl a) = a_pp_head a" "a_pp_n (st_latch bl a) = a_pp_n a"
  "a_pp_phase (st_latch bl a) = a_pp_phase a" "a_pp_flags (st_latch bl a) = a_pp_flags a"
  "a_pp_cur (st_latch bl a) = a_pp_cur a" "a_running (st_latch bl a) = a_running a"
  "a_step_since (st_latch bl a) = a_step_since a" "a_hm_phase (st_latch bl a) = a_hm_phase a"
  by (simp_all add: st_latch_def Let_def)

lemma st_ext_frame [simp]:
  "a_cfg (st_ext xe a) = a_cfg a" "a_b (st_ext xe a) = a_b a" "a_ds (st_ext xe a) = a_ds a"
  "a_ds_wait (st_ext xe a) = a_ds_wait a" "a_sw (st_ext xe a) = a_sw a" "a_cw (st_ext xe a) = a_cw a"
  "a_reset_pulse (st_ext xe a) = a_reset_pulse a" "a_armed (st_ext xe a) = a_armed a"
  "a_mode_ok (st_ext xe a) = a_mode_ok a" "a_mode_req (st_ext xe a) = a_mode_req a"
  "a_apos (st_ext xe a) = a_apos a" "a_last_sp (st_ext xe a) = a_last_sp a"
  "a_last_sent (st_ext xe a) = a_last_sent a" "a_max_step_pos (st_ext xe a) = a_max_step_pos a"
  "a_max_step_vel (st_ext xe a) = a_max_step_vel a" "a_reached_oe (st_ext xe a) = a_reached_oe a"
  "a_pp_q (st_ext xe a) = a_pp_q a" "a_pp_qf (st_ext xe a) = a_pp_qf a"
  "a_pp_head (st_ext xe a) = a_pp_head a" "a_pp_n (st_ext xe a) = a_pp_n a"
  "a_pp_phase (st_ext xe a) = a_pp_phase a" "a_pp_flags (st_ext xe a) = a_pp_flags a"
  "a_pp_cur (st_ext xe a) = a_pp_cur a" "a_running (st_ext xe a) = a_running a"
  "a_step_since (st_ext xe a) = a_step_since a" "a_hm_phase (st_ext xe a) = a_hm_phase a"
  by (simp_all add: st_ext_def Let_def)

lemma st_dropped_frame [simp]:
  "a_cfg (st_dropped iv a) = a_cfg a" "a_b (st_dropped iv a) = a_b a" "a_ds (st_dropped iv a) = a_ds a"
  "a_ds_wait (st_dropped iv a) = a_ds_wait a" "a_sw (st_dropped iv a) = a_sw a"
  "a_cw (st_dropped iv a) = a_cw a" "a_reset_pulse (st_dropped iv a) = a_reset_pulse a"
  "a_armed (st_dropped iv a) = a_armed a" "a_mode_ok (st_dropped iv a) = a_mode_ok a"
  "a_mode_req (st_dropped iv a) = a_mode_req a" "a_apos (st_dropped iv a) = a_apos a"
  "a_last_sp (st_dropped iv a) = a_last_sp a" "a_last_sent (st_dropped iv a) = a_last_sent a"
  "a_max_step_pos (st_dropped iv a) = a_max_step_pos a" "a_max_step_vel (st_dropped iv a) = a_max_step_vel a"
  "a_pp_q (st_dropped iv a) = a_pp_q a" "a_pp_qf (st_dropped iv a) = a_pp_qf a"
  "a_pp_head (st_dropped iv a) = a_pp_head a" "a_pp_n (st_dropped iv a) = a_pp_n a"
  "a_pp_phase (st_dropped iv a) = a_pp_phase a" "a_pp_flags (st_dropped iv a) = a_pp_flags a"
  "a_pp_cur (st_dropped iv a) = a_pp_cur a" "a_running (st_dropped iv a) = a_running a"
  "a_step_since (st_dropped iv a) = a_step_since a" "a_hm_phase (st_dropped iv a) = a_hm_phase a"
  by (simp_all add: st_dropped_def Let_def)

lemma st_underrun_frame [simp]:
  "a_cfg (st_underrun run cyclic got a) = a_cfg a" "a_b (st_underrun run cyclic got a) = a_b a"
  "a_ds (st_underrun run cyclic got a) = a_ds a" "a_ds_wait (st_underrun run cyclic got a) = a_ds_wait a"
  "a_sw (st_underrun run cyclic got a) = a_sw a" "a_cw (st_underrun run cyclic got a) = a_cw a"
  "a_target (st_underrun run cyclic got a) = a_target a" "a_err (st_underrun run cyclic got a) = a_err a"
  "a_reset_pulse (st_underrun run cyclic got a) = a_reset_pulse a"
  "a_armed (st_underrun run cyclic got a) = a_armed a"
  "a_mode_ok (st_underrun run cyclic got a) = a_mode_ok a"
  "a_mode_req (st_underrun run cyclic got a) = a_mode_req a"
  "a_apos (st_underrun run cyclic got a) = a_apos a" "a_last_sp (st_underrun run cyclic got a) = a_last_sp a"
  "a_last_sent (st_underrun run cyclic got a) = a_last_sent a"
  "a_max_step_pos (st_underrun run cyclic got a) = a_max_step_pos a"
  "a_max_step_vel (st_underrun run cyclic got a) = a_max_step_vel a"
  "a_reached_oe (st_underrun run cyclic got a) = a_reached_oe a"
  "a_pp_q (st_underrun run cyclic got a) = a_pp_q a" "a_pp_qf (st_underrun run cyclic got a) = a_pp_qf a"
  "a_pp_head (st_underrun run cyclic got a) = a_pp_head a" "a_pp_n (st_underrun run cyclic got a) = a_pp_n a"
  "a_pp_phase (st_underrun run cyclic got a) = a_pp_phase a"
  "a_pp_flags (st_underrun run cyclic got a) = a_pp_flags a"
  "a_pp_cur (st_underrun run cyclic got a) = a_pp_cur a"
  "a_running (st_underrun run cyclic got a) = a_running a"
  "a_step_since (st_underrun run cyclic got a) = a_step_since a"
  "a_hm_phase (st_underrun run cyclic got a) = a_hm_phase a"
  by (simp_all add: st_underrun_def Let_def)

lemma st_stop_frame [simp]:
  "a_cfg (st_stop run a) = a_cfg a" "a_b (st_stop run a) = a_b a" "a_ds (st_stop run a) = a_ds a"
  "a_ds_wait (st_stop run a) = a_ds_wait a" "a_sw (st_stop run a) = a_sw a" "a_cw (st_stop run a) = a_cw a"
  "a_target (st_stop run a) = a_target a" "a_reset_pulse (st_stop run a) = a_reset_pulse a"
  "a_armed (st_stop run a) = a_armed a" "a_mode_ok (st_stop run a) = a_mode_ok a"
  "a_mode_req (st_stop run a) = a_mode_req a" "a_apos (st_stop run a) = a_apos a"
  "a_last_sp (st_stop run a) = a_last_sp a" "a_last_sent (st_stop run a) = a_last_sent a"
  "a_max_step_pos (st_stop run a) = a_max_step_pos a" "a_max_step_vel (st_stop run a) = a_max_step_vel a"
  "a_reached_oe (st_stop run a) = a_reached_oe a" "a_pp_q (st_stop run a) = a_pp_q a"
  "a_pp_qf (st_stop run a) = a_pp_qf a" "a_pp_head (st_stop run a) = a_pp_head a"
  "a_pp_flags (st_stop run a) = a_pp_flags a" "a_pp_cur (st_stop run a) = a_pp_cur a"
  "a_running (st_stop run a) = a_running a" "a_step_since (st_stop run a) = a_step_since a"
  by (simp_all add: st_stop_def Let_def)

lemma st_inputs_frame [simp]:
  "a_cfg (st_inputs cyc io iv a) = a_cfg a" "a_b (st_inputs cyc io iv a) = a_b a"
  "a_ds_wait (st_inputs cyc io iv a) = a_ds_wait a" "a_cw (st_inputs cyc io iv a) = a_cw a"
  "a_target (st_inputs cyc io iv a) = a_target a" "a_err (st_inputs cyc io iv a) = a_err a"
  "a_reset_pulse (st_inputs cyc io iv a) = a_reset_pulse a" "a_armed (st_inputs cyc io iv a) = a_armed a"
  "a_mode_req (st_inputs cyc io iv a) = a_mode_req a" "a_last_sp (st_inputs cyc io iv a) = a_last_sp a"
  "a_last_sent (st_inputs cyc io iv a) = a_last_sent a"
  "a_max_step_pos (st_inputs cyc io iv a) = a_max_step_pos a"
  "a_max_step_vel (st_inputs cyc io iv a) = a_max_step_vel a"
  "a_reached_oe (st_inputs cyc io iv a) = a_reached_oe a" "a_pp_q (st_inputs cyc io iv a) = a_pp_q a"
  "a_pp_qf (st_inputs cyc io iv a) = a_pp_qf a" "a_pp_head (st_inputs cyc io iv a) = a_pp_head a"
  "a_pp_n (st_inputs cyc io iv a) = a_pp_n a" "a_pp_phase (st_inputs cyc io iv a) = a_pp_phase a"
  "a_pp_flags (st_inputs cyc io iv a) = a_pp_flags a" "a_pp_cur (st_inputs cyc io iv a) = a_pp_cur a"
  "a_running (st_inputs cyc io iv a) = a_running a" "a_step_since (st_inputs cyc io iv a) = a_step_since a"
  "a_hm_phase (st_inputs cyc io iv a) = a_hm_phase a"
  by (simp_all add: st_inputs_def)

text \<open>The setpoint loop: only counters move, unless an entry for exactly this frame is
  taken, which happens only while the axis runs in a cyclic mode.\<close>

lemma late_dropped_id: "\<exists>l d. a = a\<lparr>a_late := l, a_dropped := d\<rparr>" for a :: ecm_cia402_axis
  by (rule exI [of _ "a_late a"], rule exI [of _ "a_dropped a"]) simp

lemma late_dropped_take:
  "\<exists>l d w. a\<lparr>a_last_sp := v, a_armed := True, a_used := u\<rparr>
     = a\<lparr>a_late := l, a_dropped := d, a_last_sp := w, a_armed := True, a_used := u\<rparr>" for a :: ecm_cia402_axis
  by (rule exI [of _ "a_late a"], rule exI [of _ "a_dropped a"], rule exI [of _ v]) simp

lemma sp_loop_result:
  assumes "sp_loop b run cyclic k1 a r = (a', r', got)"
  shows "(\<not> got \<and> (\<exists>l d. a' = a\<lparr>a_late := l, a_dropped := d\<rparr>)) \<or>
    (got \<and> run \<and> cyclic \<and> (\<exists>l d v. a' = a\<lparr>a_late := l, a_dropped := d, a_last_sp := v, a_armed := True,
       a_used := a_used a + 1\<rparr>))"
  using assms
proof (induction b arbitrary: a r)
  case 0
  then show ?case
    by (subst (asm) sp_loop.simps) (auto split: option.splits if_splits intro!: late_dropped_id late_dropped_take)
next
  case (Suc b)
  show ?case
  proof (cases "ecm_xring_peek r")
    case None
    with Suc.prems have "a' = a\<lparr>a_late := a_late a, a_dropped := a_dropped a\<rparr>" "\<not> got"
      by (subst (asm) sp_loop.simps; simp)+
    then show ?thesis by blast
  next
    case (Some e)
    let ?skip = "\<not> e_tick e > k1 \<and> (e_tick e < k1 \<or> \<not> run \<or> \<not> cyclic)"
    let ?a = "if e_tick e < k1 then a\<lparr>a_late := a_late a + 1\<rparr> else a\<lparr>a_dropped := a_dropped a + 1\<rparr>"
    show ?thesis
    proof (cases ?skip)
      case True
      with Suc.prems Some have "sp_loop b run cyclic k1 ?a (ecm_xring_pop r) = (a', r', got)"
        by (subst (asm) sp_loop.simps) simp
      from Suc.IH [OF this] show ?thesis
        by (cases "e_tick e < k1") auto
    next
      case False
      with Suc.prems Some
      have "a' = a\<lparr>a_late := a_late a, a_dropped := a_dropped a\<rparr> \<and> \<not> got \<or>
        got \<and> run \<and> cyclic \<and> a' = a\<lparr>a_late := a_late a, a_dropped := a_dropped a, a_last_sp := fst (e_v e),
           a_armed := True, a_used := a_used a + 1\<rparr>"
        by (subst (asm) sp_loop.simps) (auto split: if_splits)
      then show ?thesis by blast
    qed
  qed
qed

lemma st_step_frame [simp]:
  "a_cfg (fst (st_step got run a w)) = a_cfg a" "a_b (fst (st_step got run a w)) = a_b a"
  "a_ds (fst (st_step got run a w)) = a_ds a" "a_sw (fst (st_step got run a w)) = a_sw a"
  "a_mode_ok (fst (st_step got run a w)) = a_mode_ok a"
  "a_mode_req (fst (st_step got run a w)) = a_mode_req a" "a_apos (fst (st_step got run a w)) = a_apos a"
  "a_reset_pulse (fst (st_step got run a w)) = a_reset_pulse a"
  "a_max_step_pos (fst (st_step got run a w)) = a_max_step_pos a"
  "a_max_step_vel (fst (st_step got run a w)) = a_max_step_vel a"
  "a_reached_oe (fst (st_step got run a w)) = a_reached_oe a"
  "a_last_sent (fst (st_step got run a w)) = a_last_sent a"
  by (simp_all add: st_step_def Let_def)

lemma st_csp_frame [simp]:
  "a_cfg (fst (st_csp got run en a io)) = a_cfg a" "a_b (fst (st_csp got run en a io)) = a_b a"
  "a_ds (fst (st_csp got run en a io)) = a_ds a" "a_sw (fst (st_csp got run en a io)) = a_sw a"
  "a_mode_ok (fst (st_csp got run en a io)) = a_mode_ok a"
  "a_mode_req (fst (st_csp got run en a io)) = a_mode_req a"
  "a_apos (fst (st_csp got run en a io)) = a_apos a"
  "a_reset_pulse (fst (st_csp got run en a io)) = a_reset_pulse a"
  "a_max_step_pos (fst (st_csp got run en a io)) = a_max_step_pos a"
  "a_max_step_vel (fst (st_csp got run en a io)) = a_max_step_vel a"
  "a_reached_oe (fst (st_csp got run en a io)) = a_reached_oe a"
  "a_target (fst (st_csp got run en a io)) = a_target a" "a_err (fst (st_csp got run en a io)) = a_err a"
  by (simp_all add: st_csp_def Let_def)

lemma st_csv_frame [simp]:
  "a_cfg (fst (st_csv got run a io)) = a_cfg a" "a_b (fst (st_csv got run a io)) = a_b a"
  "a_ds (fst (st_csv got run a io)) = a_ds a" "a_sw (fst (st_csv got run a io)) = a_sw a"
  "a_mode_ok (fst (st_csv got run a io)) = a_mode_ok a"
  "a_mode_req (fst (st_csv got run a io)) = a_mode_req a" "a_apos (fst (st_csv got run a io)) = a_apos a"
  "a_reset_pulse (fst (st_csv got run a io)) = a_reset_pulse a"
  "a_max_step_pos (fst (st_csv got run a io)) = a_max_step_pos a"
  "a_max_step_vel (fst (st_csv got run a io)) = a_max_step_vel a"
  "a_reached_oe (fst (st_csv got run a io)) = a_reached_oe a"
  "a_target (fst (st_csv got run a io)) = a_target a" "a_err (fst (st_csv got run a io)) = a_err a"
  by (simp_all add: st_csv_def Let_def)

lemma st_cyclic_frame [simp]:
  "a_cfg (fst (st_cyclic got run en a io)) = a_cfg a" "a_b (fst (st_cyclic got run en a io)) = a_b a"
  "a_ds (fst (st_cyclic got run en a io)) = a_ds a" "a_sw (fst (st_cyclic got run en a io)) = a_sw a"
  "a_mode_ok (fst (st_cyclic got run en a io)) = a_mode_ok a"
  "a_mode_req (fst (st_cyclic got run en a io)) = a_mode_req a"
  "a_apos (fst (st_cyclic got run en a io)) = a_apos a"
  "a_reset_pulse (fst (st_cyclic got run en a io)) = a_reset_pulse a"
  "a_max_step_pos (fst (st_cyclic got run en a io)) = a_max_step_pos a"
  "a_max_step_vel (fst (st_cyclic got run en a io)) = a_max_step_vel a"
  "a_reached_oe (fst (st_cyclic got run en a io)) = a_reached_oe a"
  "a_target (fst (st_cyclic got run en a io)) = a_target a"
  "a_err (fst (st_cyclic got run en a io)) = a_err a"
  by (simp_all add: st_cyclic_def Let_def)

lemma pp_deq_frame [simp]:
  "a_cfg (pp_deq a) = a_cfg a" "a_b (pp_deq a) = a_b a" "a_ds (pp_deq a) = a_ds a" "a_sw (pp_deq a) = a_sw a"
  "a_mode_ok (pp_deq a) = a_mode_ok a" "a_mode_req (pp_deq a) = a_mode_req a" "a_apos (pp_deq a) = a_apos a"
  "a_reset_pulse (pp_deq a) = a_reset_pulse a" "a_max_step_pos (pp_deq a) = a_max_step_pos a"
  "a_max_step_vel (pp_deq a) = a_max_step_vel a" "a_reached_oe (pp_deq a) = a_reached_oe a"
  "a_last_sent (pp_deq a) = a_last_sent a" "a_last_sp (pp_deq a) = a_last_sp a"
  "a_armed (pp_deq a) = a_armed a" "a_target (pp_deq a) = a_target a" "a_err (pp_deq a) = a_err a"
  by (simp_all add: pp_deq_def Let_def)

lemma pp_next_frame [simp]:
  "a_cfg (fst (pp_next tmo tk run a w)) = a_cfg a" "a_b (fst (pp_next tmo tk run a w)) = a_b a"
  "a_ds (fst (pp_next tmo tk run a w)) = a_ds a" "a_sw (fst (pp_next tmo tk run a w)) = a_sw a"
  "a_mode_ok (fst (pp_next tmo tk run a w)) = a_mode_ok a"
  "a_mode_req (fst (pp_next tmo tk run a w)) = a_mode_req a"
  "a_apos (fst (pp_next tmo tk run a w)) = a_apos a"
  "a_reset_pulse (fst (pp_next tmo tk run a w)) = a_reset_pulse a"
  "a_max_step_pos (fst (pp_next tmo tk run a w)) = a_max_step_pos a"
  "a_max_step_vel (fst (pp_next tmo tk run a w)) = a_max_step_vel a"
  "a_reached_oe (fst (pp_next tmo tk run a w)) = a_reached_oe a"
  "a_last_sent (fst (pp_next tmo tk run a w)) = a_last_sent a"
  "a_last_sp (fst (pp_next tmo tk run a w)) = a_last_sp a"
  "a_armed (fst (pp_next tmo tk run a w)) = a_armed a"
  by (simp_all add: pp_next_def Let_def)

lemma st_pp_frame [simp]:
  "a_cfg (fst (st_pp tmo tk run a w io)) = a_cfg a" "a_b (fst (st_pp tmo tk run a w io)) = a_b a"
  "a_ds (fst (st_pp tmo tk run a w io)) = a_ds a" "a_sw (fst (st_pp tmo tk run a w io)) = a_sw a"
  "a_mode_ok (fst (st_pp tmo tk run a w io)) = a_mode_ok a"
  "a_mode_req (fst (st_pp tmo tk run a w io)) = a_mode_req a"
  "a_apos (fst (st_pp tmo tk run a w io)) = a_apos a"
  "a_reset_pulse (fst (st_pp tmo tk run a w io)) = a_reset_pulse a"
  "a_max_step_pos (fst (st_pp tmo tk run a w io)) = a_max_step_pos a"
  "a_max_step_vel (fst (st_pp tmo tk run a w io)) = a_max_step_vel a"
  "a_reached_oe (fst (st_pp tmo tk run a w io)) = a_reached_oe a"
  "a_last_sent (fst (st_pp tmo tk run a w io)) = a_last_sent a"
  "a_last_sp (fst (st_pp tmo tk run a w io)) = a_last_sp a"
  "a_armed (fst (st_pp tmo tk run a w io)) = a_armed a"
  by (simp_all add: st_pp_def Let_def split_beta)

lemma st_hm_frame [simp]:
  "a_cfg (fst (st_hm htmo tk a w)) = a_cfg a" "a_b (fst (st_hm htmo tk a w)) = a_b a"
  "a_ds (fst (st_hm htmo tk a w)) = a_ds a" "a_sw (fst (st_hm htmo tk a w)) = a_sw a"
  "a_mode_ok (fst (st_hm htmo tk a w)) = a_mode_ok a" "a_mode_req (fst (st_hm htmo tk a w)) = a_mode_req a"
  "a_apos (fst (st_hm htmo tk a w)) = a_apos a" "a_reset_pulse (fst (st_hm htmo tk a w)) = a_reset_pulse a"
  "a_max_step_pos (fst (st_hm htmo tk a w)) = a_max_step_pos a"
  "a_max_step_vel (fst (st_hm htmo tk a w)) = a_max_step_vel a"
  "a_reached_oe (fst (st_hm htmo tk a w)) = a_reached_oe a"
  "a_last_sent (fst (st_hm htmo tk a w)) = a_last_sent a" "a_last_sp (fst (st_hm htmo tk a w)) = a_last_sp a"
  "a_armed (fst (st_hm htmo tk a w)) = a_armed a" "a_target (fst (st_hm htmo tk a w)) = a_target a"
  by (simp_all add: st_hm_def Let_def)

lemma st_profile_frame [simp]:
  "a_cfg (fst (st_profile tmo htmo tk run a w io)) = a_cfg a"
  "a_b (fst (st_profile tmo htmo tk run a w io)) = a_b a"
  "a_ds (fst (st_profile tmo htmo tk run a w io)) = a_ds a"
  "a_sw (fst (st_profile tmo htmo tk run a w io)) = a_sw a"
  "a_mode_ok (fst (st_profile tmo htmo tk run a w io)) = a_mode_ok a"
  "a_mode_req (fst (st_profile tmo htmo tk run a w io)) = a_mode_req a"
  "a_apos (fst (st_profile tmo htmo tk run a w io)) = a_apos a"
  "a_reset_pulse (fst (st_profile tmo htmo tk run a w io)) = a_reset_pulse a"
  "a_max_step_pos (fst (st_profile tmo htmo tk run a w io)) = a_max_step_pos a"
  "a_max_step_vel (fst (st_profile tmo htmo tk run a w io)) = a_max_step_vel a"
  "a_reached_oe (fst (st_profile tmo htmo tk run a w io)) = a_reached_oe a"
  "a_last_sent (fst (st_profile tmo htmo tk run a w io)) = a_last_sent a"
  "a_last_sp (fst (st_profile tmo htmo tk run a w io)) = a_last_sp a"
  "a_armed (fst (st_profile tmo htmo tk run a w io)) = a_armed a"
  using st_hm_frame [of htmo tk a w]
  by (simp_all add: st_profile_def split_beta)

lemma st_write_frame [simp]:
  "a_cfg (fst (st_write a w io)) = a_cfg a" "a_b (fst (st_write a w io)) = a_b a"
  "a_ds (fst (st_write a w io)) = a_ds a" "a_sw (fst (st_write a w io)) = a_sw a"
  "a_mode_ok (fst (st_write a w io)) = a_mode_ok a" "a_mode_req (fst (st_write a w io)) = a_mode_req a"
  "a_apos (fst (st_write a w io)) = a_apos a" "a_reset_pulse (fst (st_write a w io)) = a_reset_pulse a"
  "a_max_step_pos (fst (st_write a w io)) = a_max_step_pos a"
  "a_max_step_vel (fst (st_write a w io)) = a_max_step_vel a"
  "a_reached_oe (fst (st_write a w io)) = a_reached_oe a"
  "a_last_sent (fst (st_write a w io)) = a_last_sent a" "a_last_sp (fst (st_write a w io)) = a_last_sp a"
  "a_armed (fst (st_write a w io)) = a_armed a" "a_target (fst (st_write a w io)) = a_target a"
  "a_err (fst (st_write a w io)) = a_err a"
  by (simp_all add: st_write_def Let_def)

lemma axis_backE:
  assumes "axis_back tmo htmo tk en a3 w3 r io = (a', r', io')"
  obtains run cyclic a5 got a7 w7 got7 run7 a8 io8 a10 w10 io10 where
    "run = (a_target a3 = ECM_TGT_ENABLED \<and> a_ds a3 = ECM_DS_OE \<and> a_mode_ok a3)"
    "cyclic = (a_mode_req a3 = ECM_OPMODE_CSP \<or> a_mode_req a3 = ECM_OPMODE_CSV)"
    "sp_loop ECM_XCHG_SP_SKIP_MAX run cyclic (tk + 1) (a3\<lparr>a_running := run\<rparr>) r = (a5, r', got)"
    "st_step got run (st_underrun run cyclic got a5) w3 = (a7, w7, got7, run7)"
    "st_cyclic got7 run7 en a7 io = (a8, io8)"
    "st_profile tmo htmo tk run7 (st_stop run7 a8) w7 io8 = (a10, w10, io10)"
    "st_write a10 w10 io10 = (a', io')"
  using assms unfolding axis_back_def Let_def
  by (auto split: prod.splits)

section \<open>Enabling\<close>

text \<open>No stage of the step turns a target into ENABLED.\<close>

lemma st_latch_target: "a_target (st_latch bl a) = ECM_TGT_ENABLED \<Longrightarrow>
    \<not> bl \<and> a_target a = ECM_TGT_ENABLED \<and> a_ds a \<noteq> ECM_DS_FAULT \<and> a_ds a \<noteq> ECM_DS_FRA"
  by (auto simp: st_latch_def split: if_splits)

lemma st_ext_target: "a_target (st_ext xe a) = ECM_TGT_ENABLED \<Longrightarrow> xe = 0 \<and> a_target a = ECM_TGT_ENABLED"
  by (auto simp: st_ext_def split: if_splits)

lemma st_dropped_target: "a_target (st_dropped iv a) = ECM_TGT_ENABLED \<Longrightarrow>
    a_target a = ECM_TGT_ENABLED \<and> (iv \<and> a_ds a \<noteq> ECM_DS_OE \<longrightarrow> \<not> a_reached_oe a)"
  by (auto simp: st_dropped_def split: if_splits)

definition front1 :: "u64 \<Rightarrow> u8 \<Rightarrow> bool \<Rightarrow> bool \<Rightarrow> iomap \<Rightarrow> ecm_cia402_axis \<Rightarrow> ecm_cia402_axis" where
  "front1 cyc xe iv bl io a = st_dropped iv (st_ext xe (st_latch bl (st_inputs cyc io iv a)))"

lemma front1_target:
  assumes "a_target (front1 cyc xe iv bl io a) = ECM_TGT_ENABLED"
  shows "\<not> bl \<and> xe = 0 \<and> a_target a = ECM_TGT_ENABLED \<and>
    a_ds (front1 cyc xe iv bl io a) \<noteq> ECM_DS_FAULT \<and> a_ds (front1 cyc xe iv bl io a) \<noteq> ECM_DS_FRA \<and>
    (iv \<and> a_ds (front1 cyc xe iv bl io a) \<noteq> ECM_DS_OE \<longrightarrow> \<not> a_reached_oe a)"
proof -
  note d = st_dropped_target [OF assms [unfolded front1_def]]
  note e = st_ext_target [OF conjunct1 [OF d]]
  note l = st_latch_target [OF conjunct2 [OF e]]
  from d e l show ?thesis by (auto simp: front1_def)
qed

text \<open>The bits of the controlword: bit 3 (enable operation) and bit 7 (fault reset).\<close>

lemma cw_bits [simp]:
  "\<not> bit (0x0006 :: u16) 3" "\<not> bit (0x0007 :: u16) 3" "\<not> bit (0x0002 :: u16) 3" "\<not> bit (0x0080 :: u16) 3"
  "bit (0x000F :: u16) 3" "\<not> bit (0x0006 :: u16) 7" "\<not> bit (0x0007 :: u16) 7" "\<not> bit (0x0002 :: u16) 7"
  "\<not> bit (0x000F :: u16) 7" "bit (0x0080 :: u16) 7"
  by (simp_all add: bit_numeral_rec numeral_eq_Suc)

lemma st_cw_frame [simp]:
  "a_cfg (fst (st_cw a)) = a_cfg a" "a_b (fst (st_cw a)) = a_b a" "a_ds (fst (st_cw a)) = a_ds a"
  "a_sw (fst (st_cw a)) = a_sw a" "a_mode_ok (fst (st_cw a)) = a_mode_ok a"
  "a_mode_req (fst (st_cw a)) = a_mode_req a" "a_apos (fst (st_cw a)) = a_apos a"
  "a_armed (fst (st_cw a)) = a_armed a" "a_max_step_pos (fst (st_cw a)) = a_max_step_pos a"
  "a_max_step_vel (fst (st_cw a)) = a_max_step_vel a" "a_reached_oe (fst (st_cw a)) = a_reached_oe a"
  "a_last_sent (fst (st_cw a)) = a_last_sent a" "a_last_sp (fst (st_cw a)) = a_last_sp a"
  by (simp_all add: st_cw_def Let_def)

lemma st_timeout_frame [simp]:
  "a_cfg (fst (st_timeout tmo tk bl a w)) = a_cfg a" "a_b (fst (st_timeout tmo tk bl a w)) = a_b a"
  "a_ds (fst (st_timeout tmo tk bl a w)) = a_ds a" "a_sw (fst (st_timeout tmo tk bl a w)) = a_sw a"
  "a_mode_ok (fst (st_timeout tmo tk bl a w)) = a_mode_ok a"
  "a_mode_req (fst (st_timeout tmo tk bl a w)) = a_mode_req a"
  "a_apos (fst (st_timeout tmo tk bl a w)) = a_apos a" "a_armed (fst (st_timeout tmo tk bl a w)) = a_armed a"
  "a_max_step_pos (fst (st_timeout tmo tk bl a w)) = a_max_step_pos a"
  "a_max_step_vel (fst (st_timeout tmo tk bl a w)) = a_max_step_vel a"
  "a_reached_oe (fst (st_timeout tmo tk bl a w)) = a_reached_oe a"
  "a_last_sent (fst (st_timeout tmo tk bl a w)) = a_last_sent a"
  "a_last_sp (fst (st_timeout tmo tk bl a w)) = a_last_sp a"
  "a_reset_pulse (fst (st_timeout tmo tk bl a w)) = a_reset_pulse a"
  by (simp_all add: st_timeout_def Let_def)

lemma walk_cw_bit3: "bit (walk_cw t d mok) 3 \<Longrightarrow>
    t = ECM_TGT_ENABLED \<and> (d = ECM_DS_OE \<or> d = ECM_DS_SO \<and> mok)"
  by (auto simp: walk_cw_def split: ecm_tgt.splits ecm_ds.splits if_splits)

lemma walk_cw_bit7 [simp]: "\<not> bit (walk_cw t d mok) 7"
  by (auto simp: walk_cw_def split: ecm_tgt.splits ecm_ds.splits)

lemma st_cw_result:
  assumes "st_cw a = (a', w, en)"
  shows "(a_target a' = ECM_TGT_ENABLED \<longleftrightarrow> a_target a = ECM_TGT_ENABLED)"
    "en \<longleftrightarrow> a_target a = ECM_TGT_ENABLED \<and> a_ds a = ECM_DS_SO \<and> a_mode_ok a"
    "bit w 3 \<Longrightarrow> a_target a = ECM_TGT_ENABLED \<and> (a_ds a = ECM_DS_OE \<or> a_ds a = ECM_DS_SO \<and> a_mode_ok a)"
    "bit w 7 \<Longrightarrow> a_reset_pulse a = 2"
    "a_reset_pulse a' \<noteq> 2"
  using assms
  by (auto simp: st_cw_def Let_def split: if_splits dest: walk_cw_bit3)

lemma st_timeout_result:
  assumes "st_timeout tmo tk bl a w = (a', w')"
  shows "a_target a' = ECM_TGT_ENABLED \<Longrightarrow> a_target a = ECM_TGT_ENABLED"
    "bit w' 3 \<Longrightarrow> bit w 3 \<and> (a_target a = ECM_TGT_ENABLED \<longrightarrow> a_target a' = ECM_TGT_ENABLED)"
    "bit w' 7 \<Longrightarrow> bit w 7"
  using assms by (auto simp: st_timeout_def split: if_splits)

lemma st_step_result:
  assumes "st_step got run a w = (a', w', got', run')"
  shows "(a' = a \<and> w' = w \<and> got' = got \<and> run' = run \<and>
      (got \<and> step_limit a \<noteq> 0 \<longrightarrow> \<bar>a_last_sp a - a_last_sent a\<bar> \<le> step_limit a)) \<or>
    (got \<and> \<not> got' \<and> \<not> run' \<and> a_target a' = ECM_TGT_QUICKSTOP \<and> a_err a' = ECM_AXERR_STEP \<and> \<not> a_armed a' \<and>
     a_last_sp a' = a_last_sent a \<and> w' = (if a_ds a = ECM_DS_OE then 0x0002 else w) \<and>
     \<bar>a_last_sp a - a_last_sent a\<bar> > step_limit a)"
  using assms by (auto simp: st_step_def Let_def split: if_splits)

lemma pp_next_result:
  assumes "pp_next tmo tk run a w = (a', w')"
  shows "a_target a' = ECM_TGT_ENABLED \<Longrightarrow> a_target a = ECM_TGT_ENABLED"
    "a_target a' = a_target a \<and> w' = w \<or> a_target a' = ECM_TGT_DISABLED \<and> w' = 0x0007"
  using assms by (auto simp: pp_next_def pp_deq_def Let_def split: if_splits)

lemma or_bits: "\<not> bit (0x10 :: u16) 3" "\<not> bit (0x20 :: u16) 3" "\<not> bit (0x40 :: u16) 3"
  "\<not> bit (0x10 :: u16) 7" "\<not> bit (0x20 :: u16) 7" "\<not> bit (0x40 :: u16) 7"
  by (simp_all add: bit_numeral_rec numeral_eq_Suc)

lemma st_pp_result:
  assumes "st_pp tmo tk run a w io = (a', w', io')"
  shows "a_target a' = ECM_TGT_ENABLED \<Longrightarrow> a_target a = ECM_TGT_ENABLED"
    "bit w' 3 \<Longrightarrow> bit w 3 \<and> a_target a' = a_target a" "bit w' 7 \<Longrightarrow> bit w 7"
proof -
  obtain a1 w1 where n: "pp_next tmo tk run a w = (a1, w1)" by fastforce
  have a': "a' = a1" and w': "bit w' 3 \<longleftrightarrow> bit w1 3" "bit w' 7 \<longleftrightarrow> bit w1 7"
    using assms by (auto simp: st_pp_def n Let_def bit_or_iff or_bits split: if_splits)
  show "a_target a' = ECM_TGT_ENABLED \<Longrightarrow> a_target a = ECM_TGT_ENABLED"
    "bit w' 3 \<Longrightarrow> bit w 3 \<and> a_target a' = a_target a" "bit w' 7 \<Longrightarrow> bit w 7"
    using pp_next_result [OF n] unfolding a' w' by auto
qed

lemma st_hm_result:
  assumes "st_hm htmo tk a w = (a', w')"
  shows "a_target a' = a_target a" "bit w' 3 \<longleftrightarrow> bit w 3" "bit w' 7 \<longleftrightarrow> bit w 7"
  using assms by (auto simp: st_hm_def Let_def bit_or_iff or_bits split: if_splits)

lemma st_profile_result:
  assumes "st_profile tmo htmo tk run a w io = (a', w', io')"
  shows "a_target a' = ECM_TGT_ENABLED \<Longrightarrow> a_target a = ECM_TGT_ENABLED"
    "bit w' 3 \<Longrightarrow> bit w 3 \<and> a_target a' = a_target a" "bit w' 7 \<Longrightarrow> bit w 7"
  using assms st_pp_result [of tmo tk run a w io a' w' io'] st_hm_result [of htmo tk a w]
  by (auto simp: st_profile_def split: if_splits prod.splits)

lemma st_write_result: "st_write a w io = (a', io') \<Longrightarrow> a' = a\<lparr>a_cw := w\<rparr>"
  by (simp add: st_write_def Let_def)

lemma axis_back_result:
  assumes "axis_back tmo htmo tk en a3 w3 r io = (a', r', io')"
  shows "a_target a' = ECM_TGT_ENABLED \<Longrightarrow> a_target a3 = ECM_TGT_ENABLED"
    "bit (a_cw a') 3 \<Longrightarrow> bit w3 3 \<and> a_target a' = a_target a3"
    "bit (a_cw a') 7 \<Longrightarrow> bit w3 7"
    "a_ds a' = a_ds a3" "a_mode_ok a' = a_mode_ok a3" "a_b a' = a_b a3" "a_mode_req a' = a_mode_req a3"
    "a_reset_pulse a' = a_reset_pulse a3" "a_apos a' = a_apos a3" "a_max_step_pos a' = a_max_step_pos a3"
proof -
  obtain run cyclic a5 got a7 w7 got7 run7 a8 io8 a10 w10 io10 where e:
    "run = (a_target a3 = ECM_TGT_ENABLED \<and> a_ds a3 = ECM_DS_OE \<and> a_mode_ok a3)"
    "cyclic = (a_mode_req a3 = ECM_OPMODE_CSP \<or> a_mode_req a3 = ECM_OPMODE_CSV)"
    "sp_loop ECM_XCHG_SP_SKIP_MAX run cyclic (tk + 1) (a3\<lparr>a_running := run\<rparr>) r = (a5, r', got)"
    "st_step got run (st_underrun run cyclic got a5) w3 = (a7, w7, got7, run7)"
    "st_cyclic got7 run7 en a7 io = (a8, io8)"
    "st_profile tmo htmo tk run7 (st_stop run7 a8) w7 io8 = (a10, w10, io10)"
    "st_write a10 w10 io10 = (a', io')"
    using assms by (rule axis_backE)
  let ?a6 = "st_underrun run cyclic got a5"
  have a5: "a_target a5 = a_target a3" "a_ds a5 = a_ds a3" "a_mode_ok a5 = a_mode_ok a3" "a_b a5 = a_b a3"
    "a_mode_req a5 = a_mode_req a3" "a_reset_pulse a5 = a_reset_pulse a3" "a_apos a5 = a_apos a3"
    "a_max_step_pos a5 = a_max_step_pos a3" and got: "got \<Longrightarrow> run"
    using sp_loop_result [OF e(3)] by auto
  note s7 = st_step_result [OF e(4)] and f7 = st_step_frame [of got run ?a6 w3, unfolded e(4), simplified]
  note f8 = st_cyclic_frame [of got7 run7 en a7 io, unfolded e(5), simplified]
  note s10 = st_profile_result [OF e(6)]
    and f10 = st_profile_frame [of tmo htmo tk run7 "st_stop run7 a8" w7 io8, unfolded e(6), simplified]
  note a' = st_write_result [OF e(7)]
  show "a_ds a' = a_ds a3" "a_mode_ok a' = a_mode_ok a3" "a_b a' = a_b a3" "a_mode_req a' = a_mode_req a3"
    "a_reset_pulse a' = a_reset_pulse a3" "a_apos a' = a_apos a3" "a_max_step_pos a' = a_max_step_pos a3"
    unfolding a' using f7 f8 f10 a5 by simp_all
  have t7: "a_target a7 = a_target a3 \<and> w7 = w3 \<or> a_target a7 = ECM_TGT_QUICKSTOP \<and> w7 = 0x0002"
    using s7 a5 got e(1) by auto
  show "a_target a' = ECM_TGT_ENABLED \<Longrightarrow> a_target a3 = ECM_TGT_ENABLED"
    unfolding a' using s10(1) f8 t7 by auto
  show "bit (a_cw a') 3 \<Longrightarrow> bit w3 3 \<and> a_target a' = a_target a3"
    unfolding a' using s10(2) f8 t7 by auto
  show "bit (a_cw a') 7 \<Longrightarrow> bit w3 7"
    unfolding a' using s10(3) t7 by auto
qed

lemma axis_frontE:
  assumes "axis_front cyc tmo xe tk iv bl io a = (a3, w3, en)"
  obtains a2 w2 where "st_cw (front1 cyc xe iv bl io a) = (a2, w2, en)" "st_timeout tmo tk bl a2 w2 = (a3, w3)"
  using assms unfolding axis_front_def front1_def Let_def by (auto split: prod.splits)

lemma front1_frame [simp]:
  "a_b (front1 cyc xe iv bl io a) = a_b a" "a_mode_req (front1 cyc xe iv bl io a) = a_mode_req a"
  "a_reset_pulse (front1 cyc xe iv bl io a) = a_reset_pulse a" "a_armed (front1 cyc xe iv bl io a) = a_armed a"
  "a_last_sp (front1 cyc xe iv bl io a) = a_last_sp a" "a_last_sent (front1 cyc xe iv bl io a) = a_last_sent a"
  "a_max_step_pos (front1 cyc xe iv bl io a) = a_max_step_pos a"
  by (simp_all add: front1_def)

lemma axis_front_result:
  assumes "axis_front cyc tmo xe tk iv bl io a = (a3, w3, en)"
  shows "a_target a3 = ECM_TGT_ENABLED \<Longrightarrow> \<not> bl \<and> xe = 0 \<and> a_target a = ECM_TGT_ENABLED \<and>
      a_ds a3 \<noteq> ECM_DS_FAULT \<and> a_ds a3 \<noteq> ECM_DS_FRA \<and> (iv \<and> a_ds a3 \<noteq> ECM_DS_OE \<longrightarrow> \<not> a_reached_oe a)"
    "bit w3 3 \<Longrightarrow> a_target a3 = ECM_TGT_ENABLED \<and> (a_ds a3 = ECM_DS_OE \<or> a_ds a3 = ECM_DS_SO \<and> a_mode_ok a3)"
    "bit w3 7 \<Longrightarrow> a_reset_pulse a = 2" "a_reset_pulse a3 \<noteq> 2"
    "en \<Longrightarrow> a_ds a3 = ECM_DS_SO"
    "a_b a3 = a_b a" "a_mode_req a3 = a_mode_req a" "a_armed a3 = a_armed a" "a_last_sp a3 = a_last_sp a"
    "a_last_sent a3 = a_last_sent a" "a_max_step_pos a3 = a_max_step_pos a"
proof -
  obtain a2 w2 where c: "st_cw (front1 cyc xe iv bl io a) = (a2, w2, en)"
    and t: "st_timeout tmo tk bl a2 w2 = (a3, w3)"
    using assms by (rule axis_frontE)
  let ?a1 = "front1 cyc xe iv bl io a"
  note c2 = st_cw_result [OF c] and t3 = st_timeout_result [OF t]
  note fc = st_cw_frame [of ?a1, unfolded c, simplified] and ft = st_timeout_frame [of tmo tk bl a2 w2, unfolded t, simplified]
  show "a_b a3 = a_b a" "a_mode_req a3 = a_mode_req a" "a_armed a3 = a_armed a" "a_last_sp a3 = a_last_sp a"
    "a_last_sent a3 = a_last_sent a" "a_max_step_pos a3 = a_max_step_pos a" "a_reset_pulse a3 \<noteq> 2"
    using fc ft c2(5) by simp_all
  show "en \<Longrightarrow> a_ds a3 = ECM_DS_SO" using fc ft c2(2) by simp
  show "a_target a3 = ECM_TGT_ENABLED \<Longrightarrow> \<not> bl \<and> xe = 0 \<and> a_target a = ECM_TGT_ENABLED \<and>
      a_ds a3 \<noteq> ECM_DS_FAULT \<and> a_ds a3 \<noteq> ECM_DS_FRA \<and> (iv \<and> a_ds a3 \<noteq> ECM_DS_OE \<longrightarrow> \<not> a_reached_oe a)"
  proof -
    assume "a_target a3 = ECM_TGT_ENABLED"
    then have t: "a_target ?a1 = ECM_TGT_ENABLED" using c2(1) t3(1) by blast
    have d: "a_ds a3 = a_ds ?a1" using fc ft by simp
    from front1_target [OF t] show ?thesis unfolding d .
  qed
  show "bit w3 3 \<Longrightarrow> a_target a3 = ECM_TGT_ENABLED \<and> (a_ds a3 = ECM_DS_OE \<or> a_ds a3 = ECM_DS_SO \<and> a_mode_ok a3)"
    using c2(1,3) t3(2) fc ft by auto
  show "bit w3 7 \<Longrightarrow> a_reset_pulse a = 2" using c2(4) t3(3) by simp
qed

lemma axis_step_target:
  assumes "axis_step cyc tmo htmo xe tk iv bl a r io = (a', r', io')" and "a_target a' = ECM_TGT_ENABLED"
  shows "\<not> bl \<and> xe = 0 \<and> a_target a = ECM_TGT_ENABLED \<and> a_ds a' \<noteq> ECM_DS_FAULT \<and> a_ds a' \<noteq> ECM_DS_FRA \<and>
    (iv \<and> a_ds a' \<noteq> ECM_DS_OE \<longrightarrow> \<not> a_reached_oe a)"
proof -
  obtain a3 w3 en where f: "axis_front cyc tmo xe tk iv bl io a = (a3, w3, en)" by (metis prod_cases3)
  show ?thesis
  proof (cases bl)
    case True
    with assms f axis_front_result(1) [OF f] show ?thesis by (simp add: axis_step_def)
  next
    case False
    with assms(1) f have b: "axis_back tmo htmo tk en a3 w3 r io = (a', r', io')" by (simp add: axis_step_def)
    with axis_back_result(1) [OF b assms(2)] axis_front_result(1) [OF f] axis_back_result(4) [OF b]
    show ?thesis by simp
  qed
qed

lemma axis_step_cw:
  assumes "axis_step cyc tmo htmo xe tk iv False a r io = (a', r', io')"
  shows "bit (a_cw a') 3 \<Longrightarrow> a_target a' = ECM_TGT_ENABLED \<and> (a_ds a' = ECM_DS_OE \<or> a_ds a' = ECM_DS_SO \<and> a_mode_ok a')"
    "bit (a_cw a') 7 \<Longrightarrow> a_reset_pulse a = 2"
    "a_reset_pulse a' \<noteq> 2" "a_b a' = a_b a" "a_mode_req a' = a_mode_req a"
proof -
  obtain a3 w3 en where f: "axis_front cyc tmo xe tk iv False io a = (a3, w3, en)" by (metis prod_cases3)
  with assms have b: "axis_back tmo htmo tk en a3 w3 r io = (a', r', io')" by (simp add: axis_step_def)
  note F = axis_front_result [OF f] and B = axis_back_result [OF b]
  show "bit (a_cw a') 3 \<Longrightarrow> a_target a' = ECM_TGT_ENABLED \<and> (a_ds a' = ECM_DS_OE \<or> a_ds a' = ECM_DS_SO \<and> a_mode_ok a')"
    using F(2) B(2,4,5) by auto
  show "bit (a_cw a') 7 \<Longrightarrow> a_reset_pulse a = 2" "a_reset_pulse a' \<noteq> 2" "a_b a' = a_b a" "a_mode_req a' = a_mode_req a"
    using F B by auto
qed

section \<open>An axis that is not running\<close>

lemma st_stop_err: "a_err a \<noteq> 0 \<Longrightarrow> a_err (st_stop run a) = a_err a"
  by (simp add: st_stop_def Let_def)

lemma st_profile_idle:
  assumes "st_profile tmo htmo tk False a w io = (a', w', io')"
  shows "a_target a' = a_target a \<and> a_err a' = a_err a \<and> w' = w"
  using assms by (auto simp: st_profile_def st_pp_def pp_next_def Let_def split: if_splits)

lemma axis_back_idle:
  assumes "axis_back tmo htmo tk en a3 w3 r io = (a', r', io')"
    and "\<not> (a_target a3 = ECM_TGT_ENABLED \<and> a_ds a3 = ECM_DS_OE \<and> a_mode_ok a3)"
  shows "a_target a' = a_target a3 \<and> a_cw a' = w3 \<and> (a_err a3 \<noteq> 0 \<longrightarrow> a_err a' = a_err a3)"
proof -
  obtain run cyclic a5 got a7 w7 got7 run7 a8 io8 a10 w10 io10 where e:
    "run = (a_target a3 = ECM_TGT_ENABLED \<and> a_ds a3 = ECM_DS_OE \<and> a_mode_ok a3)"
    "cyclic = (a_mode_req a3 = ECM_OPMODE_CSP \<or> a_mode_req a3 = ECM_OPMODE_CSV)"
    "sp_loop ECM_XCHG_SP_SKIP_MAX run cyclic (tk + 1) (a3\<lparr>a_running := run\<rparr>) r = (a5, r', got)"
    "st_step got run (st_underrun run cyclic got a5) w3 = (a7, w7, got7, run7)"
    "st_cyclic got7 run7 en a7 io = (a8, io8)"
    "st_profile tmo htmo tk run7 (st_stop run7 a8) w7 io8 = (a10, w10, io10)"
    "st_write a10 w10 io10 = (a', io')"
    using assms(1) by (rule axis_backE)
  have run: "\<not> run" using e(1) assms(2) by simp
  have a5: "a_target a5 = a_target a3" "a_err a5 = a_err a3" and got: "\<not> got"
    using sp_loop_result [OF e(3)] run by auto
  have 7: "a7 = st_underrun run cyclic got a5" "w7 = w3" "\<not> run7"
    using st_step_result [OF e(4)] got run by auto
  have 8: "a_target a8 = a_target a3" "a_err a8 = a_err a3"
    using st_cyclic_frame [of got7 run7 en a7 io, unfolded e(5), simplified] a5 7(1) by simp_all
  show ?thesis
    using st_profile_idle [of tmo htmo tk "st_stop run7 a8" w7 io8 a10 w10 io10] e(6) 7(2,3) 8
      st_write_result [OF e(7)] st_stop_err [of a8 run7]
    by auto
qed

section \<open>What the step reads\<close>

lemma axis_front_ds:
  assumes "axis_front cyc tmo xe tk iv bl io a = (a3, w3, en)"
  shows "a_ds a3 = (if iv then ecm_cia402_decode (ucast (ecm_pdo_get (b_sw (a_b a)) io)) else a_ds a)"
proof -
  obtain a2 w2 where c: "st_cw (front1 cyc xe iv bl io a) = (a2, w2, en)" and t: "st_timeout tmo tk bl a2 w2 = (a3, w3)"
    using assms by (rule axis_frontE)
  have "a_ds a3 = a_ds (front1 cyc xe iv bl io a)"
    using st_timeout_frame(3) [of tmo tk bl a2 w2, unfolded t, simplified]
      st_cw_frame(3) [of "front1 cyc xe iv bl io a", unfolded c, simplified] by simp
  also have "\<dots> = a_ds (st_inputs cyc io iv a)" by (simp add: front1_def)
  also have "\<dots> = (if iv then ecm_cia402_decode (ucast (ecm_pdo_get (b_sw (a_b a)) io)) else a_ds a)"
    by (simp add: st_inputs_def in_ds_def [unfolded Let_def])
  finally show ?thesis .
qed

lemma axis_step_ds:
  assumes "axis_step cyc tmo htmo xe tk iv bl a r io = (a', r', io')"
  shows "a_ds a' = (if iv then ecm_cia402_decode (ucast (ecm_pdo_get (b_sw (a_b a)) io)) else a_ds a)"
proof -
  obtain a3 w3 en where f: "axis_front cyc tmo xe tk iv bl io a = (a3, w3, en)" by (metis prod_cases3)
  show ?thesis
  proof (cases bl)
    case True
    with assms f axis_front_ds [OF f] show ?thesis by (simp add: axis_step_def)
  next
    case False
    with assms f have b: "axis_back tmo htmo tk en a3 w3 r io = (a', r', io')" by (simp add: axis_step_def)
    from axis_back_result(4) [OF b] axis_front_ds [OF f] show ?thesis by simp
  qed
qed

section \<open>A concrete axis\<close>

text \<open>One CSP axis: outputs controlword and target position, inputs statusword and
  actual position. Used to instantiate the properties.\<close>

definition demo_h :: "u32 \<Rightarrow> u16 \<Rightarrow> ecm_pdo_dir \<Rightarrow> ecm_pdo_handle" where
  "demo_h b n d = \<lparr>h_slave = 1, h_group = 1, h_dir = d, h_bit = b, h_bits = n\<rparr>"

definition demo_bind :: ecm_axis_bind_t where
  "demo_bind = bind_zero\<lparr>b_cw := demo_h 0 16 ECM_PDO_OUT, b_tpos := demo_h 16 32 ECM_PDO_OUT,
     b_sw := demo_h 48 16 ECM_PDO_IN, b_apos := demo_h 64 32 ECM_PDO_IN\<rparr>"

definition demo_cfg :: ecm_axis_cfg where
  "demo_cfg = \<lparr>ax_slave = 1, ax_n = 0, ax_modes = 0x80, ax_name = ''x''\<rparr>"

definition demo_axis :: "ecm_tgt \<Rightarrow> ecm_ds \<Rightarrow> ecm_cia402_axis" where
  "demo_axis t d = (axis_zero demo_cfg demo_bind)\<lparr>a_mode_req := ECM_OPMODE_CSP, a_target := t, a_ds := d,
     a_ds_wait := d, a_max_step_pos := 100\<rparr>"

definition demo_ring :: "ecm_xsp ecm_xring" where
  "demo_ring = ecm_xring_init xsp_zero ECM_XRING_CAP"

definition demo_io :: "u8 \<Rightarrow> iomap" where "demo_io s = (\<lambda>_. 0)(6 := s)"

definition demo_cia :: "ecm_cia402_axis \<Rightarrow> ecm_cia402" where
  "demo_cia a = (ecm_cia402_init 1000000 500)\<lparr>naxes := 1, c_ax := (\<lambda>_. a)\<rparr>"

lemmas axis_zero_simps = axis_zero_def demo_axis_def

lemma demo_bind_ok: "axis_bind_ok demo_bind"
  by (simp add: axis_bind_ok_def demo_bind_def bind_zero_def demo_h_def handle_ok_def handle_zero_def)
     (auto simp: apart_def in_handle_def)

lemma demo_sw: "ecm_pdo_get (demo_h 48 16 ECM_PDO_IN) (demo_io 0x40) = 0x40"
  by (simp add: ecm_pdo_get_def pdo_get_loop.simps get_part_def chunk_def demo_h_def demo_io_def Let_def)

lemma demo_peek: "ecm_xring_peek demo_ring = None"
  by (simp add: demo_ring_def ecm_xring_init_def ecm_xring_peek_def)

lemma demo_front:
  "axis_front cyc 500 0 5 False False io (demo_axis ECM_TGT_ENABLED ECM_DS_SOD)
    = (demo_axis ECM_TGT_ENABLED ECM_DS_SOD, 6, False)"
  by (simp add: axis_front_def st_inputs_def in_mode_ok_def st_latch_def st_ext_def st_dropped_def st_cw_def
      walk_cw_def st_timeout_def demo_axis_def axis_zero_def)

lemma demo_back_target:
  "a_target (fst (axis_back 500 htmo 5 False (demo_axis ECM_TGT_ENABLED ECM_DS_SOD) 6 demo_ring io)) = ECM_TGT_ENABLED"
proof -
  obtain a' r' io' where b: "axis_back 500 htmo 5 False (demo_axis ECM_TGT_ENABLED ECM_DS_SOD) 6 demo_ring io = (a', r', io')"
    by (metis prod_cases3)
  with axis_back_idle [OF b] show ?thesis by (simp add: demo_axis_def axis_zero_def)
qed

end
