(* ===== verification/Cia402_Safety.thy ===== *)
theory Cia402_Safety
  imports Cia402_Stages
begin

text \<open>
  The safety latches S1 to S7 of the axis layer, on \<open>axis_step\<close> (one axis, one
  tick) and on the whole hook \<open>ecm_cia402_rt\<close>.
\<close>

section \<open>Commands\<close>

lemma axis_cmd_target:
  assumes "a_target (axis_cmd sd xe x tk a) = ECM_TGT_ENABLED"
  shows "a_target a = ECM_TGT_ENABLED \<or>
    (c_op x = ECM_CIA_OP_ENABLE \<and> \<not> sd \<and> xe = 0 \<and> a_ds a \<noteq> ECM_DS_FAULT \<and> a_ds a \<noteq> ECM_DS_FRA \<and>
     mode_allowed a (a_mode_req a))"
  using assms
  by (auto simp: axis_cmd_def cmd_enable_def cmd_fault_reset_def cmd_set_mode_def cmd_pp_point_def pp_enq_def
      cmd_pv_vel_def cmd_home_def mode_allowed_def Let_def split: if_splits)

lemma axis_cmd_reset:
  assumes "a_reset_pulse (axis_cmd sd xe x tk a) = 2"
  shows "a_reset_pulse a = 2 \<or> (c_op x = ECM_CIA_OP_FAULT_RESET \<and> a_ds a = ECM_DS_FAULT)"
  using assms
  by (auto simp: axis_cmd_def cmd_enable_def cmd_fault_reset_def cmd_set_mode_def cmd_pp_point_def pp_enq_def
      cmd_pv_vel_def cmd_home_def Let_def split: if_splits)

text \<open>The command loop as a fold over the commands it takes.\<close>

definition cia_ready :: "u64 \<Rightarrow> ecm_cia402 \<Rightarrow> ecm_xcmd list" where
  "cia_ready tk c = take ECM_XCHG_CMD_PER_TICK (takeWhile (\<lambda>x. c_tick x \<le> tk + 1) (xring_cont (c_cmd c)))"

lemma cia_cmd_ring: "c_cmd (cia_cmd x tk c) = ecm_xring_pop (c_cmd c)"
  by (simp add: cia_cmd_def apply_cmd_def Let_def)

lemma cia_cmds_fold:
  assumes "xring_inv j (c_cmd c)"
  shows "\<exists>d. cia_cmds b tk c =
    (fold (\<lambda>x. cia_cmd x tk) (take b (takeWhile (\<lambda>x. c_tick x \<le> tk + 1) (xring_cont (c_cmd c)))) c)\<lparr>n_deferred := d\<rparr>"
  using assms
proof (induction b arbitrary: c)
  case 0
  show ?case
    by (subst cia_cmds.simps)
       (auto split: option.splits intro: exI [of _ "n_deferred c"])
next
  case (Suc b)
  show ?case
  proof (cases "ecm_xring_peek (c_cmd c)")
    case None
    with Suc.prems have "xring_cont (c_cmd c) = []"
      by (auto simp: xring_peek_cont [of j] split: list.splits)
    with None show ?thesis by (subst cia_cmds.simps) (auto intro: exI [of _ "n_deferred c"])
  next
    case (Some x)
    from xring_pop_cont [OF Suc.prems Some]
    have inv: "xring_inv j (c_cmd (cia_cmd x tk c))"
      and q: "xring_cont (c_cmd c) = x # xring_cont (c_cmd (cia_cmd x tk c))"
      by (auto simp: cia_cmd_ring)
    show ?thesis
    proof (cases "c_tick x > tk + 1")
      case True
      with q Some show ?thesis by (subst cia_cmds.simps) (auto intro: exI [of _ "n_deferred c"])
    next
      case False
      with q Some Suc.IH [OF inv] show ?thesis by (subst cia_cmds.simps) simp
    qed
  qed
qed

text \<open>A command changes one axis; the rest of the hook's state that guards enabling stays.\<close>

lemma cia_cmd_frame [simp]:
  "naxes (cia_cmd x tk c) = naxes c" "c_shutdown (cia_cmd x tk c) = c_shutdown c"
  "c_ext_err (cia_cmd x tk c) = c_ext_err c" "c_sp (cia_cmd x tk c) = c_sp c" "c_st (cia_cmd x tk c) = c_st c"
  "c_clk (cia_cmd x tk c) = c_clk c" "cia_cycle_ns (cia_cmd x tk c) = cia_cycle_ns c"
  by (simp_all add: cia_cmd_def apply_cmd_def Let_def)

lemma cia_cmd_axis:
  "c_ax (cia_cmd x tk c) i =
    (if i = unat (c_target x) \<and> i < naxes c
     then axis_cmd (c_shutdown c) (c_ext_err c i) x tk (c_ax c i) else c_ax c i)"
  by (auto simp: cia_cmd_def apply_cmd_def Let_def)

lemma cia_cmd_fold_frame [simp]:
  "naxes (fold (\<lambda>x. cia_cmd x tk) xs c) = naxes c"
  "c_shutdown (fold (\<lambda>x. cia_cmd x tk) xs c) = c_shutdown c"
  "c_ext_err (fold (\<lambda>x. cia_cmd x tk) xs c) = c_ext_err c"
  by (induction xs arbitrary: c) simp_all

text \<open>An ENABLE command for axis \<open>i\<close> among \<open>xs\<close> that the hook may act on.\<close>

definition enable_cmd :: "ecm_cia402 \<Rightarrow> nat \<Rightarrow> ecm_xcmd list \<Rightarrow> bool" where
  "enable_cmd c i xs \<longleftrightarrow> \<not> c_shutdown c \<and> c_ext_err c i = 0 \<and>
     (\<exists>x\<in>set xs. c_op x = ECM_CIA_OP_ENABLE \<and> unat (c_target x) = i)"

lemma cia_cmd_fold_target:
  assumes "a_target (c_ax (fold (\<lambda>x. cia_cmd x tk) xs c) i) = ECM_TGT_ENABLED"
  shows "a_target (c_ax c i) = ECM_TGT_ENABLED \<or> enable_cmd c i xs"
  using assms
proof (induction xs arbitrary: c)
  case (Cons x xs)
  then have "a_target (c_ax (cia_cmd x tk c) i) = ECM_TGT_ENABLED \<or> enable_cmd (cia_cmd x tk c) i xs" by simp
  then show ?case
    by (auto simp: cia_cmd_axis enable_cmd_def dest: axis_cmd_target split: if_splits)
qed simp

lemma axis_rt_frame:
  assumes "axis_rt c i io tk iv bl = (c', io')"
  shows "naxes c' = naxes c" "c_shutdown c' = c_shutdown c" "c_ext_err c' = c_ext_err c"
    "c_cmd c' = c_cmd c" "j \<noteq> i \<Longrightarrow> c_ax c' j = c_ax c j" "j \<noteq> i \<Longrightarrow> c_sp c' j = c_sp c j" "c_st c' = c_st c"
    "c_clk c' = c_clk c" "step_timeout_ticks c' = step_timeout_ticks c"
    "home_timeout_ticks c' = home_timeout_ticks c" "cia_cycle_ns c' = cia_cycle_ns c"
  using assms by (auto simp: axis_rt_def Let_def split: prod.splits)

lemma cia_axis_eq:
  "axis_rt c k io tk iv bl = (c1, io1) \<Longrightarrow> cia_axis tk iv bl k (c, io) = (publish k tk c1, io1)"
  by (simp add: cia_axis_def)

text \<open>The axis loop leaves axes outside its range alone and steps the others once.\<close>

lemma cia_axis_fold_target:
  assumes "fold (cia_axis tk iv bl) is (c, io) = (c', io')" and "a_target (c_ax c' i) = ECM_TGT_ENABLED"
  shows "a_target (c_ax c i) = ECM_TGT_ENABLED \<and> (i \<in> set is \<longrightarrow> \<not> bl \<and> c_ext_err c i = 0)"
  using assms
proof (induction "is" arbitrary: c io)
  case (Cons k ks)
  obtain c1 io1 where r: "axis_rt c k io tk iv bl = (c1, io1)" by fastforce
  have f: "fold (cia_axis tk iv bl) ks (publish k tk c1, io1) = (c', io')"
    using Cons.prems(1) cia_axis_eq [OF r] by simp
  have IH: "a_target (c_ax c1 i) = ECM_TGT_ENABLED \<and> (i \<in> set ks \<longrightarrow> \<not> bl \<and> c_ext_err c i = 0)"
    using Cons.IH [OF f Cons.prems(2)] axis_rt_frame [OF r] by (simp add: publish_def)
  show ?case
  proof (cases "i = k")
    case True
    obtain a r' io2 where s: "axis_step (cia_cycle_ns c) (step_timeout_ticks c) (home_timeout_ticks c)
        (c_ext_err c k) tk iv bl (c_ax c k) (c_sp c k) io = (a, r', io2)" by (metis prod_cases3)
    with r True have "c_ax c1 i = a" by (auto simp: axis_rt_def)
    with axis_step_target [OF s] IH True show ?thesis by simp
  next
    case False
    with IH axis_rt_frame(5) [OF r] show ?thesis by auto
  qed
qed simp

text \<open>The parts of the hook, opened once.\<close>

lemma cia_rtE:
  assumes "ecm_cia402_rt c io tk ts iv bl = (c', io')" and "xring_inv j (c_cmd c)"
  obtains c1 c2 where "c_ax c1 = c_ax (fold (\<lambda>x. cia_cmd x tk) (cia_ready tk c) c)"
    "naxes c1 = naxes c" "c_shutdown c1 = c_shutdown c" "c_ext_err c1 = c_ext_err c"
    "fold (cia_axis tk iv bl) [0..<naxes c] (c1, io) = (c2, io')"
    "c_ax c' = c_ax c2" "c_shutdown c' = c_shutdown c2" "naxes c' = naxes c2" "c_st c' = c_st c2"
proof -
  obtain d where d: "cia_cmds ECM_XCHG_CMD_PER_TICK tk c = (fold (\<lambda>x. cia_cmd x tk) (cia_ready tk c) c)\<lparr>n_deferred := d\<rparr>"
    using cia_cmds_fold [OF assms(2), of ECM_XCHG_CMD_PER_TICK tk] by (auto simp: cia_ready_def)
  show ?thesis
    using assms(1) that [of "cia_cmds ECM_XCHG_CMD_PER_TICK tk c"]
    by (auto simp: ecm_cia402_rt_def d Let_def split: prod.splits)
qed

lemma rt_target:
  assumes "xring_inv j (c_cmd c)" and "i < naxes c"
    and "ecm_cia402_rt c io tk ts iv bl = (c', io')" and "a_target (c_ax c' i) = ECM_TGT_ENABLED"
  shows "(a_target (c_ax c i) = ECM_TGT_ENABLED \<or> enable_cmd c i (cia_ready tk c)) \<and> \<not> bl \<and> c_ext_err c i = 0"
proof -
  obtain c1 c2 where e: "c_ax c1 = c_ax (fold (\<lambda>x. cia_cmd x tk) (cia_ready tk c) c)"
    "naxes c1 = naxes c" "c_shutdown c1 = c_shutdown c" "c_ext_err c1 = c_ext_err c"
    "fold (cia_axis tk iv bl) [0..<naxes c] (c1, io) = (c2, io')" "c_ax c' = c_ax c2"
    using assms(3,1) by (rule cia_rtE)
  have "a_target (c_ax c1 i) = ECM_TGT_ENABLED \<and> \<not> bl \<and> c_ext_err c i = 0"
    using cia_axis_fold_target [OF e(5), of i] assms(2,4) e(4,6) by simp
  with cia_cmd_fold_target [of tk "cia_ready tk c" c i] e(1) show ?thesis by auto
qed

text \<open>C1. S1: the hook never enables an axis by itself. If an axis has target ENABLED
  after a tick, it had it before, or one of the at most eight commands taken in this
  tick is an ENABLE for it, the master is not shutting down and the monitor reports no
  error; and it never has it while the bus is lost or the monitor reports an error.\<close>

theorem cia402_enable_only_by_command:
  assumes "xring_inv j (c_cmd c)" and "i < naxes c"
    and "ecm_cia402_rt c io tk ts iv bl = (c', io')" and "a_target (c_ax c' i) = ECM_TGT_ENABLED"
  shows "(a_target (c_ax c i) = ECM_TGT_ENABLED \<or> enable_cmd c i (cia_ready tk c)) \<and> \<not> bl \<and> c_ext_err c i = 0"
  using assms by (rule rt_target)

lemma demo_cia_ring: "xring_inv 8 (c_cmd (demo_cia a))" "xring_cont (c_cmd (demo_cia a)) = []"
  by (simp_all add: demo_cia_def ecm_cia402_init_def ecm_cia402_set_home_timeout_def xring_init_inv
      xring_init_cont Let_def)

lemma demo_cia_frame: "naxes (demo_cia a) = 1" "c_ax (demo_cia a) i = a" "c_ext_err (demo_cia a) i = 0"
  "c_sp (demo_cia a) i = demo_ring" "step_timeout_ticks (demo_cia a) = 500" "\<not> c_shutdown (demo_cia a)"
  by (simp_all add: demo_cia_def ecm_cia402_init_def ecm_cia402_set_home_timeout_def demo_ring_def ms_ticks_def Let_def)

lemma demo_rt_target:
  "a_target (c_ax (fst (ecm_cia402_rt (demo_cia (demo_axis ECM_TGT_ENABLED ECM_DS_SOD)) io 5 0 False False)) 0)
    = ECM_TGT_ENABLED"
proof -
  let ?c = "demo_cia (demo_axis ECM_TGT_ENABLED ECM_DS_SOD)"
  have "ecm_xring_peek (c_cmd ?c) = None" using xring_peek_cont [OF demo_cia_ring(1)] demo_cia_ring(2) by simp
  then have "cia_cmds ECM_XCHG_CMD_PER_TICK 5 ?c = ?c" by (subst cia_cmds.simps) simp
  then show ?thesis
    using demo_back_target [of "home_timeout_ticks ?c" io]
    by (auto simp: ecm_cia402_rt_def Let_def demo_cia_frame cia_axis_def axis_rt_def axis_step_def
        demo_front publish_def split: prod.splits)
qed

theorem cia402_enable_only_by_command_witness:
  "a_target (c_ax (demo_cia (demo_axis ECM_TGT_ENABLED ECM_DS_SOD)) 0) = ECM_TGT_ENABLED \<or>
   enable_cmd (demo_cia (demo_axis ECM_TGT_ENABLED ECM_DS_SOD)) 0 (cia_ready 5 (demo_cia (demo_axis ECM_TGT_ENABLED ECM_DS_SOD)))"
  using cia402_enable_only_by_command [OF demo_cia_ring(1) _ surjective_pairing demo_rt_target]
  by (simp add: demo_cia_frame)

section \<open>Bus loss, dropped axes, timeouts\<close>

lemma axis_step_lostE:
  assumes "axis_step cyc tmo htmo xe tk iv True a r io = (a', r', io')"
  obtains w en where "axis_front cyc tmo xe tk iv True io a = (a', w, en)" "r' = r" "io' = io"
  using assms by (auto simp: axis_step_def split: prod.splits)

text \<open>C7. S5: while the bus is lost the step writes nothing to the IOmap, leaves the
  setpoint queue alone, and an axis that was enabled or quick-stopping is latched
  disabled with the error BUS_LOST (or the error of the monitor).\<close>

theorem axis_bus_lost_latched:
  assumes "axis_step cyc tmo htmo xe tk iv True a r io = (a', r', io')"
  shows "io' = io \<and> r' = r \<and> a_target a' = ECM_TGT_DISABLED \<and>
    (a_target a \<noteq> ECM_TGT_DISABLED \<longrightarrow> a_err a' = (if xe \<noteq> 0 then xe else ECM_AXERR_BUS_LOST))"
proof -
  obtain w en where f: "axis_front cyc tmo xe tk iv True io a = (a', w, en)" and rio: "r' = r" "io' = io"
    using assms by (rule axis_step_lostE)
  obtain a2 w2 where c: "st_cw (front1 cyc xe iv True io a) = (a2, w2, en)" and t: "st_timeout tmo tk True a2 w2 = (a', w)"
    using f by (rule axis_frontE)
  let ?a1 = "front1 cyc xe iv True io a"
  have 1: "a_target ?a1 = ECM_TGT_DISABLED"
    "a_target a \<noteq> ECM_TGT_DISABLED \<Longrightarrow> a_err ?a1 = (if xe \<noteq> 0 then xe else ECM_AXERR_BUS_LOST)"
    by (auto simp: front1_def st_latch_def st_ext_def st_dropped_def)
  have 2: "a_target a2 = ECM_TGT_DISABLED" "a_err a2 = a_err ?a1"
    using c 1(1) by (auto simp: st_cw_def Let_def split: if_splits)
  have "a' = a2" using t 2(1) by (simp add: st_timeout_def)
  with 1 2 rio show ?thesis by simp
qed

theorem axis_bus_lost_latched_witness:
  "case axis_step 1000000 500 30000 0 5 True True (demo_axis ECM_TGT_ENABLED ECM_DS_OE) demo_ring (demo_io 0x27) of
     (a', r', io') \<Rightarrow> io' = demo_io 0x27 \<and> a_target a' = ECM_TGT_DISABLED \<and> a_err a' = ECM_AXERR_BUS_LOST"
  using axis_bus_lost_latched [of 1000000 500 30000 0 5 True "demo_axis ECM_TGT_ENABLED ECM_DS_OE" demo_ring "demo_io 0x27"]
  by (auto simp: demo_axis_def split: prod.splits)

text \<open>S1, the dropped latch: an axis that had reached Operation enabled under its
  ENABLE and is seen in another (non-fault) state is latched disabled with the error
  DROPPED, and the controlword of that tick does not enable it.\<close>

theorem axis_dropped_latched:
  assumes "axis_step cyc tmo htmo 0 tk True False a r io = (a', r', io')"
    and "a_target a = ECM_TGT_ENABLED" and "a_reached_oe a"
    and "a_ds a' \<notin> {ECM_DS_OE, ECM_DS_FAULT, ECM_DS_FRA}"
  shows "a_target a' = ECM_TGT_DISABLED \<and> a_err a' = ECM_AXERR_DROPPED \<and> \<not> bit (a_cw a') 3"
proof -
  obtain a3 w3 en where f: "axis_front cyc tmo 0 tk True False io a = (a3, w3, en)" by (metis prod_cases3)
  with assms(1) have b: "axis_back tmo htmo tk en a3 w3 r io = (a', r', io')" by (simp add: axis_step_def)
  obtain a2 w2 where c: "st_cw (front1 cyc 0 True False io a) = (a2, w2, en)" and t: "st_timeout tmo tk False a2 w2 = (a3, w3)"
    using f by (rule axis_frontE)
  let ?a1 = "front1 cyc 0 True False io a"
  have ds: "a_ds ?a1 = a_ds a'"
    using axis_back_result(4) [OF b] st_timeout_frame(3) [of tmo tk False a2 w2, unfolded t, simplified]
      st_cw_frame(3) [of ?a1, unfolded c, simplified]
    by simp
  then have 1: "a_target ?a1 = ECM_TGT_DISABLED" "a_err ?a1 = ECM_AXERR_DROPPED"
    using assms(2-4) by (auto simp: front1_def st_latch_def st_ext_def st_dropped_def split: if_splits)
  have 2: "a_target a2 = ECM_TGT_DISABLED" "a_err a2 = ECM_AXERR_DROPPED"
    using c 1 by (auto simp: st_cw_def Let_def split: if_splits)
  have 3: "a3 = a2" using t 2(1) by (simp add: st_timeout_def)
  have i: "a_target a' = ECM_TGT_DISABLED \<and> a_err a' = ECM_AXERR_DROPPED"
    using axis_back_idle [OF b] 2 3 by simp
  with axis_step_cw(1) [OF assms(1)] show ?thesis by auto
qed

section \<open>Cyclic position: what goes out\<close>

text \<open>While an axis in CSP is armed, the last setpoint is what was sent last.\<close>

definition csp_bound :: "ecm_cia402_axis \<Rightarrow> bool" where
  "csp_bound a \<longleftrightarrow> a_mode_req a = ECM_OPMODE_CSP \<and> h_bits (b_tpos (a_b a)) \<noteq> 0"

definition csp_inv :: "ecm_cia402_axis \<Rightarrow> bool" where
  "csp_inv a \<longleftrightarrow> (csp_bound a \<and> a_armed a \<longrightarrow> a_last_sp a = a_last_sent a)"

lemma st_write_tpos:
  assumes "axis_bind_ok (a_b a)" and "st_write a w io = (a', io')"
  shows "ecm_pdo_get (b_tpos (a_b a)) io' = ecm_pdo_get (b_tpos (a_b a)) io"
    "ecm_pdo_get (b_cw (a_b a)) io' = take_bit (unat (h_bits (b_cw (a_b a)))) (ucast w)"
proof -
  let ?b = "a_b a"
  have ok: "handle_ok (b_cw ?b)" "handle_ok (b_tpos ?b)" "handle_ok (b_mode ?b)"
    "apart (b_cw ?b) (b_tpos ?b)" "apart (b_mode ?b) (b_tpos ?b)"
    using assms(1) by (auto simp: axis_bind_ok_def intro: apart_sym)
  show "ecm_pdo_get (b_tpos ?b) io' = ecm_pdo_get (b_tpos ?b) io"
    using assms(2) ok pdo_get_set_other [OF ok(1,2)] pdo_get_set_other [OF ok(3,2)]
    by (auto simp: st_write_def Let_def apart_def)
  show "ecm_pdo_get (b_cw ?b) io' = take_bit (unat (h_bits (b_cw ?b))) (ucast w)"
    using assms(2) pdo_get_set_same [OF ok(1)] by (auto simp: st_write_def Let_def)
qed

lemma st_csp_result:
  assumes "st_csp got run en a io = (a', io')" and "handle_ok (b_tpos (a_b a))"
  shows "a_last_sent a' = (if \<not> run \<or> en \<or> \<not> a_armed a then a_apos a else a_last_sp a)"
    "a_last_sp a' = a_last_sent a'"
    "ecm_pdo_get (b_tpos (a_b a)) io' = take_bit (unat (h_bits (b_tpos (a_b a)))) (of_int (a_last_sent a'))"
  using assms(1) pdo_get_set_same [OF assms(2)] by (auto simp: st_csp_def Let_def)

lemma axis_back_csp:
  assumes "axis_back tmo htmo tk en a3 w3 r io = (a', r', io')" and "csp_bound a3" and "axis_bind_ok (a_b a3)"
    and "csp_inv a3"
  shows "ecm_pdo_get (b_tpos (a_b a3)) io' = take_bit (unat (h_bits (b_tpos (a_b a3)))) (of_int (a_last_sent a'))"
    "csp_inv a'"
    "a_max_step_pos a3 > 0 \<Longrightarrow> a_last_sent a' = a_apos a3 \<or> \<bar>a_last_sent a' - a_last_sent a3\<bar> \<le> a_max_step_pos a3"
    "\<not> (a_target a3 = ECM_TGT_ENABLED \<and> a_ds a3 = ECM_DS_OE \<and> a_mode_ok a3) \<Longrightarrow> a_last_sent a' = a_apos a3"
    "ecm_xring_peek r = None \<Longrightarrow> a_last_sent a' = a_apos a3 \<or> a_last_sent a' = a_last_sent a3"
proof -
  obtain run cyclic a5 got a7 w7 got7 run7 a8 io8 a10 w10 io10 where e:
    "run = (a_target a3 = ECM_TGT_ENABLED \<and> a_ds a3 = ECM_DS_OE \<and> a_mode_ok a3)"
    "cyclic = (a_mode_req a3 = ECM_OPMODE_CSP \<or> a_mode_req a3 = ECM_OPMODE_CSV)"
    "sp_loop ECM_XCHG_SP_SKIP_MAX run cyclic (tk + 1) (a3\<lparr>a_running := run\<rparr>) r = (a5, r', got)"
    "st_step got run (st_underrun run cyclic got a5) w3 = (a7, w7, got7, run7)"
    "st_cyclic got7 run7 en a7 io = (a8, io8)"
    "st_profile tmo htmo tk run7 (st_stop run7 a8) w7 io8 = (a10, w10, io10)"
    "st_write a10 w10 io10 = (a', io')"
    using assms(1) by (rule axis_backE)
  let ?a6 = "st_underrun run cyclic got a5"
  have 5: "a_last_sent a5 = a_last_sent a3" "a_b a5 = a_b a3" "a_mode_req a5 = a_mode_req a3" "a_apos a5 = a_apos a3"
    "a_max_step_pos a5 = a_max_step_pos a3"
    "\<not> got \<Longrightarrow> a_armed a5 = a_armed a3 \<and> a_last_sp a5 = a_last_sp a3" "got \<Longrightarrow> run"
    using sp_loop_result [OF e(3)] by auto
  note f7 = st_step_frame [of got run ?a6 w3, unfolded e(4), simplified]
  have b7: "csp_bound a7" "a_b a7 = a_b a3" using assms(2) f7 5 by (simp_all add: csp_bound_def)
  have 8: "st_csp got7 run7 en a7 io = (a8, io8)" using e(5) b7 by (simp add: st_cyclic_def csp_bound_def)
  have ok: "handle_ok (b_tpos (a_b a7))" using assms(3) b7 by (simp add: axis_bind_ok_def)
  note r8 = st_csp_result [OF 8 ok] and f8 = st_csp_frame [of got7 run7 en a7 io, unfolded 8, simplified]
  have 10: "a10 = st_stop run7 a8" "io10 = io8"
    using e(6) b7(1) f8 by (auto simp: st_profile_def csp_bound_def)
  have a': "a_last_sent a' = a_last_sent a8" "a_last_sp a' = a_last_sp a8" "a_b a' = a_b a3"
    using st_write_result [OF e(7)] 10(1) f8 b7 by simp_all
  show "csp_inv a'" using a' r8(2) by (simp add: csp_inv_def)
  show "ecm_pdo_get (b_tpos (a_b a3)) io' = take_bit (unat (h_bits (b_tpos (a_b a3)))) (of_int (a_last_sent a'))"
    using st_write_tpos(1) [OF _ e(7)] assms(3) r8(3) 10 f8 b7 a' by simp
  have s7: "a7 = ?a6 \<and> got7 = got \<and> run7 = run \<and>
      (got \<and> a_max_step_pos a3 > 0 \<longrightarrow> \<bar>a_last_sp a5 - a_last_sent a3\<bar> \<le> a_max_step_pos a3) \<or> \<not> run7"
    using st_step_result [OF e(4)] assms(2) 5 by (auto simp: step_limit_def csp_bound_def)
  have ls: "a_last_sent a' = a_apos a3 \<or>
      (run \<and> a_last_sent a' = a_last_sp a5 \<and> (got \<or> a_armed a3) \<and>
       (got \<and> a_max_step_pos a3 > 0 \<longrightarrow> \<bar>a_last_sp a5 - a_last_sent a3\<bar> \<le> a_max_step_pos a3))"
    using r8(1) a'(1) s7 f7 5 by (auto split: if_splits)
  have held: "\<not> got \<Longrightarrow> a_armed a3 \<Longrightarrow> a_last_sp a5 = a_last_sent a3"
    using 5(6) assms(2,4) by (simp add: csp_inv_def)
  show "a_max_step_pos a3 > 0 \<Longrightarrow> a_last_sent a' = a_apos a3 \<or> \<bar>a_last_sent a' - a_last_sent a3\<bar> \<le> a_max_step_pos a3"
    using ls held by (cases got) auto
  show "\<not> (a_target a3 = ECM_TGT_ENABLED \<and> a_ds a3 = ECM_DS_OE \<and> a_mode_ok a3) \<Longrightarrow> a_last_sent a' = a_apos a3"
    using ls e(1) by blast
  show "ecm_xring_peek r = None \<Longrightarrow> a_last_sent a' = a_apos a3 \<or> a_last_sent a' = a_last_sent a3"
    using ls held e(3) by (subst (asm) sp_loop.simps) auto
qed

text \<open>C2. S2, S3 and S4 in cyclic position mode. The target position on the wire is
  \<open>last_sent\<close>. With a step limit it is the actual position of the drive or at most one
  step away from what was sent before; with no setpoint waiting it is the actual
  position or what was sent before; and unless the axis runs in Operation enabled it
  is the actual position. The relation this rests on (\<open>csp_inv\<close>) is kept.\<close>

theorem csp_target_safe:
  assumes "axis_step cyc tmo htmo xe tk iv False a r io = (a', r', io')"
    and "csp_bound a" and "axis_bind_ok (a_b a)" and "csp_inv a" and "0 < a_max_step_pos a"
  shows "ecm_pdo_get (b_tpos (a_b a)) io' = take_bit (unat (h_bits (b_tpos (a_b a)))) (of_int (a_last_sent a')) \<and>
    (a_last_sent a' = a_apos a' \<or> \<bar>a_last_sent a' - a_last_sent a\<bar> \<le> a_max_step_pos a) \<and>
    (ecm_xring_peek r = None \<longrightarrow> a_last_sent a' = a_apos a' \<or> a_last_sent a' = a_last_sent a) \<and>
    (\<not> (a_ds a' = ECM_DS_OE \<and> a_mode_ok a') \<longrightarrow> a_last_sent a' = a_apos a') \<and> csp_inv a'"
proof -
  obtain a3 w3 en where f: "axis_front cyc tmo xe tk iv False io a = (a3, w3, en)" by (metis prod_cases3)
  with assms(1) have b: "axis_back tmo htmo tk en a3 w3 r io = (a', r', io')" by (simp add: axis_step_def)
  note F = axis_front_result [OF f] and B = axis_back_result [OF b]
  have c: "csp_bound a3" "axis_bind_ok (a_b a3)" "csp_inv a3"
    using assms(2-4) F by (simp_all add: csp_bound_def csp_inv_def)
  note R = axis_back_csp [OF b c]
  show ?thesis
    using R(1,2) R(3) assms(5) R(4) R(5) F(6,10,11) B(4,5,9) by auto
qed

theorem csp_target_safe_witness:
  "case axis_step 1000000 500 30000 0 5 True False (demo_axis ECM_TGT_ENABLED ECM_DS_OE) demo_ring (demo_io 0x40) of
     (a', r', io') \<Rightarrow> a_last_sent a' = a_apos a'"
proof -
  let ?a = "demo_axis ECM_TGT_ENABLED ECM_DS_OE"
  obtain a' r' io' where s: "axis_step 1000000 500 30000 0 5 True False ?a demo_ring (demo_io 0x40) = (a', r', io')"
    by (metis prod_cases3)
  have "csp_bound ?a" "axis_bind_ok (a_b ?a)" "csp_inv ?a" "0 < a_max_step_pos ?a"
    using demo_bind_ok by (simp_all add: csp_bound_def csp_inv_def demo_axis_def axis_zero_def demo_bind_def demo_h_def)
  moreover have "a_ds a' = ECM_DS_SOD"
    using axis_step_ds [OF s] demo_sw
    by (simp add: demo_axis_def axis_zero_def demo_bind_def bind_zero_def ecm_cia402_decode_def)
  ultimately show ?thesis using csp_target_safe [OF s] s by simp
qed

lemma csp_inv_cmd: "csp_inv a \<Longrightarrow> csp_inv (axis_cmd sd xe x tk a)"
  by (auto simp: csp_inv_def csp_bound_def axis_cmd_def cmd_enable_def cmd_fault_reset_def cmd_set_mode_def
      cmd_pp_point_def pp_enq_def cmd_pv_vel_def cmd_home_def Let_def split: if_splits)

lemma csp_inv_init: "csp_inv ((axis_zero g b)\<lparr>a_mode_req := m\<rparr>)"
  by (simp add: csp_inv_def axis_zero_def)

section \<open>Fault reset and shutdown\<close>

lemma cia_axis_fold_other:
  assumes "fold (cia_axis tk iv bl) is (c, io) = (c', io')" and "i \<notin> set is"
  shows "c_ax c' i = c_ax c i"
  using assms
proof (induction "is" arbitrary: c io)
  case (Cons k ks)
  obtain c1 io1 where r: "axis_rt c k io tk iv bl = (c1, io1)" by fastforce
  have "fold (cia_axis tk iv bl) ks (publish k tk c1, io1) = (c', io')"
    using Cons.prems(1) cia_axis_eq [OF r] by simp
  with Cons.IH [OF this] Cons.prems(2) axis_rt_frame(5) [OF r, of i] show ?case by (simp add: publish_def)
qed simp

lemma cia_axis_fold_frame:
  assumes "fold (cia_axis tk iv bl) is (c, io) = (c', io')"
  shows "naxes c' = naxes c \<and> c_shutdown c' = c_shutdown c \<and> c_cmd c' = c_cmd c \<and> c_ext_err c' = c_ext_err c"
  using assms
proof (induction "is" arbitrary: c io)
  case (Cons k ks)
  obtain c1 io1 where r: "axis_rt c k io tk iv bl = (c1, io1)" by fastforce
  have "fold (cia_axis tk iv bl) ks (publish k tk c1, io1) = (c', io')"
    using Cons.prems(1) cia_axis_eq [OF r] by simp
  from Cons.IH [OF this] axis_rt_frame [OF r] show ?case by (simp add: publish_def)
qed simp

text \<open>Each axis of the loop is stepped exactly once, from its state before the loop.\<close>

lemma cia_axis_fold_step:
  assumes "fold (cia_axis tk iv bl) is (c, io) = (c', io')" and "i \<in> set is" and "distinct is"
  shows "\<exists>cyc tmo htmo r io1 r' io2.
    axis_step cyc tmo htmo (c_ext_err c i) tk iv bl (c_ax c i) r io1 = (c_ax c' i, r', io2)"
  using assms
proof (induction "is" arbitrary: c io)
  case (Cons k ks)
  obtain c1 io1 where r: "axis_rt c k io tk iv bl = (c1, io1)" by fastforce
  have f: "fold (cia_axis tk iv bl) ks (publish k tk c1, io1) = (c', io')"
    using Cons.prems(1) cia_axis_eq [OF r] by simp
  show ?case
  proof (cases "i = k")
    case True
    then have "c_ax c' i = c_ax c1 i"
      using cia_axis_fold_other [OF f] Cons.prems(3) by (simp add: publish_def)
    with r True show ?thesis
      by (auto simp: axis_rt_def split: prod.splits) metis
  next
    case False
    with Cons.IH [OF f] Cons.prems axis_rt_frame [OF r] show ?thesis
      by (auto simp: publish_def)
  qed
qed simp

lemma cia_cmd_fold_reset:
  assumes "a_reset_pulse (c_ax (fold (\<lambda>x. cia_cmd x tk) xs c) i) = 2"
  shows "a_reset_pulse (c_ax c i) = 2 \<or> (\<exists>x\<in>set xs. c_op x = ECM_CIA_OP_FAULT_RESET \<and> unat (c_target x) = i)"
  using assms
proof (induction xs arbitrary: c)
  case (Cons x xs)
  then have "a_reset_pulse (c_ax (cia_cmd x tk c) i) = 2 \<or>
      (\<exists>x\<in>set xs. c_op x = ECM_CIA_OP_FAULT_RESET \<and> unat (c_target x) = i)" by simp
  then show ?case
    by (auto simp: cia_cmd_axis dest: axis_cmd_reset split: if_splits)
qed simp

text \<open>C8. S7: a tick sends the fault reset bit to an axis only when a FAULT_RESET
  command for that axis is among the commands it takes; the pulse does not outlive
  the tick.\<close>

theorem cia402_reset_only_by_command:
  assumes "xring_inv j (c_cmd c)" and "i < naxes c" and "a_reset_pulse (c_ax c i) \<noteq> 2"
    and "ecm_cia402_rt c io tk ts iv False = (c', io')"
  shows "(bit (a_cw (c_ax c' i)) 7 \<longrightarrow>
      (\<exists>x\<in>set (cia_ready tk c). c_op x = ECM_CIA_OP_FAULT_RESET \<and> unat (c_target x) = i)) \<and>
    a_reset_pulse (c_ax c' i) \<noteq> 2"
proof -
  obtain c1 c2 where e: "c_ax c1 = c_ax (fold (\<lambda>x. cia_cmd x tk) (cia_ready tk c) c)"
    "naxes c1 = naxes c" "c_shutdown c1 = c_shutdown c" "c_ext_err c1 = c_ext_err c"
    "fold (cia_axis tk iv False) [0..<naxes c] (c1, io) = (c2, io')" "c_ax c' = c_ax c2"
    using assms(4,1) by (rule cia_rtE)
  obtain cyc tmo htmo r io1 r' io2 where
    s: "axis_step cyc tmo htmo (c_ext_err c1 i) tk iv False (c_ax c1 i) r io1 = (c_ax c2 i, r', io2)"
    using cia_axis_fold_step [OF e(5), of i] assms(2) by auto
  from axis_step_cw(2,3) [OF s] cia_cmd_fold_reset [of tk "cia_ready tk c" c i] assms(3) e(1,6)
  show ?thesis by auto
qed

theorem cia402_reset_only_by_command_witness:
  "\<not> bit (a_cw (c_ax (fst (ecm_cia402_rt (demo_cia (demo_axis ECM_TGT_DISABLED ECM_DS_FAULT)) (demo_io 8) 5 0 True False)) 0)) 7"
proof -
  let ?c = "demo_cia (demo_axis ECM_TGT_DISABLED ECM_DS_FAULT)"
  have "a_reset_pulse (c_ax ?c 0) \<noteq> 2" "0 < naxes ?c"
    by (simp_all add: demo_cia_frame) (simp add: demo_axis_def axis_zero_def)
  from cia402_reset_only_by_command [OF demo_cia_ring(1) this(2,1) surjective_pairing, of "demo_io 8" 5 0 True]
  show ?thesis by (simp add: cia_ready_def demo_cia_ring)
qed

text \<open>What can happen to the axis layer: ticks with any inputs, application commands and
  setpoints, errors reported by the monitor.\<close>

datatype cia_event =
    EvTick iomap u64 u64 bool bool
  | EvCmd int int int int u32 u64
  | EvSetpoint int u64 int
  | EvExtError int int

primrec cia_exec :: "cia_event \<Rightarrow> ecm_cia402 \<Rightarrow> ecm_cia402" where
  "cia_exec (EvTick io tk ts iv bl) c = fst (ecm_cia402_rt c io tk ts iv bl)"
| "cia_exec (EvCmd i op x y sq tk) c = fst (ecm_cia402_cmd2 c i op x y sq tk)"
| "cia_exec (EvSetpoint i tk v) c = fst (ecm_cia402_setpoint c i tk v)"
| "cia_exec (EvExtError i e) c = ecm_cia402_set_ext_error c i e"

definition down_inv :: "ecm_cia402 \<Rightarrow> bool" where
  "down_inv c \<longleftrightarrow> c_shutdown c \<and> xring_inv 8 (c_cmd c) \<and> (\<forall>i<naxes c. a_target (c_ax c i) \<noteq> ECM_TGT_ENABLED)"

lemma cia_cmds_inv: "xring_inv j (c_cmd c) \<Longrightarrow> xring_inv j (c_cmd (cia_cmds b tk c))"
proof (induction b arbitrary: c)
  case 0
  then show ?case by (subst cia_cmds.simps) (auto split: option.splits)
next
  case (Suc b)
  show ?case
  proof (cases "ecm_xring_peek (c_cmd c)")
    case None
    with Suc.prems show ?thesis by (subst cia_cmds.simps) simp
  next
    case (Some x)
    with xring_pop_cont [OF Suc.prems Some] Suc.IH [of "cia_cmd x tk c"] Suc.prems show ?thesis
      by (subst cia_cmds.simps) (simp add: cia_cmd_ring)
  qed
qed

lemma cia_rt_frame:
  assumes "ecm_cia402_rt c io tk ts iv bl = (c', io')" and "xring_inv j (c_cmd c)"
  shows "naxes c' = naxes c" "c_shutdown c' = c_shutdown c" "xring_inv j (c_cmd c')"
proof -
  let ?c1 = "cia_cmds ECM_XCHG_CMD_PER_TICK tk c"
  obtain d where d: "?c1 = (fold (\<lambda>x. cia_cmd x tk) (cia_ready tk c) c)\<lparr>n_deferred := d\<rparr>"
    using cia_cmds_fold [OF assms(2), of ECM_XCHG_CMD_PER_TICK tk] by (auto simp: cia_ready_def)
  have n: "naxes ?c1 = naxes c" "c_shutdown ?c1 = c_shutdown c" by (simp_all add: d)
  obtain c2 io2 where f: "fold (cia_axis tk iv bl) [0..<naxes ?c1] (?c1, io) = (c2, io2)" by fastforce
  have "naxes c' = naxes c2" "c_shutdown c' = c_shutdown c2" "c_cmd c' = c_cmd c2"
    using assms(1) f by (auto simp: ecm_cia402_rt_def Let_def)
  with cia_axis_fold_frame [OF f] n cia_cmds_inv [OF assms(2)]
  show "naxes c' = naxes c" "c_shutdown c' = c_shutdown c" "xring_inv j (c_cmd c')" by simp_all
qed

lemma xring_push_inv: "ecm_xring_push e r = (r', ok) \<Longrightarrow> xring_inv j r \<Longrightarrow> xring_inv j r'"
  using xring_inv_push [of j r e] by simp

lemma down_inv_exec: "down_inv c \<Longrightarrow> down_inv (cia_exec ev c) \<and> naxes (cia_exec ev c) = naxes c"
proof (induction ev)
  case (EvTick io tk ts iv bl)
  obtain c' io' where r: "ecm_cia402_rt c io tk ts iv bl = (c', io')" by fastforce
  have inv: "xring_inv 8 (c_cmd c)" and sd: "c_shutdown c" using EvTick by (simp_all add: down_inv_def)
  have "a_target (c_ax c' i) \<noteq> ECM_TGT_ENABLED" if "i < naxes c" for i
    using rt_target [OF inv that r] EvTick that sd by (auto simp: down_inv_def enable_cmd_def)
  with cia_rt_frame [OF r inv] sd r show ?case by (simp add: down_inv_def)
qed (auto simp: down_inv_def ecm_cia402_cmd2_def ecm_cia402_setpoint_def ecm_cia402_set_ext_error_def
       split: prod.splits intro: xring_push_inv)

lemma down_inv_run:
  "down_inv c \<Longrightarrow> down_inv (fold cia_exec evs c) \<and> naxes (fold cia_exec evs c) = naxes c"
proof (induction evs arbitrary: c)
  case (Cons ev evs)
  with down_inv_exec [of c ev] show ?case by simp
qed simp

text \<open>C3. S6: after a shutdown no sequence of ticks, commands, setpoints and monitor
  errors ever gives an axis the target ENABLED again.\<close>

theorem cia402_shutdown_final:
  assumes "xring_inv 8 (c_cmd c)" and "i < naxes c"
  shows "a_target (c_ax (fold cia_exec evs (ecm_cia402_shutdown c)) i) \<noteq> ECM_TGT_ENABLED"
proof -
  have "down_inv (ecm_cia402_shutdown c)" "naxes (ecm_cia402_shutdown c) = naxes c"
    using assms(1) by (auto simp: down_inv_def ecm_cia402_shutdown_def)
  with down_inv_run [of "ecm_cia402_shutdown c" evs] assms(2) show ?thesis by (simp add: down_inv_def)
qed

theorem cia402_shutdown_final_witness:
  "a_target (c_ax (fold cia_exec [EvCmd 0 0x101 0 0 1 0, EvTick (demo_io 0x40) 1 0 True False]
     (ecm_cia402_shutdown (demo_cia (demo_axis ECM_TGT_ENABLED ECM_DS_OE)))) 0) \<noteq> ECM_TGT_ENABLED"
  by (rule cia402_shutdown_final [OF demo_cia_ring(1)]) (simp add: demo_cia_frame)

text \<open>An enabled axis whose drive does not leave the state it waits in is given up:
  once the step timeout is over it is latched disabled with the error TIMEOUT and the
  state it was stuck in, and the controlword of that tick does not enable it.\<close>

theorem axis_timeout_latched:
  assumes "axis_step cyc tmo htmo 0 tk iv False a r io = (a', r', io')"
    and "a_target a = ECM_TGT_ENABLED" and "\<not> a_reached_oe a"
    and "a_ds a' = a_ds_wait a" and "a_ds_wait a \<notin> {ECM_DS_OE, ECM_DS_FAULT, ECM_DS_FRA}"
    and "tk - a_step_since a > ucast tmo"
  shows "a_target a' = ECM_TGT_DISABLED \<and> a_err a' = ECM_AXERR_TIMEOUT \<and> \<not> bit (a_cw a') 3"
proof -
  obtain a3 w3 en where f: "axis_front cyc tmo 0 tk iv False io a = (a3, w3, en)" by (metis prod_cases3)
  with assms(1) have b: "axis_back tmo htmo tk en a3 w3 r io = (a', r', io')" by (simp add: axis_step_def)
  obtain a2 w2 where c: "st_cw (front1 cyc 0 iv False io a) = (a2, w2, en)" and t: "st_timeout tmo tk False a2 w2 = (a3, w3)"
    using f by (rule axis_frontE)
  let ?a1 = "front1 cyc 0 iv False io a"
  have ds: "a_ds ?a1 = a_ds a'"
    using axis_back_result(4) [OF b] st_timeout_frame(3) [of tmo tk False a2 w2, unfolded t, simplified]
      st_cw_frame(3) [of ?a1, unfolded c, simplified]
    by simp
  then have 1: "a_target ?a1 = ECM_TGT_ENABLED" "a_ds_wait ?a1 = a_ds_wait a" "a_step_since ?a1 = a_step_since a"
    using assms(2-5) by (auto simp: front1_def st_latch_def st_ext_def st_dropped_def split: if_splits)
  have 2: "a_target a2 = ECM_TGT_ENABLED" "a_ds_wait a2 = a_ds_wait a" "a_step_since a2 = a_step_since a"
    "a_ds a2 = a_ds_wait a"
    using c 1 ds assms(4) by (auto simp: st_cw_def Let_def split: if_splits)
  have 3: "a_target a3 = ECM_TGT_DISABLED" "a_err a3 = ECM_AXERR_TIMEOUT"
    using t 2 assms(5,6) by (auto simp: st_timeout_def split: if_splits)
  have i: "a_target a' = ECM_TGT_DISABLED \<and> a_err a' = ECM_AXERR_TIMEOUT"
    using axis_back_idle [OF b] 3 by simp
  with axis_step_cw(1) [OF assms(1)] show ?thesis by auto
qed

end
