(* ===== verification/Policy.thy ===== *)
theory Policy
  imports Fifo
begin

text \<open>
  The fault policy (\<open>libecmaster/policy/ecm_policy.c\<close>): receive timeout, bus state
  machine, the rings between RT thread and monitor, the per-slave recovery planner and
  the input freshness check. An operation that fills \<open>*ev\<close> returns \<open>Some\<close> event, which
  is also its return value 1. Values the C code keeps in \<open>int\<close> are unbounded here: they
  are classes, counts and flags of the caller, only compared and copied.
\<close>

section \<open>Receive timeout\<close>

definition ecm_rx_timeout_us :: "u64 \<Rightarrow> u64 \<Rightarrow> int \<Rightarrow> int \<Rightarrow> int" where
  "ecm_rx_timeout_us now deadline min_us max_us =
    (let left = if deadline > now then sint ((deadline - now) div 1000) else 0;
         left = if left < min_us then min_us else left
     in if left > max_us then max_us else left)"

section \<open>Bus state machine\<close>

abbreviation (input) ECM_POL_WKC_OK :: int where "ECM_POL_WKC_OK \<equiv> 0"
abbreviation (input) ECM_POL_WKC_NOFRAME :: int where "ECM_POL_WKC_NOFRAME \<equiv> 1"

record ecm_event =
  ev_tick :: u64
  ev_type :: u16
  ev_from :: u8
  ev_to :: u8
  ev_a :: int
  ev_b :: int

abbreviation ECM_EV_BUS :: u16 where "ECM_EV_BUS \<equiv> 1"

datatype ecm_bus_state = ECM_BUS_RUN | ECM_BUS_DEGRADED | ECM_BUS_LOST | ECM_BUS_RECOVER

primrec bus_num :: "ecm_bus_state \<Rightarrow> u8" where
  "bus_num ECM_BUS_RUN = 0" | "bus_num ECM_BUS_DEGRADED = 1"
| "bus_num ECM_BUS_LOST = 2" | "bus_num ECM_BUS_RECOVER = 3"

record ecm_bus_cfg =
  n_lost :: u32
  probe_ticks :: u32
  recover_backoff_ticks :: u32

record ecm_bus_fsm =
  bf_cfg :: ecm_bus_cfg
  bus_state :: ecm_bus_state
  noframe_run :: u32
  io_ok :: bool
  io_last_class :: int
  since_tick :: u64
  next_probe_tick :: u64
  entered :: "ecm_bus_state \<Rightarrow> u64"
  ticks_in :: "ecm_bus_state \<Rightarrow> u64"

definition ecm_bus_default_cfg :: ecm_bus_cfg where
  "ecm_bus_default_cfg = \<lparr>n_lost = 100, probe_ticks = 10, recover_backoff_ticks = 1000\<rparr>"

definition ecm_bus_init :: "ecm_bus_cfg \<Rightarrow> ecm_bus_fsm" where
  "ecm_bus_init cfg =
    \<lparr>bf_cfg = cfg\<lparr>n_lost := (if n_lost cfg = 0 then 1 else n_lost cfg),
                   probe_ticks := (if probe_ticks cfg = 0 then 1 else probe_ticks cfg)\<rparr>,
     bus_state = ECM_BUS_RUN, noframe_run = 0, io_ok = True, io_last_class = 0, since_tick = 0,
     next_probe_tick = 0, entered = (\<lambda>_. 0)(ECM_BUS_RUN := 1), ticks_in = (\<lambda>_. 0)\<rparr>"

definition ecm_bus_state_name :: "ecm_bus_state \<Rightarrow> string" where
  "ecm_bus_state_name s = [''RUN'', ''DEGRADED'', ''LOST'', ''RECOVER''] ! unat (bus_num s)"

definition go :: "ecm_bus_fsm \<Rightarrow> u64 \<Rightarrow> ecm_bus_state \<Rightarrow> int \<Rightarrow> int \<Rightarrow> ecm_bus_fsm \<times> ecm_event option" where
  "go f tk to reason grp =
    (f\<lparr>bus_state := to, since_tick := tk, entered := (entered f)(to := entered f to + 1)\<rparr>,
     Some \<lparr>ev_tick = tk, ev_type = ECM_EV_BUS, ev_from = bus_num (bus_state f), ev_to = bus_num to,
           ev_a = reason, ev_b = grp\<rparr>)"

definition account_cycle :: "int \<Rightarrow> int \<Rightarrow> ecm_bus_fsm \<Rightarrow> ecm_bus_fsm" where
  "account_cycle motion io f =
    (let f1 = f\<lparr>noframe_run := (if motion = ECM_POL_WKC_NOFRAME then noframe_run f + 1 else 0)\<rparr>
     in if io \<ge> 0 then f1\<lparr>io_ok := (io = ECM_POL_WKC_OK), io_last_class := io\<rparr> else f1)"

definition ecm_bus_on_cycle :: "ecm_bus_fsm \<Rightarrow> u64 \<Rightarrow> int \<Rightarrow> int \<Rightarrow> ecm_bus_fsm \<times> ecm_event option" where
  "ecm_bus_on_cycle f tk motion io =
    (if bus_state f \<noteq> ECM_BUS_RUN \<and> bus_state f \<noteq> ECM_BUS_DEGRADED then (f, None)
     else
      let f1 = account_cycle motion io f;
          bad = (motion \<noteq> ECM_POL_WKC_OK \<or> \<not> io_ok f1)
      in if noframe_run f1 \<ge> n_lost (bf_cfg f1)
         then go (f1\<lparr>next_probe_tick := tk + 1\<rparr>) tk ECM_BUS_LOST ECM_POL_WKC_NOFRAME 0
         else if bus_state f1 = ECM_BUS_RUN \<and> bad
         then go f1 tk ECM_BUS_DEGRADED (if motion \<noteq> ECM_POL_WKC_OK then motion else io_last_class f1)
                (if motion \<noteq> ECM_POL_WKC_OK then 0 else 1)
         else if bus_state f1 = ECM_BUS_DEGRADED \<and> \<not> bad then go f1 tk ECM_BUS_RUN ECM_POL_WKC_OK 0
         else (f1, None))"

definition ecm_bus_probe_due :: "ecm_bus_fsm \<Rightarrow> u64 \<Rightarrow> bool" where
  "ecm_bus_probe_due f tk \<longleftrightarrow> bus_state f = ECM_BUS_LOST \<and> tk \<ge> next_probe_tick f"

definition ecm_bus_on_probe :: "ecm_bus_fsm \<Rightarrow> u64 \<Rightarrow> int \<Rightarrow> ecm_bus_fsm \<times> ecm_event option" where
  "ecm_bus_on_probe f tk brd_wkc =
    (if bus_state f \<noteq> ECM_BUS_LOST then (f, None)
     else if brd_wkc > 0 then go f tk ECM_BUS_RECOVER brd_wkc 0
     else (f\<lparr>next_probe_tick := tk + ucast (probe_ticks (bf_cfg f))\<rparr>, None))"

definition ecm_bus_on_recover_done :: "ecm_bus_fsm \<Rightarrow> u64 \<Rightarrow> bool \<Rightarrow> ecm_bus_fsm \<times> ecm_event option" where
  "ecm_bus_on_recover_done f tk ok =
    (if bus_state f \<noteq> ECM_BUS_RECOVER then (f, None)
     else
      let f1 = f\<lparr>noframe_run := 0, io_ok := True\<rparr>
      in if ok then go f1 tk ECM_BUS_RUN 0 0
         else go (f1\<lparr>next_probe_tick := tk + ucast (recover_backoff_ticks (bf_cfg f1))\<rparr>) tk ECM_BUS_LOST (- 1) 0)"

definition ecm_bus_tick :: "ecm_bus_fsm \<Rightarrow> ecm_bus_fsm" where
  "ecm_bus_tick f = f\<lparr>ticks_in := (ticks_in f)(bus_state f := ticks_in f (bus_state f) + 1)\<rparr>"

section \<open>Rings between RT thread and monitor\<close>

record ecm_evring =
  evr_head :: u32
  evr_tail :: u32
  evr_drops :: u64
  evr_e :: "nat \<Rightarrow> ecm_event"

definition event_zero :: ecm_event where
  "event_zero = \<lparr>ev_tick = 0, ev_type = 0, ev_from = 0, ev_to = 0, ev_a = 0, ev_b = 0\<rparr>"

definition ecm_evring_init :: ecm_evring where
  "ecm_evring_init = \<lparr>evr_head = 0, evr_tail = 0, evr_drops = 0, evr_e = (\<lambda>_. event_zero)\<rparr>"

definition ecm_evring_push :: "ecm_event \<Rightarrow> ecm_evring \<Rightarrow> ecm_evring \<times> bool" where
  "ecm_evring_push ev r =
    (let h = evr_head r; t = evr_tail r in
     if h - t \<ge> 256 then (r\<lparr>evr_drops := evr_drops r + 1\<rparr>, False)
     else (r\<lparr>evr_e := (evr_e r)(unat (h AND (256 - 1)) := ev), evr_head := h + 1\<rparr>, True))"

definition ecm_evring_pop :: "ecm_evring \<Rightarrow> (ecm_event \<times> ecm_evring) option" where
  "ecm_evring_pop r =
    (let t = evr_tail r; h = evr_head r in
     if t = h then None else Some (evr_e r (unat (t AND (256 - 1))), r\<lparr>evr_tail := t + 1\<rparr>))"

record ecm_cmd =
  cm_slave :: u16
  cm_configadr :: u16
  cm_reg :: u16
  cm_value :: u16

record ecm_cmdq =
  cq_head :: u32
  cq_tail :: u32
  cq_drops :: u64
  cq_c :: "nat \<Rightarrow> ecm_cmd"

definition ecm_cmdq_init :: ecm_cmdq where
  "ecm_cmdq_init = \<lparr>cq_head = 0, cq_tail = 0, cq_drops = 0,
     cq_c = (\<lambda>_. \<lparr>cm_slave = 0, cm_configadr = 0, cm_reg = 0, cm_value = 0\<rparr>)\<rparr>"

definition ecm_cmdq_push :: "ecm_cmd \<Rightarrow> ecm_cmdq \<Rightarrow> ecm_cmdq \<times> bool" where
  "ecm_cmdq_push c q =
    (let h = cq_head q; t = cq_tail q in
     if h - t \<ge> 16 then (q\<lparr>cq_drops := cq_drops q + 1\<rparr>, False)
     else (q\<lparr>cq_c := (cq_c q)(unat (h AND (16 - 1)) := c), cq_head := h + 1\<rparr>, True))"

definition ecm_cmdq_peek :: "ecm_cmdq \<Rightarrow> ecm_cmd option" where
  "ecm_cmdq_peek q =
    (let t = cq_tail q; h = cq_head q in
     if t = h then None else Some (cq_c q (unat (t AND (16 - 1)))))"

definition ecm_cmdq_drop_head :: "ecm_cmdq \<Rightarrow> ecm_cmdq" where
  "ecm_cmdq_drop_head q =
    (let t = cq_tail q; h = cq_head q in if t \<noteq> h then q\<lparr>cq_tail := t + 1\<rparr> else q)"

section \<open>Recovery planner\<close>

datatype ecm_sact = ECM_SACT_NONE | ECM_SACT_ACK | ECM_SACT_OP | ECM_SACT_RECONFIG

datatype ecm_al_class = ECM_AL_OK | ECM_AL_TRANSIENT | ECM_AL_CONFIG

record ecm_srec_input =
  in_reach :: bool
  answered :: bool
  al_status :: u16
  al_code :: u16

record ecm_srec =
  attempts :: u32
  next_try_ns :: u64
  failed :: bool
  failed_config :: bool
  failed_code :: u16
  unhealthy :: bool
  sr_last :: ecm_sact
  recoveries :: u64
  actions :: "ecm_sact \<Rightarrow> u64"

record ecm_srec_plan =
  sp_n :: int
  max_attempts :: u32
  backoff0_ns :: u64
  sp_s :: "nat \<Rightarrow> ecm_srec"

definition srec_zero :: ecm_srec where
  "srec_zero = \<lparr>attempts = 0, next_try_ns = 0, failed = False, failed_config = False, failed_code = 0,
     unhealthy = False, sr_last = ECM_SACT_NONE, recoveries = 0, actions = (\<lambda>_. 0)\<rparr>"

definition ecm_srec_init :: "int \<Rightarrow> u32 \<Rightarrow> u64 \<Rightarrow> ecm_srec_plan" where
  "ecm_srec_init n mx b0 = \<lparr>sp_n = (if n > 64 then 64 else n), max_attempts = mx, backoff0_ns = b0,
     sp_s = (\<lambda>_. srec_zero)\<rparr>"

definition config_codes :: "u16 list" where
  "config_codes = [0x0003, 0x0004, 0x0006, 0x000E, 0x0013, 0x0014, 0x0015, 0x0016, 0x0017, 0x001C, 0x001D,
     0x001E, 0x001F, 0x0024, 0x0025, 0x0026, 0x0027, 0x0028, 0x0029, 0x002E, 0x0030, 0x0031, 0x0035,
     0x0036, 0x0037, 0x0041, 0x0042, 0x0043, 0x0044, 0x0045, 0x004F, 0x0070]"

definition ecm_al_code_class :: "u16 \<Rightarrow> ecm_al_class" where
  "ecm_al_code_class code =
    (if code = 0 then ECM_AL_OK else if code \<in> set config_codes then ECM_AL_CONFIG else ECM_AL_TRANSIENT)"

primrec ecm_al_class_name :: "ecm_al_class \<Rightarrow> string" where
  "ecm_al_class_name ECM_AL_OK = ''ok''"
| "ecm_al_class_name ECM_AL_TRANSIENT = ''transient''"
| "ecm_al_class_name ECM_AL_CONFIG = ''config''"

primrec ecm_sact_name :: "ecm_sact \<Rightarrow> string" where
  "ecm_sact_name ECM_SACT_NONE = ''none''"
| "ecm_sact_name ECM_SACT_ACK = ''ack''"
| "ecm_sact_name ECM_SACT_OP = ''request OP''"
| "ecm_sact_name ECM_SACT_RECONFIG = ''recover+reconfigure''"

definition ecm_srec_reset :: "ecm_srec_plan \<Rightarrow> int \<Rightarrow> ecm_srec_plan" where
  "ecm_srec_reset p i =
    (if i < 0 \<or> i \<ge> sp_n p then p
     else p\<lparr>sp_s := (sp_s p)(nat i := (sp_s p (nat i))\<lparr>failed := False, failed_config := False, failed_code := 0,
              attempts := 0, next_try_ns := 0\<rparr>)\<rparr>)"

definition al_state :: "ecm_srec_input \<Rightarrow> u16" where "al_state inp = al_status inp AND 0x0F"

definition al_err :: "ecm_srec_input \<Rightarrow> bool" where "al_err inp \<longleftrightarrow> al_status inp AND 0x10 \<noteq> 0"

text \<open>The action a state asks for, before the attempt gate.\<close>

definition srec_want :: "ecm_srec_input \<Rightarrow> ecm_sact" where
  "srec_want inp =
    (if \<not> answered inp \<or> al_state inp = 0x01 \<or> al_state inp = 0x02 then ECM_SACT_RECONFIG
     else if al_err inp then ECM_SACT_ACK
     else if al_state inp = 0x04 then ECM_SACT_OP
     else ECM_SACT_NONE)"

definition srec_healthy :: "ecm_srec_input \<Rightarrow> bool" where
  "srec_healthy inp \<longleftrightarrow> answered inp \<and> al_state inp = 0x08 \<and> \<not> al_err inp"

definition srec_note :: "ecm_sact \<Rightarrow> ecm_srec \<Rightarrow> ecm_srec" where
  "srec_note act s =
    (if act \<noteq> ECM_SACT_NONE then s\<lparr>sr_last := act, actions := (actions s)(act := actions s act + 1)\<rparr> else s)"

text \<open>The attempt gate: state, action, and whether the slave is given up here.\<close>

definition srec_gate :: "u32 \<Rightarrow> u64 \<Rightarrow> ecm_sact \<Rightarrow> u64 \<Rightarrow> ecm_srec \<Rightarrow> ecm_srec \<times> ecm_sact \<times> bool" where
  "srec_gate mx b0 act now s =
    (if act = ECM_SACT_ACK \<or> act = ECM_SACT_RECONFIG then
       (if now < next_try_ns s then (s, ECM_SACT_NONE, False)
        else if attempts s \<ge> mx then (s\<lparr>failed := True\<rparr>, ECM_SACT_NONE, True)
        else
         let k = attempts s + 1; sh = if k - 1 > 20 then 20 else k - 1
         in (srec_note act (s\<lparr>attempts := k, next_try_ns := now + push_bit (unat sh) b0\<rparr>), act, False))
     else (srec_note act s, act, False))"

definition srec_step :: "u32 \<Rightarrow> u64 \<Rightarrow> ecm_srec_input \<Rightarrow> u64 \<Rightarrow> ecm_srec \<Rightarrow> ecm_srec \<times> ecm_sact \<times> bool \<times> bool" where
  "srec_step mx b0 inp now s =
    (if \<not> in_reach inp then (s, ECM_SACT_NONE, False, False)
     else if srec_healthy inp then
       (s\<lparr>recoveries := (if unhealthy s then recoveries s + 1 else recoveries s), unhealthy := False,
          attempts := 0, failed := False, failed_config := False, failed_code := 0, next_try_ns := 0,
          sr_last := ECM_SACT_NONE\<rparr>, ECM_SACT_NONE, unhealthy s, False)
     else
      let s1 = s\<lparr>unhealthy := True\<rparr>
      in if failed s1 then (s1, ECM_SACT_NONE, False, False)
         else if answered inp \<and> al_err inp \<and> ecm_al_code_class (al_code inp) = ECM_AL_CONFIG
         then (s1\<lparr>failed := True, failed_config := True, failed_code := al_code inp\<rparr>, ECM_SACT_NONE, False, True)
         else let (s2, act, gup) = srec_gate mx b0 (srec_want inp) now s1 in (s2, act, False, gup))"

text \<open>Plan, action, \<open>*recovered\<close>, \<open>*gave_up\<close>.\<close>

definition ecm_srec_decide :: "ecm_srec_plan \<Rightarrow> int \<Rightarrow> ecm_srec_input \<Rightarrow> u64 \<Rightarrow> ecm_srec_plan \<times> ecm_sact \<times> bool \<times> bool" where
  "ecm_srec_decide p i inp now =
    (if i < 0 \<or> i \<ge> sp_n p then (p, ECM_SACT_NONE, False, False)
     else
      let (s, r) = srec_step (max_attempts p) (backoff0_ns p) inp now (sp_s p (nat i))
      in (p\<lparr>sp_s := (sp_s p)(nat i := s)\<rparr>, r))"

section \<open>Input freshness\<close>

datatype ecm_fresh_ev =
    ECM_FRESH_OK | ECM_FRESH_FIRST | ECM_FRESH_UNCHANGED | ECM_FRESH_STALE_START | ECM_FRESH_STALE
  | ECM_FRESH_RESUMED | ECM_FRESH_REGRESSION

record ecm_fresh =
  stale_after :: u32
  fr_bits :: int
  fr_have :: bool
  fr_last :: u32
  fr_run :: u32
  fr_stale :: bool
  fr_samples :: u64
  stale_episodes :: u64
  stale_cycles :: u64
  regressions :: u64
  max_run :: u32

definition ecm_fresh_init :: "u32 \<Rightarrow> int \<Rightarrow> ecm_fresh" where
  "ecm_fresh_init sa nb = \<lparr>stale_after = (if sa = 0 then 1 else sa),
     fr_bits = (if nb = 8 \<or> nb = 32 then nb else 16), fr_have = False, fr_last = 0, fr_run = 0,
     fr_stale = False, fr_samples = 0, stale_episodes = 0, stale_cycles = 0, regressions = 0, max_run = 0\<rparr>"

definition fresh_mask :: "ecm_fresh \<Rightarrow> u32" where
  "fresh_mask f = (if fr_bits f = 32 then 0xFFFFFFFF else push_bit (nat (fr_bits f)) 1 - 1)"

definition fresh_same :: "ecm_fresh \<Rightarrow> ecm_fresh \<times> ecm_fresh_ev" where
  "fresh_same f =
    (let f1 = f\<lparr>fr_run := fr_run f + 1\<rparr>;
         f2 = if fr_run f1 > max_run f1 then f1\<lparr>max_run := fr_run f1\<rparr> else f1
     in if fr_run f2 < stale_after f2 then (f2, ECM_FRESH_UNCHANGED)
        else let f3 = f2\<lparr>stale_cycles := stale_cycles f2 + 1\<rparr>
             in if \<not> fr_stale f3 then (f3\<lparr>fr_stale := True, stale_episodes := stale_episodes f3 + 1\<rparr>, ECM_FRESH_STALE_START)
                else (f3, ECM_FRESH_STALE))"

definition ecm_fresh_update :: "ecm_fresh \<Rightarrow> u32 \<Rightarrow> ecm_fresh \<times> ecm_fresh_ev" where
  "ecm_fresh_update f val =
    (let m = fresh_mask f; v = val AND m; f0 = f\<lparr>fr_samples := fr_samples f + 1\<rparr>
     in if \<not> fr_have f0 then (f0\<lparr>fr_have := True, fr_last := v\<rparr>, ECM_FRESH_FIRST)
        else
         let d = (v - fr_last f0) AND m
         in if d = 0 then fresh_same f0
            else if d > drop_bit 1 m then (f0\<lparr>regressions := regressions f0 + 1\<rparr>, ECM_FRESH_REGRESSION)
            else let f1 = f0\<lparr>fr_last := v, fr_run := 0\<rparr>
                 in if fr_stale f1 then (f1\<lparr>fr_stale := False\<rparr>, ECM_FRESH_RESUMED) else (f1, ECM_FRESH_OK))"

section \<open>The rings are bounded FIFOs\<close>

definition evring_inv :: "ecm_evring \<Rightarrow> bool" where
  "evring_inv r \<longleftrightarrow> unat (evr_head r - evr_tail r) \<le> 256"

definition evring_cont :: "ecm_evring \<Rightarrow> ecm_event list" where
  "evring_cont r = ring_win 256 (evr_e r) (evr_tail r) (evr_head r)"

definition cmdq_inv :: "ecm_cmdq \<Rightarrow> bool" where
  "cmdq_inv q \<longleftrightarrow> unat (cq_head q - cq_tail q) \<le> 16"

definition cmdq_cont :: "ecm_cmdq \<Rightarrow> ecm_cmd list" where
  "cmdq_cont q = ring_win 16 (cq_c q) (cq_tail q) (cq_head q)"

text \<open>The consumer's peek and removal as one operation.\<close>

definition cmdq_take :: "ecm_cmdq \<Rightarrow> (ecm_cmd \<times> ecm_cmdq) option" where
  "cmdq_take q = map_option (\<lambda>c. (c, ecm_cmdq_drop_head q)) (ecm_cmdq_peek q)"

lemma idx_pow2:
  "unat (w AND 255) = unat w mod 256" "unat (w AND 15) = unat w mod 16" for w :: u32
  using unat_and_mask [of w 8] unat_and_mask [of w 4] by (simp_all add: mask_eq_exp_minus_1)

lemma full_pow2:
  "256 \<le> w \<longleftrightarrow> \<not> unat w < 256" "16 \<le> w \<longleftrightarrow> \<not> unat w < 16" for w :: u32
  by (simp_all add: word_le_nat_alt not_less)

interpretation evr: bounded_fifo evring_inv evring_cont 256 ecm_evring_push ecm_evring_pop
proof
  fix r r' :: ecm_evring and x
  assume inv: "evring_inv r"
  show "length (evring_cont r) \<le> 256" using inv by (simp add: evring_cont_def evring_inv_def)
  show "snd (ecm_evring_push x r) \<longleftrightarrow> length (evring_cont r) < 256"
    by (simp add: ecm_evring_push_def evring_cont_def full_pow2 Let_def)
  show "evring_cont (fst (ecm_evring_push x r))
      = (if length (evring_cont r) < 256 then evring_cont r @ [x] else evring_cont r)"
    using ring_win_write [of 256 "evr_head r" "evr_tail r" "evr_e r" x]
    by (auto simp: ecm_evring_push_def evring_cont_def full_pow2 idx_pow2 Let_def)
  show "evring_inv (fst (ecm_evring_push x r))"
    using inv unat_diff_Suc [of "evr_head r" "evr_tail r" 256]
    by (auto simp: ecm_evring_push_def evring_inv_def full_pow2 Let_def)
  show "ecm_evring_pop r = None \<longleftrightarrow> evring_cont r = []"
    by (simp add: ecm_evring_pop_def evring_cont_def ring_win_empty_iff Let_def)
  assume "ecm_evring_pop r = Some (x, r')"
  then have ne: "evr_tail r \<noteq> evr_head r" and r': "r' = r\<lparr>evr_tail := evr_tail r + 1\<rparr>"
    and x: "x = evr_e r (unat (evr_tail r) mod 256)"
    by (auto simp: ecm_evring_pop_def idx_pow2 Let_def split: if_splits)
  show "evring_inv r' \<and> evring_cont r = x # evring_cont r'"
    using inv ring_win_room [OF ne] ring_win_pop [OF _ ne, of 256 "evr_e r"]
    by (simp add: evring_inv_def evring_cont_def r' x)
qed

interpretation cmdr: bounded_fifo cmdq_inv cmdq_cont 16 ecm_cmdq_push cmdq_take
proof
  fix q q' :: ecm_cmdq and x
  assume inv: "cmdq_inv q"
  show "length (cmdq_cont q) \<le> 16" using inv by (simp add: cmdq_cont_def cmdq_inv_def)
  show "snd (ecm_cmdq_push x q) \<longleftrightarrow> length (cmdq_cont q) < 16"
    by (simp add: ecm_cmdq_push_def cmdq_cont_def full_pow2 Let_def)
  show "cmdq_cont (fst (ecm_cmdq_push x q))
      = (if length (cmdq_cont q) < 16 then cmdq_cont q @ [x] else cmdq_cont q)"
    using ring_win_write [of 16 "cq_head q" "cq_tail q" "cq_c q" x]
    by (auto simp: ecm_cmdq_push_def cmdq_cont_def full_pow2 idx_pow2 Let_def)
  show "cmdq_inv (fst (ecm_cmdq_push x q))"
    using inv unat_diff_Suc [of "cq_head q" "cq_tail q" 16]
    by (auto simp: ecm_cmdq_push_def cmdq_inv_def full_pow2 Let_def)
  show "cmdq_take q = None \<longleftrightarrow> cmdq_cont q = []"
    by (simp add: cmdq_take_def ecm_cmdq_peek_def cmdq_cont_def ring_win_empty_iff Let_def)
  assume "cmdq_take q = Some (x, q')"
  then have ne: "cq_tail q \<noteq> cq_head q" and q': "q' = q\<lparr>cq_tail := cq_tail q + 1\<rparr>"
    and x: "x = cq_c q (unat (cq_tail q) mod 16)"
    by (auto simp: cmdq_take_def ecm_cmdq_peek_def ecm_cmdq_drop_head_def idx_pow2 Let_def split: if_splits)
  show "cmdq_inv q' \<and> cmdq_cont q = x # cmdq_cont q'"
    using inv ring_win_room [OF ne] ring_win_pop [OF _ ne, of 16 "cq_c q"]
    by (simp add: cmdq_inv_def cmdq_cont_def q' x)
qed

section \<open>Bus state machine\<close>

text \<open>What drives the machine: cycles, probe results, the end of a recovery, ticks.\<close>

datatype bus_event = BusCycle u64 int int | BusProbe u64 int | BusDone u64 bool | BusTick

primrec bus_exec :: "bus_event \<Rightarrow> ecm_bus_fsm \<Rightarrow> ecm_bus_fsm \<times> ecm_event option" where
  "bus_exec (BusCycle tk m io) f = ecm_bus_on_cycle f tk m io"
| "bus_exec (BusProbe tk w) f = ecm_bus_on_probe f tk w"
| "bus_exec (BusDone tk ok) f = ecm_bus_on_recover_done f tk ok"
| "bus_exec BusTick f = (ecm_bus_tick f, None)"

primrec bus_run :: "bus_event list \<Rightarrow> ecm_bus_fsm \<Rightarrow> ecm_bus_fsm \<times> ecm_event list" where
  "bus_run [] f = (f, [])"
| "bus_run (b # bs) f =
    (let (f1, e) = bus_exec b f; (f2, es) = bus_run bs f1
     in (f2, case e of None \<Rightarrow> es | Some x \<Rightarrow> x # es))"

lemmas bus_defs = ecm_bus_on_cycle_def ecm_bus_on_probe_def ecm_bus_on_recover_done_def ecm_bus_tick_def
  account_cycle_def go_def Let_def

text \<open>A chain of events that leads from one state to another.\<close>

fun bus_path :: "ecm_bus_state \<Rightarrow> ecm_event list \<Rightarrow> ecm_bus_state \<Rightarrow> bool" where
  "bus_path s [] s' \<longleftrightarrow> s' = s"
| "bus_path s (e # es) s' \<longleftrightarrow> ev_type e = ECM_EV_BUS \<and> ev_from e = bus_num s \<and>
     (\<exists>s1\<in>{ECM_BUS_RUN, ECM_BUS_DEGRADED, ECM_BUS_LOST, ECM_BUS_RECOVER} - {s}. ev_to e = bus_num s1 \<and> bus_path s1 es s')"

lemma bus_num_inj [simp]: "bus_num s = bus_num s' \<longleftrightarrow> s = s'"
  by (cases s; cases s') simp_all

lemma bus_exec_event:
  assumes "bus_exec b f = (f', e)"
  shows "case e of
      None \<Rightarrow> bus_state f' = bus_state f \<and> entered f' = entered f
    | Some x \<Rightarrow> bus_state f' \<noteq> bus_state f \<and> ev_type x = ECM_EV_BUS \<and> ev_from x = bus_num (bus_state f) \<and>
        ev_to x = bus_num (bus_state f') \<and>
        entered f' = (entered f)(bus_state f' := entered f (bus_state f') + 1)"
  using assms by (cases b) (auto simp: bus_defs split: if_splits)

lemma bus_run_path:
  assumes "bus_run bs f = (f', es)"
  shows "bus_path (bus_state f) es (bus_state f') \<and>
    (\<forall>s. entered f' s = entered f s + of_nat (length (filter (\<lambda>e. ev_to e = bus_num s) es)))"
  using assms
proof (induction bs arbitrary: f es)
  case (Cons b bs)
  obtain f1 e where e: "bus_exec b f = (f1, e)" by fastforce
  obtain es1 where r: "bus_run bs f1 = (f', es1)" and es: "es = (case e of None \<Rightarrow> es1 | Some x \<Rightarrow> x # es1)"
    using Cons.prems e by (auto simp: Let_def split: prod.splits)
  note ih = Cons.IH [OF r] and ev = bus_exec_event [OF e]
  show ?case
  proof (cases e)
    case None
    with ih ev es show ?thesis by simp
  next
    case (Some x)
    have "bus_state f1 \<in> {ECM_BUS_RUN, ECM_BUS_DEGRADED, ECM_BUS_LOST, ECM_BUS_RECOVER}"
      by (cases "bus_state f1") simp_all
    with ih ev es Some show ?thesis by auto
  qed
qed simp

text \<open>C13. The event log tells the truth: whatever drives the bus state machine, the events
  it emitted form an unbroken path from the state it started in to the state it is in,
  each one a real change of state, and the counter of every state has grown by exactly
  the events that enter it.\<close>

theorem bus_events_path:
  "bus_path (bus_state f) (snd (bus_run bs f)) (bus_state (fst (bus_run bs f))) \<and>
   entered (fst (bus_run bs f)) s =
     entered f s + of_nat (length (filter (\<lambda>e. ev_to e = bus_num s) (snd (bus_run bs f))))"
  using bus_run_path [OF surjective_pairing] by blast

text \<open>Leaving LOST.\<close>

definition is_probe :: "bus_event \<Rightarrow> bool" where
  "is_probe b \<longleftrightarrow> (case b of BusProbe t w \<Rightarrow> w > 0 | _ \<Rightarrow> False)"

definition is_done :: "bus_event \<Rightarrow> bool" where
  "is_done b \<longleftrightarrow> (case b of BusDone t ok \<Rightarrow> ok | _ \<Rightarrow> False)"

lemma bus_exec_lost:
  "bus_state f = ECM_BUS_LOST \<Longrightarrow> bus_state (fst (bus_exec b f)) = (if is_probe b then ECM_BUS_RECOVER else ECM_BUS_LOST)"
  by (cases b) (auto simp: bus_defs is_probe_def)

lemma bus_exec_recover:
  "bus_state f = ECM_BUS_RECOVER \<Longrightarrow> bus_state (fst (bus_exec b f)) =
     (case b of BusDone t ok \<Rightarrow> if ok then ECM_BUS_RUN else ECM_BUS_LOST | _ \<Rightarrow> ECM_BUS_RECOVER)"
  by (cases b) (auto simp: bus_defs)

lemma bus_run_fst: "fst (bus_run bs f) = fold (\<lambda>b f. fst (bus_exec b f)) bs f"
  by (induction bs arbitrary: f) (simp_all add: Let_def case_prod_beta)

lemma bus_lost_recover_run:
  assumes "bus_state (fst (bus_run bs f)) \<in> {ECM_BUS_RUN, ECM_BUS_DEGRADED}"
  shows "(bus_state f = ECM_BUS_LOST \<longrightarrow>
      (\<exists>p q r b d. bs = p @ b # q @ d # r \<and> is_probe b \<and> is_done d)) \<and>
    (bus_state f = ECM_BUS_RECOVER \<longrightarrow> (\<exists>q r d. bs = q @ d # r \<and> is_done d))"
  using assms unfolding bus_run_fst
proof (induction bs arbitrary: f)
  case (Cons b bs)
  let ?f = "fst (bus_exec b f)"
  have ih: "(bus_state ?f = ECM_BUS_LOST \<longrightarrow> (\<exists>p q r b d. bs = p @ b # q @ d # r \<and> is_probe b \<and> is_done d)) \<and>
    (bus_state ?f = ECM_BUS_RECOVER \<longrightarrow> (\<exists>q r d. bs = q @ d # r \<and> is_done d))"
    using Cons by simp
  have rec: "\<exists>q r d. b # bs = q @ d # r \<and> is_done d" if "\<exists>q r d. bs = q @ d # r \<and> is_done d"
    using that by (metis append_Cons)
  have lost: "\<exists>p q r x d. b # bs = p @ x # q @ d # r \<and> is_probe x \<and> is_done d"
    if "\<exists>p q r x d. bs = p @ x # q @ d # r \<and> is_probe x \<and> is_done d"
    using that by (metis append_Cons)
  have dn: "\<exists>q r d. bs = q @ d # r \<and> is_done d"
    if "\<exists>p q r x d. bs = p @ x # q @ d # r \<and> is_probe x \<and> is_done d"
    using that by (metis append.assoc append_Cons)
  show ?case
  proof (intro conjI impI)
    assume l: "bus_state f = ECM_BUS_LOST"
    show "\<exists>p q r x d. b # bs = p @ x # q @ d # r \<and> is_probe x \<and> is_done d"
    proof (cases "is_probe b")
      case True
      with bus_exec_lost [OF l] ih show ?thesis by (metis append_Nil)
    qed (use bus_exec_lost [OF l] ih lost in simp)
  next
    assume rc: "bus_state f = ECM_BUS_RECOVER"
    show "\<exists>q r d. b # bs = q @ d # r \<and> is_done d"
    proof (cases "is_done b")
      case False
      with bus_exec_recover [OF rc, of b] have "bus_state ?f = ECM_BUS_LOST \<or> bus_state ?f = ECM_BUS_RECOVER"
        by (cases b) (auto simp: is_done_def)
      with ih rec dn show ?thesis by blast
    qed (metis append_Nil)
  qed
qed auto

text \<open>A bus that was lost runs again only after a probe that was answered and, later, a
  recovery that succeeded: no sequence of cycles, probes, failed recoveries or ticks
  alone leads from LOST back to exchanging process data.\<close>

theorem bus_lost_needs_recovery:
  assumes "bus_state f = ECM_BUS_LOST"
    and "bus_state (fst (bus_run bs f)) \<in> {ECM_BUS_RUN, ECM_BUS_DEGRADED}"
  shows "\<exists>p q r t w t'. bs = p @ BusProbe t w # q @ BusDone t' True # r \<and> w > 0"
proof -
  obtain p q r b d where s: "bs = p @ b # q @ d # r" "is_probe b" "is_done d"
    using bus_lost_recover_run [OF assms(2)] assms(1) by blast
  obtain t w where "b = BusProbe t w" "w > 0" using s(2) by (cases b) (auto simp: is_probe_def)
  moreover obtain t' where "d = BusDone t' True" using s(3) by (cases d) (auto simp: is_done_def)
  ultimately show ?thesis using s(1) by blast
qed

text \<open>The last class of the IO group that was serviced is OK.\<close>

definition io_fine :: "(u64 \<times> int \<times> int) list \<Rightarrow> bool" where
  "io_fine cs = (case filter (\<lambda>c. snd (snd c) \<ge> 0) (rev cs) of [] \<Rightarrow> True | c # _ \<Rightarrow> snd (snd c) = ECM_POL_WKC_OK)"

definition cycles :: "(u64 \<times> int \<times> int) list \<Rightarrow> ecm_bus_fsm \<Rightarrow> ecm_bus_fsm" where
  "cycles cs f = fold (\<lambda>(tk, m, io) f. fst (ecm_bus_on_cycle f tk m io)) cs f"

abbreviation noframe :: "u64 \<times> int \<times> int \<Rightarrow> bool" where "noframe c \<equiv> fst (snd c) = ECM_POL_WKC_NOFRAME"

lemma cycles_snoc: "cycles (cs @ [(tk, m, io)]) f = fst (ecm_bus_on_cycle (cycles cs f) tk m io)"
  by (simp add: cycles_def)

text \<open>Detection state after any list of cycles, from a fresh machine.\<close>

definition cyc_state :: "nat \<Rightarrow> (u64 \<times> int \<times> int) list \<Rightarrow> ecm_bus_fsm \<Rightarrow> bool" where
  "cyc_state n cs f \<longleftrightarrow> unat (n_lost (bf_cfg f)) = n \<and>
    (if has_run noframe n cs then bus_state f = ECM_BUS_LOST
     else unat (noframe_run f) = trailing noframe cs \<and> io_ok f = io_fine cs \<and>
       bus_state f = (if cs = [] \<or> fst (snd (last cs)) = ECM_POL_WKC_OK \<and> io_fine cs then ECM_BUS_RUN else ECM_BUS_DEGRADED))"

lemma cyc_state_step:
  assumes "cyc_state n cs f" and "0 < n"
  shows "cyc_state n (cs @ [(tk, m, io)]) (fst (ecm_bus_on_cycle f tk m io))"
proof (cases "has_run noframe n cs")
  case True
  with assms show ?thesis by (simp add: cyc_state_def has_run_snoc ecm_bus_on_cycle_def)
next
  case False
  let ?f1 = "account_cycle m io f" and ?cs = "cs @ [(tk, m, io)]"
  have f: "unat (n_lost (bf_cfg f)) = n" "unat (noframe_run f) = trailing noframe cs" "io_ok f = io_fine cs"
    "bus_state f = ECM_BUS_RUN \<or> bus_state f = ECM_BUS_DEGRADED"
    using assms(1) False by (auto simp: cyc_state_def)
  have "trailing noframe cs < n" using False trailing_has_run [of n noframe cs] by linarith
  then have "unat (noframe_run f) + 1 < 2 ^ 32"
    using f(1,2) unat_bound [of "n_lost (bf_cfg f)"] by simp
  then have run: "unat (noframe_run ?f1) = trailing noframe ?cs"
    using f(2) unat_add_of_nat [of "noframe_run f" 1] by (simp add: account_cycle_def trailing_snoc Let_def)
  have io: "io_ok ?f1 = io_fine ?cs" using f(3) by (simp add: account_cycle_def io_fine_def Let_def)
  have fr: "bf_cfg ?f1 = bf_cfg f" "bus_state ?f1 = bus_state f" by (simp_all add: account_cycle_def Let_def)
  have lost: "n_lost (bf_cfg f) \<le> noframe_run ?f1 \<longleftrightarrow> has_run noframe n ?cs"
    using f(1) run False by (simp add: word_le_nat_alt has_run_snoc)
  show ?thesis
    using f(1,4) run io fr lost
    by (auto simp: cyc_state_def ecm_bus_on_cycle_def go_def Let_def)
qed

lemma cyc_state_run: "0 < n \<Longrightarrow> cyc_state n [] f \<Longrightarrow> cyc_state n cs (cycles cs f)"
proof (induction cs rule: rev_induct)
  case (snoc c cs)
  then show ?case using cyc_state_step [of n cs "cycles cs f"] by (cases c) (simp add: cycles_snoc)
qed (simp add: cycles_def)

text \<open>C12. Bus loss is detected exactly: after any sequence of cycles the bus is LOST if and
  only if \<open>n_lost\<close> consecutive cycles brought no frame at all; otherwise it is RUN
  when the last motion cycle and the last serviced IO cycle had the expected working
  counter, and DEGRADED when one of them had not.\<close>

theorem bus_loss_exact:
  assumes "cs \<noteq> []"
  shows "bus_state (cycles cs (ecm_bus_init cfg)) =
    (if has_run noframe (max 1 (unat (n_lost cfg))) cs then ECM_BUS_LOST
     else if fst (snd (last cs)) = ECM_POL_WKC_OK \<and> io_fine cs then ECM_BUS_RUN else ECM_BUS_DEGRADED)"
proof -
  let ?n = "max 1 (unat (n_lost cfg))"
  have "0 < unat (n_lost cfg) \<or> n_lost cfg = 0" by (simp add: unat_gt_0)
  then have "cyc_state ?n [] (ecm_bus_init cfg)"
    by (auto simp: cyc_state_def ecm_bus_init_def has_run_Nil trailing_def io_fine_def)
  from cyc_state_run [OF _ this, of cs] assms show ?thesis by (auto simp: cyc_state_def)
qed

theorem bus_loss_exact_witness:
  "bus_state (cycles [(1, 1, -1), (2, 1, 0)] (ecm_bus_init \<lparr>n_lost = 2, probe_ticks = 10, recover_backoff_ticks = 1000\<rparr>))
    = ECM_BUS_LOST"
proof -
  have "has_run noframe (Suc (Suc 0)) [(1, 1, -1), (2, 1, 0)]"
    unfolding has_run_def by (rule exI [of _ "[]"], rule exI [of _ "[(1, 1, -1), (2, 1, 0)]"]) simp
  then show ?thesis
    using bus_loss_exact [of "[(1, 1, -1), (2, 1, 0)]" "\<lparr>n_lost = 2, probe_ticks = 10, recover_backoff_ticks = 1000\<rparr>"]
    by simp
qed

section \<open>Recovery planner\<close>

definition is_start :: "ecm_sact \<Rightarrow> bool" where
  "is_start a \<longleftrightarrow> a = ECM_SACT_ACK \<or> a = ECM_SACT_RECONFIG"

text \<open>A run of the planner on one slave: state, actions, give-up flags.\<close>

primrec srec_run :: "u32 \<Rightarrow> u64 \<Rightarrow> (ecm_srec_input \<times> u64) list \<Rightarrow> ecm_srec \<Rightarrow> ecm_srec \<times> (ecm_sact \<times> bool) list" where
  "srec_run mx b0 [] s = (s, [])"
| "srec_run mx b0 (x # xs) s =
    (let (s1, act, rcv, gup) = srec_step mx b0 (fst x) (snd x) s; (s2, as) = srec_run mx b0 xs s1
     in (s2, (act, gup) # as))"

definition starts :: "(ecm_sact \<times> bool) list \<Rightarrow> nat" where
  "starts as = length (filter (\<lambda>a. is_start (fst a)) as)"

definition giveups :: "(ecm_sact \<times> bool) list \<Rightarrow> nat" where
  "giveups as = length (filter snd as)"

lemmas srec_defs = srec_step_def srec_gate_def srec_note_def is_start_def Let_def

lemma attempts_Suc: "k < m \<Longrightarrow> unat (k + 1) = unat k + 1" for k m :: u32
  using unat_add_of_nat [of k 1] unat_bound [of m] by (simp add: word_less_nat_alt)

lemma srec_step_count:
  assumes "srec_step mx b0 inp now s = (s', act, rcv, gup)" and "\<not> (in_reach inp \<and> srec_healthy inp)"
  shows "unat (attempts s') = unat (attempts s) + of_bool (is_start act)"
    and "is_start act \<Longrightarrow> attempts s < mx \<and> \<not> failed s \<and> next_try_ns s \<le> now"
    and "failed s' \<longleftrightarrow> failed s \<or> gup" and "failed s \<Longrightarrow> act = ECM_SACT_NONE \<and> \<not> gup"
  using assms attempts_Suc [of "attempts s" mx]
  by (auto simp: srec_defs not_le split: if_splits)

lemma srec_run_count:
  assumes "srec_run mx b0 xs s = (s', as)" and "\<forall>x\<in>set xs. \<not> (in_reach (fst x) \<and> srec_healthy (fst x))"
  shows "unat (attempts s') = unat (attempts s) + starts as \<and>
    (unat (attempts s) \<le> unat mx \<longrightarrow> unat (attempts s') \<le> unat mx) \<and>
    giveups as = of_bool (\<not> failed s \<and> failed s') \<and> (failed s \<longrightarrow> failed s' \<and> starts as = 0)"
  using assms
proof (induction xs arbitrary: s as)
  case Nil
  then show ?case by (simp add: starts_def giveups_def)
next
  case (Cons x xs)
  obtain s1 act rcv gup where st: "srec_step mx b0 (fst x) (snd x) s = (s1, act, rcv, gup)" by (metis prod_cases4)
  obtain as1 where r: "srec_run mx b0 xs s1 = (s', as1)" and as: "as = (act, gup) # as1"
    using Cons.prems(1) st by (auto split: prod.splits)
  have nh: "\<not> (in_reach (fst x) \<and> srec_healthy (fst x))" using Cons.prems(2) by simp
  note c = srec_step_count [OF st nh]
  have b: "unat (attempts s) \<le> unat mx \<longrightarrow> unat (attempts s1) \<le> unat mx"
    using c(1,2) by (cases "is_start act") (auto simp: word_less_nat_alt)
  have ih: "unat (attempts s') = unat (attempts s1) + starts as1"
    "unat (attempts s1) \<le> unat mx \<Longrightarrow> unat (attempts s') \<le> unat mx"
    "giveups as1 = of_bool (\<not> failed s1 \<and> failed s')" "failed s1 \<Longrightarrow> failed s' \<and> starts as1 = 0"
    using Cons.IH [OF r] Cons.prems(2) by simp_all
  have sc: "starts as = of_bool (is_start act) + starts as1" "giveups as = of_bool gup + giveups as1"
    by (simp_all add: as starts_def giveups_def)
  show ?case
  proof (cases "failed s")
    case True
    with c(3,4) have "failed s1" "\<not> gup" "\<not> is_start act" by (simp_all add: is_start_def)
    with ih sc c(1) b True show ?thesis by simp
  next
    case False
    with ih sc c(1,3) b show ?thesis by simp
  qed
qed

text \<open>C14. Recovery of a slave is bounded: between two reads that show it healthy the planner
  starts at most \<open>max_attempts\<close> attempts, gives up at most once, and after giving up
  starts nothing any more.\<close>

theorem srec_bounded:
  assumes "srec_run mx b0 xs s = (s1, as)" and "srec_run mx b0 ys s1 = (s2, bs)"
    and "\<forall>x\<in>set (xs @ ys). \<not> (in_reach (fst x) \<and> srec_healthy (fst x))"
    and "attempts s = 0" and "\<not> failed s"
  shows "starts as + starts bs \<le> unat mx \<and> giveups as + giveups bs \<le> 1 \<and> (0 < giveups as \<longrightarrow> starts bs = 0)"
proof -
  have a: "unat (attempts s1) = starts as" "unat (attempts s1) \<le> unat mx" "giveups as = of_bool (failed s1)"
    using srec_run_count [OF assms(1)] assms(3-5) by auto
  have b: "unat (attempts s2) = unat (attempts s1) + starts bs" "unat (attempts s2) \<le> unat mx"
    "giveups bs = of_bool (\<not> failed s1 \<and> failed s2)" "failed s1 \<longrightarrow> starts bs = 0"
    using srec_run_count [OF assms(2)] assms(3) a(2) by auto
  from a b show ?thesis by auto
qed

definition dead :: ecm_srec_input where
  "dead = \<lparr>in_reach = True, answered = False, al_status = 0, al_code = 0\<rparr>"

theorem srec_bounded_witness:
  "let r1 = srec_run 1 10 [(dead, 0), (dead, 5), (dead, 10)] srec_zero; r2 = srec_run 1 10 [(dead, 99)] (fst r1)
   in starts (snd r1) + starts (snd r2) \<le> 1"
  using srec_bounded [OF surjective_pairing surjective_pairing, of "[(dead, 0), (dead, 5), (dead, 10)]" "[(dead, 99)]" srec_zero 1 10]
  by (simp add: srec_zero_def dead_def srec_healthy_def Let_def del: srec_run.simps)

text \<open>A slave that cannot be helped: in reach, and its state asks for a new attempt.\<close>

definition stuck :: "ecm_srec_input \<Rightarrow> bool" where
  "stuck inp \<longleftrightarrow> in_reach inp \<and> \<not> srec_healthy inp \<and> is_start (srec_want inp)"

lemma unat_backoff:
  fixes now b0 :: u64
  assumes "sh \<le> 20"
  shows "unat (now + push_bit sh b0) \<le> unat now + unat b0 * 2 ^ 20"
proof -
  have "unat (now + push_bit sh b0) \<le> unat now + unat (push_bit sh b0)"
    by (simp add: unat_word_ariths)
  also have "unat (push_bit sh b0) \<le> unat b0 * 2 ^ sh"
    by (simp only: unsigned_push_bit_eq) (simp add: push_bit_eq_mult take_bit_eq_mod)
  also have "unat b0 * 2 ^ sh \<le> unat b0 * 2 ^ 20" using assms by (intro mult_left_mono power_increasing) auto
  finally show ?thesis by simp
qed

lemma srec_step_stuck:
  assumes "srec_step mx b0 inp now s = (s', act, rcv, gup)" and "stuck inp" and "next_try_ns s \<le> now"
  shows "failed s' \<or> unat (attempts s') = unat (attempts s) + 1 \<and> unat (attempts s') \<le> unat mx \<and>
    unat (next_try_ns s') \<le> unat now + unat b0 * 2 ^ 20"
proof (cases "failed s'")
  case False
  let ?k = "attempts s"
  let ?sh = "if ?k > 20 then 20 else ?k"
  have *: "?k < mx" "attempts s' = ?k + 1" "next_try_ns s' = now + push_bit (unat ?sh) b0"
    using assms False by (auto simp: srec_defs stuck_def not_le not_less split: if_splits)
  have "unat ?sh \<le> 20" by (auto simp: word_less_nat_alt)
  from unat_backoff [OF this, of now b0] * attempts_Suc [OF *(1)] show ?thesis
    by (simp add: word_less_nat_alt del: of_nat_add)
qed simp

text \<open>The reads come at least the longest backoff apart.\<close>

fun spaced :: "nat \<Rightarrow> nat \<Rightarrow> u64 list \<Rightarrow> bool" where
  "spaced g t [] \<longleftrightarrow> True"
| "spaced g t (x # xs) \<longleftrightarrow> t \<le> unat x \<and> spaced g (unat x + g) xs"

lemma srec_run_stuck:
  assumes "srec_run mx b0 xs s = (s', as)" and "\<forall>x\<in>set xs. stuck (fst x)"
    and "spaced (unat b0 * 2 ^ 20) t (map snd xs)" and "unat (next_try_ns s) \<le> t"
    and "unat (attempts s) \<le> unat mx" and "unat mx - unat (attempts s) < length xs"
  shows "failed s'"
  using assms
proof (induction xs arbitrary: s as t)
  case (Cons x xs)
  obtain s1 act rcv gup where st: "srec_step mx b0 (fst x) (snd x) s = (s1, act, rcv, gup)" by (metis prod_cases4)
  obtain as1 where r: "srec_run mx b0 xs s1 = (s', as1)" using Cons.prems(1) st by (auto split: prod.splits)
  have nh: "\<forall>y\<in>set xs. \<not> (in_reach (fst y) \<and> srec_healthy (fst y))" using Cons.prems(2) by (auto simp: stuck_def)
  have "next_try_ns s \<le> snd x" using Cons.prems(3,4) by (simp add: word_le_nat_alt)
  then consider "failed s1" | "unat (attempts s1) = unat (attempts s) + 1" "unat (attempts s1) \<le> unat mx"
      "unat (next_try_ns s1) \<le> unat (snd x) + unat b0 * 2 ^ 20"
    using srec_step_stuck [OF st] Cons.prems(2) by auto
  then show ?case
  proof cases
    case 1
    with srec_run_count [OF r nh] show ?thesis by simp
  next
    case 2
    show ?thesis by (rule Cons.IH [OF r _ _ 2(3)]) (use Cons.prems 2 in auto)
  qed
qed simp

text \<open>A slave that cannot be recovered is given up: reads at least the longest backoff
  apart that keep asking for a new attempt lead to the failed state after at most
  \<open>max_attempts + 1\<close> of them.\<close>

theorem srec_gives_up:
  assumes "\<forall>x\<in>set xs. stuck (fst x)" and "spaced (unat b0 * 2 ^ 20) (unat (next_try_ns s)) (map snd xs)"
    and "attempts s \<le> mx" and "unat mx < length xs"
  shows "failed (fst (srec_run mx b0 xs s))"
  using srec_run_stuck [OF surjective_pairing assms(1,2)] assms(3,4) by (simp add: word_le_nat_alt)

section \<open>Freshness\<close>

definition fresh_wf :: "ecm_fresh \<Rightarrow> bool" where
  "fresh_wf f \<longleftrightarrow> fr_bits f \<in> {8, 16, 32} \<and> 0 < stale_after f"

lemma fresh_mask_eq: "fresh_wf f \<Longrightarrow> fresh_mask f = mask (nat (fr_bits f))"
  by (auto simp: fresh_wf_def fresh_mask_def mask_eq_exp_minus_1)

lemma uint_diff_and_mask:
  fixes v l :: u32
  assumes "n \<le> 32"
  shows "uint ((v - l) AND mask n) = (uint v - uint l) mod 2 ^ n"
proof -
  have "(2 :: int) ^ n dvd 2 ^ 32" using assms by (rule le_imp_power_dvd)
  then have "(uint v - uint l) mod 2 ^ 32 mod 2 ^ n = (uint v - uint l) mod 2 ^ n" by (simp add: mod_mod_cancel)
  moreover have "uint ((v - l) AND mask n) = uint (v - l) mod 2 ^ n"
    by (simp only: take_bit_eq_mask [symmetric] unsigned_take_bit_eq) (simp add: take_bit_eq_mod)
  ultimately show ?thesis by (simp add: uint_word_ariths)
qed

lemma half_mask:
  fixes d :: u32
  assumes "n \<in> {8, 16, 32}"
  shows "d > drop_bit 1 (mask n) \<longleftrightarrow> 2 ^ (n - 1) \<le> uint d"
  using assms by (auto simp: word_less_def mask_eq_exp_minus_1)

definition fresh_dist :: "ecm_fresh \<Rightarrow> u32 \<Rightarrow> int" where
  "fresh_dist f val = (uint val - uint (fr_last f)) mod 2 ^ nat (fr_bits f)"

lemma fresh_dist_word:
  assumes "fresh_wf f"
  shows "uint (((val AND fresh_mask f) - fr_last f) AND fresh_mask f) = fresh_dist f val"
proof -
  let ?n = "nat (fr_bits f)"
  have n: "?n \<le> 32" using assms by (auto simp: fresh_wf_def)
  have "uint (val AND mask ?n) = uint val mod 2 ^ ?n"
    by (simp only: take_bit_eq_mask [symmetric] unsigned_take_bit_eq) (simp add: take_bit_eq_mod)
  with uint_diff_and_mask [OF n, of "val AND mask ?n" "fr_last f"] show ?thesis
    by (simp add: fresh_mask_eq [OF assms] fresh_dist_def mod_diff_left_eq)
qed

lemma fresh_same_frame:
  "fresh_same f = (g, e) \<Longrightarrow> fr_last g = fr_last f \<and> e \<in> {ECM_FRESH_UNCHANGED, ECM_FRESH_STALE_START, ECM_FRESH_STALE}"
  by (auto simp: fresh_same_def Let_def split: if_splits)

text \<open>The freshness verdict is the serial-number comparison of the counter: with the
  distance of the new value from the last accepted one taken modulo the counter width,
  distance 0 counts as unchanged, a distance below half the range is accepted and
  becomes the new reference, and anything else is an older reply: reported as a
  regression and never taken as the reference.\<close>

theorem fresh_verdict:
  assumes "fresh_wf f" and "fr_have f" and "ecm_fresh_update f val = (g, e)"
  shows "if fresh_dist f val = 0
    then fr_last g = fr_last f \<and> e \<in> {ECM_FRESH_UNCHANGED, ECM_FRESH_STALE_START, ECM_FRESH_STALE}
    else if fresh_dist f val < 2 ^ (nat (fr_bits f) - 1)
    then uint (fr_last g) = uint val mod 2 ^ nat (fr_bits f) \<and> fr_run g = 0 \<and> \<not> fr_stale g \<and>
      e = (if fr_stale f then ECM_FRESH_RESUMED else ECM_FRESH_OK)
    else fr_last g = fr_last f \<and> e = ECM_FRESH_REGRESSION \<and> regressions g = regressions f + 1"
proof -
  let ?m = "fresh_mask f"
  let ?d = "((val AND ?m) - fr_last f) AND ?m"
  have n: "nat (fr_bits f) \<in> {8, 16, 32}" using assms(1) by (auto simp: fresh_wf_def)
  have d: "uint ?d = fresh_dist f val" using assms(1) by (rule fresh_dist_word)
  have z: "?d = 0 \<longleftrightarrow> fresh_dist f val = 0" using d by (metis uint_0_iff)
  have h: "?d > drop_bit 1 ?m \<longleftrightarrow> \<not> fresh_dist f val < 2 ^ (nat (fr_bits f) - 1)"
    using half_mask [OF n, of ?d] d by (simp add: fresh_mask_eq [OF assms(1)] not_less)
  have v: "uint (val AND ?m) = uint val mod 2 ^ nat (fr_bits f)"
    unfolding fresh_mask_eq [OF assms(1)]
    by (simp only: take_bit_eq_mask [symmetric] unsigned_take_bit_eq) (simp add: take_bit_eq_mod)
  have m: "fresh_mask (f\<lparr>fr_samples := k\<rparr>) = ?m" for k by (simp add: fresh_mask_def)
  show ?thesis
  proof (cases "?d = 0")
    case True
    then have "fresh_same (f\<lparr>fr_samples := fr_samples f + 1\<rparr>) = (g, e)"
      using assms(2,3) by (simp add: ecm_fresh_update_def Let_def)
    from fresh_same_frame [OF this] True z show ?thesis by simp
  next
    case False
    with assms(2,3) z h v show ?thesis
      by (auto simp: ecm_fresh_update_def Let_def split: if_splits)
  qed
qed

definition fresh_events :: "ecm_fresh \<Rightarrow> u32 list \<Rightarrow> ecm_fresh \<times> ecm_fresh_ev list" where
  "fresh_events f vs = fold (\<lambda>v (f, es). let (f1, e) = ecm_fresh_update f v in (f1, es @ [e])) vs (f, [])"

lemma fresh_events_snoc:
  "fresh_events f (vs @ [v]) =
    (let (f1, es) = fresh_events f vs; (f2, e) = ecm_fresh_update f1 v in (f2, es @ [e]))"
  by (simp add: fresh_events_def)

definition stale_ev :: "u32 \<Rightarrow> nat \<Rightarrow> ecm_fresh_ev" where
  "stale_ev sa j = (if j < unat sa then ECM_FRESH_UNCHANGED
     else if j = unat sa then ECM_FRESH_STALE_START else ECM_FRESH_STALE)"

lemma fresh_repeat:
  assumes "fresh_wf f" and "fr_have f" and "fr_run f = 0" and "\<not> fr_stale f" and "fresh_dist f v = 0" and "k < 2 ^ 32"
  shows "\<exists>g. fresh_events f (replicate k v) = (g, map (\<lambda>j. stale_ev (stale_after f) (Suc j)) [0..<k]) \<and>
    unat (fr_run g) = k \<and> fr_stale g = (unat (stale_after f) \<le> k) \<and> fr_have g \<and> fr_last g = fr_last f \<and>
    fr_bits g = fr_bits f \<and> stale_after g = stale_after f"
  using assms(6)
proof (induction k)
  case 0
  have "unat (stale_after f) \<noteq> 0" using assms(1) by (simp add: fresh_wf_def unat_eq_0 word_greater_zero_iff)
  with assms(2-4) show ?case by (simp add: fresh_events_def)
next
  case (Suc k)
  obtain g where g: "fresh_events f (replicate k v) = (g, map (\<lambda>j. stale_ev (stale_after f) (Suc j)) [0..<k])"
    "unat (fr_run g) = k" "fr_stale g = (unat (stale_after f) \<le> k)" "fr_have g" "fr_last g = fr_last f"
    "fr_bits g = fr_bits f" "stale_after g = stale_after f"
    using Suc by auto
  have wf: "fresh_wf g" using assms(1) g by (simp add: fresh_wf_def)
  have "fresh_dist g v = 0" using assms(5) g by (simp add: fresh_dist_def)
  then have z: "((v AND fresh_mask g) - fr_last g) AND fresh_mask g = 0" using fresh_dist_word [OF wf, of v] by (metis uint_0_iff)
  have r: "unat (fr_run g + 1) = Suc k" using unat_add_of_nat [of "fr_run g" 1] g(2) Suc.prems by simp
  let ?u = "ecm_fresh_update g v"
  have "?u = fresh_same (g\<lparr>fr_samples := fr_samples g + 1\<rparr>)"
    using z g(4) by (simp add: ecm_fresh_update_def fresh_mask_def Let_def)
  then have "snd ?u = stale_ev (stale_after f) (Suc k) \<and> unat (fr_run (fst ?u)) = Suc k \<and>
      fr_stale (fst ?u) = (unat (stale_after f) \<le> Suc k) \<and> fr_have (fst ?u) \<and> fr_last (fst ?u) = fr_last f \<and>
      fr_bits (fst ?u) = fr_bits f \<and> stale_after (fst ?u) = stale_after f"
    using g r by (auto simp: fresh_same_def stale_ev_def word_less_nat_alt Let_def)
  then show ?case
    using fresh_events_snoc [of f "replicate k v" v] g(1) by (auto simp: replicate_append_same Let_def split: prod.splits)
qed

text \<open>Frozen inputs are reported exactly on time: if an accepted value comes back \<open>k\<close>
  times in a row, the samples before the \<open>stale_after\<close>-th only count, that one reports
  the start of a stale episode, and every later one reports it as still stale.\<close>

theorem fresh_stale_exact:
  assumes "fresh_wf f" and "fr_have f" and "fr_run f = 0" and "\<not> fr_stale f" and "fresh_dist f v = 0" and "k < 2 ^ 32"
  shows "snd (fresh_events f (replicate k v)) = map (\<lambda>j. stale_ev (stale_after f) (Suc j)) [0..<k]"
  using fresh_repeat [OF assms] by auto

end
