(* ===== verification/Dc.thy ===== *)
theory Dc
  imports Prelude
begin

text \<open>
  The phase lock of the master cycle to the reference clock
  (\<open>libecmaster/core/ecm_dc.c\<close>). Signed 64 bit values are integers: C division and
  remainder are \<open>sdiv\<close> and \<open>smod\<close>, the conversions from unsigned counters are written
  out, and the sums stay far inside 64 bits for any clock value and cycle time, so no
  overflow is written for them. \<open>(x >> 32)\<close> of a signed value is the floor division
  by \<open>2\<^sup>3\<^sup>2\<close>, as the compilers the program targets define it.
\<close>

section \<open>Arithmetic\<close>

definition TWO32 :: int where "TWO32 = 4294967296"

definition floor_div :: "int \<Rightarrow> int \<Rightarrow> int" where
  "floor_div a b = (let q = a sdiv b in if a smod b \<noteq> 0 \<and> ((a < 0) \<noteq> (b < 0)) then q - 1 else q)"

definition pos_mod :: "int \<Rightarrow> int \<Rightarrow> int" where
  "pos_mod a b = (let r = a smod b in if r < 0 then r + b else r)"

definition iabs64 :: "int \<Rightarrow> int" where
  "iabs64 v = (if v < 0 then - v else v)"

section \<open>Configuration and state\<close>

record ecm_dc_cfg =
  dcc_cycle_ns :: int
  setpoint_ns :: int
  kp_div :: int
  ki_div :: int
  max_adjust_ns :: int
  lock_window_ns :: int
  lock_samples :: u32
  unlock_ns :: int
  gate_ns :: int
  gate_reuse_ns :: int

datatype ecm_dc_state = ECM_DC_UNANCHORED | ECM_DC_ACQUIRE | ECM_DC_LOCKED

record ecm_dc =
  dc_cfg :: ecm_dc_cfg
  dc_state :: ecm_dc_state
  prev_lo :: u32
  prev_host_ns :: u64
  ext_ns :: int
  sync0_ext_ns :: int
  integ :: int
  err_ns :: int
  adjust_ns :: int
  win_sum :: int
  win_n :: u32
  dc_samples :: u64
  dc_stale :: u64
  wraps :: u64
  clamps :: u64
  locks :: u64
  unlocks :: u64
  implausible :: u64
  gate_resyncs :: u64
  gate_reuse_held :: u64
  reject_run :: u32
  last_rejected :: bool

definition ecm_dc_default_cfg :: "int \<Rightarrow> int \<Rightarrow> ecm_dc_cfg" where
  "ecm_dc_default_cfg cyc sp = \<lparr>dcc_cycle_ns = cyc, setpoint_ns = pos_mod sp cyc, kp_div = 8, ki_div = 256,
     max_adjust_ns = cyc sdiv 20, lock_window_ns = cyc sdiv 100, lock_samples = 100, unlock_ns = cyc sdiv 20,
     gate_ns = 0, gate_reuse_ns = 0\<rparr>"

definition ecm_dc_init :: "ecm_dc_cfg \<Rightarrow> ecm_dc" where
  "ecm_dc_init cfg = \<lparr>dc_cfg = cfg, dc_state = ECM_DC_UNANCHORED, prev_lo = 0, prev_host_ns = 0, ext_ns = 0,
     sync0_ext_ns = 0, integ = 0, err_ns = 0, adjust_ns = 0, win_sum = 0, win_n = 0, dc_samples = 0, dc_stale = 0,
     wraps = 0, clamps = 0, locks = 0, unlocks = 0, implausible = 0, gate_resyncs = 0, gate_reuse_held = 0,
     reject_run = 0, last_rejected = False\<rparr>"

definition ecm_dc_anchor :: "ecm_dc \<Rightarrow> u64 \<Rightarrow> u64 \<Rightarrow> u64 \<Rightarrow> ecm_dc" where
  "ecm_dc_anchor dc dc_raw sync0_raw host =
    (let lo = ucast dc_raw :: u32; s0 = ucast sync0_raw :: u32
     in dc\<lparr>ext_ns := uint lo, sync0_ext_ns := uint lo + sint (s0 - lo), prev_lo := lo, prev_host_ns := host,
           win_sum := 0, win_n := 0, dc_state := ECM_DC_ACQUIRE\<rparr>)"

section \<open>One cycle\<close>

text \<open>The advance of the reference clock: the low 32 bits, and the host clock for the wraps.\<close>

definition dc_pred :: "ecm_dc \<Rightarrow> u64 \<Rightarrow> int" where
  "dc_pred dc host = sint (host - prev_host_ns dc)"

definition dc_delta :: "ecm_dc \<Rightarrow> u32 \<Rightarrow> u64 \<Rightarrow> int" where
  "dc_delta dc lo host =
    (let d_lo = uint (lo - prev_lo dc); k = floor_div (dc_pred dc host - d_lo + TWO32 sdiv 2) TWO32
     in d_lo + k * TWO32)"

definition unwrap :: "u32 \<Rightarrow> u64 \<Rightarrow> ecm_dc \<Rightarrow> ecm_dc" where
  "unwrap lo host dc =
    (let old = ext_ns dc; new = old + dc_delta dc lo host
     in dc\<lparr>ext_ns := new, wraps := wraps dc + of_int (new div TWO32 - old div TWO32), prev_lo := lo,
           prev_host_ns := host\<rparr>)"

text \<open>The reply-age gate: the state, and whether the sample is rejected.\<close>

definition gate_reuse :: "ecm_dc_cfg \<Rightarrow> int \<Rightarrow> bool" where
  "gate_reuse c smiss \<longleftrightarrow> gate_reuse_ns c > 0 \<and> smiss < - 2 * gate_ns c \<and> \<bar>smiss\<bar> \<le> gate_reuse_ns c"

definition dc_gate :: "u32 \<Rightarrow> u64 \<Rightarrow> ecm_dc \<Rightarrow> ecm_dc \<times> bool" where
  "dc_gate lo host dc =
    (let c = dc_cfg dc; smiss = dc_delta dc lo host - dc_pred dc host; dc = dc\<lparr>last_rejected := False\<rparr>
     in if gate_ns c > 0 \<and> \<bar>smiss\<bar> > gate_ns c then
          (let reuse = gate_reuse c smiss; limit = if reuse then 256 else 3;
               dc = dc\<lparr>reject_run := reject_run dc + 1\<rparr>;
               dc = if reuse \<and> reject_run dc \<ge> 3 \<and> reject_run dc < limit
                    then dc\<lparr>gate_reuse_held := gate_reuse_held dc + 1\<rparr> else dc
           in if reject_run dc < limit
              then (dc\<lparr>implausible := implausible dc + 1, last_rejected := True, adjust_ns := 0\<rparr>, True)
              else (dc\<lparr>gate_resyncs := gate_resyncs dc + 1, reject_run := 0\<rparr>, False))
        else (dc\<lparr>reject_run := 0\<rparr>, False))"

definition phase_err :: "ecm_dc \<Rightarrow> int" where
  "phase_err dc =
    (let c = dcc_cycle_ns (dc_cfg dc); ph = pos_mod (ext_ns dc - sync0_ext_ns dc) c;
         e = ph - setpoint_ns (dc_cfg dc);
         e = if e > c sdiv 2 then e - c else e
     in if e \<le> (- c) sdiv 2 then e + c else e)"

text \<open>The controller: output and the anti-windup of the integrator.\<close>

definition dc_control :: "int \<Rightarrow> ecm_dc \<Rightarrow> ecm_dc \<times> int" where
  "dc_control e dc =
    (let c = dc_cfg dc;
         dc = if dc_state dc = ECM_DC_LOCKED then dc\<lparr>integ := integ dc + e\<rparr> else dc;
         u = - (e sdiv kp_div c + integ dc sdiv ki_div c)
     in if u > max_adjust_ns c \<or> u < - max_adjust_ns c then
          (let dc = dc\<lparr>clamps := clamps dc + 1\<rparr>;
               dc = if dc_state dc = ECM_DC_LOCKED then dc\<lparr>integ := integ dc - e\<rparr> else dc
           in (dc, if u > 0 then max_adjust_ns c else - max_adjust_ns c))
        else (dc, u))"

text \<open>Lock supervision on the mean of a window.\<close>

definition dc_window :: "int \<Rightarrow> ecm_dc \<Rightarrow> ecm_dc" where
  "dc_window e dc =
    (let c = dc_cfg dc; dc = dc\<lparr>win_sum := win_sum dc + e, win_n := win_n dc + 1\<rparr>
     in if win_n dc \<ge> lock_samples c then
          (let mean = iabs64 (win_sum dc sdiv uint (win_n dc));
               dc = if dc_state dc = ECM_DC_ACQUIRE \<and> mean < lock_window_ns c
                    then dc\<lparr>dc_state := ECM_DC_LOCKED, locks := locks dc + 1\<rparr>
                    else if dc_state dc = ECM_DC_LOCKED \<and> mean > unlock_ns c
                    then dc\<lparr>dc_state := ECM_DC_ACQUIRE, unlocks := unlocks dc + 1\<rparr> else dc
           in dc\<lparr>win_sum := 0, win_n := 0\<rparr>)
        else dc)"

definition dc_accept :: "u32 \<Rightarrow> u64 \<Rightarrow> ecm_dc \<Rightarrow> ecm_dc \<times> int" where
  "dc_accept lo host dc =
    (let dc = unwrap lo host dc; dc = dc\<lparr>dc_samples := dc_samples dc + 1\<rparr>;
         e = phase_err dc; (dc, u) = dc_control e (dc\<lparr>err_ns := e\<rparr>)
     in ((dc_window e dc)\<lparr>adjust_ns := u\<rparr>, u))"

definition ecm_dc_update :: "ecm_dc \<Rightarrow> u64 \<Rightarrow> u64 \<Rightarrow> ecm_dc \<times> int" where
  "ecm_dc_update dc dc_raw host =
    (let lo = ucast dc_raw :: u32
     in if dc_state dc = ECM_DC_UNANCHORED then (dc, 0)
        else if lo = prev_lo dc then (dc\<lparr>dc_stale := dc_stale dc + 1, adjust_ns := 0\<rparr>, 0)
        else let (dc1, rejected) = dc_gate lo host dc
             in if rejected then (dc1, 0) else dc_accept lo host dc1)"

definition ecm_dc_ref_drift_ppb :: "ecm_dc \<Rightarrow> int" where
  "ecm_dc_ref_drift_ppb dc = (integ dc * 1000000000) sdiv (ki_div (dc_cfg dc) * dcc_cycle_ns (dc_cfg dc))"

section \<open>Arithmetic facts\<close>

lemma floor_div_eq: "b > 0 \<Longrightarrow> floor_div a b = a div b"
proof -
  assume b: "b > 0"
  show ?thesis
  proof (cases "a < 0")
    case True
    have m: "a smod b = - ((- a) mod b)" and q: "a sdiv b = - ((- a) div b)"
      using True b by (simp_all add: signed_divide_int_def signed_modulo_int_def)
    have "a div b = - ((- a) div b) - (if (- a) mod b = 0 then 0 else 1)"
      using b by (simp add: zdiv_zminus1_eq_if [of b "- a", simplified])
    then show ?thesis using True b m q by (auto simp: floor_div_def Let_def)
  next
    case False
    then show ?thesis using b by (cases "a = 0") (simp_all add: floor_div_def signed_divide_int_def Let_def)
  qed
qed

lemma pos_mod_eq: "b > 0 \<Longrightarrow> pos_mod a b = a mod b"
proof -
  assume b: "b > 0"
  show ?thesis
  proof (cases "a < 0")
    case True
    have m: "a smod b = - ((- a) mod b)" using True b by (simp add: signed_modulo_int_def)
    have "a mod b = (if (- a) mod b = 0 then 0 else b - (- a) mod b)"
      using b zmod_zminus1_eq_if [of "- a" b] by simp
    moreover have "0 \<le> (- a) mod b" using b by simp
    ultimately show ?thesis using m by (auto simp: pos_mod_def Let_def)
  next
    case False
    then show ?thesis using b by (cases "a = 0") (simp_all add: pos_mod_def signed_modulo_int_def Let_def not_less)
  qed
qed

section \<open>Tracking the reference clock\<close>

lemma dc_delta_exact:
  assumes "prev_lo dc = of_int T" and "- (2 ^ 31) < T' - T - dc_pred dc host" and "T' - T - dc_pred dc host \<le> 2 ^ 31"
  shows "dc_delta dc (of_int T') host = T' - T"
proof -
  let ?N = "4294967296 :: int" and ?p = "dc_pred dc host"
  define d where "d = (T' - T) mod ?N"
  define k where "k = (?p - d + 2147483648) div ?N"
  have "uint (of_int T' - prev_lo dc) = d"
    unfolding assms(1) d_def by (simp add: uint_word_ariths uint_word_of_int take_bit_eq_mod mod_simps)
  then have dd: "dc_delta dc (of_int T') host = d + k * ?N"
    by (simp add: dc_delta_def floor_div_eq TWO32_def k_def Let_def signed_divide_int_def)
  have k: "k * ?N \<le> ?p - d + 2147483648" "?p - d + 2147483648 < k * ?N + ?N"
    unfolding k_def using div_mult_mod_eq [of "?p - d + 2147483648" ?N] pos_mod_bound [of ?N "?p - d + 2147483648"]
      pos_mod_sign [of ?N "?p - d + 2147483648"] by linarith+
  obtain j where j: "T' - T = d + j * ?N"
    unfolding d_def by (metis add.commute div_mult_mod_eq)
  have "\<bar>k - j\<bar> * ?N < ?N" using k assms(2,3) j by (auto simp: abs_if algebra_simps)
  then have "k = j" by auto
  with dd j show ?thesis by simp
qed

text \<open>The lock knows reference time \<open>T\<close>, sampled at host time \<open>h\<close>.\<close>

definition dc_at :: "int \<Rightarrow> u64 \<Rightarrow> ecm_dc \<Rightarrow> bool" where
  "dc_at T h dc \<longleftrightarrow> ext_ns dc = T \<and> prev_lo dc = of_int T \<and> prev_host_ns dc = h \<and> dc_state dc \<noteq> ECM_DC_UNANCHORED"

lemma dc_control_frame [simp]:
  "ext_ns (fst (dc_control e dc)) = ext_ns dc" "prev_lo (fst (dc_control e dc)) = prev_lo dc"
  "prev_host_ns (fst (dc_control e dc)) = prev_host_ns dc" "wraps (fst (dc_control e dc)) = wraps dc"
  "dc_state (fst (dc_control e dc)) = dc_state dc" "dc_cfg (fst (dc_control e dc)) = dc_cfg dc"
  "err_ns (fst (dc_control e dc)) = err_ns dc" "dc_samples (fst (dc_control e dc)) = dc_samples dc"
  "reject_run (fst (dc_control e dc)) = reject_run dc" "sync0_ext_ns (fst (dc_control e dc)) = sync0_ext_ns dc"
  by (simp_all add: dc_control_def Let_def)

lemma dc_window_frame [simp]:
  "ext_ns (dc_window e dc) = ext_ns dc" "prev_lo (dc_window e dc) = prev_lo dc"
  "prev_host_ns (dc_window e dc) = prev_host_ns dc" "wraps (dc_window e dc) = wraps dc"
  "dc_cfg (dc_window e dc) = dc_cfg dc" "err_ns (dc_window e dc) = err_ns dc"
  "dc_samples (dc_window e dc) = dc_samples dc" "reject_run (dc_window e dc) = reject_run dc"
  "sync0_ext_ns (dc_window e dc) = sync0_ext_ns dc"
  "dc_state (dc_window e dc) = ECM_DC_UNANCHORED \<longleftrightarrow> dc_state dc = ECM_DC_UNANCHORED"
  by (auto simp: dc_window_def Let_def)

lemma dc_accept_simps:
  "ext_ns (fst (dc_accept lo h dc)) = ext_ns dc + dc_delta dc lo h"
  "prev_lo (fst (dc_accept lo h dc)) = lo" "prev_host_ns (fst (dc_accept lo h dc)) = h"
  "wraps (fst (dc_accept lo h dc)) = wraps dc + of_int ((ext_ns dc + dc_delta dc lo h) div TWO32 - ext_ns dc div TWO32)"
  "dc_cfg (fst (dc_accept lo h dc)) = dc_cfg dc" "dc_samples (fst (dc_accept lo h dc)) = dc_samples dc + 1"
  "dc_state (fst (dc_accept lo h dc)) = ECM_DC_UNANCHORED \<longleftrightarrow> dc_state dc = ECM_DC_UNANCHORED"
  "reject_run (fst (dc_accept lo h dc)) = reject_run dc" "sync0_ext_ns (fst (dc_accept lo h dc)) = sync0_ext_ns dc"
  by (simp_all add: dc_accept_def unwrap_def case_prod_beta Let_def)

lemma dc_gate_frame:
  assumes "dc_gate lo h dc = (dc1, r)"
  shows "ext_ns dc1 = ext_ns dc" "prev_lo dc1 = prev_lo dc" "prev_host_ns dc1 = prev_host_ns dc"
    "wraps dc1 = wraps dc" "dc_cfg dc1 = dc_cfg dc" "dc_state dc1 = dc_state dc" "dc_samples dc1 = dc_samples dc"
    "integ dc1 = integ dc" "err_ns dc1 = err_ns dc" "win_sum dc1 = win_sum dc" "win_n dc1 = win_n dc"
    "sync0_ext_ns dc1 = sync0_ext_ns dc" "\<not> r \<Longrightarrow> reject_run dc1 = 0"
  using assms by (auto simp: dc_gate_def Let_def split: if_splits)

lemma dc_delta_gate:
  assumes "dc_gate lo h dc = (dc1, r)"
  shows "dc_delta dc1 lo' h' = dc_delta dc lo' h'"
  using dc_gate_frame [OF assms] by (simp add: dc_delta_def dc_pred_def)

text \<open>Samples whose advance agrees with the host clock: within half the range of the low
  word, and inside the gate when there is one.\<close>

fun plausible :: "int \<Rightarrow> int \<Rightarrow> u64 \<Rightarrow> (int \<times> u64) list \<Rightarrow> bool" where
  "plausible g T h [] \<longleftrightarrow> True"
| "plausible g T h ((T', h') # xs) \<longleftrightarrow>
    (of_int T' :: u32) \<noteq> of_int T \<and> - (2 ^ 31) < T' - T - sint (h' - h) \<and> T' - T - sint (h' - h) \<le> 2 ^ 31 \<and>
    (g \<le> 0 \<or> \<bar>T' - T - sint (h' - h)\<bar> \<le> g) \<and> plausible g T' h' xs"

definition dc_feed :: "(int \<times> u64) list \<Rightarrow> ecm_dc \<Rightarrow> ecm_dc" where
  "dc_feed xs dc = fold (\<lambda>(T, h) dc. fst (ecm_dc_update dc (of_int T) h)) xs dc"

lemma ucast_of_int_32: "(ucast (of_int T :: u64) :: u32) = of_int T"
  by (rule bit_word_eqI) (simp add: bit_ucast_iff bit_word_of_int_iff)

lemma dc_update_tracks:
  assumes "dc_at T h dc" and "plausible (gate_ns (dc_cfg dc)) T h [(T', h')]"
  shows "dc_at T' h' (fst (ecm_dc_update dc (of_int T') h')) \<and>
    dc_cfg (fst (ecm_dc_update dc (of_int T') h')) = dc_cfg dc \<and>
    wraps (fst (ecm_dc_update dc (of_int T') h')) = wraps dc + of_int (T' div TWO32 - T div TWO32)"
proof -
  have at: "ext_ns dc = T" "prev_lo dc = of_int T" "prev_host_ns dc = h" "dc_state dc \<noteq> ECM_DC_UNANCHORED"
    using assms(1) by (auto simp: dc_at_def)
  have pr: "dc_pred dc h' = sint (h' - h)" by (simp add: dc_pred_def at)
  have dl: "dc_delta dc (of_int T') h' = T' - T"
    by (rule dc_delta_exact [OF at(2)]) (use assms(2) in \<open>simp_all add: pr\<close>)
  obtain dc1 r where g: "dc_gate (of_int T') h' dc = (dc1, r)" by fastforce
  have "\<not> r" using g assms(2) dl pr by (auto simp: dc_gate_def Let_def split: if_splits)
  then have u: "ecm_dc_update dc (of_int T') h' = dc_accept (of_int T') h' dc1"
    using at(2,4) assms(2) g by (simp add: ecm_dc_update_def ucast_of_int_32 Let_def)
  show ?thesis
    unfolding u dc_at_def using dc_gate_frame [OF g] dc_delta_gate [OF g] dl at
    by (simp add: dc_accept_simps)
qed

lemma dc_feed_tracks:
  assumes "dc_at T h dc" and "plausible (gate_ns (dc_cfg dc)) T h xs"
  shows "ext_ns (dc_feed xs dc) = last (T # map fst xs) \<and>
    wraps (dc_feed xs dc) = wraps dc + of_int (last (T # map fst xs) div TWO32 - T div TWO32)"
  using assms
proof (induction xs arbitrary: T h dc)
  case Nil
  then show ?case by (simp add: dc_feed_def dc_at_def)
next
  case (Cons x xs)
  obtain T' h' where x: "x = (T', h')" by fastforce
  let ?dc = "fst (ecm_dc_update dc (of_int T') h')"
  have st: "dc_at T' h' ?dc" "dc_cfg ?dc = dc_cfg dc" "wraps ?dc = wraps dc + of_int (T' div TWO32 - T div TWO32)"
    using dc_update_tracks [OF Cons.prems(1), of T' h'] Cons.prems(2) x by auto
  have "plausible (gate_ns (dc_cfg ?dc)) T' h' xs" using Cons.prems(2) x st(2) by simp
  from Cons.IH [OF st(1) this] st(3) show ?case by (simp add: dc_feed_def x)
qed

text \<open>C15. The lock follows the reference clock over any number of wraps of its low word and
  over gaps of any length: as long as each sample agrees with the host clock to within
  half the range of that word (and the gate), the unwrapped time is exactly the
  reference time of the last sample and the wrap counter is exactly its high word.\<close>

theorem dc_tracks_reference:
  assumes "plausible (gate_ns cfg) (uint (ucast raw :: u32)) host xs"
  shows "ext_ns (dc_feed xs (ecm_dc_anchor (ecm_dc_init cfg) raw s0 host)) = last (uint (ucast raw :: u32) # map fst xs) \<and>
    wraps (dc_feed xs (ecm_dc_anchor (ecm_dc_init cfg) raw s0 host)) =
      of_int (last (uint (ucast raw :: u32) # map fst xs) div 2 ^ 32)"
proof -
  let ?T = "uint (ucast raw :: u32)" and ?dc = "ecm_dc_anchor (ecm_dc_init cfg) raw s0 host"
  have at: "dc_at ?T host ?dc" by (simp add: dc_at_def ecm_dc_anchor_def Let_def)
  have "?T div TWO32 = 0" using uint_lt2p [of "ucast raw :: u32"] by (simp add: TWO32_def)
  moreover have "wraps ?dc = 0" by (simp add: ecm_dc_anchor_def ecm_dc_init_def Let_def)
  moreover have "dc_cfg ?dc = cfg" by (simp add: ecm_dc_anchor_def ecm_dc_init_def Let_def)
  ultimately show ?thesis using dc_feed_tracks [OF at] assms by (simp add: TWO32_def)
qed

theorem dc_tracks_reference_witness:
  "let dc = dc_feed [(4294968295, 2000), (8589935600, 4294969305)]
     (ecm_dc_anchor (ecm_dc_init (ecm_dc_default_cfg 1000000 0)) 4294967000 0 705)
   in ext_ns dc = 8589935600 \<and> wraps dc = 2"
  using dc_tracks_reference [of "ecm_dc_default_cfg 1000000 0" 4294967000 705 "[(4294968295, 2000), (8589935600, 4294969305)]" 0]
  by (simp add: Let_def ecm_dc_default_cfg_def)

section \<open>The controller\<close>

lemma half_trunc: "c sdiv 2 = c div 2" "(- c) sdiv 2 = - (c div 2)" if "c > 0" for c :: int
  using that by (simp_all add: signed_divide_int_def)

lemma phase_err_range:
  assumes "dcc_cycle_ns (dc_cfg dc) = c" and "c > 0" and "0 \<le> setpoint_ns (dc_cfg dc)" and "setpoint_ns (dc_cfg dc) < c"
  shows "- (c div 2) < phase_err dc" and "2 * phase_err dc \<le> c + 1" and "even c \<Longrightarrow> 2 * phase_err dc \<le> c"
    and "c dvd phase_err dc - (ext_ns dc - sync0_ext_ns dc - setpoint_ns (dc_cfg dc))"
proof -
  define x where "x = ext_ns dc - sync0_ext_ns dc"
  define e0 where "e0 = x mod c - setpoint_ns (dc_cfg dc)"
  define e1 where "e1 = (if e0 > c div 2 then e0 - c else e0)"
  have e: "phase_err dc = (if e1 \<le> - (c div 2) then e1 + c else e1)"
    using assms by (simp add: phase_err_def pos_mod_eq half_trunc x_def e0_def e1_def Let_def)
  have "0 \<le> x mod c" "x mod c < c" using assms(2) by simp_all
  then have b0: "- c < e0" "e0 < c" unfolding e0_def using assms(3,4) by linarith+
  show "- (c div 2) < phase_err dc" using b0 assms(2) unfolding e e1_def by auto
  show "2 * phase_err dc \<le> c + 1" using b0 assms(2) unfolding e e1_def by auto
  show "2 * phase_err dc \<le> c" if "even c" using b0 assms(2) that unfolding e e1_def by (auto elim: evenE)
  have "c dvd x mod c - x" by (metis dvd_minus_mod dvd_minus_iff minus_diff_eq)
  then have "c dvd e0 - (x - setpoint_ns (dc_cfg dc))" by (simp add: e0_def algebra_simps)
  then have "c dvd e0 + k * c - (x - setpoint_ns (dc_cfg dc))" for k
    by (metis add_diff_eq diff_add_eq dvd_add dvd_triv_right)
  from this [of 0] this [of 1] this [of "- 1"]
  show "c dvd phase_err dc - (ext_ns dc - sync0_ext_ns dc - setpoint_ns (dc_cfg dc))"
    by (auto simp: e e1_def x_def)
qed

lemma dc_control_bound:
  assumes "0 \<le> max_adjust_ns (dc_cfg dc)"
  shows "\<bar>snd (dc_control e dc)\<bar> \<le> max_adjust_ns (dc_cfg dc)"
  using assms by (auto simp: dc_control_def Let_def)

text \<open>What an accepted sample does to the phase error and to the output.\<close>

lemma dc_accept_err:
  assumes "dcc_cycle_ns (dc_cfg dc) > 0" and "0 \<le> setpoint_ns (dc_cfg dc)"
    and "setpoint_ns (dc_cfg dc) < dcc_cycle_ns (dc_cfg dc)" and "dc_accept lo h dc = (dc', u)"
  shows "2 * \<bar>err_ns dc'\<bar> \<le> dcc_cycle_ns (dc_cfg dc) + 1 \<and>
    dcc_cycle_ns (dc_cfg dc) dvd err_ns dc' - (ext_ns dc' - sync0_ext_ns dc' - setpoint_ns (dc_cfg dc)) \<and> adjust_ns dc' = u"
proof -
  define d where "d = (unwrap lo h dc)\<lparr>dc_samples := dc_samples (unwrap lo h dc) + 1\<rparr>"
  have d: "dc_cfg d = dc_cfg dc" "sync0_ext_ns d = sync0_ext_ns dc" by (simp_all add: d_def unwrap_def Let_def)
  have p: "phase_err (d\<lparr>err_ns := e\<rparr>) = phase_err d" for e by (simp add: phase_err_def)
  have dc': "dc' = (dc_window (phase_err d) (fst (dc_control (phase_err d) (d\<lparr>err_ns := phase_err d\<rparr>))))\<lparr>adjust_ns := u\<rparr>"
    using assms(4) by (auto simp: dc_accept_def d_def case_prod_beta Let_def)
  have "err_ns dc' = phase_err d" "ext_ns dc' = ext_ns d" "sync0_ext_ns dc' = sync0_ext_ns d" "adjust_ns dc' = u"
    by (simp_all add: dc')
  with phase_err_range [of d, OF refl] assms(1-3) d show ?thesis by (auto simp: abs_if)
qed

text \<open>C16. Every cycle the correction returned stays inside the clamp; it is 0 for a sample
  that did not come back or was rejected; and for a sample that was used, the phase
  error is the distance of the frame from the wanted phase after SYNC0, reduced to
  half a cycle either way.\<close>

theorem dc_output_bounded:
  assumes "dcc_cycle_ns (dc_cfg dc) > 0" and "0 \<le> setpoint_ns (dc_cfg dc)"
    and "setpoint_ns (dc_cfg dc) < dcc_cycle_ns (dc_cfg dc)" and "0 \<le> max_adjust_ns (dc_cfg dc)"
    and "ecm_dc_update dc raw h = (dc', u)"
  shows "\<bar>u\<bar> \<le> max_adjust_ns (dc_cfg dc) \<and>
    (if dc_samples dc' = dc_samples dc then u = 0
     else 2 * \<bar>err_ns dc'\<bar> \<le> dcc_cycle_ns (dc_cfg dc) + 1 \<and> adjust_ns dc' = u \<and>
       dcc_cycle_ns (dc_cfg dc) dvd err_ns dc' - (ext_ns dc' - sync0_ext_ns dc' - setpoint_ns (dc_cfg dc)))"
proof -
  obtain dc1 r where g: "dc_gate (ucast raw) h dc = (dc1, r)" by fastforce
  note fr = dc_gate_frame [OF g]
  show ?thesis
  proof (cases "dc_state dc = ECM_DC_UNANCHORED \<or> ucast raw = prev_lo dc \<or> r")
    case True
    with assms(4,5) g fr(7) show ?thesis by (auto simp: ecm_dc_update_def Let_def split: if_splits)
  next
    case False
    then have a: "dc_accept (ucast raw) h dc1 = (dc', u)" using assms(5) g by (simp add: ecm_dc_update_def Let_def)
    have n: "dc_samples dc' = dc_samples dc + 1" using dc_accept_simps(6) [of "ucast raw" h dc1] a fr(7) by simp
    have "\<bar>u\<bar> \<le> max_adjust_ns (dc_cfg dc1)"
      using a assms(4) fr(5) dc_control_bound [of "(unwrap (ucast raw) h dc1)\<lparr>dc_samples := s, err_ns := e\<rparr>" e for s e]
      by (auto simp: dc_accept_def unwrap_def case_prod_beta Let_def)
    moreover have "dc_samples dc' \<noteq> dc_samples dc" using n by simp
    ultimately show ?thesis using dc_accept_err [OF _ _ _ a] assms(1-3) fr(5) by simp
  qed
qed

theorem dc_output_bounded_witness:
  "\<bar>snd (ecm_dc_update (ecm_dc_anchor (ecm_dc_init (ecm_dc_default_cfg 1000000 250000)) 1000 0 0) 777777 900000)\<bar> \<le> 50000"
proof -
  let ?dc = "ecm_dc_anchor (ecm_dc_init (ecm_dc_default_cfg 1000000 250000)) 1000 0 0"
  have c: "dc_cfg ?dc = ecm_dc_default_cfg 1000000 250000"
    by (simp add: ecm_dc_anchor_def ecm_dc_init_def Let_def)
  from dc_output_bounded [OF _ _ _ _ surjective_pairing, of ?dc 777777 900000]
  show ?thesis unfolding c by (simp add: ecm_dc_default_cfg_def pos_mod_eq)
qed

section \<open>The gate\<close>

text \<open>A reply that belongs to another frame is not used: while the run of rejections is
  below its limit, a sample off the host clock by more than the gate changes nothing of
  the unwrapped time, the controller or the lock, corrects nothing, and is flagged.\<close>

theorem dc_gate_rejects:
  assumes "dc_state dc \<noteq> ECM_DC_UNANCHORED" and "(ucast raw :: u32) \<noteq> prev_lo dc" and "0 < gate_ns (dc_cfg dc)"
    and "gate_ns (dc_cfg dc) < \<bar>dc_delta dc (ucast raw) h - dc_pred dc h\<bar>" and "reject_run dc < 2"
    and "ecm_dc_update dc raw h = (dc', u)"
  shows "u = 0 \<and> last_rejected dc' \<and> reject_run dc' = reject_run dc + 1 \<and> ext_ns dc' = ext_ns dc \<and>
    prev_lo dc' = prev_lo dc \<and> prev_host_ns dc' = prev_host_ns dc \<and> integ dc' = integ dc \<and> err_ns dc' = err_ns dc \<and>
    win_sum dc' = win_sum dc \<and> win_n dc' = win_n dc \<and> dc_state dc' = dc_state dc"
proof -
  have "unat (reject_run dc) < 2" using assms(5) by (simp add: word_less_nat_alt)
  then have "unat (reject_run dc + 1) < 3" using unat_add_of_nat [of "reject_run dc" 1] by simp
  then have "reject_run dc + 1 < 3" "reject_run dc + 1 < 256" by (simp_all add: word_less_nat_alt)
  then show ?thesis
    using assms(1-4,6) by (auto simp: ecm_dc_update_def dc_gate_def Let_def split: if_splits)
qed

lemma dc_gate_count:
  assumes "dc_gate lo h dc = (dc1, True)"
  shows "reject_run dc1 = reject_run dc + 1" and "unat (reject_run dc1) < (if gate_reuse_ns (dc_cfg dc) > 0 then 256 else 3)"
  using assms by (auto simp: dc_gate_def gate_reuse_def word_less_nat_alt Let_def split: if_splits)

definition dc_raw_feed :: "(u64 \<times> u64) list \<Rightarrow> ecm_dc \<Rightarrow> ecm_dc" where
  "dc_raw_feed xs dc = fold (\<lambda>(r, h) dc. fst (ecm_dc_update dc r h)) xs dc"

lemma dc_gate_opens_aux:
  assumes "dc_state dc \<noteq> ECM_DC_UNANCHORED" and "\<forall>x\<in>set xs. (ucast (fst x) :: u32) \<noteq> prev_lo dc"
    and "unat (reject_run dc) < (if gate_reuse_ns (dc_cfg dc) > 0 then 256 else 3)"
    and "(if gate_reuse_ns (dc_cfg dc) > 0 then 256 else 3) \<le> unat (reject_run dc) + length xs"
  shows "\<exists>n<length xs. dc_samples (dc_raw_feed (take (Suc n) xs) dc) = dc_samples dc + 1"
  using assms
proof (induction xs arbitrary: dc)
  case (Cons x xs)
  obtain r h where x: "x = (r, h)" by fastforce
  obtain dc1 rj where g: "dc_gate (ucast r) h dc = (dc1, rj)" by fastforce
  have u: "ecm_dc_update dc r h = (if rj then (dc1, 0) else dc_accept (ucast r) h dc1)"
    using Cons.prems(1,2) x g by (simp add: ecm_dc_update_def Let_def)
  note fr = dc_gate_frame [OF g]
  show ?case
  proof (cases rj)
    case False
    then have "dc_samples (dc_raw_feed (take (Suc 0) (x # xs)) dc) = dc_samples dc + 1"
      using u fr(7) by (simp add: dc_raw_feed_def x dc_accept_simps)
    then show ?thesis by blast
  next
    case True
    with g have "dc_gate (ucast r) h dc = (dc1, True)" by simp
    note c = dc_gate_count [OF this]
    have lim: "(if gate_reuse_ns (dc_cfg dc) > 0 then 256 else 3) \<le> (256 :: nat)" by simp
    have "unat (reject_run dc1) = unat (reject_run dc) + 1"
      unfolding c(1) using unat_add_of_nat [of "reject_run dc" 1] Cons.prems(3) lim by (simp split: if_splits)
    then have "\<exists>n<length xs. dc_samples (dc_raw_feed (take (Suc n) xs) dc1) = dc_samples dc1 + 1"
      using Cons.prems c(2) fr by (intro Cons.IH) (auto split: if_splits)
    then show ?thesis using u True fr(7) x by (auto simp: dc_raw_feed_def intro: exI [of _ "Suc n" for n])
  qed
qed (auto split: if_splits)

text \<open>The gate never shuts the reference clock out: of any 256 samples in a row that came
  back (any 3, when the window for old replies is off) at least one is used.\<close>

theorem dc_gate_opens:
  assumes "dc_state dc \<noteq> ECM_DC_UNANCHORED" and "\<forall>x\<in>set xs. (ucast (fst x) :: u32) \<noteq> prev_lo dc"
    and "reject_run dc = 0" and "(if gate_reuse_ns (dc_cfg dc) > 0 then 256 else 3) \<le> length xs"
  shows "\<exists>n<length xs. dc_samples (dc_raw_feed (take (Suc n) xs) dc) = dc_samples dc + 1"
  using assms by (intro dc_gate_opens_aux) auto

end
