(* ===== verification/Telemetry.thy ===== *)
theory Telemetry
  imports Fifo
begin

text \<open>
  Histogram and turnaround correlator (\<open>libecmaster/telemetry/histogram.c\<close> and
  \<open>turnaround.c\<close>). Two floating point results are arguments of the model: the bucket
  bounds \<open>(uint64_t)(100 * pow(10, (i + 1) / 20))\<close> and the rank \<open>(uint64_t)(p * count)\<close>
  of a percentile; the properties need only that the bounds increase.
\<close>

section \<open>Histogram\<close>

abbreviation HIST_MIN_NS :: int where "HIST_MIN_NS \<equiv> 100"
abbreviation HIST_NUM_BUCKETS :: nat where "HIST_NUM_BUCKETS \<equiv> 120"
abbreviation HIST_OVERFLOW_IDX :: nat where "HIST_OVERFLOW_IDX \<equiv> 120"

record ecm_hist =
  bucket_upper_ns :: "nat \<Rightarrow> u64"
  buckets :: "nat \<Rightarrow> u64"
  hs_count :: u64
  hs_sum_ns :: u64
  hs_min_ns :: int
  hs_max_ns :: int

definition hist_init :: "(nat \<Rightarrow> u64) \<Rightarrow> ecm_hist" where
  "hist_init bounds = \<lparr>bucket_upper_ns = bounds, buckets = (\<lambda>_. 0), hs_count = 0, hs_sum_ns = 0,
     hs_min_ns = 2 ^ 63 - 1, hs_max_ns = 0\<rparr>"

function bucket_search :: "(nat \<Rightarrow> u64) \<Rightarrow> u64 \<Rightarrow> nat \<Rightarrow> nat \<Rightarrow> nat" where
  "bucket_search up v lo hi =
    (if lo < hi then
       (let mid = (lo + hi) div 2
        in if v \<le> up mid then bucket_search up v lo mid else bucket_search up v (mid + 1) hi)
     else lo)"
  by pat_completeness auto
termination by (relation "measure (\<lambda>(up, v, lo, hi). hi - lo)") auto

declare bucket_search.simps [simp del]

definition hist_bucket_index :: "ecm_hist \<Rightarrow> int \<Rightarrow> nat" where
  "hist_bucket_index h ns =
    (if ns < HIST_MIN_NS then 0
     else if of_int ns > bucket_upper_ns h (HIST_NUM_BUCKETS - 1) then HIST_OVERFLOW_IDX
     else bucket_search (bucket_upper_ns h) (of_int ns) 0 (HIST_NUM_BUCKETS - 1))"

definition hist_add :: "int \<Rightarrow> ecm_hist \<Rightarrow> ecm_hist" where
  "hist_add ns h =
    (let i = hist_bucket_index h ns
     in h\<lparr>buckets := (buckets h)(i := buckets h i + 1), hs_count := hs_count h + 1,
          hs_sum_ns := hs_sum_ns h + of_int ns,
          hs_min_ns := (if ns < hs_min_ns h then ns else hs_min_ns h),
          hs_max_ns := (if ns > hs_max_ns h then ns else hs_max_ns h)\<rparr>)"

fun percentile_loop :: "ecm_hist \<Rightarrow> u64 \<Rightarrow> nat list \<Rightarrow> u64 \<Rightarrow> u64" where
  "percentile_loop h target [] running = of_int (hs_max_ns h)"
| "percentile_loop h target (i # is) running =
    (let running = running + buckets h i
     in if running > target
        then (if i = HIST_OVERFLOW_IDX then of_int (hs_max_ns h) else bucket_upper_ns h i)
        else percentile_loop h target is running)"

definition hist_percentile :: "(u64 \<Rightarrow> u64) \<Rightarrow> ecm_hist \<Rightarrow> u64" where
  "hist_percentile rank h =
    (if hs_count h = 0 then 0
     else let target = if rank (hs_count h) \<ge> hs_count h then hs_count h - 1 else rank (hs_count h)
          in percentile_loop h target [0..<HIST_NUM_BUCKETS + 1] 0)"

section \<open>Send order ring\<close>

abbreviation GROUP_MOTION :: u8 where "GROUP_MOTION \<equiv> 1"
abbreviation GROUP_IO :: u8 where "GROUP_IO \<equiv> 2"
abbreviation TX_ORDER_IDX_UNKNOWN :: u8 where "TX_ORDER_IDX_UNKNOWN \<equiv> 0xFF"
abbreviation TX_ORDER_RING_CAPACITY :: nat where "TX_ORDER_RING_CAPACITY \<equiv> 256"

record tx_order_sample =
  tx_tick :: u64
  tx_group_id :: u8
  tx_ec_idx :: u8

record tx_order_ring =
  txr_buf :: "nat \<Rightarrow> tx_order_sample"
  txr_head :: u64
  txr_tail :: u64
  txr_drops :: u64

definition tx_zero :: tx_order_sample where
  "tx_zero = \<lparr>tx_tick = 0, tx_group_id = 0, tx_ec_idx = 0\<rparr>"

definition tx_order_ring_init :: tx_order_ring where
  "tx_order_ring_init = \<lparr>txr_buf = (\<lambda>_. tx_zero), txr_head = 0, txr_tail = 0, txr_drops = 0\<rparr>"

definition tx_order_ring_push_idx :: "tx_order_ring \<Rightarrow> u64 \<Rightarrow> u8 \<Rightarrow> u8 \<Rightarrow> tx_order_ring \<times> bool" where
  "tx_order_ring_push_idx r tk g idx =
    (let hd = txr_head r; tl = txr_tail r in
     if hd - tl \<ge> 256 then (r\<lparr>txr_drops := txr_drops r + 1\<rparr>, False)
     else (r\<lparr>txr_buf := (txr_buf r)(unat (hd AND (256 - 1)) := \<lparr>tx_tick = tk, tx_group_id = g, tx_ec_idx = idx\<rparr>),
             txr_head := hd + 1\<rparr>, True))"

definition tx_order_ring_push :: "tx_order_ring \<Rightarrow> u64 \<Rightarrow> u8 \<Rightarrow> tx_order_ring \<times> bool" where
  "tx_order_ring_push r tk g = tx_order_ring_push_idx r tk g TX_ORDER_IDX_UNKNOWN"

definition tx_order_ring_pop :: "tx_order_ring \<Rightarrow> (tx_order_sample \<times> tx_order_ring) option" where
  "tx_order_ring_pop r =
    (let tl = txr_tail r; hd = txr_head r in
     if tl = hd then None
     else Some (txr_buf r (unat (tl AND (256 - 1))), r\<lparr>txr_tail := tl + 1\<rparr>))"

section \<open>Turnaround correlator\<close>

abbreviation RX_LOOKUP_CAPACITY :: nat where "RX_LOOKUP_CAPACITY \<equiv> 64"
abbreviation TURNAROUND_LOOKAHEAD :: nat where "TURNAROUND_LOOKAHEAD \<equiv> 32"
abbreviation TURNAROUND_MAX_AGE_TICKS :: u64 where "TURNAROUND_MAX_AGE_TICKS \<equiv> 12"
abbreviation TURNAROUND_SANITY_MAX_NS :: int where "TURNAROUND_SANITY_MAX_NS \<equiv> 1000000"
abbreviation EMPTY_TICK :: u64 where "EMPTY_TICK \<equiv> 0xFFFFFFFFFFFFFFFF"

record rx_lookup_slot =
  lk_tick :: u64
  lk_rx_ts_ns :: u64

text \<open>A FIFO of pending sends: the array with its free-running head and tail.\<close>

record pending =
  pq_buf :: "nat \<Rightarrow> tx_order_sample"
  pq_head :: u64
  pq_tail :: u64

record turnaround_ctx =
  lk_entries :: "nat \<Rightarrow> rx_lookup_slot"
  next_slot :: u64
  pending_tx :: pending
  pending_rx :: pending
  stat_matched :: u64
  stat_evicted_no_match :: u64
  stat_completion_no_pending :: u64
  stat_rx_no_pending :: u64
  stat_implausible :: u64
  stat_tx_io_discarded :: u64
  stat_rx_io_discarded :: u64
  stat_tx_skipped :: u64
  stat_rx_skipped :: u64
  stat_rx_unmatched :: u64
  stat_tx_unmatched :: u64

definition pending_zero :: pending where
  "pending_zero = \<lparr>pq_buf = (\<lambda>_. tx_zero), pq_head = 0, pq_tail = 0\<rparr>"

definition turnaround_init :: turnaround_ctx where
  "turnaround_init = \<lparr>lk_entries = (\<lambda>_. \<lparr>lk_tick = EMPTY_TICK, lk_rx_ts_ns = 0\<rparr>), next_slot = 0,
     pending_tx = pending_zero, pending_rx = pending_zero, stat_matched = 0, stat_evicted_no_match = 0,
     stat_completion_no_pending = 0, stat_rx_no_pending = 0, stat_implausible = 0, stat_tx_io_discarded = 0,
     stat_rx_io_discarded = 0, stat_tx_skipped = 0, stat_rx_skipped = 0, stat_rx_unmatched = 0, stat_tx_unmatched = 0\<rparr>"

definition turnaround_resync :: "turnaround_ctx \<Rightarrow> turnaround_ctx" where
  "turnaround_resync c = c\<lparr>lk_entries := (\<lambda>i. if i < RX_LOOKUP_CAPACITY then (lk_entries c i)\<lparr>lk_tick := EMPTY_TICK\<rparr>
       else lk_entries c i), next_slot := 0,
     pending_tx := (pending_tx c)\<lparr>pq_head := 0, pq_tail := 0\<rparr>,
     pending_rx := (pending_rx c)\<lparr>pq_head := 0, pq_tail := 0\<rparr>\<rparr>"

definition turnaround_note_rx :: "turnaround_ctx \<Rightarrow> u64 \<Rightarrow> u64 \<Rightarrow> turnaround_ctx" where
  "turnaround_note_rx c tk ts =
    (let idx = unat (next_slot c) mod RX_LOOKUP_CAPACITY;
         c1 = if lk_tick (lk_entries c idx) \<noteq> EMPTY_TICK then c\<lparr>stat_evicted_no_match := stat_evicted_no_match c + 1\<rparr> else c
     in c1\<lparr>lk_entries := (lk_entries c1)(idx := \<lparr>lk_tick = tk, lk_rx_ts_ns = ts\<rparr>), next_slot := next_slot c1 + 1\<rparr>)"

text \<open>The first slot that holds the tick is consumed.\<close>

definition rx_lookup_take :: "turnaround_ctx \<Rightarrow> u64 \<Rightarrow> (u64 \<times> turnaround_ctx) option" where
  "rx_lookup_take c tk =
    (case find (\<lambda>i. lk_tick (lk_entries c i) = tk) [0..<RX_LOOKUP_CAPACITY] of
       None \<Rightarrow> None
     | Some i \<Rightarrow> Some (lk_rx_ts_ns (lk_entries c i),
         c\<lparr>lk_entries := (lk_entries c)(i := (lk_entries c i)\<lparr>lk_tick := EMPTY_TICK\<rparr>)\<rparr>))"

definition pending_add :: "tx_order_sample \<Rightarrow> pending \<Rightarrow> pending" where
  "pending_add s q =
    (let q1 = if pq_head q - pq_tail q \<ge> 256 then q\<lparr>pq_tail := pq_tail q + 1\<rparr> else q
     in q1\<lparr>pq_buf := (pq_buf q1)(unat (pq_head q1) mod TX_ORDER_RING_CAPACITY := s), pq_head := pq_head q1 + 1\<rparr>)"

text \<open>The loop ends: each round pops the ring. At most the capacity is in it.\<close>

fun drain_loop :: "nat \<Rightarrow> turnaround_ctx \<Rightarrow> tx_order_ring \<Rightarrow> turnaround_ctx \<times> tx_order_ring" where
  "drain_loop 0 c r = (c, r)"
| "drain_loop (Suc n) c r =
    (case tx_order_ring_pop r of
       None \<Rightarrow> (c, r)
     | Some (s, r1) \<Rightarrow>
         drain_loop n (c\<lparr>pending_tx := pending_add s (pending_tx c), pending_rx := pending_add s (pending_rx c)\<rparr>) r1)"

definition turnaround_drain_tx_order :: "turnaround_ctx \<Rightarrow> tx_order_ring \<Rightarrow> turnaround_ctx \<times> tx_order_ring" where
  "turnaround_drain_tx_order c r = drain_loop (unat (txr_head r - txr_tail r)) c r"

definition turnaround_frame_idx :: "u8 list \<Rightarrow> int" where
  "turnaround_frame_idx eth =
    (if length eth < 18 then - 1
     else if eth ! 12 \<noteq> 0x88 \<or> eth ! 13 \<noteq> 0xA4 then - 1
     else uint (eth ! 17))"

text \<open>Sends too old to be answered are dropped from the tail; the fuel is the number of
  pending sends.\<close>

fun drop_old :: "nat \<Rightarrow> u64 \<Rightarrow> pending \<Rightarrow> u64 \<Rightarrow> pending \<times> u64" where
  "drop_old 0 newest q sk = (q, sk)"
| "drop_old (Suc n) newest q sk =
    (if pq_tail q = pq_head q then (q, sk)
     else if newest - tx_tick (pq_buf q (unat (pq_tail q) mod TX_ORDER_RING_CAPACITY)) \<le> TURNAROUND_MAX_AGE_TICKS then (q, sk)
     else drop_old n newest (q\<lparr>pq_tail := pq_tail q + 1\<rparr>) (sk + 1))"

fun lookahead :: "nat list \<Rightarrow> u8 \<Rightarrow> pending \<Rightarrow> (nat \<times> tx_order_sample) option" where
  "lookahead [] idx q = None"
| "lookahead (j # js) idx q =
    (if pq_tail q + of_nat j < pq_head q then
       (let e = pq_buf q (unat (pq_tail q + of_nat j) mod TX_ORDER_RING_CAPACITY)
        in if tx_ec_idx e = idx then Some (j, e) else lookahead js idx q)
     else None)"

datatype taken = NoPending | Unmatched | Taken tx_order_sample

text \<open>Queue, skipped and unmatched counters, result.\<close>

definition fifo_take :: "pending \<Rightarrow> int \<Rightarrow> u64 \<Rightarrow> u64 \<Rightarrow> pending \<times> u64 \<times> u64 \<times> taken" where
  "fifo_take q ec_idx sk un =
    (if pq_tail q = pq_head q then (q, sk, un, NoPending)
     else if ec_idx < 0
     then (q\<lparr>pq_tail := pq_tail q + 1\<rparr>, sk, un, Taken (pq_buf q (unat (pq_tail q) mod TX_ORDER_RING_CAPACITY)))
     else
      let newest = tx_tick (pq_buf q (unat (pq_head q - 1) mod TX_ORDER_RING_CAPACITY));
          (q1, sk1) = drop_old (unat (pq_head q - pq_tail q)) newest q sk
      in (case lookahead [0..<TURNAROUND_LOOKAHEAD] (of_int ec_idx) q1 of
            Some (j, e) \<Rightarrow> (q1\<lparr>pq_tail := pq_tail q1 + of_nat j + 1\<rparr>, sk1 + of_nat j, un, Taken e)
          | None \<Rightarrow>
              let e = pq_buf q1 (unat (pq_tail q1) mod TX_ORDER_RING_CAPACITY)
              in if pq_tail q1 \<noteq> pq_head q1 \<and> tx_ec_idx e = TX_ORDER_IDX_UNKNOWN
                 then (q1\<lparr>pq_tail := pq_tail q1 + 1\<rparr>, sk1, un, Taken e)
                 else (q1, sk1, un + 1, Unmatched)))"

definition turnaround_on_tx_complete_idx :: "turnaround_ctx \<Rightarrow> u64 \<Rightarrow> int \<Rightarrow> turnaround_ctx" where
  "turnaround_on_tx_complete_idx c ts ec_idx =
    (let (q, sk, un, t) = fifo_take (pending_tx c) ec_idx (stat_tx_skipped c) (stat_tx_unmatched c);
         c1 = c\<lparr>pending_tx := q, stat_tx_skipped := sk, stat_tx_unmatched := un\<rparr>
     in (case t of
           NoPending \<Rightarrow> c1\<lparr>stat_completion_no_pending := stat_completion_no_pending c1 + 1\<rparr>
         | Unmatched \<Rightarrow> c1
         | Taken s \<Rightarrow>
             if tx_group_id s = GROUP_IO then c1\<lparr>stat_tx_io_discarded := stat_tx_io_discarded c1 + 1\<rparr>
             else turnaround_note_rx c1 (tx_tick s) ts))"

definition turnaround_on_tx_complete :: "turnaround_ctx \<Rightarrow> u64 \<Rightarrow> turnaround_ctx" where
  "turnaround_on_tx_complete c ts = turnaround_on_tx_complete_idx c ts (- 1)"

definition turnaround_on_rx_arrival_idx :: "turnaround_ctx \<Rightarrow> u64 \<Rightarrow> int \<Rightarrow> ecm_hist \<Rightarrow> turnaround_ctx \<times> ecm_hist" where
  "turnaround_on_rx_arrival_idx c ts ec_idx h =
    (let (q, sk, un, t) = fifo_take (pending_rx c) ec_idx (stat_rx_skipped c) (stat_rx_unmatched c);
         c1 = c\<lparr>pending_rx := q, stat_rx_skipped := sk, stat_rx_unmatched := un\<rparr>
     in (case t of
           NoPending \<Rightarrow> (c1\<lparr>stat_rx_no_pending := stat_rx_no_pending c1 + 1\<rparr>, h)
         | Unmatched \<Rightarrow> (c1, h)
         | Taken s \<Rightarrow>
             if tx_group_id s = GROUP_IO then (c1\<lparr>stat_rx_io_discarded := stat_rx_io_discarded c1 + 1\<rparr>, h)
             else (case rx_lookup_take c1 (tx_tick s) of
                     None \<Rightarrow> (c1\<lparr>stat_evicted_no_match := stat_evicted_no_match c1 + 1\<rparr>, h)
                   | Some (tx_ts, c2) \<Rightarrow>
                       let ta = sint (ts - tx_ts)
                       in if ta < 0 \<or> ta > TURNAROUND_SANITY_MAX_NS
                          then (c2\<lparr>stat_implausible := stat_implausible c2 + 1\<rparr>, h)
                          else (c2\<lparr>stat_matched := stat_matched c2 + 1\<rparr>, hist_add ta h))))"

definition turnaround_on_rx_arrival :: "turnaround_ctx \<Rightarrow> u64 \<Rightarrow> ecm_hist \<Rightarrow> turnaround_ctx \<times> ecm_hist" where
  "turnaround_on_rx_arrival c ts h = turnaround_on_rx_arrival_idx c ts (- 1) h"

section \<open>Histogram properties\<close>

definition bounds_ok :: "(nat \<Rightarrow> u64) \<Rightarrow> bool" where
  "bounds_ok up \<longleftrightarrow> 100 \<le> up 0 \<and> (\<forall>i j. i \<le> j \<longrightarrow> j < HIST_NUM_BUCKETS \<longrightarrow> up i \<le> up j)"

lemma bucket_search_spec:
  assumes "lo \<le> hi" and "v \<le> up hi" and "\<forall>i<lo. up i < v" and "\<And>i j. i \<le> j \<Longrightarrow> j \<le> hi \<Longrightarrow> up i \<le> up j"
  shows "bucket_search up v lo hi \<le> hi \<and> v \<le> up (bucket_search up v lo hi) \<and> (\<forall>i<bucket_search up v lo hi. up i < v)"
  using assms
proof (induction up v lo hi rule: bucket_search.induct)
  case (1 up v lo hi)
  show ?case
  proof (cases "lo < hi")
    case True
    let ?m = "(lo + hi) div 2"
    show ?thesis
    proof (cases "v \<le> up ?m")
      case le: True
      then have "bucket_search up v lo hi = bucket_search up v lo ?m"
        using True by (subst bucket_search.simps) (simp add: Let_def)
      moreover have "bucket_search up v lo ?m \<le> ?m \<and> v \<le> up (bucket_search up v lo ?m) \<and>
          (\<forall>i<bucket_search up v lo ?m. up i < v)"
        using 1(3-6) True le by (intro 1(1) [OF True refl le]) auto
      ultimately show ?thesis using True by auto
    next
      case False
      have m: "?m \<le> hi" using True by simp
      have "up i < v" if "i < ?m + 1" for i
      proof -
        have "up i \<le> up ?m" using 1(6) [of i ?m] that m by simp
        with False show ?thesis by (simp add: not_le)
      qed
      moreover have "bucket_search up v lo hi = bucket_search up v (?m + 1) hi"
        using True False by (subst bucket_search.simps) (simp add: Let_def)
      ultimately show ?thesis using 1(2) [OF True refl False] 1(4,6) True by auto
    qed
  next
    case False
    then have "bucket_search up v lo hi = lo" by (subst bucket_search.simps) simp
    with 1(3-5) False show ?thesis by auto
  qed
qed

lemma of_int_u64_le: "0 \<le> x \<Longrightarrow> x < 2 ^ 63 \<Longrightarrow> (of_int x :: u64) \<le> w \<longleftrightarrow> x \<le> uint w"
  by (simp add: word_le_def uint_word_of_int take_bit_int_eq_self)

lemma of_nat_le_u64: "k \<le> l \<Longrightarrow> l < 2 ^ 64 \<Longrightarrow> (of_nat k :: u64) \<le> of_nat l"
  by (simp add: word_le_nat_alt unsigned_of_nat take_bit_nat_eq_self)

text \<open>The bucket of a sample is the first whose bound is not below it.\<close>

lemma bucket_least:
  assumes "bounds_ok (bucket_upper_ns h)" and "0 \<le> x" and "x < 2 ^ 63"
  shows "hist_bucket_index h x \<le> 120"
    and "i < 120 \<Longrightarrow> hist_bucket_index h x \<le> i \<longleftrightarrow> x \<le> uint (bucket_upper_ns h i)"
proof -
  let ?up = "bucket_upper_ns h" and ?v = "of_int x :: u64"
  have mono: "?up i \<le> ?up j" if "i \<le> j" "j < 120" for i j using assms(1) that by (simp add: bounds_ok_def)
  note le = of_int_u64_le [OF assms(2,3)]
  have key: "hist_bucket_index h x \<le> 120 \<and>
      (\<forall>i<120. hist_bucket_index h x \<le> i \<longleftrightarrow> ?v \<le> ?up i)"
  proof (cases "x < 100")
    case True
    have "?v \<le> ?up i" if "i < 120" for i
    proof -
      have "100 \<le> ?up i" using assms(1) that by (auto simp: bounds_ok_def intro: order_trans)
      then show ?thesis using True le by (simp add: word_le_def)
    qed
    then show ?thesis using True by (simp add: hist_bucket_index_def)
  next
    case big: False
    show ?thesis
    proof (cases "?v > ?up 119")
      case True
      have "\<not> ?v \<le> ?up i" if "i < 120" for i using mono [of i 119] True that by auto
      with True big show ?thesis by (auto simp: hist_bucket_index_def)
    next
      case False
      let ?r = "bucket_search ?up ?v 0 119"
      have r: "?r \<le> 119" "?v \<le> ?up ?r" "\<forall>i<?r. ?up i < ?v"
        using bucket_search_spec [of 0 119 ?v ?up] False mono by auto
      have "?r \<le> i \<longleftrightarrow> ?v \<le> ?up i" if "i < 120" for i
        using r mono [of ?r i] that by (meson le_less_linear not_less order_trans)
      moreover have "?r \<le> 120" using r(1) by simp
      ultimately show ?thesis using False big by (simp add: hist_bucket_index_def)
    qed
  qed
  then show "hist_bucket_index h x \<le> 120" by blast
  show "hist_bucket_index h x \<le> i \<longleftrightarrow> x \<le> uint (?up i)" if "i < 120" using key that le by blast
qed

definition hist_of :: "(nat \<Rightarrow> u64) \<Rightarrow> int list \<Rightarrow> ecm_hist" where
  "hist_of up xs = fold hist_add xs (hist_init up)"

lemma hist_of_snoc: "hist_of up (xs @ [x]) = hist_add x (hist_of up xs)"
  by (simp add: hist_of_def)

abbreviation bidx :: "(nat \<Rightarrow> u64) \<Rightarrow> int \<Rightarrow> nat" where
  "bidx up x \<equiv> hist_bucket_index (hist_init up) x"

lemma hist_of_state:
  "bucket_upper_ns (hist_of up xs) = up \<and> hs_count (hist_of up xs) = of_nat (length xs) \<and>
   (\<forall>i. buckets (hist_of up xs) i = of_nat (length (filter (\<lambda>x. bidx up x = i) xs))) \<and>
   hs_max_ns (hist_of up xs) = fold max xs 0"
proof (induction xs rule: rev_induct)
  case Nil
  then show ?case by (simp add: hist_of_def hist_init_def)
next
  case (snoc x xs)
  have "hist_bucket_index (hist_of up xs) x = bidx up x"
    using snoc by (simp add: hist_bucket_index_def hist_init_def)
  with snoc show ?case by (auto simp: hist_of_snoc hist_add_def Let_def max_def)
qed

text \<open>Samples in the buckets before \<open>i\<close>.\<close>

definition cum :: "(nat \<Rightarrow> u64) \<Rightarrow> int list \<Rightarrow> nat \<Rightarrow> nat" where
  "cum up xs i = length (filter (\<lambda>x. bidx up x < i) xs)"

lemma cum_Suc: "cum up xs (Suc i) = cum up xs i + length (filter (\<lambda>x. bidx up x = i) xs)"
  by (induction xs) (auto simp: cum_def less_Suc_eq)

lemma cum_le: "cum up xs i \<le> length xs"
  by (simp add: cum_def)

lemma percentile_loop_spec:
  assumes "length xs < 2 ^ 64" and "i \<le> 120" and "cum up xs i \<le> t" and "t < cum up xs 121" and "t < 2 ^ 64"
  shows "\<exists>j\<le>120. cum up xs j \<le> t \<and> t < cum up xs (Suc j) \<and>
    percentile_loop (hist_of up xs) (of_nat t) [i..<121] (of_nat (cum up xs i))
      = (if j = 120 then of_int (hs_max_ns (hist_of up xs)) else up j)"
  using assms(2,3)
proof (induction "120 - i" arbitrary: i)
  case (0 i)
  then have i: "i = 120" by simp
  have t: "t < cum up xs (Suc 120)" using assms(4) by simp
  have "of_nat (cum up xs 120) + buckets (hist_of up xs) 120 = (of_nat (cum up xs (Suc 120)) :: u64)"
    using hist_of_state [of up xs] cum_Suc [of up xs 120] by simp
  moreover have "(of_nat t :: u64) < of_nat (cum up xs (Suc 120))"
    using t assms(1,5) cum_le [of up xs "Suc 120"] by (simp add: word_less_nat_alt unsigned_of_nat take_bit_nat_eq_self)
  ultimately have "percentile_loop (hist_of up xs) (of_nat t) [120..<121] (of_nat (cum up xs 120))
      = of_int (hs_max_ns (hist_of up xs))" by (simp add: upt_rec Let_def)
  with t 0 i show ?case by auto
next
  case (Suc n i)
  then have lt: "i < 120" by simp
  let ?h = "hist_of up xs"
  have b: "of_nat (cum up xs i) + buckets ?h i = (of_nat (cum up xs (Suc i)) :: u64)"
    using hist_of_state [of up xs] cum_Suc [of up xs i] by simp
  have cmp: "(of_nat t :: u64) < of_nat (cum up xs (Suc i)) \<longleftrightarrow> t < cum up xs (Suc i)"
    using assms(1,5) cum_le [of up xs "Suc i"] by (simp add: word_less_nat_alt unsigned_of_nat take_bit_nat_eq_self)
  have l: "[i..<121] = i # [Suc i..<121]" using lt by (simp add: upt_conv_Cons)
  show ?case
  proof (cases "t < cum up xs (Suc i)")
    case True
    then have "percentile_loop ?h (of_nat t) [i..<121] (of_nat (cum up xs i)) = up i"
      using b cmp lt hist_of_state [of up xs] by (simp add: l Let_def)
    with True Suc.prems lt show ?thesis by (intro exI [of _ i]) auto
  next
    case False
    have "percentile_loop ?h (of_nat t) [i..<121] (of_nat (cum up xs i))
        = percentile_loop ?h (of_nat t) [Suc i..<121] (of_nat (cum up xs (Suc i)))"
      using False b cmp by (simp add: l Let_def)
    with Suc.hyps(1) [of "Suc i"] Suc.hyps(2) lt False show ?thesis by auto
  qed
qed

lemma cum_bound:
  assumes "bounds_ok up" and "\<forall>x\<in>set xs. 0 \<le> x \<and> x < 2 ^ 63"
  shows "i < 120 \<Longrightarrow> cum up xs (Suc i) = length (filter (\<lambda>x. x \<le> uint (up i)) xs)"
    and "cum up xs 121 = length xs"
proof -
  have up: "bucket_upper_ns (hist_init up) = up" by (simp add: hist_init_def)
  show "cum up xs (Suc i) = length (filter (\<lambda>x. x \<le> uint (up i)) xs)" if "i < 120"
    unfolding cum_def less_Suc_eq_le
    using bucket_least(2) [of "hist_init up" _ i] assms that up by (intro arg_cong [of _ _ length] filter_cong) auto
  show "cum up xs 121 = length xs"
    unfolding cum_def using bucket_least(1) [of "hist_init up"] assms up
    by (intro arg_cong [of _ _ length, where y = xs] filter_True) (auto simp: less_Suc_eq_le [of _ 120, simplified])
qed

text \<open>A percentile is right to one bucket: for the rank \<open>t\<close> asked for, the value returned
  is a bucket bound with more than \<open>t\<close> samples at or below it while at most \<open>t\<close> lie at
  or below the bound before it, or, when more than that lie above the last bound, the
  largest sample.\<close>

theorem hist_percentile_rank:
  assumes "bounds_ok up" and "\<forall>x\<in>set xs. 0 \<le> x \<and> x < 2 ^ 63" and "xs \<noteq> []" and "length xs < 2 ^ 64"
    and "t = min (unat (rank (of_nat (length xs)))) (length xs - 1)"
  shows "\<exists>j\<le>120. hist_percentile rank (hist_of up xs) = (if j = 120 then of_int (fold max xs 0) else up j) \<and>
    (j < 120 \<longrightarrow> t < length (filter (\<lambda>x. x \<le> uint (up j)) xs)) \<and>
    (0 < j \<longrightarrow> length (filter (\<lambda>x. x \<le> uint (up (j - 1))) xs) \<le> t)"
proof -
  let ?h = "hist_of up xs" and ?n = "length xs"
  have n: "unat (of_nat ?n :: u64) = ?n" using assms(4) by (simp add: unsigned_of_nat take_bit_nat_eq_self)
  have nz: "0 < ?n" using assms(3) by simp
  have hc: "hs_count ?h = of_nat ?n" "hs_max_ns ?h = fold max xs 0" using hist_of_state [of up xs] by auto
  have "(if rank (hs_count ?h) \<ge> hs_count ?h then hs_count ?h - 1 else rank (hs_count ?h)) = of_nat t"
  proof (cases "rank (of_nat ?n) \<ge> of_nat ?n")
    case True
    then have "t = ?n - 1" using assms(5) n by (auto simp: word_le_nat_alt)
    with True show ?thesis using of_nat_diff [of 1 ?n, where 'a = u64] nz by (simp add: hc Suc_leI)
  next
    case False
    then have "t = unat (rank (of_nat ?n))" using assms(5) n by (auto simp: word_le_nat_alt)
    with False show ?thesis by (simp add: hc)
  qed
  moreover have "hs_count ?h \<noteq> 0" using n nz hc by (metis less_numeral_extra(3) unsigned_0)
  ultimately have p: "hist_percentile rank ?h = percentile_loop ?h (of_nat t) [0..<121] (of_nat (cum up xs 0))"
    by (simp add: hist_percentile_def Let_def cum_def)
  have "t \<le> ?n - 1" using assms(5) by simp
  then have t: "t < ?n" "t < 2 ^ 64" using assms(4) nz by linarith+
  obtain j where j: "j \<le> 120" "cum up xs j \<le> t" "t < cum up xs (Suc j)"
    "hist_percentile rank ?h = (if j = 120 then of_int (fold max xs 0) else up j)"
    using percentile_loop_spec [OF assms(4), of 0 up t] t cum_bound(2) [OF assms(1,2)] p hc(2) by (auto simp: cum_def)
  have "0 < j \<Longrightarrow> length (filter (\<lambda>x. x \<le> uint (up (j - 1))) xs) \<le> t"
    using cum_bound(1) [OF assms(1,2), of "j - 1"] j(1,2) by simp
  moreover have "j < 120 \<Longrightarrow> t < length (filter (\<lambda>x. x \<le> uint (up j)) xs)"
    using cum_bound(1) [OF assms(1,2), of j] j(3) by simp
  ultimately show ?thesis using j(1,4) by (intro exI [of _ j]) simp
qed

definition demo_bounds :: "nat \<Rightarrow> u64" where "demo_bounds i = of_nat (112 + 100 * i)"

section \<open>The send order ring is a bounded FIFO\<close>

definition txr_inv :: "tx_order_ring \<Rightarrow> bool" where
  "txr_inv r \<longleftrightarrow> unat (txr_head r - txr_tail r) \<le> 256"

definition txr_cont :: "tx_order_ring \<Rightarrow> tx_order_sample list" where
  "txr_cont r = ring_win 256 (txr_buf r) (txr_tail r) (txr_head r)"

definition txr_push :: "tx_order_sample \<Rightarrow> tx_order_ring \<Rightarrow> tx_order_ring \<times> bool" where
  "txr_push s r = tx_order_ring_push_idx r (tx_tick s) (tx_group_id s) (tx_ec_idx s)"

lemma idx256: "unat (w AND 255) = unat w mod 256" for w :: u64
  using unat_and_mask [of w 8] by (simp add: mask_eq_exp_minus_1)

lemma ge256_iff: "256 \<le> w \<longleftrightarrow> \<not> unat w < 256" for w :: u64
  by (simp add: word_le_nat_alt not_less)

lemma tx_eta [simp]: "\<lparr>tx_tick = tx_tick x, tx_group_id = tx_group_id x, tx_ec_idx = tx_ec_idx x\<rparr> = x"
  by (cases x) simp

interpretation txr: bounded_fifo txr_inv txr_cont 256 txr_push tx_order_ring_pop
proof
  fix r r' :: tx_order_ring and x :: tx_order_sample
  assume inv: "txr_inv r"
  show "length (txr_cont r) \<le> 256" using inv by (simp add: txr_cont_def txr_inv_def)
  show "snd (txr_push x r) \<longleftrightarrow> length (txr_cont r) < 256"
    by (simp add: txr_push_def tx_order_ring_push_idx_def txr_cont_def ge256_iff Let_def)
  show "txr_cont (fst (txr_push x r)) = (if length (txr_cont r) < 256 then txr_cont r @ [x] else txr_cont r)"
    using ring_win_write [of 256 "txr_head r" "txr_tail r" "txr_buf r" x]
    by (auto simp: txr_push_def tx_order_ring_push_idx_def txr_cont_def ge256_iff idx256 Let_def)
  show "txr_inv (fst (txr_push x r))"
    using inv unat_diff_Suc [of "txr_head r" "txr_tail r" 256]
    by (auto simp: txr_push_def tx_order_ring_push_idx_def txr_inv_def ge256_iff Let_def)
  show "tx_order_ring_pop r = None \<longleftrightarrow> txr_cont r = []"
    by (simp add: tx_order_ring_pop_def txr_cont_def ring_win_empty_iff Let_def)
  assume "tx_order_ring_pop r = Some (x, r')"
  then have ne: "txr_tail r \<noteq> txr_head r" and r': "r' = r\<lparr>txr_tail := txr_tail r + 1\<rparr>"
    and x: "x = txr_buf r (unat (txr_tail r) mod 256)"
    by (auto simp: tx_order_ring_pop_def idx256 Let_def split: if_splits)
  show "txr_inv r' \<and> txr_cont r = x # txr_cont r'"
    using inv ring_win_room [OF ne] ring_win_pop [OF _ ne, of 256 "txr_buf r"]
    by (simp add: txr_inv_def txr_cont_def r' x)
qed

text \<open>The drain leaves the ring empty: the fuel is enough.\<close>

lemma drain_empties:
  assumes "txr_inv r"
  shows "txr_cont (snd (turnaround_drain_tx_order c r)) = []"
proof -
  have "txr_cont (snd (drain_loop n c r)) = []" if "txr_inv r" "length (txr_cont r) \<le> n" for n c r
    using that
  proof (induction n arbitrary: c r)
    case (Suc n)
    show ?case
    proof (cases "tx_order_ring_pop r")
      case None
      with txr.pop_none_iff [OF Suc.prems(1)] show ?thesis by simp
    next
      case (Some p)
      then obtain x r1 where p: "tx_order_ring_pop r = Some (x, r1)" by (cases p) auto
      with txr.pop_some [OF Suc.prems(1) p] Suc show ?thesis by simp
    qed
  qed simp
  with assms show ?thesis by (simp add: turnaround_drain_tx_order_def txr_cont_def)
qed

section \<open>Pairing\<close>

text \<open>The indices never come near the end of their range: one send per tick would take
  a hundred million years.\<close>

definition pend_inv :: "pending \<Rightarrow> bool" where
  "pend_inv q \<longleftrightarrow> pq_tail q \<le> pq_head q \<and> unat (pq_head q) < 2 ^ 63 \<and> unat (pq_head q - pq_tail q) \<le> 256"

definition pend_cont :: "pending \<Rightarrow> tx_order_sample list" where
  "pend_cont q = ring_win 256 (pq_buf q) (pq_tail q) (pq_head q)"

lemma pend_empty: "pend_cont q = [] \<longleftrightarrow> pq_tail q = pq_head q"
  by (simp add: pend_cont_def ring_win_empty_iff)

lemma pend_nth: "j < length (pend_cont q) \<Longrightarrow> pend_cont q ! j = pq_buf q ((unat (pq_tail q) + j) mod 256)"
  by (simp add: pend_cont_def ring_win_def)

lemma pend_pop:
  assumes "pend_inv q" and "pend_cont q \<noteq> []"
  shows "pend_inv (q\<lparr>pq_tail := pq_tail q + 1\<rparr>)" "pend_cont (q\<lparr>pq_tail := pq_tail q + 1\<rparr>) = tl (pend_cont q)"
proof -
  have ne: "pq_tail q \<noteq> pq_head q" using assms(2) pend_empty by auto
  have lt: "unat (pq_tail q) < unat (pq_head q)"
    using assms(1) ne by (metis le_neq_implies_less pend_inv_def word_le_nat_alt word_unat_eq_iff)
  have "unat (pq_tail q + 1) = unat (pq_tail q) + 1"
    using unat_add_of_nat [of "pq_tail q" 1] lt assms(1) by (simp add: pend_inv_def)
  then show "pend_inv (q\<lparr>pq_tail := pq_tail q + 1\<rparr>)"
    using assms(1) lt ring_win_room [OF ne] by (simp add: pend_inv_def word_le_nat_alt)
  show "pend_cont (q\<lparr>pq_tail := pq_tail q + 1\<rparr>) = tl (pend_cont q)"
    using ring_win_pop [OF _ ne, of 256 "pq_buf q"] by (simp add: pend_cont_def)
qed

lemma pend_drop:
  assumes "pend_inv q" and "j \<le> length (pend_cont q)"
  shows "pend_inv (q\<lparr>pq_tail := pq_tail q + of_nat j\<rparr>) \<and>
    pend_cont (q\<lparr>pq_tail := pq_tail q + of_nat j\<rparr>) = drop j (pend_cont q)"
  using assms(2)
proof (induction j)
  case (Suc j)
  let ?q = "q\<lparr>pq_tail := pq_tail q + of_nat j\<rparr>"
  have q: "pend_inv ?q" "pend_cont ?q = drop j (pend_cont q)" using Suc by auto
  have "pend_cont ?q \<noteq> []" using q(2) Suc.prems by simp
  note p = pend_pop [OF q(1) this]
  have "q\<lparr>pq_tail := pq_tail q + of_nat (Suc j)\<rparr> = ?q\<lparr>pq_tail := pq_tail ?q + 1\<rparr>" by (simp add: add.commute)
  with p q(2) show ?case by (simp only: drop_Suc tl_drop simp_thms)
qed (use assms in simp)

lemma pend_last:
  assumes "pend_inv q" and "pend_cont q \<noteq> []"
  shows "pq_buf q (unat (pq_head q - 1) mod 256) = last (pend_cont q)"
proof -
  let ?n = "length (pend_cont q)"
  have n: "0 < ?n" using assms(2) by simp
  have n': "?n = unat (pq_head q - pq_tail q)" by (simp add: pend_cont_def)
  have "pq_head q - 1 = pq_tail q + of_nat (?n - 1)" using n unfolding n' by (simp add: of_nat_diff Suc_leI)
  then have "unat (pq_head q - 1) mod 256 = (unat (pq_tail q) + (?n - 1)) mod 256"
    using unat_add_of_nat_mod [of 256 "pq_tail q" "?n - 1"] by simp
  moreover have "pend_cont q ! (?n - 1) = pq_buf q ((unat (pq_tail q) + (?n - 1)) mod 256)"
    by (rule pend_nth) (use n in simp)
  ultimately show ?thesis by (simp only: last_conv_nth [OF assms(2)])
qed

text \<open>What taking a pending send means, on the list of them: queue, how many sends were
  given up, unmatched events, result.\<close>

definition take_spec :: "tx_order_sample list \<Rightarrow> int \<Rightarrow> tx_order_sample list \<times> nat \<times> nat \<times> taken" where
  "take_spec Q ec_idx =
    (if Q = [] then ([], 0, 0, NoPending)
     else if ec_idx < 0 then (tl Q, 0, 0, Taken (hd Q))
     else
      let Q1 = dropWhile (\<lambda>e. tx_tick (last Q) - tx_tick e > 12) Q; k = length Q - length Q1;
          j = length (takeWhile (\<lambda>e. tx_ec_idx e \<noteq> of_int ec_idx) (take 32 Q1))
      in if j < length (take 32 Q1) then (drop (Suc j) Q1, k + j, 0, Taken (Q1 ! j))
         else if tx_ec_idx (hd Q1) = TX_ORDER_IDX_UNKNOWN then (tl Q1, k, 0, Taken (hd Q1))
         else (Q1, k, 1, Unmatched))"

lemma drop_old_spec:
  assumes "pend_inv q" and "length (pend_cont q) \<le> n" and "drop_old n newest q sk = (q1, sk1)"
  shows "pend_inv q1 \<and> pend_cont q1 = dropWhile (\<lambda>e. newest - tx_tick e > 12) (pend_cont q) \<and> pq_buf q1 = pq_buf q \<and>
    sk1 = sk + of_nat (length (pend_cont q) - length (pend_cont q1))"
  using assms
proof (induction n arbitrary: q sk)
  case 0
  then show ?case by simp
next
  case (Suc n)
  show ?case
  proof (cases "pend_cont q")
    case Nil
    then have "pq_tail q = pq_head q" using pend_empty by blast
    with Suc.prems(3) have "q1 = q" "sk1 = sk" by simp_all
    with Nil Suc.prems(1) show ?thesis by simp
  next
    case (Cons e es)
    then have ne: "pq_tail q \<noteq> pq_head q" using pend_empty [of q] by auto
    have hd: "pq_buf q (unat (pq_tail q) mod 256) = e" using pend_nth [of 0 q] Cons by simp
    show ?thesis
    proof (cases "newest - tx_tick e \<le> 12")
      case True
      with Suc.prems ne hd Cons show ?thesis by simp
    next
      case False
      let ?q = "q\<lparr>pq_tail := pq_tail q + 1\<rparr>"
      have q: "pend_inv ?q" "pend_cont ?q = es" using pend_pop [OF Suc.prems(1)] Cons by auto
      have "drop_old n newest ?q (sk + 1) = (q1, sk1)" using Suc.prems(3) ne hd False by simp
      from Suc.IH [OF q(1) _ this] q(2) Suc.prems(2) Cons False
      have ih: "pend_inv q1" "pend_cont q1 = dropWhile (\<lambda>e. newest - tx_tick e > 12) es" "pq_buf q1 = pq_buf q"
        "sk1 = sk + 1 + of_nat (length es - length (pend_cont q1))" by auto
      have "length (pend_cont q1) \<le> length es" using ih(2) by (simp add: length_dropWhile_le)
      then have "length (pend_cont q) - length (pend_cont q1) = Suc (length es - length (pend_cont q1))"
        using Cons by simp
      with ih Cons False show ?thesis by (simp add: not_le)
    qed
  qed
qed

lemma lookahead_spec:
  assumes "pend_inv q" and "i \<le> m" and "m \<le> 32"
  shows "lookahead [i..<m] idx q =
    (let ys = drop i (take m (pend_cont q)); j = length (takeWhile (\<lambda>e. tx_ec_idx e \<noteq> idx) ys)
     in if j < length ys then Some (i + j, pend_cont q ! (i + j)) else None)"
  using assms(2)
proof (induction "m - i" arbitrary: i)
  case (Suc k i)
  have im: "i < m" using Suc.hyps(2) by simp
  have t: "unat (pq_tail q + of_nat i) = unat (pq_tail q) + i"
    using assms im by (intro unat_add_of_nat) (simp add: pend_inv_def word_le_nat_alt)
  have lt: "pq_tail q + of_nat i < pq_head q \<longleftrightarrow> i < length (pend_cont q)"
    using assms(1) by (auto simp: word_less_nat_alt t pend_cont_def pend_inv_def unat_sub)
  have u: "[i..<m] = i # [Suc i..<m]" using im by (simp add: upt_conv_Cons)
  show ?case
  proof (cases "i < length (pend_cont q)")
    case True
    have ys: "drop i (take m (pend_cont q)) = pend_cont q ! i # drop (Suc i) (take m (pend_cont q))"
      using True im by (simp add: Cons_nth_drop_Suc [symmetric])
    show ?thesis
      using Suc.hyps(1) [of "Suc i"] Suc.hyps(2) im True lt pend_nth [OF True]
      by (auto simp: u ys t Let_def)
  next
    case False
    with lt show ?thesis by (simp add: u)
  qed
qed simp

lemma fifo_take_refines:
  assumes "pend_inv q" and "fifo_take q idx sk un = (q', sk', un', t)"
  shows "pend_inv q' \<and> (\<exists>k m. take_spec (pend_cont q) idx = (pend_cont q', k, m, t) \<and> sk' = sk + of_nat k \<and> un' = un + of_nat m)"
proof (cases "pend_cont q = [] \<or> idx < 0")
  case True
  show ?thesis
  proof (cases "pend_cont q = []")
    case False
    then have "pq_tail q \<noteq> pq_head q" using pend_empty by auto
    moreover have "pq_buf q (unat (pq_tail q) mod 256) = hd (pend_cont q)"
      using pend_nth [of 0 q] False by (simp add: hd_conv_nth)
    ultimately show ?thesis using assms True False pend_pop [OF assms(1) False] by (auto simp: fifo_take_def take_spec_def)
  qed (use assms pend_empty [of q] in \<open>auto simp: fifo_take_def take_spec_def\<close>)
next
  case False
  let ?Q = "pend_cont q"
  have ne: "?Q \<noteq> []" "pq_tail q \<noteq> pq_head q" using False pend_empty by auto
  let ?newest = "tx_tick (last ?Q)"
  obtain q1 sk1 where d: "drop_old (unat (pq_head q - pq_tail q)) ?newest q sk = (q1, sk1)" by fastforce
  have q1: "pend_inv q1" "pend_cont q1 = dropWhile (\<lambda>e. ?newest - tx_tick e > 12) ?Q"
    "sk1 = sk + of_nat (length ?Q - length (pend_cont q1))"
    using drop_old_spec [OF assms(1) _ d] by (auto simp: pend_cont_def)
  have "last ?Q \<in> set (pend_cont q1)"
    unfolding q1(2) using ne(1) by (metis (mono_tags, lifting) dropWhile_eq_Nil_conv dropWhile_last last_in_set diff_self not_less_zero word_zero_le leD)
  then have ne1: "pend_cont q1 \<noteq> []" "pq_tail q1 \<noteq> pq_head q1" using pend_empty [of q1] by auto
  have hd1: "pq_buf q1 (unat (pq_tail q1) mod 256) = hd (pend_cont q1)"
    using pend_nth [of 0 q1] ne1 by (simp add: hd_conv_nth)
  define ys where "ys = take 32 (pend_cont q1)"
  define j where "j = length (takeWhile (\<lambda>e. tx_ec_idx e \<noteq> of_int idx) ys)"
  have la: "lookahead [0..<32] (of_int idx) q1 = (if j < length ys then Some (j, pend_cont q1 ! j) else None)"
    using lookahead_spec [OF q1(1), of 0 32 "of_int idx"] by (simp add: ys_def j_def Let_def)
  have ft: "fifo_take q idx sk un = (case lookahead [0..<32] (of_int idx) q1 of
        Some (j, e) \<Rightarrow> (q1\<lparr>pq_tail := pq_tail q1 + of_nat j + 1\<rparr>, sk1 + of_nat j, un, Taken e)
      | None \<Rightarrow> if tx_ec_idx (hd (pend_cont q1)) = TX_ORDER_IDX_UNKNOWN
          then (q1\<lparr>pq_tail := pq_tail q1 + 1\<rparr>, sk1, un, Taken (hd (pend_cont q1)))
          else (q1, sk1, un + 1, Unmatched))"
    using ne False d ne1(2) pend_last [OF assms(1) ne(1)] hd1 by (simp add: fifo_take_def Let_def split: option.split)
  have ts: "take_spec ?Q idx = (if j < length ys then (drop (Suc j) (pend_cont q1), length ?Q - length (pend_cont q1) + j, 0, Taken (pend_cont q1 ! j))
      else if tx_ec_idx (hd (pend_cont q1)) = TX_ORDER_IDX_UNKNOWN
      then (tl (pend_cont q1), length ?Q - length (pend_cont q1), 0, Taken (hd (pend_cont q1)))
      else (pend_cont q1, length ?Q - length (pend_cont q1), 1, Unmatched))"
    using ne(1) False by (simp add: take_spec_def q1(2) [symmetric] ys_def j_def Let_def)
  show ?thesis
  proof (cases "j < length ys")
    case True
    have "Suc j \<le> length (pend_cont q1)" using True by (simp add: ys_def)
    from pend_drop [OF q1(1) this] True ft ts la q1(3) assms(2) show ?thesis
      by (auto simp: add.assoc add.commute [of 1])
  next
    case nf: False
    with pend_pop [OF q1(1) ne1(1)] ft ts la q1 assms(2) show ?thesis by (auto split: if_splits)
  qed
qed

text \<open>C17. Pairing a TX completion or an RX arrival with its send works on the list of pending
  sends as specified: without an index the oldest send; with an index first every send
  more than 12 ticks behind the newest is given up, then the first of the next 32 that
  carries the index is taken and the ones before it are given up, then an oldest send
  of unknown index, and otherwise the event is counted as unmatched. The array bounds,
  the modular indices and the two early exits of the code do not show.\<close>

theorem fifo_take_exact:
  assumes "pend_inv q" and "fifo_take q idx sk un = (q', sk', un', t)"
  shows "pend_inv q' \<and> (\<exists>k m. take_spec (pend_cont q) idx = (pend_cont q', k, m, t) \<and> sk' = sk + of_nat k \<and> un' = un + of_nat m)"
  using assms by (rule fifo_take_refines)

definition demo_pending :: pending where
  "demo_pending = pending_add \<lparr>tx_tick = 9, tx_group_id = 1, tx_ec_idx = 4\<rparr>
     (pending_add \<lparr>tx_tick = 8, tx_group_id = 1, tx_ec_idx = 3\<rparr> pending_zero)"

theorem fifo_take_exact_witness:
  "\<exists>k m. take_spec (pend_cont demo_pending) 4 = (pend_cont (fst (fifo_take demo_pending 4 0 0)), k, m,
     snd (snd (snd (fifo_take demo_pending 4 0 0))))"
proof -
  have "pend_inv demo_pending" by (simp add: demo_pending_def pending_add_def pending_zero_def pend_inv_def Let_def)
  moreover obtain q' sk' un' t where f: "fifo_take demo_pending 4 0 0 = (q', sk', un', t)" by (metis prod_cases4)
  ultimately show ?thesis using fifo_take_exact [OF _ f] by auto
qed

text \<open>A run of the correlator: sends, drains, completions, arrivals and resyncs, with the
  list of the completions it was told about, tick and time stamp.\<close>

datatype ta_event = TaSend u64 u8 u8 | TaDrain | TaTx u64 int | TaRx u64 int | TaResync

record ta_state =
  ta_c :: turnaround_ctx
  ta_r :: tx_order_ring
  ta_h :: ecm_hist
  ta_log :: "(u64 \<times> u64) list"

definition tx_noted :: "turnaround_ctx \<Rightarrow> u64 \<Rightarrow> int \<Rightarrow> (u64 \<times> u64) list" where
  "tx_noted c ts idx = (case snd (snd (snd (fifo_take (pending_tx c) idx (stat_tx_skipped c) (stat_tx_unmatched c)))) of
     Taken s \<Rightarrow> if tx_group_id s = GROUP_IO then [] else [(tx_tick s, ts)] | _ \<Rightarrow> [])"

primrec ta_exec :: "ta_event \<Rightarrow> ta_state \<Rightarrow> ta_state" where
  "ta_exec (TaSend tk g i) s = s\<lparr>ta_r := fst (tx_order_ring_push_idx (ta_r s) tk g i)\<rparr>"
| "ta_exec TaDrain s = (let (c, r) = turnaround_drain_tx_order (ta_c s) (ta_r s) in s\<lparr>ta_c := c, ta_r := r\<rparr>)"
| "ta_exec (TaTx ts i) s = s\<lparr>ta_c := turnaround_on_tx_complete_idx (ta_c s) ts i, ta_log := ta_log s @ tx_noted (ta_c s) ts i\<rparr>"
| "ta_exec (TaRx ts i) s = (let (c, h) = turnaround_on_rx_arrival_idx (ta_c s) ts i (ta_h s) in s\<lparr>ta_c := c, ta_h := h\<rparr>)"
| "ta_exec TaResync s = s\<lparr>ta_c := turnaround_resync (ta_c s)\<rparr>"

definition ta_start :: "(nat \<Rightarrow> u64) \<Rightarrow> ta_state" where
  "ta_start up = \<lparr>ta_c = turnaround_init, ta_r = tx_order_ring_init, ta_h = hist_init up, ta_log = []\<rparr>"

text \<open>The tick that marks an empty slot is never sent.\<close>

primrec send_ok :: "ta_event \<Rightarrow> bool" where
  "send_ok (TaSend tk g i) \<longleftrightarrow> tk \<noteq> EMPTY_TICK" | "send_ok TaDrain \<longleftrightarrow> True" | "send_ok (TaTx ts i) \<longleftrightarrow> True"
| "send_ok (TaRx ts i) \<longleftrightarrow> True" | "send_ok TaResync \<longleftrightarrow> True"

text \<open>Every occupied slot of the lookup holds a completion of the log, and every sample in
  the ring and the queues has a real tick.\<close>

definition ta_inv :: "ta_state \<Rightarrow> bool" where
  "ta_inv s \<longleftrightarrow> (\<forall>i. lk_tick (lk_entries (ta_c s) i) \<noteq> EMPTY_TICK \<longrightarrow>
      (lk_tick (lk_entries (ta_c s) i), lk_rx_ts_ns (lk_entries (ta_c s) i)) \<in> set (ta_log s)) \<and>
    (\<forall>i. tx_tick (txr_buf (ta_r s) i) \<noteq> EMPTY_TICK) \<and> (\<forall>i. tx_tick (pq_buf (pending_tx (ta_c s)) i) \<noteq> EMPTY_TICK) \<and>
    (\<forall>i. tx_tick (pq_buf (pending_rx (ta_c s)) i) \<noteq> EMPTY_TICK)"

lemma drop_old_buf: "drop_old n newest q sk = (q1, sk1) \<Longrightarrow> pq_buf q1 = pq_buf q"
  by (induction n newest q sk rule: drop_old.induct) (auto split: if_splits)

lemma lookahead_buf: "lookahead js idx q = Some (j, e) \<Longrightarrow> \<exists>i. e = pq_buf q i"
  by (induction js idx q rule: lookahead.induct) (auto simp: Let_def split: if_splits)

lemma fifo_take_buf:
  assumes "fifo_take q idx sk un = (q', sk', un', t)"
  shows "pq_buf q' = pq_buf q \<and> (\<forall>s. t = Taken s \<longrightarrow> (\<exists>i. s = pq_buf q i))"
proof -
  obtain q1 sk1 where d: "drop_old (unat (pq_head q - pq_tail q))
      (tx_tick (pq_buf q (unat (pq_head q - 1) mod 256))) q sk = (q1, sk1)" by fastforce
  show ?thesis
    using assms drop_old_buf [OF d] lookahead_buf [of "[0..<32]" "of_int idx" q1]
    by (auto simp: fifo_take_def d Let_def split: if_splits option.splits)
qed

lemma note_rx_frame [simp]:
  "pending_tx (turnaround_note_rx c tk ts) = pending_tx c" "pending_rx (turnaround_note_rx c tk ts) = pending_rx c"
  "lk_entries (turnaround_note_rx c tk ts) =
     (lk_entries c)(unat (next_slot c) mod 64 := \<lparr>lk_tick = tk, lk_rx_ts_ns = ts\<rparr>)"
  by (simp_all add: turnaround_note_rx_def Let_def)

lemma ta_inv_tx:
  assumes "ta_inv s"
  shows "ta_inv (ta_exec (TaTx ts idx) s)"
proof -
  let ?c = "ta_c s"
  obtain q sk un t where f: "fifo_take (pending_tx ?c) idx (stat_tx_skipped ?c) (stat_tx_unmatched ?c) = (q, sk, un, t)"
    by (metis prod_cases4)
  from assms fifo_take_buf [OF f] show ?thesis
    by (cases t) (auto simp: turnaround_on_tx_complete_idx_def tx_noted_def f ta_inv_def Let_def)
qed

lemma rx_lookup_some:
  assumes "rx_lookup_take c tk = Some (ts, c')"
  shows "\<exists>i. lk_tick (lk_entries c i) = tk \<and> lk_rx_ts_ns (lk_entries c i) = ts \<and>
    c' = c\<lparr>lk_entries := (lk_entries c)(i := (lk_entries c i)\<lparr>lk_tick := EMPTY_TICK\<rparr>)\<rparr>"
  using assms by (auto simp: rx_lookup_take_def find_Some_iff split: option.splits)

lemma ta_inv_rx:
  assumes "ta_inv s"
  shows "ta_inv (ta_exec (TaRx ts idx) s)"
proof -
  let ?c = "ta_c s"
  obtain q sk un t where f: "fifo_take (pending_rx ?c) idx (stat_rx_skipped ?c) (stat_rx_unmatched ?c) = (q, sk, un, t)"
    by (metis prod_cases4)
  from assms fifo_take_buf [OF f] show ?thesis
    by (cases t) (auto simp: turnaround_on_rx_arrival_idx_def f ta_inv_def Let_def split: option.splits dest!: rx_lookup_some)
qed

lemma ta_inv_drain:
  assumes "ta_inv s"
  shows "ta_inv (ta_exec TaDrain s)"
proof -
  have dl: "ta_inv (s\<lparr>ta_c := fst (drain_loop n c r), ta_r := snd (drain_loop n c r)\<rparr>)" if "ta_inv (s\<lparr>ta_c := c, ta_r := r\<rparr>)" for n c r
    using that
  proof (induction n arbitrary: c r)
    case (Suc n)
    show ?case
    proof (cases "tx_order_ring_pop r")
      case (Some p)
      then obtain x r1 where p: "tx_order_ring_pop r = Some (x, r1)" by (cases p) auto
      then have "txr_buf r1 = txr_buf r" "\<exists>i. x = txr_buf r i"
        by (auto simp: tx_order_ring_pop_def Let_def split: if_splits)
      with Suc.prems have "ta_inv (s\<lparr>ta_c := c\<lparr>pending_tx := pending_add x (pending_tx c),
          pending_rx := pending_add x (pending_rx c)\<rparr>, ta_r := r1\<rparr>)"
        by (auto simp: ta_inv_def pending_add_def Let_def)
      from Suc.IH [OF this] p show ?thesis by simp
    qed (use Suc in simp)
  qed simp
  from dl [where c = "ta_c s" and r = "ta_r s"] assms show ?thesis
    by (simp add: turnaround_drain_tx_order_def case_prod_beta Let_def)
qed

lemma ta_inv_exec:
  assumes "ta_inv s" and "send_ok e"
  shows "ta_inv (ta_exec e s)"
proof (cases e)
  case (TaSend tk g i)
  with assms show ?thesis by (auto simp: ta_inv_def tx_order_ring_push_idx_def Let_def)
next
  case TaResync
  with assms show ?thesis by (auto simp: ta_inv_def turnaround_resync_def)
qed (use assms ta_inv_tx ta_inv_rx ta_inv_drain in simp_all)

lemma ta_inv_run:
  "ta_inv s \<Longrightarrow> list_all send_ok es \<Longrightarrow> ta_inv (fold ta_exec es s)"
  by (induction es arbitrary: s) (auto intro: ta_inv_exec)

lemma ta_inv_start: "ta_inv (ta_start up)"
  by (simp add: ta_inv_def ta_start_def turnaround_init_def tx_order_ring_init_def pending_zero_def tx_zero_def)

text \<open>The turnaround histogram holds only real pairs: after any sequence of sends, drains,
  completions, arrivals and resyncs, an arrival either leaves the histogram alone or adds
  exactly the difference between its time stamp and the time stamp of a completion that
  was reported for the very same tick, and that difference lies between 0 and 1 ms.\<close>

theorem turnaround_real_pairs:
  assumes "list_all send_ok es" and "s = fold ta_exec es (ta_start up)"
  shows "ta_h (ta_exec (TaRx ts idx) s) = ta_h s \<or>
    (\<exists>x tx. snd (snd (snd (fifo_take (pending_rx (ta_c s)) idx (stat_rx_skipped (ta_c s)) (stat_rx_unmatched (ta_c s))))) = Taken x \<and>
      (tx_tick x, tx) \<in> set (ta_log s) \<and> 0 \<le> sint (ts - tx) \<and> sint (ts - tx) \<le> TURNAROUND_SANITY_MAX_NS \<and>
      ta_h (ta_exec (TaRx ts idx) s) = hist_add (sint (ts - tx)) (ta_h s))"
proof -
  have inv: "ta_inv s" using ta_inv_run [OF ta_inv_start assms(1)] assms(2) by simp
  let ?c = "ta_c s"
  obtain q sk un t where f: "fifo_take (pending_rx ?c) idx (stat_rx_skipped ?c) (stat_rx_unmatched ?c) = (q, sk, un, t)"
    by (metis prod_cases4)
  show ?thesis
  proof (cases t)
    case (Taken x)
    have "tx_tick x \<noteq> EMPTY_TICK" using fifo_take_buf [OF f] Taken inv by (auto simp: ta_inv_def)
    let ?c1 = "?c\<lparr>pending_rx := q, stat_rx_skipped := sk, stat_rx_unmatched := un\<rparr>"
    show ?thesis
    proof (cases "tx_group_id x = GROUP_IO \<or> rx_lookup_take ?c1 (tx_tick x) = None")
      case True
      then have "ta_h (ta_exec (TaRx ts idx) s) = ta_h s"
        by (auto simp: turnaround_on_rx_arrival_idx_def f Taken Let_def)
      then show ?thesis by blast
    next
      case False
      then obtain tx c2 where l: "rx_lookup_take ?c1 (tx_tick x) = Some (tx, c2)" by auto
      obtain i where "lk_tick (lk_entries ?c i) = tx_tick x" "lk_rx_ts_ns (lk_entries ?c i) = tx"
        using rx_lookup_some [OF l] by auto
      with \<open>tx_tick x \<noteq> EMPTY_TICK\<close> inv have m: "(tx_tick x, tx) \<in> set (ta_log s)"
        unfolding ta_inv_def by metis
      show ?thesis
      proof (cases "sint (ts - tx) < 0 \<or> sint (ts - tx) > TURNAROUND_SANITY_MAX_NS")
        case True
        with False l have "ta_h (ta_exec (TaRx ts idx) s) = ta_h s"
          by (auto simp: turnaround_on_rx_arrival_idx_def f Taken Let_def)
        then show ?thesis by blast
      next
        case ok: False
        then have "ta_h (ta_exec (TaRx ts idx) s) = hist_add (sint (ts - tx)) (ta_h s)"
          using False l by (auto simp: turnaround_on_rx_arrival_idx_def f Taken Let_def)
        moreover have "snd (snd (snd (fifo_take (pending_rx ?c) idx (stat_rx_skipped ?c) (stat_rx_unmatched ?c)))) = Taken x"
          by (simp add: f Taken)
        ultimately show ?thesis using m ok by (intro disjI2 exI conjI) auto
      qed
    qed
  qed (simp_all add: turnaround_on_rx_arrival_idx_def f)
qed

end
