(* ===== verification/Eni.thy ===== *)
theory Eni
  imports Cstr
begin

text \<open>
  The ENI configuration loader and its checks (\<open>libecmaster/config/ecm_eni.c\<close>). A parse
  function returns \<open>None\<close> for its \<open>-1\<close>; the error texts are left out, the counts of
  refusals and warnings are kept. The fixed arrays with their counters are lists, the
  bytes of an InitCmd are the list of those kept.
\<close>

section \<open>Data\<close>

abbreviation (input) ECM_ENI_MAX_SLAVES :: nat where "ECM_ENI_MAX_SLAVES \<equiv> 64"
abbreviation (input) ECM_ENI_MAX_COE :: nat where "ECM_ENI_MAX_COE \<equiv> 256"
abbreviation (input) ECM_ENI_MAX_DATA :: nat where "ECM_ENI_MAX_DATA \<equiv> 256"
abbreviation (input) ECM_ENI_MAX_REG :: nat where "ECM_ENI_MAX_REG \<equiv> 1024"
abbreviation (input) ECM_ENI_REG_DATA :: nat where "ECM_ENI_REG_DATA \<equiv> 32"
abbreviation (input) ECM_ENI_MAX_PDO :: nat where "ECM_ENI_MAX_PDO \<equiv> 1024"
abbreviation (input) ECM_ENI_T_PS :: u16 where "ECM_ENI_T_PS \<equiv> 4"

datatype eni_pd_cmd = ECM_ENI_PD_UNKNOWN | ECM_ENI_PD_LRW | ECM_ENI_PD_LRD_LWR | ECM_ENI_PD_NONE

record ecm_eni_slave =
  es_pos :: u16
  es_name :: string
  es_vendor :: u32
  es_product :: u32
  es_rev :: u32
  es_check_rev :: bool
  es_addr :: u16
  osize_bits :: u32
  isize_bits :: u32
  es_dc :: bool
  es_refclock :: bool
  sync0_ns :: u32
  sync1_ns :: u32
  shift_ns :: int
  es_assign :: u16
  state_ms :: "nat \<Rightarrow> u32"

record ecm_eni_reg =
  er_pos :: u16
  er_trans :: u16
  er_cmd :: u8
  er_ado :: u16
  er_len :: u16
  er_data :: "u8 list"

record ecm_eni_coe =
  ec_pos :: u16
  ec_trans :: u16
  ec_ccs :: u8
  ec_index :: u16
  ec_sub :: u8
  ec_ca :: bool
  ec_timeout_ms :: u32
  ec_data :: "u8 list"

record ecm_eni_pdo =
  ep_pos :: u16
  ep_in :: bool
  ep_pdo :: u16
  ep_index :: u16
  ep_sub :: u8
  ep_bits :: u16

record ecm_eni =
  en_version :: nat
  en_source :: string
  cycle_us :: u32
  pd_cmd :: eni_pd_cmd
  en_reg :: "ecm_eni_reg list"
  en_pdo :: "ecm_eni_pdo list"
  en_slave :: "ecm_eni_slave list"
  en_coe :: "ecm_eni_coe list"

definition eni_zero :: ecm_eni where
  "eni_zero = \<lparr>en_version = 0, en_source = [], cycle_us = 0, pd_cmd = ECM_ENI_PD_UNKNOWN, en_reg = [],
     en_pdo = [], en_slave = [], en_coe = []\<rparr>"

section \<open>Transitions\<close>

definition TRANS_NAMES :: "string list" where
  "TRANS_NAMES = [''IP'', ''PI'', ''PS'', ''SP'', ''SO'', ''OS'', ''SI'', ''OI'', ''IB'', ''BI'', ''II'', ''PP'', ''SS'', ''OO'', ''OP'']"

fun trans_find :: "string list \<Rightarrow> nat \<Rightarrow> string \<Rightarrow> nat option" where
  "trans_find [] i t = None"
| "trans_find (n # ns) i t = (if t = n then Some i else trans_find ns (Suc i) t)"

fun trans_loop :: "string list \<Rightarrow> u16 \<Rightarrow> u16" where
  "trans_loop [] m = m"
| "trans_loop (t # ts) m =
    (case trans_find TRANS_NAMES 0 t of None \<Rightarrow> 0 | Some i \<Rightarrow> trans_loop ts (m OR push_bit i 1))"

definition ecm_eni_trans_parse :: "string option \<Rightarrow> u16" where
  "ecm_eni_trans_parse list =
    (case list of
       None \<Rightarrow> 0
     | Some s \<Rightarrow> if length s \<ge> 64 then 0 else trans_loop (strtok_all '','' s) 0)"

definition ecm_eni_trans_name :: "u16 \<Rightarrow> string" where
  "ecm_eni_trans_name b =
    (case find (\<lambda>i. b = push_bit i 1) [0..<length TRANS_NAMES] of None \<Rightarrow> ''?'' | Some i \<Rightarrow> TRANS_NAMES ! i)"

section \<open>Tokens and fields\<close>

abbreviation (input) MAXTOK :: nat where "MAXTOK \<equiv> 48"

text \<open>At most \<open>n\<close> tokens; the rest of the line is not looked at.\<close>

primrec tokenize :: "nat \<Rightarrow> string \<Rightarrow> string list" where
  "tokenize 0 p = []"
| "tokenize (Suc n) p =
    (case dropWhile isspace p of
       [] \<Rightarrow> []
     | c # cs \<Rightarrow>
         if c = CHR 0x22
         then takeWhile (\<lambda>x. x \<noteq> CHR 0x22) cs # tokenize n (drop 1 (dropWhile (\<lambda>x. x \<noteq> CHR 0x22) cs))
         else takeWhile (\<lambda>x. \<not> isspace x) (c # cs) # tokenize n (drop 1 (dropWhile (\<lambda>x. \<not> isspace x) (c # cs))))"

definition parse_u32 :: "string \<Rightarrow> u32 option" where
  "parse_u32 s =
    (let r = strtoul s 0 in
     if srange r \<or> srest r \<noteq> [] \<or> \<not> sconv r \<or> sv r > 0xFFFFFFFF then None else Some (ucast (sv r)))"

definition parse_i32 :: "string \<Rightarrow> int option" where
  "parse_i32 s =
    (let r = strtol s 0 in
     if srange r \<or> srest r \<noteq> [] \<or> \<not> sconv r \<or> sv r < - (2 ^ 31) \<or> sv r > 2 ^ 31 - 1 then None else Some (sv r))"

fun kv :: "string list \<Rightarrow> string \<Rightarrow> string option" where
  "kv (k # v # ts) key = (if k = key then Some v else kv ts key)"
| "kv _ key = None"

text \<open>\<open>NEED_U32\<close>, on the tokens after the position.\<close>

definition need_u32 :: "string list \<Rightarrow> string \<Rightarrow> u32 \<Rightarrow> u32 option" where
  "need_u32 f key mx =
    (case kv f key of
       None \<Rightarrow> None
     | Some v \<Rightarrow> (case parse_u32 v of None \<Rightarrow> None | Some t \<Rightarrow> if t > mx then None else Some t))"

definition opt_u32 :: "string list \<Rightarrow> string \<Rightarrow> u32 option" where
  "opt_u32 f key =
    (case kv f key of
       None \<Rightarrow> Some 0
     | Some v \<Rightarrow> (case parse_u32 v of None \<Rightarrow> None | Some t \<Rightarrow> if t > 600000 then None else Some t))"

fun hex_pairs :: "string \<Rightarrow> u8 list option" where
  "hex_pairs [] = Some []"
| "hex_pairs [c] = None"
| "hex_pairs (a # b # cs) =
    (if \<not> is_digit 16 a \<or> \<not> is_digit 16 b then None
     else map_option (\<lambda>r. ucast (sv (strtoul [a, b] 16)) # r) (hex_pairs cs))"

definition hexbytes :: "string \<Rightarrow> nat \<Rightarrow> u8 list option" where
  "hexbytes s mx =
    (if s = ''-'' then Some []
     else if length s mod 2 \<noteq> 0 \<or> length s div 2 > mx then None
     else hex_pairs s)"

section \<open>Records\<close>

definition position :: "string list \<Rightarrow> u32 option" where
  "position tok = (if length tok < 2 then None else parse_u32 (tok ! 1))"

definition slave_fields :: "u32 \<Rightarrow> string list \<Rightarrow> ecm_eni_slave option" where
  "slave_fields pos f =
    Option.bind (need_u32 f ''vendor'' 0xFFFFFFFF) (\<lambda>vendor.
    Option.bind (need_u32 f ''product'' 0xFFFFFFFF) (\<lambda>product.
    Option.bind (need_u32 f ''rev'' 0xFFFFFFFF) (\<lambda>rev.
    Option.bind (need_u32 f ''check_rev'' 1) (\<lambda>check.
    Option.bind (need_u32 f ''addr'' 0xFFFF) (\<lambda>addr.
    Option.bind (need_u32 f ''osize_bits'' 0xFFFFFF) (\<lambda>osize.
    Option.bind (need_u32 f ''isize_bits'' 0xFFFFFF) (\<lambda>isize.
    Option.bind (need_u32 f ''dc'' 1) (\<lambda>dc.
    Option.bind (need_u32 f ''refclock'' 1) (\<lambda>refc.
    Option.bind (need_u32 f ''sync0_ns'' 0xFFFFFFFF) (\<lambda>s0.
    Option.bind (need_u32 f ''sync1_ns'' 0xFFFFFFFF) (\<lambda>s1.
    Option.bind (need_u32 f ''assign'' 0xFFFF) (\<lambda>assign.
    Option.bind (Option.bind (kv f ''shift_ns'') parse_i32) (\<lambda>shift.
    Option.bind (opt_u32 f ''preop_ms'') (\<lambda>t0.
    Option.bind (opt_u32 f ''safeop_ms'') (\<lambda>t1.
    Option.bind (opt_u32 f ''op_ms'') (\<lambda>t2.
    Some \<lparr>es_pos = ucast pos, es_name = fit 64 (case kv f ''name'' of None \<Rightarrow> [] | Some s \<Rightarrow> s),
      es_vendor = vendor, es_product = product, es_rev = rev, es_check_rev = (check \<noteq> 0), es_addr = ucast addr,
      osize_bits = osize, isize_bits = isize, es_dc = (dc \<noteq> 0), es_refclock = (refc \<noteq> 0), sync0_ns = s0,
      sync1_ns = s1, shift_ns = shift, es_assign = ucast assign,
      state_ms = (\<lambda>_. 0)(0 := t0, 1 := t1, 2 := t2)\<rparr>))))))))))))))))"

definition parse_slave :: "string list \<Rightarrow> ecm_eni \<Rightarrow> ecm_eni option" where
  "parse_slave tok eni =
    (case position tok of
       None \<Rightarrow> None
     | Some pos \<Rightarrow>
         if sint pos \<noteq> int (length (en_slave eni)) + 1 \<or> pos > 64 then None
         else (case slave_fields pos (drop 2 tok) of
                 None \<Rightarrow> None
               | Some s \<Rightarrow>
                   if es_dc s \<and> (sync0_ns s = 0 \<or> es_assign s = 0) then None
                   else if \<not> es_dc s \<and> es_refclock s then None
                   else Some (eni\<lparr>en_slave := en_slave eni @ [s]\<rparr>)))"

definition parse_reg :: "string list \<Rightarrow> ecm_eni \<Rightarrow> ecm_eni option" where
  "parse_reg tok eni =
    (case position tok of
       None \<Rightarrow> None
     | Some pos \<Rightarrow>
         if sint pos > int (length (en_slave eni)) \<or> length (en_reg eni) \<ge> ECM_ENI_MAX_REG then None
         else
          let f = drop 2 tok; trans = ecm_eni_trans_parse (kv f ''trans'') in
          if trans = 0 then None
          else
           Option.bind (need_u32 f ''cmd'' 14) (\<lambda>cmd.
           Option.bind (need_u32 f ''ado'' 0xFFFF) (\<lambda>ado.
           Option.bind (need_u32 f ''len'' 0x7FF) (\<lambda>ln.
           Option.bind (Option.bind (kv f ''data'') (\<lambda>d. hexbytes d ECM_ENI_REG_DATA)) (\<lambda>dat.
           Some (eni\<lparr>en_reg := en_reg eni @ [\<lparr>er_pos = ucast pos, er_trans = trans, er_cmd = ucast cmd,
             er_ado = ucast ado, er_len = ucast ln, er_data = dat\<rparr>]\<rparr>))))))"

definition parse_pdo :: "string list \<Rightarrow> ecm_eni \<Rightarrow> ecm_eni option" where
  "parse_pdo tok eni =
    (case position tok of
       None \<Rightarrow> None
     | Some pos \<Rightarrow>
         if pos < 1 \<or> sint pos > int (length (en_slave eni)) \<or> length (en_pdo eni) \<ge> ECM_ENI_MAX_PDO then None
         else
          let f = drop 2 tok in
          Option.bind (kv f ''dir'') (\<lambda>d.
          if d \<noteq> ''out'' \<and> d \<noteq> ''in'' then None
          else
          Option.bind (need_u32 f ''pdo'' 0xFFFF) (\<lambda>pdo.
          Option.bind (need_u32 f ''index'' 0xFFFF) (\<lambda>ix.
          Option.bind (need_u32 f ''sub'' 0xFF) (\<lambda>sb.
          Option.bind (need_u32 f ''bits'' 0xFFFF) (\<lambda>bs.
          if bs = 0 then None
          else Some (eni\<lparr>en_pdo := en_pdo eni @ [\<lparr>ep_pos = ucast pos, ep_in = (d = ''in''), ep_pdo = ucast pdo,
            ep_index = ucast ix, ep_sub = ucast sb, ep_bits = ucast bs\<rparr>]\<rparr>)))))))"

definition parse_coe :: "string list \<Rightarrow> ecm_eni \<Rightarrow> ecm_eni option" where
  "parse_coe tok eni =
    (case position tok of
       None \<Rightarrow> None
     | Some pos \<Rightarrow>
         if pos < 1 \<or> sint pos > int (length (en_slave eni)) \<or> length (en_coe eni) \<ge> ECM_ENI_MAX_COE then None
         else
          let f = drop 2 tok; trans = ecm_eni_trans_parse (kv f ''trans'') in
          if trans = 0 then None
          else
           Option.bind (need_u32 f ''ccs'' 2) (\<lambda>ccs.
           if ccs \<noteq> 1 \<and> ccs \<noteq> 2 then None
           else
           Option.bind (need_u32 f ''index'' 0xFFFF) (\<lambda>ix.
           Option.bind (need_u32 f ''sub'' 0xFF) (\<lambda>sb.
           Option.bind (need_u32 f ''ca'' 1) (\<lambda>ca.
           Option.bind (need_u32 f ''timeout_ms'' 600000) (\<lambda>tmo.
           Option.bind (Option.bind (kv f ''data'') (\<lambda>d. hexbytes d ECM_ENI_MAX_DATA)) (\<lambda>dat.
           if ccs = 1 \<and> dat = [] then None
           else Some (eni\<lparr>en_coe := en_coe eni @ [\<lparr>ec_pos = ucast pos, ec_trans = trans, ec_ccs = ucast ccs,
             ec_index = ucast ix, ec_sub = ucast sb, ec_ca = (ca \<noteq> 0), ec_timeout_ms = tmo, ec_data = dat\<rparr>]\<rparr>))))))))"

section \<open>The text\<close>

text \<open>The configuration so far, the declared number of slaves, and whether the version was
  seen.\<close>

type_synonym eni_st = "ecm_eni \<times> int \<times> bool"

definition parse_pd_cmd :: "string \<Rightarrow> eni_pd_cmd option" where
  "parse_pd_cmd t = (if t = ''lrw'' then Some ECM_ENI_PD_LRW else if t = ''lrd_lwr'' then Some ECM_ENI_PD_LRD_LWR
     else if t = ''none'' then Some ECM_ENI_PD_NONE else None)"

definition parse_record :: "string list \<Rightarrow> eni_st \<Rightarrow> eni_st option" where
  "parse_record tok = (\<lambda>(eni, declared, have_version).
    let r = tok ! 0; n = length tok; keep = map_option (\<lambda>e. (e, declared, have_version)) in
    if r = ''enicfg'' then
      (if n \<noteq> 2 \<or> (tok ! 1 \<noteq> ''1'' \<and> tok ! 1 \<noteq> ''2'') then None
       else Some (eni\<lparr>en_version := (if tok ! 1 = ''1'' then 1 else 2)\<rparr>, declared, True))
    else if \<not> have_version then None
    else if r = ''source'' \<and> n \<ge> 2 then Some (eni\<lparr>en_source := fit 128 (tok ! 1)\<rparr>, declared, have_version)
    else if r = ''cycle_us'' \<and> n = 2 then keep (map_option (\<lambda>v. eni\<lparr>cycle_us := v\<rparr>) (parse_u32 (tok ! 1)))
    else if r = ''slaves'' \<and> n = 2 then
      (case parse_u32 (tok ! 1) of
         None \<Rightarrow> None
       | Some v \<Rightarrow> if v = 0 \<or> v > 64 then None else Some (eni, uint v, have_version))
    else if r = ''slave'' then keep (parse_slave tok eni)
    else if r = ''coe'' then keep (parse_coe tok eni)
    else if r = ''pdo'' \<and> en_version eni \<ge> 2 then keep (parse_pdo tok eni)
    else if r = ''reg'' \<and> en_version eni \<ge> 2 then keep (parse_reg tok eni)
    else if r = ''pd_cmd'' \<and> en_version eni \<ge> 2 \<and> n = 2
    then keep (map_option (\<lambda>c. eni\<lparr>pd_cmd := c\<rparr>) (parse_pd_cmd (tok ! 1)))
    else None)"

definition parse_line :: "string \<Rightarrow> eni_st \<Rightarrow> eni_st option" where
  "parse_line line st =
    (if length line \<ge> 1024 then None
     else
      let tok = tokenize MAXTOK line in
      if tok = [] \<or> take 1 (tok ! 0) = ''#'' then Some st else parse_record tok st)"

function parse_lines :: "string \<Rightarrow> eni_st \<Rightarrow> eni_st option" where
  "parse_lines p st =
    (if p = [] then Some st
     else (case parse_line (takeWhile (\<lambda>c. c \<noteq> CHR 0x0A) p) st of
             None \<Rightarrow> None
           | Some st' \<Rightarrow> parse_lines (drop 1 (dropWhile (\<lambda>c. c \<noteq> CHR 0x0A) p)) st'))"
  by pat_completeness auto
termination
proof (relation "measure (\<lambda>(p, st). length p)", goal_cases)
  case (2 p st st')
  then have "0 < length p" by simp
  moreover have "length (dropWhile (\<lambda>c. c \<noteq> CHR 0x0A) p) \<le> length p" by (rule length_dropWhile_le)
  ultimately have "length (dropWhile (\<lambda>c. c \<noteq> CHR 0x0A) p) - 1 < length p" by linarith
  then show ?case by simp
qed simp

declare parse_lines.simps [simp del]

definition pdo_bits :: "ecm_eni \<Rightarrow> nat \<Rightarrow> bool \<Rightarrow> u32" where
  "pdo_bits eni i d = sum_list (map (\<lambda>e. ucast (ep_bits e)) (filter (\<lambda>e. unat (ep_pos e) = i + 1 \<and> ep_in e = d) (en_pdo eni)))"

definition eni_final :: "ecm_eni \<Rightarrow> int \<Rightarrow> bool" where
  "eni_final eni declared \<longleftrightarrow>
    \<not> (en_version eni \<ge> 2 \<and> pd_cmd eni = ECM_ENI_PD_UNKNOWN) \<and>
    (en_pdo eni = [] \<or> list_all (\<lambda>i. pdo_bits eni i False = osize_bits (en_slave eni ! i) \<and>
       pdo_bits eni i True = isize_bits (en_slave eni ! i)) [0..<length (en_slave eni)]) \<and>
    declared = int (length (en_slave eni)) \<and>
    (let refs = length (filter es_refclock (en_slave eni)); dcs = length (filter es_dc (en_slave eni))
     in \<not> (refs > 1 \<or> (dcs \<noteq> 0 \<and> refs \<noteq> 1)))"

definition ecm_eni_parse_text :: "string \<Rightarrow> ecm_eni option" where
  "ecm_eni_parse_text txt =
    (case parse_lines txt (eni_zero, - 1, False) of
       None \<Rightarrow> None
     | Some (eni, declared, have_version) \<Rightarrow> if \<not> have_version \<or> \<not> eni_final eni declared then None else Some eni)"

text \<open>The file as the bytes that can be read from it, \<open>None\<close> when it cannot be opened; \<open>malloc\<close>
  is taken to succeed. \<open>fread\<close> asks for one byte less than 1 MiB, so it sees the end of the
  file only when the file is shorter than that.\<close>

definition ecm_eni_load :: "string option \<Rightarrow> ecm_eni option" where
  "ecm_eni_load file =
    (case file of
       None \<Rightarrow> None
     | Some b \<Rightarrow> if length b \<ge> 2 ^ 20 - 1 then None else ecm_eni_parse_text (takeWhile (\<lambda>c. c \<noteq> CHR 0x00) b))"

section \<open>Checks against the bus\<close>

record ecm_eni_found =
  ef_vendor :: u32
  ef_product :: u32
  ef_rev :: u32
  ef_obits :: u32
  ef_ibits :: u32

definition id_differs :: "ecm_eni_slave \<times> ecm_eni_found \<Rightarrow> bool" where
  "id_differs = (\<lambda>(e, f). ef_vendor f \<noteq> es_vendor e \<or> ef_product f \<noteq> es_product e \<or>
     (es_check_rev e \<and> ef_rev f \<noteq> es_rev e))"

definition ecm_eni_check_identity :: "ecm_eni \<Rightarrow> ecm_eni_found list \<Rightarrow> nat" where
  "ecm_eni_check_identity eni found =
    (if length found \<noteq> length (en_slave eni) then 1 else 0) + length (filter id_differs (zip (en_slave eni) found))"

definition layout_differs :: "ecm_eni_slave \<times> ecm_eni_found \<Rightarrow> bool" where
  "layout_differs = (\<lambda>(e, f). ef_obits f \<noteq> osize_bits e \<or> ef_ibits f \<noteq> isize_bits e)"

definition ecm_eni_check_layout :: "ecm_eni \<Rightarrow> ecm_eni_found list \<Rightarrow> nat" where
  "ecm_eni_check_layout eni found =
    (if length found \<noteq> length (en_slave eni) then 1 else 0) + length (filter layout_differs (zip (en_slave eni) found))"

definition ecm_eni_refclock :: "ecm_eni \<Rightarrow> nat" where
  "ecm_eni_refclock eni =
    (case find (\<lambda>i. es_refclock (en_slave eni ! i)) [0..<length (en_slave eni)] of None \<Rightarrow> 0 | Some i \<Rightarrow> i + 1)"

section \<open>What the ENI asks for and the master does itself\<close>

definition ecm_eni_cmd_name :: "u8 \<Rightarrow> string" where
  "ecm_eni_cmd_name c =
    (if unat c < 15
     then [''NOP'', ''APRD'', ''APWR'', ''APRW'', ''FPRD'', ''FPWR'', ''FPRW'', ''BRD'', ''BWR'', ''BRW'', ''LRD'', ''LWR'',
           ''LRW'', ''ARMW'', ''FRMW''] ! unat c
     else ''?'')"

datatype reg_kind = K_RD | K_WR | K_OTHER

definition cmd_kind :: "u8 \<Rightarrow> reg_kind" where
  "cmd_kind c = (if c \<in> {1, 4, 7} then K_RD else if c \<in> {2, 5, 8} then K_WR else K_OTHER)"

text \<open>Address, the kinds of access that are known, and whether only a zero write is.\<close>

definition KNOWN_REGS :: "(u16 \<times> reg_kind list \<times> bool) list" where
  "KNOWN_REGS =
    [(0x0010, [K_RD, K_WR], False), (0x0101, [K_WR], False), (0x0103, [K_WR], False), (0x0120, [K_WR], False),
     (0x0130, [K_RD], False), (0x0200, [K_WR], False), (0x0300, [K_WR], False), (0x0500, [K_WR], False),
     (0x0502, [K_RD, K_WR], False), (0x0508, [K_RD], False), (0x0600, [K_WR], False), (0x0610, [K_WR], False),
     (0x0620, [K_WR], False), (0x0630, [K_WR], False), (0x0800, [K_RD, K_WR], False), (0x0808, [K_WR], False),
     (0x0810, [K_WR], False), (0x0818, [K_WR], False), (0x0820, [K_WR], False), (0x0828, [K_WR], False),
     (0x0910, [K_WR], False), (0x0930, [K_WR], False), (0x0934, [K_WR], False), (0x0980, [K_WR], False),
     (0x0981, [K_WR], False), (0x0990, [K_WR], False), (0x09A0, [K_WR], False), (0x09A4, [K_WR], False),
     (0x09A8, [K_WR], True)]"

definition ecm_eni_reg_known :: "ecm_eni_reg \<Rightarrow> bool" where
  "ecm_eni_reg_known r =
    (case find (\<lambda>k. fst k = er_ado r) KNOWN_REGS of
       None \<Rightarrow> False
     | Some (ado, kinds, zero_only) \<Rightarrow>
         cmd_kind (er_cmd r) \<in> set kinds \<and>
         (zero_only \<and> cmd_kind (er_cmd r) = K_WR \<longrightarrow> list_all (\<lambda>b. b = 0) (er_data r)))"

definition le_u32 :: "u8 list \<Rightarrow> u32" where
  "le_u32 d = ucast (d ! 0) OR push_bit 8 (ucast (d ! 1)) OR push_bit 16 (ucast (d ! 2)) OR push_bit 24 (ucast (d ! 3))"

text \<open>The values a DC register write carries, each with the value of the slave record.\<close>

definition dc_pairs :: "ecm_eni_reg \<Rightarrow> ecm_eni_slave \<Rightarrow> (u32 \<times> u32) list" where
  "dc_pairs r s =
    (let d = er_data r; n = length d in
     if er_ado r = 0x0980 \<and> n \<ge> 2 then [(ucast (es_assign s), ucast (d ! 0) OR push_bit 8 (ucast (d ! 1)))]
     else if er_ado r = 0x09A0 \<and> n \<ge> 4
     then (sync0_ns s, le_u32 d) # (if n \<ge> 8 then [(sync1_ns s, le_u32 (drop 4 d))] else [])
     else if er_ado r = 0x09A4 \<and> n \<ge> 4 then [(sync1_ns s, le_u32 d)]
     else [])"

text \<open>The slave of a position is read without a check, as in the code: beyond the declared
  slaves the model has an unspecified one.\<close>

definition reg_dc_bad :: "ecm_eni \<Rightarrow> ecm_eni_reg \<Rightarrow> nat" where
  "reg_dc_bad eni r =
    (if er_pos r = 0 \<or> er_trans r AND ECM_ENI_T_PS = 0 \<or> cmd_kind (er_cmd r) \<noteq> K_WR then 0
     else
      let s = en_slave eni ! (unat (er_pos r) - 1) in
      if \<not> es_dc s then 0 else length (filter (\<lambda>(w, g). w \<noteq> g) (dc_pairs r s)))"

text \<open>Refusals and warnings.\<close>

definition ecm_eni_check_supported :: "ecm_eni \<Rightarrow> bool \<Rightarrow> nat \<times> nat" where
  "ecm_eni_check_supported eni allow =
    (let unknown = length (filter (\<lambda>r. \<not> ecm_eni_reg_known r) (en_reg eni))
     in ((if pd_cmd eni = ECM_ENI_PD_LRD_LWR then 1 else 0) + (if allow then 0 else unknown)
           + sum_list (map (reg_dc_bad eni) (en_reg eni)),
         (if en_version eni < 2 then 1 else 0) + (if allow then unknown else 0)))"

definition ecm_eni_state_timeout_ms :: "ecm_eni \<Rightarrow> int \<Rightarrow> u32" where
  "ecm_eni_state_timeout_ms eni st =
    (if st < 0 \<or> st \<ge> 3 then 0
     else fold (\<lambda>s m. if state_ms s (nat st) > m then state_ms s (nat st) else m) (en_slave eni) 0)"

section \<open>What a loaded configuration satisfies\<close>

definition slave_ok :: "nat \<Rightarrow> ecm_eni_slave \<Rightarrow> bool" where
  "slave_ok i s \<longleftrightarrow> unat (es_pos s) = i + 1 \<and> length (es_name s) < 64 \<and>
     (es_dc s \<longrightarrow> sync0_ns s \<noteq> 0 \<and> es_assign s \<noteq> 0) \<and> (es_refclock s \<longrightarrow> es_dc s) \<and>
     (\<forall>k. state_ms s k \<le> 600000)"

definition reg_ok :: "ecm_eni_reg \<Rightarrow> bool" where
  "reg_ok r \<longleftrightarrow> er_trans r \<noteq> 0 \<and> er_cmd r \<le> 14 \<and> length (er_data r) \<le> ECM_ENI_REG_DATA"

definition coe_ok :: "ecm_eni_coe \<Rightarrow> bool" where
  "coe_ok c \<longleftrightarrow> ec_trans c \<noteq> 0 \<and> ec_ccs c \<in> {1, 2} \<and> (ec_ccs c = 1 \<longrightarrow> ec_data c \<noteq> []) \<and>
     length (ec_data c) \<le> ECM_ENI_MAX_DATA \<and> ec_timeout_ms c \<le> 600000"

definition eni_inv :: "ecm_eni \<Rightarrow> bool" where
  "eni_inv e \<longleftrightarrow>
     length (en_slave e) \<le> ECM_ENI_MAX_SLAVES \<and> (\<forall>i<length (en_slave e). slave_ok i (en_slave e ! i)) \<and>
     length (en_reg e) \<le> ECM_ENI_MAX_REG \<and> (\<forall>r\<in>set (en_reg e). reg_ok r) \<and>
     length (en_pdo e) \<le> ECM_ENI_MAX_PDO \<and> (\<forall>p\<in>set (en_pdo e). ep_bits p \<noteq> 0) \<and>
     length (en_coe e) \<le> ECM_ENI_MAX_COE \<and> (\<forall>c\<in>set (en_coe e). coe_ok c)"

lemma need_u32_le: "need_u32 f key mx = Some v \<Longrightarrow> v \<le> mx"
  by (auto simp: need_u32_def not_less split: option.splits if_splits)

lemma opt_u32_le: "opt_u32 f key = Some v \<Longrightarrow> v \<le> 600000"
  by (auto simp: opt_u32_def not_less split: option.splits if_splits)

lemma hex_pairs_length: "hex_pairs s = Some d \<Longrightarrow> length s = 2 * length d"
  by (induction s arbitrary: d rule: hex_pairs.induct) (auto split: if_splits)

lemma hexbytes_length: "hexbytes s mx = Some d \<Longrightarrow> length d \<le> mx"
  using hex_pairs_length [of s d] by (auto simp: hexbytes_def split: if_splits)

lemma unat_ucast_fit: "unat v < 2 ^ LENGTH('b) \<Longrightarrow> unat (ucast v :: 'b::len word) = unat v" for v :: "'a::len word"
  by (simp add: unsigned_ucast_eq take_bit_nat_eq_self)

lemma position_next:
  fixes pos :: u32
  assumes "sint pos = int n + 1" and "pos \<le> 64"
  shows "unat (ucast pos :: u16) = n + 1" and "n < 64"
proof -
  have u: "unat pos \<le> 64" using assms(2) by (simp add: word_le_nat_alt)
  have "uint pos \<le> 64" using assms(2) by (simp add: word_le_def)
  then have "sint pos = uint pos"
    by (simp only: sint_uint) (rule signed_take_bit_int_eq_self; simp add: order_trans [OF _ uint_ge_0])
  moreover have "int (unat pos) = uint pos" by simp
  ultimately have n: "unat pos = n + 1" using assms(1) by linarith
  show "n < 64" using u n by simp
  show "unat (ucast pos :: u16) = n + 1" using u n by (simp add: unat_ucast_fit)
qed

lemma slave_fields_ok:
  assumes "slave_fields pos f = Some s"
  shows "es_pos s = ucast pos" and "length (es_name s) < 64" and "state_ms s k \<le> 600000"
proof -
  show "es_pos s = ucast pos" using assms by (auto simp: slave_fields_def bind_eq_Some_conv)
  show "length (es_name s) < 64"
    using assms fit_length [of 64] by (auto simp: slave_fields_def bind_eq_Some_conv less_Suc_eq_le fit_def)
  show "state_ms s k \<le> 600000"
    using assms by (auto simp: slave_fields_def bind_eq_Some_conv opt_u32_le)
qed

lemma parse_slave_inv:
  assumes "eni_inv e" and "parse_slave tok e = Some e'"
  shows "eni_inv e'"
proof -
  obtain pos s where p: "sint pos = int (length (en_slave e)) + 1" "pos \<le> 64" and f: "slave_fields pos (drop 2 tok) = Some s"
    and dc: "es_dc s \<longrightarrow> sync0_ns s \<noteq> 0 \<and> es_assign s \<noteq> 0" "es_refclock s \<longrightarrow> es_dc s"
    and e': "e' = e\<lparr>en_slave := en_slave e @ [s]\<rparr>"
    using assms(2) by (auto simp: parse_slave_def not_less split: option.splits if_splits)
  have "slave_ok (length (en_slave e)) s"
    using position_next [OF p] slave_fields_ok [OF f] dc by (simp add: slave_ok_def)
  then show ?thesis
    using assms(1) position_next(2) [OF p] unfolding e' by (auto simp: eni_inv_def nth_append less_Suc_eq)
qed

lemma ucast_cmd_le: "y \<le> 14 \<Longrightarrow> (ucast y :: u8) \<le> 14" for y :: u32
  by (simp add: word_le_nat_alt unat_ucast_fit)

lemma ucast_u16_nonzero: "(ucast y :: u16) \<noteq> 0" if "y \<le> 65535" "y \<noteq> 0" for y :: u32
proof -
  have "unat (ucast y :: u16) = unat y" using that(1) by (simp add: word_le_nat_alt unat_ucast_fit)
  then show ?thesis using that(2) by (metis unat_0 unat_eq_zero)
qed

lemma parse_reg_inv:
  assumes "eni_inv e" and "parse_reg tok e = Some e'"
  shows "eni_inv e'"
  using assms
  by (auto simp: parse_reg_def Let_def bind_eq_Some_conv not_le eni_inv_def reg_ok_def ucast_cmd_le
      split: option.splits if_splits dest!: need_u32_le hexbytes_length)

lemma parse_pdo_inv:
  assumes "eni_inv e" and "parse_pdo tok e = Some e'"
  shows "eni_inv e'"
  using assms
  by (auto simp: parse_pdo_def Let_def bind_eq_Some_conv not_le eni_inv_def ucast_u16_nonzero
      split: option.splits if_splits dest!: need_u32_le)

lemma parse_coe_inv:
  assumes "eni_inv e" and "parse_coe tok e = Some e'"
  shows "eni_inv e'"
  using assms
  by (auto simp: parse_coe_def Let_def bind_eq_Some_conv not_le eni_inv_def coe_ok_def
      split: option.splits if_splits dest!: need_u32_le hexbytes_length)

lemma parse_record_inv:
  assumes "eni_inv e" and "parse_record tok (e, d, v) = Some (e', d', v')"
  shows "eni_inv e'"
proof -
  have k: "eni_inv (e\<lparr>en_version := x\<rparr>)" "eni_inv (e\<lparr>en_source := y\<rparr>)" "eni_inv (e\<lparr>cycle_us := z\<rparr>)"
    "eni_inv (e\<lparr>pd_cmd := c\<rparr>)" for x y z c
    using assms(1) by (simp_all add: eni_inv_def)
  show ?thesis
    using assms k parse_slave_inv [OF assms(1)] parse_coe_inv [OF assms(1)] parse_pdo_inv [OF assms(1)]
      parse_reg_inv [OF assms(1)]
    by (simp add: parse_record_def Let_def split: if_splits option.splits) (auto split: if_splits)
qed

definition declared_ok :: "int \<Rightarrow> bool" where
  "declared_ok d \<longleftrightarrow> d = - 1 \<or> 0 < d"

lemma parse_record_declared:
  assumes "declared_ok d" and "parse_record tok (e, d, v) = Some (e', d', v')"
  shows "declared_ok d'"
proof -
  have u: "0 < uint x" if "x \<noteq> 0" for x :: u32 using that by (simp add: word_greater_zero_iff uint_0_iff order_less_le)
  have "d' = d \<or> (\<exists>x :: u32. x \<noteq> 0 \<and> d' = uint x)"
    using assms by (simp add: parse_record_def Let_def split: if_splits option.splits) auto
  then show ?thesis using assms(1) u by (auto simp: declared_ok_def)
qed

lemma parse_lines_inv:
  "parse_lines p (e, d, v) = Some (e', d', v') \<Longrightarrow> eni_inv e \<and> declared_ok d \<Longrightarrow> eni_inv e' \<and> declared_ok d'"
proof (induction p "(e, d, v)" arbitrary: e d v rule: parse_lines.induct)
  case (1 p)
  note st = 1(3)
  show ?case
  proof (cases "p = []")
    case True
    then show ?thesis using 1(2) st by (simp add: parse_lines.simps)
  next
    case False
    then obtain e1 d1 v1 where l: "parse_line (takeWhile (\<lambda>c. c \<noteq> CHR 0x0A) p) (e, d, v) = Some (e1, d1, v1)"
      using 1(2) by (auto simp: parse_lines.simps [of p] split: option.splits)
    have "eni_inv e1 \<and> declared_ok d1"
      using l st by (auto simp: parse_line_def Let_def split: if_splits dest: parse_record_inv parse_record_declared)
    then show ?thesis
      using 1(1) [OF False l] 1(2) l False by (simp add: parse_lines.simps [of p])
  qed
qed

lemma eni_inv_zero: "eni_inv eni_zero"
  by (simp add: eni_inv_def eni_zero_def)

lemma unique_index:
  assumes "length (filter P xs) = 1"
  obtains i where "i < length xs" and "\<And>j. j < length xs \<Longrightarrow> P (xs ! j) \<longleftrightarrow> j = i"
proof -
  have "card {i. i < length xs \<and> P (xs ! i)} = 1" using assms by (simp add: length_filter_conv_card)
  then obtain i where "{i. i < length xs \<and> P (xs ! i)} = {i}" by (rule card_1_singletonE)
  then show ?thesis using that [of i] by blast
qed

lemma find_upt_unique:
  assumes "i < n" and "\<And>j. j < n \<Longrightarrow> P j \<longleftrightarrow> j = i"
  shows "find P [0..<n] = Some i"
  using assms by (auto simp: find_Some_iff intro!: exI [of _ i])

lemma refclock_unique:
  assumes "length (filter es_refclock (en_slave e)) = 1"
  shows "ecm_eni_refclock e \<in> {1..length (en_slave e)}"
    and "i < length (en_slave e) \<Longrightarrow> es_refclock (en_slave e ! i) \<longleftrightarrow> i + 1 = ecm_eni_refclock e"
proof -
  obtain k where k: "k < length (en_slave e)"
    "\<And>j. j < length (en_slave e) \<Longrightarrow> es_refclock (en_slave e ! j) \<longleftrightarrow> j = k"
    using unique_index [OF assms] by blast
  have r: "ecm_eni_refclock e = k + 1"
    unfolding ecm_eni_refclock_def using find_upt_unique [of k "length (en_slave e)" "\<lambda>i. es_refclock (en_slave e ! i)"] k
    by simp
  show "ecm_eni_refclock e \<in> {1..length (en_slave e)}" using r k(1) by simp
  show "i < length (en_slave e) \<Longrightarrow> es_refclock (en_slave e ! i) \<longleftrightarrow> i + 1 = ecm_eni_refclock e"
    using r k(2) by simp
qed

lemma parse_text_parts:
  assumes "ecm_eni_parse_text txt = Some e"
  shows "eni_inv e" and "en_slave e \<noteq> []" and "eni_final e (int (length (en_slave e)))"
proof -
  obtain d v where p: "parse_lines txt (eni_zero, - 1, False) = Some (e, d, v)" and f: "eni_final e d"
    using assms by (auto simp: ecm_eni_parse_text_def split: option.splits if_splits)
  have i: "eni_inv e \<and> declared_ok d"
    using parse_lines_inv [OF p] eni_inv_zero by (simp add: declared_ok_def)
  have d: "d = int (length (en_slave e))" using f by (simp add: eni_final_def)
  show "eni_inv e" using i by simp
  show "en_slave e \<noteq> []" using i d by (auto simp: declared_ok_def)
  show "eni_final e (int (length (en_slave e)))" using f d by simp
qed

section \<open>A configuration text\<close>

definition lines_txt :: "string list \<Rightarrow> string" where
  "lines_txt ls = concat (map (\<lambda>l. l @ [CHR 0x0A]) ls)"

lemma parse_lines_Cons:
  assumes "CHR 0x0A \<notin> set l"
  shows "parse_lines (lines_txt (l # ls)) st = Option.bind (parse_line l st) (parse_lines (lines_txt ls))"
proof -
  have n: "\<And>x. x \<in> set l \<Longrightarrow> x \<noteq> CHR 0x0A" using assms by metis
  have t: "takeWhile (\<lambda>c. c \<noteq> CHR 0x0A) (l @ CHR 0x0A # r) = l" for r using n by (simp add: takeWhile_append2)
  have d: "dropWhile (\<lambda>c. c \<noteq> CHR 0x0A) (l @ CHR 0x0A # r) = CHR 0x0A # r" for r using n by (simp add: dropWhile_append2)
  show ?thesis
    by (subst parse_lines.simps) (simp add: lines_txt_def t d split: option.split)
qed

lemma parse_lines_Nil: "parse_lines (lines_txt []) st = Some st"
  by (simp add: lines_txt_def parse_lines.simps)

section \<open>Positions\<close>

text \<open>A line of a record that names a slave, with a position that is negative as a signed number.\<close>

definition stray_line :: "string \<Rightarrow> bool" where
  "stray_line l =
    (let tok = tokenize MAXTOK l in
     tok \<noteq> [] \<and> tok ! 0 \<in> {''reg'', ''pdo'', ''coe''} \<and>
     (case position tok of None \<Rightarrow> False | Some v \<Rightarrow> v \<ge> 0x80000000))"

definition pos_inv :: "ecm_eni \<Rightarrow> bool" where
  "pos_inv e \<longleftrightarrow> (\<forall>r\<in>set (en_reg e). unat (er_pos r) \<le> length (en_slave e)) \<and>
    (\<forall>p\<in>set (en_pdo e). unat (ep_pos p) \<in> {1..length (en_slave e)}) \<and>
    (\<forall>c\<in>set (en_coe e). unat (ec_pos c) \<in> {1..length (en_slave e)})"

lemma position_fits:
  fixes pos :: u32
  assumes "sint pos \<le> int n" and "pos < 0x80000000" and "n \<le> 64"
  shows "unat (ucast pos :: u16) \<le> n" and "pos \<noteq> 0 \<Longrightarrow> Suc 0 \<le> unat (ucast pos :: u16)"
proof -
  have "uint pos < 2147483648" using assms(2) by (simp add: word_less_def)
  then have "sint pos = uint pos"
    by (simp only: sint_uint) (rule signed_take_bit_int_eq_self; simp add: order_trans [OF _ uint_ge_0])
  moreover have "int (unat pos) = uint pos" by simp
  ultimately have u: "unat pos \<le> n" using assms(1) by linarith
  then have c: "unat (ucast pos :: u16) = unat pos" using assms(3) by (intro unat_ucast_fit) simp
  then show "unat (ucast pos :: u16) \<le> n" using u by simp
  show "pos \<noteq> 0 \<Longrightarrow> Suc 0 \<le> unat (ucast pos :: u16)" unfolding c using unat_gt_0 [of pos] by simp
qed

lemma parse_named_pos:
  assumes "eni_inv e" and "pos_inv e" and "\<And>v. position tok = Some v \<Longrightarrow> v < 0x80000000"
  shows "parse_reg tok e = Some e' \<Longrightarrow> pos_inv e'" and "parse_pdo tok e = Some e' \<Longrightarrow> pos_inv e'"
    and "parse_coe tok e = Some e' \<Longrightarrow> pos_inv e'"
proof -
  have n: "length (en_slave e) \<le> 64" using assms(1) by (simp add: eni_inv_def)
  note P = position_fits [OF _ assms(3) n]
  show "parse_reg tok e = Some e' \<Longrightarrow> pos_inv e'"
    using assms(2) P
    by (auto simp: parse_reg_def Let_def bind_eq_Some_conv pos_inv_def not_less split: option.splits if_splits)
  show "parse_pdo tok e = Some e' \<Longrightarrow> pos_inv e'"
    using assms(2) P
    by (auto simp: parse_pdo_def Let_def bind_eq_Some_conv pos_inv_def not_less split: option.splits if_splits)
  show "parse_coe tok e = Some e' \<Longrightarrow> pos_inv e'"
    using assms(2) P
    by (auto simp: parse_coe_def Let_def bind_eq_Some_conv pos_inv_def not_less split: option.splits if_splits)
qed

lemma parse_slave_pos: "pos_inv e \<Longrightarrow> parse_slave tok e = Some e' \<Longrightarrow> pos_inv e'"
  by (auto simp: parse_slave_def pos_inv_def le_Suc_eq split: option.splits if_splits)

lemma parse_record_pos:
  assumes "eni_inv e" and "pos_inv e" and "parse_record tok (e, d, v) = Some (e', d', v')"
    and ns: "tok ! 0 \<in> {''reg'', ''pdo'', ''coe''} \<Longrightarrow> case position tok of None \<Rightarrow> True | Some v \<Rightarrow> v < 0x80000000"
  shows "pos_inv e'"
proof -
  have k: "pos_inv (e\<lparr>en_version := x\<rparr>)" "pos_inv (e\<lparr>en_source := y\<rparr>)" "pos_inv (e\<lparr>cycle_us := z\<rparr>)"
    "pos_inv (e\<lparr>pd_cmd := c\<rparr>)" for x y z c
    using assms(2) by (simp_all add: pos_inv_def)
  note N = parse_named_pos [OF assms(1,2), of tok]
  have n: "parse_reg tok e = Some y \<Longrightarrow> pos_inv y" if "tok ! 0 = ''reg''" for y using N(1) ns that by (simp split: option.splits)
  have p: "parse_pdo tok e = Some y \<Longrightarrow> pos_inv y" if "tok ! 0 = ''pdo''" for y using N(2) ns that by (simp split: option.splits)
  have c: "parse_coe tok e = Some y \<Longrightarrow> pos_inv y" if "tok ! 0 = ''coe''" for y using N(3) ns that by (simp split: option.splits)
  show ?thesis
    using assms(2,3) k parse_slave_pos [OF assms(2)] n p c
    by (simp add: parse_record_def Let_def split: if_splits option.splits) (auto split: if_splits)
qed

lemma parse_lines_pos:
  assumes "parse_lines (lines_txt ls) (e, d, v) = Some (e', d', v')" and "list_all (\<lambda>l. CHR 0x0A \<notin> set l) ls"
    and "list_all (\<lambda>l. \<not> stray_line l) ls" and "eni_inv e" and "pos_inv e"
  shows "pos_inv e'"
  using assms
proof (induction ls arbitrary: e d v)
  case Nil
  then show ?case by (simp add: lines_txt_def parse_lines.simps)
next
  case (Cons l ls)
  then have "Option.bind (parse_line l (e, d, v)) (parse_lines (lines_txt ls)) = Some (e', d', v')"
    using parse_lines_Cons [of l ls "(e, d, v)"] by simp
  then obtain e1 d1 v1 where l: "parse_line l (e, d, v) = Some (e1, d1, v1)"
    and r: "parse_lines (lines_txt ls) (e1, d1, v1) = Some (e', d', v')"
    by (auto simp: bind_eq_Some_conv)
  have "\<not> stray_line l" using Cons.prems(3) by simp
  then have "eni_inv e1 \<and> pos_inv e1"
    using l Cons.prems(4,5) parse_record_inv [of e "tokenize MAXTOK l" d v e1 d1 v1]
      parse_record_pos [of e "tokenize MAXTOK l" d v e1 d1 v1]
    by (auto simp: parse_line_def stray_line_def Let_def not_le split: if_splits option.splits)
  then show ?case using Cons.IH [OF r] Cons.prems(2,3) by simp
qed

definition demo_head :: "string list" where
  "demo_head = [''enicfg 2'', ''pd_cmd lrw'', ''slaves 1'',
     ''slave 1 vendor 1 product 2 rev 3 check_rev 1 addr 1001 osize_bits 16 isize_bits 0 dc 1 refclock 1 sync0_ns 1000000 sync1_ns 0 assign 0x0300 shift_ns 0'',
     ''pdo 1 dir out pdo 0x1600 index 0x6040 sub 0 bits 16'']"

definition demo_reg :: string where "demo_reg = ''reg 1 trans PS cmd 5 ado 0x0980 len 2 data 0003''"

definition demo_slave :: ecm_eni_slave where
  "demo_slave = \<lparr>es_pos = 1, es_name = [], es_vendor = 1, es_product = 2, es_rev = 3, es_check_rev = True, es_addr = 1001,
     osize_bits = 16, isize_bits = 0, es_dc = True, es_refclock = True, sync0_ns = 1000000, sync1_ns = 0, shift_ns = 0,
     es_assign = 0x0300, state_ms = (\<lambda>_. 0)(0 := 0, 1 := 0, 2 := 0)\<rparr>"

definition demo_eni :: "u16 \<Rightarrow> ecm_eni" where
  "demo_eni pos = \<lparr>en_version = 2, en_source = [], cycle_us = 0, pd_cmd = ECM_ENI_PD_LRW,
     en_reg = [\<lparr>er_pos = pos, er_trans = 4, er_cmd = 5, er_ado = 0x0980, er_len = 2, er_data = [0, 3]\<rparr>],
     en_pdo = [\<lparr>ep_pos = 1, ep_in = False, ep_pdo = 0x1600, ep_index = 0x6040, ep_sub = 0, ep_bits = 16\<rparr>],
     en_slave = [demo_slave], en_coe = []\<rparr>"

lemma tokenize_numeral:
  "tokenize (numeral k) p = (case dropWhile isspace p of
       [] \<Rightarrow> []
     | c # cs \<Rightarrow>
         if c = CHR 0x22
         then takeWhile (\<lambda>x. x \<noteq> CHR 0x22) cs # tokenize (pred_numeral k) (drop 1 (dropWhile (\<lambda>x. x \<noteq> CHR 0x22) cs))
         else takeWhile (\<lambda>x. \<not> isspace x) (c # cs) # tokenize (pred_numeral k) (drop 1 (dropWhile (\<lambda>x. \<not> isspace x) (c # cs))))"
  by (simp add: numeral_eq_Suc)

lemmas eni_eval = parse_line_def parse_record_def parse_pd_cmd_def tokenize_numeral isspace_def
  parse_u32_def parse_i32_def strtoul_def strtol_def strto_core_def take_sign_def take_base_def is_digit_def
  digit_val_def char_code_def need_u32_def opt_u32_def position_def hexbytes_def

lemma demo_slave_line:
  "parse_slave (tokenize 48 (demo_head ! 3)) e = (if en_slave e = [] then Some (e\<lparr>en_slave := [demo_slave]\<rparr>) else None)"
  by (simp add: eni_eval demo_head_def parse_slave_def slave_fields_def demo_slave_def fit_def)

lemma demo_head_parse:
  "parse_lines (lines_txt (demo_head @ ls)) (eni_zero, - 1, False) =
   parse_lines (lines_txt ls) ((demo_eni 0)\<lparr>en_reg := []\<rparr>, 1, True)"
proof -
  have "tokenize 48 (demo_head ! 3) ! 0 = ''slave''" "length (demo_head ! 3) < 1024" "tokenize 48 (demo_head ! 3) \<noteq> []"
    by (simp_all add: demo_head_def tokenize_numeral isspace_def)
  then have s: "parse_line (demo_head ! 3) (e, d, True) =
     (if en_slave e = [] then Some (e\<lparr>en_slave := [demo_slave]\<rparr>, d, True) else None)" for e d
    by (simp add: parse_line_def parse_record_def Let_def demo_slave_line)
  have l: "parse_line ''enicfg 2'' (eni_zero, - 1, False) = Some (eni_zero\<lparr>en_version := 2\<rparr>, - 1, True)"
    "parse_line ''pd_cmd lrw'' (eni_zero\<lparr>en_version := 2\<rparr>, - 1, True) =
       Some (eni_zero\<lparr>en_version := 2, pd_cmd := ECM_ENI_PD_LRW\<rparr>, - 1, True)"
    "parse_line ''slaves 1'' (e, - 1, True) = Some (e, 1, True)" for e
    by (simp_all add: eni_eval)
  have d: "parse_line (demo_head ! 4) (eni_zero\<lparr>en_version := 2, pd_cmd := ECM_ENI_PD_LRW, en_slave := [demo_slave]\<rparr>, 1, True)
     = Some ((demo_eni 0)\<lparr>en_reg := []\<rparr>, 1, True)"
    by (simp add: eni_eval parse_pdo_def demo_head_def demo_eni_def eni_zero_def)
  have h: "demo_head @ ls = ''enicfg 2'' # ''pd_cmd lrw'' # ''slaves 1'' # demo_head ! 3 # demo_head ! 4 # ls"
    by (simp add: demo_head_def)
  have n: "CHR 0x0A \<notin> set (demo_head ! 3)" "CHR 0x0A \<notin> set (demo_head ! 4)" by (simp_all add: demo_head_def)
  show ?thesis
    unfolding h by (simp add: parse_lines_Cons n l s d) (simp add: eni_zero_def d [unfolded eni_zero_def])
qed

lemma demo_reg_line:
  "parse_line demo_reg ((demo_eni 0)\<lparr>en_reg := []\<rparr>, 1, True) = Some (demo_eni 1, 1, True)"
  by (simp add: eni_eval parse_reg_def demo_reg_def demo_eni_def ecm_eni_trans_parse_def
      strtok_all.simps TRANS_NAMES_def)

lemma demo_final: "eni_final (demo_eni p) 1"
  by (simp add: eni_final_def demo_eni_def demo_slave_def pdo_bits_def)

lemma demo_parse: "ecm_eni_parse_text (lines_txt (demo_head @ [demo_reg])) = Some (demo_eni 1)"
proof -
  have n: "CHR 0x0A \<notin> set demo_reg" by (simp add: demo_reg_def)
  show ?thesis
    by (simp add: ecm_eni_parse_text_def demo_head_parse parse_lines_Cons n demo_reg_line parse_lines_Nil demo_final)
qed

section \<open>Properties\<close>

text \<open>C18. A configuration text that loads is well formed: there is at least one slave and at
  most 64, the slaves are numbered 1, 2, ... in the order of the file, a DC slave has a
  SYNC0 cycle and an AssignActivate word, every array is within its capacity, every CoE
  download carries data, the PDO entries, when there are any, add up to the sizes of the
  slave records, and with DC there is exactly one reference clock, the position that
  \<open>ecm_eni_refclock\<close> returns, itself a DC slave; without DC it returns 0.
\<close>

theorem eni_parse_wf:
  assumes "ecm_eni_parse_text txt = Some e"
  shows "eni_inv e \<and> en_slave e \<noteq> [] \<and> (en_version e \<ge> 2 \<longrightarrow> pd_cmd e \<noteq> ECM_ENI_PD_UNKNOWN) \<and>
    (en_pdo e \<noteq> [] \<longrightarrow> (\<forall>i<length (en_slave e). pdo_bits e i False = osize_bits (en_slave e ! i) \<and>
       pdo_bits e i True = isize_bits (en_slave e ! i))) \<and>
    (if \<exists>s\<in>set (en_slave e). es_dc s
     then ecm_eni_refclock e \<in> {1..length (en_slave e)} \<and> es_dc (en_slave e ! (ecm_eni_refclock e - 1)) \<and>
       (\<forall>i<length (en_slave e). es_refclock (en_slave e ! i) \<longleftrightarrow> i + 1 = ecm_eni_refclock e)
     else ecm_eni_refclock e = 0)"
proof -
  note p = parse_text_parts [OF assms]
  have rd: "es_dc (en_slave e ! i)" if "i < length (en_slave e)" "es_refclock (en_slave e ! i)" for i
    using p(1) that by (auto simp: eni_inv_def slave_ok_def)
  have "if \<exists>s\<in>set (en_slave e). es_dc s
     then ecm_eni_refclock e \<in> {1..length (en_slave e)} \<and> es_dc (en_slave e ! (ecm_eni_refclock e - 1)) \<and>
       (\<forall>i<length (en_slave e). es_refclock (en_slave e ! i) \<longleftrightarrow> i + 1 = ecm_eni_refclock e)
     else ecm_eni_refclock e = 0"
  proof (cases "\<exists>s\<in>set (en_slave e). es_dc s")
    case True
    then have "length (filter es_refclock (en_slave e)) = 1"
      using p(3) by (auto simp: eni_final_def Let_def filter_empty_conv)
    note u = refclock_unique [OF this]
    have "es_refclock (en_slave e ! (ecm_eni_refclock e - 1))" using u(1) u(2) [of "ecm_eni_refclock e - 1"] by auto
    then have "es_dc (en_slave e ! (ecm_eni_refclock e - 1))" using rd u(1) by auto
    then show ?thesis using True u by simp
  next
    case False
    have "\<not> es_refclock (en_slave e ! i)" if "i < length (en_slave e)" for i
      using False rd that nth_mem by blast
    then have "find (\<lambda>i. es_refclock (en_slave e ! i)) [0..<length (en_slave e)] = None"
      by (auto simp: find_None_iff)
    then show ?thesis using False by (simp add: ecm_eni_refclock_def)
  qed
  moreover have "en_version e \<ge> 2 \<longrightarrow> pd_cmd e \<noteq> ECM_ENI_PD_UNKNOWN" using p(3) by (auto simp: eni_final_def)
  moreover have "en_pdo e \<noteq> [] \<longrightarrow> (\<forall>i<length (en_slave e). pdo_bits e i False = osize_bits (en_slave e ! i) \<and>
       pdo_bits e i True = isize_bits (en_slave e ! i))"
    using p(3) by (auto simp: eni_final_def list_all_iff)
  ultimately show ?thesis using p(1,2) by blast
qed

theorem eni_parse_wf_witness:
  "ecm_eni_parse_text (lines_txt (demo_head @ [demo_reg])) = Some (demo_eni 1) \<and> eni_inv (demo_eni 1) \<and>
   ecm_eni_refclock (demo_eni 1) = 1 \<and> pdo_bits (demo_eni 1) 0 False = 16"
  using eni_parse_wf [OF demo_parse] demo_parse by (simp add: demo_eni_def demo_slave_def)

text \<open>C19. The two checks against the bus pass exactly when the bus has the slaves of the file,
  in order: same vendor and product, same revision where the file asks for it, and the
  same number of output and input bits.
\<close>

theorem eni_bus_match:
  "ecm_eni_check_identity e found = 0 \<and> ecm_eni_check_layout e found = 0 \<longleftrightarrow>
   list_all2 (\<lambda>s f. ef_vendor f = es_vendor s \<and> ef_product f = es_product s \<and> (es_check_rev s \<longrightarrow> ef_rev f = es_rev s) \<and>
     ef_obits f = osize_bits s \<and> ef_ibits f = isize_bits s) (en_slave e) found"
  by (auto simp: ecm_eni_check_identity_def ecm_eni_check_layout_def list_all2_iff filter_empty_conv id_differs_def
      layout_differs_def)

theorem eni_bus_match_witness:
  "ecm_eni_check_identity (demo_eni 1) [\<lparr>ef_vendor = 1, ef_product = 2, ef_rev = 3, ef_obits = 16, ef_ibits = 0\<rparr>] = 0 \<and>
   \<not> (ecm_eni_check_identity (demo_eni 1) [\<lparr>ef_vendor = 1, ef_product = 2, ef_rev = 4, ef_obits = 16, ef_ibits = 0\<rparr>] = 0 \<and>
      ecm_eni_check_layout (demo_eni 1) [\<lparr>ef_vendor = 1, ef_product = 2, ef_rev = 4, ef_obits = 16, ef_ibits = 0\<rparr>] = 0)"
  using eni_bus_match [of "demo_eni 1" "[\<lparr>ef_vendor = 1, ef_product = 2, ef_rev = 3, ef_obits = 16, ef_ibits = 0\<rparr>]"]
    eni_bus_match [of "demo_eni 1" "[\<lparr>ef_vendor = 1, ef_product = 2, ef_rev = 4, ef_obits = 16, ef_ibits = 0\<rparr>]"]
  by (simp add: demo_eni_def demo_slave_def)

lemma sum_list_zero_iff: "sum_list (map f xs) = (0 :: nat) \<longleftrightarrow> (\<forall>x\<in>set xs. f x = 0)"
  by (induction xs) auto

text \<open>C20. With unknown register commands not allowed, a configuration whose register commands
  name declared slaves is accepted exactly when its process data do not use LRD/LWR,
  every register command is one the master performs itself, and every PREOP to SAFEOP
  write of the AssignActivate, SYNC0 or SYNC1 registers of a DC slave carries the value of
  the slave record that the master will apply.
\<close>

theorem eni_supported_exact:
  assumes "\<forall>r\<in>set (en_reg e). unat (er_pos r) \<le> length (en_slave e)"
  shows "fst (ecm_eni_check_supported e False) = 0 \<longleftrightarrow>
    pd_cmd e \<noteq> ECM_ENI_PD_LRD_LWR \<and> (\<forall>r\<in>set (en_reg e). ecm_eni_reg_known r) \<and>
    (\<forall>i s r. i < length (en_slave e) \<and> s = en_slave e ! i \<and> es_dc s \<and> r \<in> set (en_reg e) \<and> unat (er_pos r) = i + 1 \<and>
       er_trans r AND ECM_ENI_T_PS \<noteq> 0 \<and> er_cmd r \<in> {2, 5, 8} \<longrightarrow>
       (er_ado r = 0x0980 \<and> 2 \<le> length (er_data r) \<longrightarrow>
          ucast (er_data r ! 0) OR push_bit 8 (ucast (er_data r ! 1)) = (ucast (es_assign s) :: u32)) \<and>
       (er_ado r = 0x09A0 \<and> 4 \<le> length (er_data r) \<longrightarrow> le_u32 (er_data r) = sync0_ns s) \<and>
       (er_ado r = 0x09A0 \<and> 8 \<le> length (er_data r) \<longrightarrow> le_u32 (drop 4 (er_data r)) = sync1_ns s) \<and>
       (er_ado r = 0x09A4 \<and> 4 \<le> length (er_data r) \<longrightarrow> le_u32 (er_data r) = sync1_ns s))"
    (is "?l = (?a \<and> ?b \<and> ?c)")
proof -
  have k: "cmd_kind c = K_WR \<longleftrightarrow> c \<in> {2, 5, 8}" for c by (auto simp: cmd_kind_def)
  have "?l \<longleftrightarrow> ?a \<and> ?b \<and> (\<forall>r\<in>set (en_reg e). reg_dc_bad e r = 0)"
    by (auto simp: ecm_eni_check_supported_def Let_def sum_list_zero_iff filter_empty_conv)
  moreover have "(\<forall>r\<in>set (en_reg e). reg_dc_bad e r = 0) \<longleftrightarrow> ?c"
  proof (intro iffI allI impI ballI, goal_cases)
    case (1 i s r)
    then have "reg_dc_bad e r = 0" and p: "er_pos r \<noteq> 0" "unat (er_pos r) - 1 = i" by auto
    then show ?case
      using 1(2) by (auto simp: reg_dc_bad_def k Let_def dc_pairs_def filter_empty_conv split: if_splits)
  next
    case (2 r)
    show ?case
    proof (cases "er_pos r = 0")
      case True
      then show ?thesis by (simp add: reg_dc_bad_def)
    next
      case False
      then have "unat (er_pos r) - 1 < length (en_slave e)" "unat (er_pos r) = (unat (er_pos r) - 1) + 1"
        using assms 2(2) unat_gt_0 [of "er_pos r"] by force+
      then show ?thesis
        using 2 by (auto simp: reg_dc_bad_def k Let_def dc_pairs_def)
    qed
  qed
  ultimately show ?thesis by blast
qed

theorem eni_supported_exact_witness:
  "list_all (\<lambda>r. unat (er_pos r) \<le> length (en_slave (demo_eni 1))) (en_reg (demo_eni 1)) \<and>
   fst (ecm_eni_check_supported (demo_eni 1) False) = 0"
proof -
  have h: "\<forall>r\<in>set (en_reg (demo_eni 1)). unat (er_pos r) \<le> length (en_slave (demo_eni 1))"
    by (simp add: demo_eni_def)
  have "fst (ecm_eni_check_supported (demo_eni 1) False) = 0"
    unfolding eni_supported_exact [OF h]
    by (simp add: demo_eni_def demo_slave_def ecm_eni_reg_known_def KNOWN_REGS_def cmd_kind_def)
  then show ?thesis using h by (simp add: list_all_iff)
qed

text \<open>C21. Where a loaded configuration points: the register commands, PDO entries and CoE commands
  of a file name slaves the file declares (a register command may also be one of the
  master, position 0), provided no such line has a position of \<open>2\<^sup>3\<^sup>1\<close> or more. So the DC check of
  \<open>ecm_eni_check_supported\<close> indexes only declared slaves. The proviso is needed: the code compares
  the position as a signed number, so a larger one passes and is cut to 16 bits.\<close>

theorem eni_positions_declared:
  assumes "ecm_eni_parse_text (lines_txt ls) = Some e" and "list_all (\<lambda>l. CHR 0x0A \<notin> set l) ls"
    and "list_all (\<lambda>l. \<not> stray_line l) ls"
  shows "(\<forall>r\<in>set (en_reg e). unat (er_pos r) \<le> length (en_slave e)) \<and>
    (\<forall>p\<in>set (en_pdo e). unat (ep_pos p) \<in> {1..length (en_slave e)}) \<and>
    (\<forall>c\<in>set (en_coe e). unat (ec_pos c) \<in> {1..length (en_slave e)})"
proof -
  obtain d v where "parse_lines (lines_txt ls) (eni_zero, - 1, False) = Some (e, d, v)"
    using assms(1) by (auto simp: ecm_eni_parse_text_def split: option.splits if_splits)
  moreover have "pos_inv eni_zero" by (simp add: pos_inv_def eni_zero_def)
  ultimately have "pos_inv e" using parse_lines_pos assms(2,3) eni_inv_zero by blast
  then show ?thesis by (simp add: pos_inv_def)
qed

theorem eni_positions_declared_witness:
  "list_all (\<lambda>l. \<not> stray_line l) (demo_head @ [demo_reg]) \<and>
   ecm_eni_parse_text (lines_txt (demo_head @ [demo_reg])) = Some (demo_eni 1) \<and>
   list_all (\<lambda>r. unat (er_pos r) \<le> 1) (en_reg (demo_eni 1))"
proof -
  have n: "list_all (\<lambda>l. CHR 0x0A \<notin> set l) (demo_head @ [demo_reg])" by (simp add: demo_head_def demo_reg_def)
  have t: "list_all (\<lambda>l. \<not> stray_line l) (demo_head @ [demo_reg])"
    by (simp add: demo_head_def demo_reg_def stray_line_def eni_eval word_le_nat_alt)
  have "length (en_slave (demo_eni 1)) = 1" by (simp add: demo_eni_def)
  then show ?thesis using eni_positions_declared [OF demo_parse n t] demo_parse t by (simp add: list_all_iff)
qed

end
