(* ===== verification/Mailbox.thy ===== *)
theory Mailbox
  imports Fifo
begin

text \<open>
  The SDO mailbox (\<open>libecmaster/mailbox/ecm_mailbox.c\<close>): the bounded job queue between the
  callers and the worker, the worker loop, the blocking calls, and the choice of the
  slaves that get a cyclic mailbox. SOEM's \<open>ecx_SDOread\<close> and \<open>ecx_SDOwrite\<close> are a parameter.

  A job lives in the stack frame of the call that waits for it; the queue holds the
  address of the frame. A frame is named by its caller, and a run of the system is a list
  of events: the atomic steps of callers and worker, each a section under a mutex.
\<close>

section \<open>Jobs and the queue\<close>

abbreviation (input) ECM_MBX_MAX_DATA :: nat where "ECM_MBX_MAX_DATA \<equiv> 256"
abbreviation (input) ECM_MBX_JOB_QUEUE_LEN :: nat where "ECM_MBX_JOB_QUEUE_LEN \<equiv> 32"

datatype job_op = JOB_SDO_READ | JOB_SDO_WRITE

record ecm_mbx_job =
  jb_op :: job_op
  jb_slave :: u16
  jb_index :: u16
  jb_subindex :: u8
  jb_ca :: bool
  jb_timeout_us :: int
  jb_data :: "u8 list"
  jb_size :: int
  jb_wkc :: int
  jb_failed :: bool
  jb_done :: bool

record ecm_mbx_queue =
  mq_slots :: "nat \<Rightarrow> nat"
  mq_head :: nat
  mq_tail :: nat
  mq_count :: nat

definition queue_init :: ecm_mbx_queue where
  "queue_init = \<lparr>mq_slots = (\<lambda>_. 0), mq_head = 0, mq_tail = 0, mq_count = 0\<rparr>"

definition queue_push :: "nat \<Rightarrow> ecm_mbx_queue \<Rightarrow> ecm_mbx_queue \<times> bool" where
  "queue_push job q =
    (if mq_count q \<ge> ECM_MBX_JOB_QUEUE_LEN then (q, False)
     else (q\<lparr>mq_slots := (mq_slots q)(mq_tail q := job), mq_tail := (mq_tail q + 1) mod ECM_MBX_JOB_QUEUE_LEN,
              mq_count := mq_count q + 1\<rparr>, True))"

text \<open>What the pop finds once its wait, if there was one, is over.\<close>

definition queue_pop :: "ecm_mbx_queue \<Rightarrow> (nat \<times> ecm_mbx_queue) option" where
  "queue_pop q =
    (if mq_count q > 0
     then Some (mq_slots q (mq_head q),
                q\<lparr>mq_head := (mq_head q + 1) mod ECM_MBX_JOB_QUEUE_LEN, mq_count := mq_count q - 1\<rparr>)
     else None)"

definition mq_inv :: "ecm_mbx_queue \<Rightarrow> bool" where
  "mq_inv q \<longleftrightarrow> mq_head q < 32 \<and> mq_count q \<le> 32 \<and> mq_tail q = (mq_head q + mq_count q) mod 32"

definition mq_cont :: "ecm_mbx_queue \<Rightarrow> nat list" where
  "mq_cont q = map (\<lambda>k. mq_slots q ((mq_head q + k) mod 32)) [0..<mq_count q]"

lemma mq_cont_push:
  assumes "mq_inv q" and "mq_count q < 32"
  shows "mq_cont (fst (queue_push x q)) = mq_cont q @ [x]"
proof -
  have "(mq_head q + k) mod 32 \<noteq> mq_tail q" if "k < mq_count q" for k
    using ring_slot_distinct [OF that assms(2)] assms(1) by (simp add: mq_inv_def)
  then show ?thesis using assms by (simp add: mq_cont_def queue_push_def mq_inv_def)
qed

lemma mq_cont_pop:
  assumes "mq_inv q" and "queue_pop q = Some (x, q')"
  shows "mq_inv q'" and "mq_cont q = x # mq_cont q'"
proof -
  obtain c where c: "mq_count q = Suc c"
    using assms(2) by (cases "mq_count q") (auto simp: queue_pop_def)
  have q': "q' = q\<lparr>mq_head := (mq_head q + 1) mod 32, mq_count := c\<rparr>" and x: "x = mq_slots q (mq_head q)"
    using assms(2) c by (auto simp: queue_pop_def)
  show "mq_inv q'" using assms(1) c by (simp add: mq_inv_def q' mod_simps)
  have "map (\<lambda>k. mq_slots q ((mq_head q + k) mod 32)) [0..<Suc c]
      = mq_slots q (mq_head q mod 32) # map (\<lambda>k. mq_slots q ((mq_head q + Suc k) mod 32)) [0..<c]"
    by (simp add: upt_rec [of 0] map_Suc_upt [symmetric] comp_def del: upt_Suc)
  then show "mq_cont q = x # mq_cont q'"
    using assms(1) c by (simp add: mq_cont_def q' x mq_inv_def mod_simps del: upt_Suc)
qed

interpretation mbq: bounded_fifo mq_inv mq_cont 32 queue_push queue_pop
proof
  fix q q' :: ecm_mbx_queue and x
  assume inv: "mq_inv q"
  show "length (mq_cont q) \<le> 32" using inv by (simp add: mq_cont_def mq_inv_def)
  show "snd (queue_push x q) \<longleftrightarrow> length (mq_cont q) < 32" by (simp add: queue_push_def mq_cont_def)
  show "mq_cont (fst (queue_push x q)) = (if length (mq_cont q) < 32 then mq_cont q @ [x] else mq_cont q)"
    using mq_cont_push [OF inv] by (simp add: mq_cont_def queue_push_def)
  show "mq_inv (fst (queue_push x q))" using inv by (auto simp: queue_push_def mq_inv_def mod_simps)
  show "queue_pop q = None \<longleftrightarrow> mq_cont q = []" by (simp add: queue_pop_def mq_cont_def)
  assume "queue_pop q = Some (x, q')"
  then show "mq_inv q' \<and> mq_cont q = x # mq_cont q'" using mq_cont_pop [OF inv] by blast
qed

section \<open>Calls\<close>

text \<open>The arguments of \<open>ecm_mailbox_sdo_read\<close> and \<open>ecm_mailbox_sdo_write\<close>. Sizes are not negative:
  \<open>memcpy\<close> with a negative size has no meaning.\<close>

record mbx_req =
  rq_op :: job_op
  rq_slave :: u16
  rq_index :: u16
  rq_subindex :: u8
  rq_ca :: bool
  rq_size :: nat
  rq_data :: "u8 list"
  rq_timeout_us :: nat

definition new_job :: "mbx_req \<Rightarrow> ecm_mbx_job" where
  "new_job rq = \<lparr>jb_op = rq_op rq, jb_slave = rq_slave rq, jb_index = rq_index rq, jb_subindex = rq_subindex rq,
     jb_ca = rq_ca rq, jb_timeout_us = int (rq_timeout_us rq),
     jb_data = (case rq_op rq of JOB_SDO_READ \<Rightarrow> replicate 256 0
                | JOB_SDO_WRITE \<Rightarrow> take (rq_size rq) (rq_data rq) @ replicate (256 - rq_size rq) 0),
     jb_size = int (rq_size rq), jb_wkc = 0, jb_failed = False, jb_done = False\<rparr>"

text \<open>SOEM's answer to a job: working counter, size and bytes of a read.\<close>

type_synonym soem_sdo = "ecm_mbx_job \<Rightarrow> int \<times> int \<times> u8 list"

definition execute_job :: "soem_sdo \<Rightarrow> ecm_mbx_job \<Rightarrow> ecm_mbx_job" where
  "execute_job sdo job =
    (let (w, n, bs) = sdo job;
         job = (if jb_op job = JOB_SDO_READ
                then job\<lparr>jb_wkc := w, jb_size := n, jb_data := bs @ drop (length bs) (jb_data job)\<rparr>
                else job\<lparr>jb_wkc := w\<rparr>)
     in job\<lparr>jb_failed := (jb_wkc job \<le> 0)\<rparr>)"

definition job_signal_done :: "ecm_mbx_job \<Rightarrow> ecm_mbx_job" where
  "job_signal_done job = job\<lparr>jb_done := True\<rparr>"

text \<open>The return value once the job is done, with the bytes copied out.\<close>

definition sdo_return :: "ecm_mbx_job \<Rightarrow> int \<times> u8 list" where
  "sdo_return job =
    (if jb_failed job then (- 4, [])
     else (0, if jb_op job = JOB_SDO_READ then take (nat (jb_size job)) (jb_data job) else []))"

text \<open>The absolute time of the wait, as seconds and nanoseconds.\<close>

definition wait_until :: "int \<times> int \<Rightarrow> int \<Rightarrow> int \<times> int" where
  "wait_until ts timeout_us =
    (let extra_ns = timeout_us * 1000 + 500 * 1000 * 1000;
         s = fst ts + extra_ns sdiv 1000000000;
         n = snd ts + extra_ns smod 1000000000
     in if n \<ge> 1000000000 then (s + 1, n - 1000000000) else (s, n))"

definition ts_ns :: "int \<times> int \<Rightarrow> int" where "ts_ns ts = fst ts * 1000000000 + snd ts"

section \<open>Callers and worker\<close>

datatype caller = CIdle | CWait mbx_req int | CRet mbx_req int "u8 list"

datatype worker = WIdle | WExec nat int | WSig nat

record mbx_sys =
  sy_queue :: ecm_mbx_queue
  sy_frame :: "nat \<Rightarrow> ecm_mbx_job"
  sy_caller :: "nat \<Rightarrow> caller"
  sy_worker :: worker
  sy_clk :: int

text \<open>A call up to its wait: the size check, the job, the push and the deadline.\<close>

definition submit :: "nat \<Rightarrow> mbx_req \<Rightarrow> mbx_sys \<Rightarrow> mbx_sys" where
  "submit i rq s =
    (if rq_size rq > ECM_MBX_MAX_DATA then s\<lparr>sy_caller := (sy_caller s)(i := CRet rq (- 3) [])\<rparr>
     else
      let (q, ok) = queue_push i (sy_queue s); s = s\<lparr>sy_frame := (sy_frame s)(i := new_job rq)\<rparr> in
      if \<not> ok then s\<lparr>sy_caller := (sy_caller s)(i := CRet rq (- 1) [])\<rparr>
      else s\<lparr>sy_queue := q, sy_caller := (sy_caller s)(i := CWait rq
             (ts_ns (wait_until (sy_clk s div 1000000000, sy_clk s mod 1000000000) (int (rq_timeout_us rq)))))\<rparr>)"

datatype mbx_ev = ECall nat mbx_req | EPop | EExec nat | ESignal | EWake nat | ETimeout nat | ETick nat

text \<open>One event; \<open>None\<close> when it cannot happen. The \<open>k\<close>-th answer of SOEM is \<open>sdo k\<close>.\<close>

fun mbx_step :: "(nat \<Rightarrow> soem_sdo) \<Rightarrow> mbx_ev \<Rightarrow> mbx_sys \<Rightarrow> mbx_sys option" where
  "mbx_step sdo (ECall i rq) s = (case sy_caller s i of CWait _ _ \<Rightarrow> None | _ \<Rightarrow> Some (submit i rq s))"
| "mbx_step sdo EPop s =
    (case sy_worker s of
       WIdle \<Rightarrow> (case queue_pop (sy_queue s) of
                   None \<Rightarrow> Some s
                 | Some (j, q) \<Rightarrow> Some (s\<lparr>sy_queue := q, sy_worker := WExec j (sy_clk s)\<rparr>))
     | _ \<Rightarrow> None)"
| "mbx_step sdo (EExec k) s =
    (case sy_worker s of
       WExec j t \<Rightarrow> Some (s\<lparr>sy_frame := (sy_frame s)(j := execute_job (sdo k) (sy_frame s j)), sy_worker := WSig j\<rparr>)
     | _ \<Rightarrow> None)"
| "mbx_step sdo ESignal s =
    (case sy_worker s of
       WSig j \<Rightarrow> Some (s\<lparr>sy_frame := (sy_frame s)(j := job_signal_done (sy_frame s j)), sy_worker := WIdle\<rparr>)
     | _ \<Rightarrow> None)"
| "mbx_step sdo (EWake i) s =
    (case sy_caller s i of
       CWait rq d \<Rightarrow> if jb_done (sy_frame s i)
         then Some (s\<lparr>sy_caller := (sy_caller s)(i := CRet rq (fst (sdo_return (sy_frame s i))) (snd (sdo_return (sy_frame s i))))\<rparr>)
         else None
     | _ \<Rightarrow> None)"
| "mbx_step sdo (ETimeout i) s =
    (case sy_caller s i of
       CWait rq d \<Rightarrow> if d \<le> sy_clk s then Some (s\<lparr>sy_caller := (sy_caller s)(i := CRet rq (- 2) [])\<rparr>) else None
     | _ \<Rightarrow> None)"
| "mbx_step sdo (ETick n) s = Some (s\<lparr>sy_clk := sy_clk s + int n\<rparr>)"

fun mbx_run :: "(nat \<Rightarrow> soem_sdo) \<Rightarrow> mbx_ev list \<Rightarrow> mbx_sys \<Rightarrow> mbx_sys option" where
  "mbx_run sdo [] s = Some s"
| "mbx_run sdo (e # es) s = Option.bind (mbx_step sdo e s) (mbx_run sdo es)"

definition mbx_init :: "(nat \<Rightarrow> ecm_mbx_job) \<Rightarrow> mbx_sys" where
  "mbx_init fr = \<lparr>sy_queue = queue_init, sy_frame = fr, sy_caller = (\<lambda>_. CIdle), sy_worker = WIdle, sy_clk = 0\<rparr>"

section \<open>Which slaves get a cyclic mailbox\<close>

text \<open>What the start-up knows of a slave: below PRE-OP or not, mailbox status, the physical start
  of its used FMMUs, and the answers of SOEM to the read of register 0x0004 and to
  \<open>ecx_slavembxcyclic\<close>. The address of the SM1 status and the FMMU limit are SOEM's.\<close>

record mbx_slave =
  ms_preop :: bool
  ms_mbxstatus :: bool
  ms_fmmu :: "u16 list"
  ms_nf :: "nat option"
  ms_cyclic :: bool

definition mbxstatus_idx :: "u16 \<Rightarrow> nat \<Rightarrow> mbx_slave \<Rightarrow> nat option" where
  "mbxstatus_idx sm1stat maxfmmu sl =
    fold (\<lambda>f r. if ms_fmmu sl ! f = sm1stat then Some f else r) [0..<min maxfmmu (length (ms_fmmu sl))] None"

definition mbxstatus_fmmu_ok :: "u16 \<Rightarrow> nat \<Rightarrow> mbx_slave \<Rightarrow> bool" where
  "mbxstatus_fmmu_ok sm1stat maxfmmu sl =
    (case ms_nf sl of
       None \<Rightarrow> True
     | Some nf \<Rightarrow> (case mbxstatus_idx sm1stat maxfmmu sl of None \<Rightarrow> False | Some i \<Rightarrow> i < nf))"

definition enable_slave :: "u16 \<Rightarrow> nat \<Rightarrow> bool \<Rightarrow> mbx_slave \<Rightarrow> bool" where
  "enable_slave sm1stat maxfmmu force sl \<longleftrightarrow>
    ms_preop sl \<and> \<not> (ms_mbxstatus sl \<and> \<not> mbxstatus_fmmu_ok sm1stat maxfmmu sl \<and> \<not> force) \<and> ms_cyclic sl"

definition ecm_mailbox_enable_cyclic :: "u16 \<Rightarrow> nat \<Rightarrow> bool \<Rightarrow> mbx_slave list \<Rightarrow> nat" where
  "ecm_mailbox_enable_cyclic sm1stat maxfmmu force sls = length (filter (enable_slave sm1stat maxfmmu force) sls)"

text \<open>The pump of the RT thread: the frames of the input handler count against the budget of
  one frame per cycle of the output handler. The handlers of SOEM are arguments.\<close>

definition ecm_mailbox_rt_pump_group :: "(int \<Rightarrow> int) \<Rightarrow> (int \<Rightarrow> int) \<Rightarrow> int \<times> int \<times> int" where
  "ecm_mailbox_rt_pump_group inh outh =
    (let received = inh 1; sent = outh (1 - received) in (received + sent, received, sent))"

section \<open>The invariant while no call times out\<close>

definition pend :: "mbx_sys \<Rightarrow> nat list" where
  "pend s = (case sy_worker s of WIdle \<Rightarrow> [] | WExec j t \<Rightarrow> [j] | WSig j \<Rightarrow> [j]) @ mq_cont (sy_queue s)"

text \<open>The return value of a call as one blocking SDO transfer would give it.\<close>

definition ret_ok :: "(nat \<Rightarrow> soem_sdo) \<Rightarrow> mbx_req \<Rightarrow> int \<Rightarrow> u8 list \<Rightarrow> bool" where
  "ret_ok sdo rq rc out \<longleftrightarrow>
    rc = - 3 \<and> out = [] \<and> rq_size rq > 256 \<or>
    rc = - 1 \<and> out = [] \<and> rq_size rq \<le> 256 \<or>
    rq_size rq \<le> 256 \<and> (\<exists>k. (rc, out) = sdo_return (execute_job (sdo k) (new_job rq)))"

text \<open>A caller, given whether the worker is about to signal it, whether its job is pending, and its
  frame.\<close>

fun cell_ok :: "(nat \<Rightarrow> soem_sdo) \<Rightarrow> bool \<Rightarrow> bool \<Rightarrow> ecm_mbx_job \<Rightarrow> caller \<Rightarrow> bool" where
  "cell_ok sdo sig pn fr CIdle \<longleftrightarrow> \<not> pn"
| "cell_ok sdo sig pn fr (CRet rq rc out) \<longleftrightarrow> \<not> pn \<and> ret_ok sdo rq rc out"
| "cell_ok sdo sig pn fr (CWait rq d) \<longleftrightarrow> rq_size rq \<le> 256 \<and>
     (if sig then \<exists>k. fr = execute_job (sdo k) (new_job rq)
      else if pn then fr = new_job rq
      else \<exists>k. fr = job_signal_done (execute_job (sdo k) (new_job rq)))"

definition mbx_inv :: "(nat \<Rightarrow> soem_sdo) \<Rightarrow> mbx_sys \<Rightarrow> bool" where
  "mbx_inv sdo s \<longleftrightarrow> mq_inv (sy_queue s) \<and> distinct (pend s) \<and>
     (\<forall>i. cell_ok sdo (sy_worker s = WSig i) (i \<in> set (pend s)) (sy_frame s i) (sy_caller s i))"

lemma mbx_invD:
  assumes "mbx_inv sdo s"
  shows "mq_inv (sy_queue s)" and "distinct (pend s)"
    and "cell_ok sdo (sy_worker s = WSig i) (i \<in> set (pend s)) (sy_frame s i) (sy_caller s i)"
  using assms by (auto simp: mbx_inv_def)

lemma pend_waits:
  assumes "cell_ok sdo sig True fr c"
  obtains rq d where "c = CWait rq d" and "rq_size rq \<le> 256"
  using assms by (cases c) auto

lemma job_flags [simp]:
  "jb_done (new_job rq) = False" "jb_done (execute_job f j) = jb_done j" "jb_done (job_signal_done j) = True"
  "sdo_return (job_signal_done j) = sdo_return j"
  by (simp_all add: new_job_def execute_job_def job_signal_done_def sdo_return_def Let_def split: prod.splits)

lemma submit_inv:
  assumes inv: "mbx_inv sdo s" and idle: "\<And>rq d. sy_caller s i \<noteq> CWait rq d"
  shows "mbx_inv sdo (submit i rq s)"
proof -
  note c = mbx_invD(3) [OF inv] and q = mbx_invD(1) [OF inv] and d = mbx_invD(2) [OF inv]
  have i: "i \<notin> set (pend s)" using c [of i] idle by (cases "sy_caller s i") auto
  have w: "sy_worker s \<noteq> WSig i" using i by (auto simp: pend_def)
  obtain q' ok where p: "queue_push i (sy_queue s) = (q', ok)" by fastforce
  have q': "mq_inv q'" and ok: "ok \<Longrightarrow> mq_cont q' = mq_cont (sy_queue s) @ [i]"
    using mbq.push_inv [OF q, of i] mbq.push_cont [OF q, of i] mbq.push_ok_iff [OF q, of i] p by (auto split: if_splits)
  have wk: "sy_worker (submit i rq s) = sy_worker s" using p by (simp add: submit_def Let_def)
  have fr: "sy_frame (submit i rq s) j = sy_frame s j" "sy_caller (submit i rq s) j = sy_caller s j" if "j \<noteq> i" for j
    using p that by (simp_all add: submit_def Let_def)
  show ?thesis
  proof (cases "rq_size rq > 256 \<or> \<not> ok")
    case True
    have pe: "sy_queue (submit i rq s) = sy_queue s" "pend (submit i rq s) = pend s"
      using True p by (auto simp: submit_def pend_def Let_def)
    have "\<exists>rc. sy_caller (submit i rq s) i = CRet rq rc [] \<and> ret_ok sdo rq rc []"
      using True p by (auto simp: submit_def ret_ok_def Let_def)
    then have "cell_ok sdo (sy_worker s = WSig j) (j \<in> set (pend s)) (sy_frame (submit i rq s) j) (sy_caller (submit i rq s) j)" for j
      using c [of j] i fr [of j] by (cases "j = i") auto
    then show ?thesis using q d unfolding mbx_inv_def pe wk by blast
  next
    case False
    then have pe: "sy_queue (submit i rq s) = q'" "pend (submit i rq s) = pend s @ [i]"
      using p ok by (auto simp: submit_def pend_def Let_def)
    have "sy_frame (submit i rq s) i = new_job rq" "\<exists>d. sy_caller (submit i rq s) i = CWait rq d"
      using False p by (auto simp: submit_def Let_def)
    then have "cell_ok sdo (sy_worker s = WSig j) (j \<in> set (pend s @ [i])) (sy_frame (submit i rq s) j) (sy_caller (submit i rq s) j)" for j
      using c [of j] w False fr [of j] by (cases "j = i") auto
    then show ?thesis using q' d i unfolding mbx_inv_def pe wk by auto
  qed
qed

lemma pop_inv:
  assumes inv: "mbx_inv sdo s" and st: "mbx_step sdo EPop s = Some s'"
  shows "mbx_inv sdo s'"
proof (cases "queue_pop (sy_queue s)")
  case None
  then show ?thesis using assms by (simp split: worker.splits)
next
  case (Some r)
  then obtain j q where p: "queue_pop (sy_queue s) = Some (j, q)" by (cases r) auto
  have w: "sy_worker s = WIdle" and s': "s' = s\<lparr>sy_queue := q, sy_worker := WExec j (sy_clk s)\<rparr>"
    using st p by (auto split: worker.splits)
  have q: "mq_inv q" "mq_cont (sy_queue s) = j # mq_cont q"
    using mbq.pop_some [OF mbx_invD(1) [OF inv] p] by auto
  have pe: "pend s' = pend s" using q w by (simp add: pend_def s')
  show ?thesis
    using mbx_invD(2,3) [OF inv] q(1) w unfolding mbx_inv_def pe by (simp add: s')
qed

lemma exec_inv:
  assumes inv: "mbx_inv sdo s" and st: "mbx_step sdo (EExec k) s = Some s'"
  shows "mbx_inv sdo s'"
proof -
  obtain j t where w: "sy_worker s = WExec j t"
    and s': "s' = s\<lparr>sy_frame := (sy_frame s)(j := execute_job (sdo k) (sy_frame s j)), sy_worker := WSig j\<rparr>"
    using st by (auto split: worker.splits)
  note c = mbx_invD(3) [OF inv]
  have pe: "pend s' = pend s" using w by (simp add: pend_def s')
  have j: "j \<in> set (pend s)" using w by (simp add: pend_def)
  obtain rq d where cj: "sy_caller s j = CWait rq d" "rq_size rq \<le> 256"
    using pend_waits [of sdo _ "sy_frame s j" "sy_caller s j"] c [of j] j by (metis (full_types))
  have "sy_frame s j = new_job rq" using c [of j] cj j w by simp
  then have "cell_ok sdo (WSig j = WSig i) (i \<in> set (pend s)) (sy_frame s' i) (sy_caller s i)" for i
    using c [of i] cj w by (cases "i = j") (auto simp: s')
  then show ?thesis
    using mbx_invD(1,2) [OF inv] unfolding mbx_inv_def pe by (simp add: s')
qed

lemma signal_inv:
  assumes inv: "mbx_inv sdo s" and st: "mbx_step sdo ESignal s = Some s'"
  shows "mbx_inv sdo s'"
proof -
  obtain j where w: "sy_worker s = WSig j"
    and s': "s' = s\<lparr>sy_frame := (sy_frame s)(j := job_signal_done (sy_frame s j)), sy_worker := WIdle\<rparr>"
    using st by (auto split: worker.splits)
  note c = mbx_invD(3) [OF inv]
  have pe: "pend s = j # pend s'" using w by (simp add: pend_def s')
  have d: "j \<notin> set (pend s')" "distinct (pend s')" using mbx_invD(2) [OF inv] pe by auto
  have "j \<in> set (pend s)" using pe by simp
  then obtain rq t where cj: "sy_caller s j = CWait rq t" "rq_size rq \<le> 256"
    using pend_waits [of sdo _ "sy_frame s j" "sy_caller s j"] c [of j] by (metis (full_types))
  have "\<exists>k. sy_frame s j = execute_job (sdo k) (new_job rq)" using c [of j] cj w by simp
  then have "cell_ok sdo False (i \<in> set (pend s')) (sy_frame s' i) (sy_caller s i)" for i
    using c [of i] cj w d pe by (cases "i = j") (auto simp: s')
  then show ?thesis
    using mbx_invD(1) [OF inv] d(2) unfolding mbx_inv_def by (simp add: s')
qed

lemma wake_inv:
  assumes inv: "mbx_inv sdo s" and st: "mbx_step sdo (EWake i) s = Some s'"
  shows "mbx_inv sdo s'"
proof -
  obtain rq d where cw: "sy_caller s i = CWait rq d" and dn: "jb_done (sy_frame s i)"
    and s': "s' = s\<lparr>sy_caller := (sy_caller s)(i := CRet rq (fst (sdo_return (sy_frame s i))) (snd (sdo_return (sy_frame s i))))\<rparr>"
    using st by (auto split: caller.splits if_splits)
  note c = mbx_invD(3) [OF inv]
  have pe: "pend s' = pend s" by (simp add: pend_def s')
  have fr: "\<not> (i \<in> set (pend s))" "rq_size rq \<le> 256" "\<exists>k. sy_frame s i = job_signal_done (execute_job (sdo k) (new_job rq))"
    using c [of i] cw dn by (auto split: if_splits)
  then have "ret_ok sdo rq (fst (sdo_return (sy_frame s i))) (snd (sdo_return (sy_frame s i)))"
    by (auto simp: ret_ok_def)
  then have "cell_ok sdo (sy_worker s = WSig j) (j \<in> set (pend s)) (sy_frame s j) (sy_caller s' j)" for j
    using c [of j] fr(1) by (cases "j = i") (auto simp: s')
  then show ?thesis
    using mbx_invD(1,2) [OF inv] unfolding mbx_inv_def pe by (simp add: s')
qed

definition no_timeout :: "mbx_ev \<Rightarrow> bool" where
  "no_timeout e = (case e of ETimeout _ \<Rightarrow> False | _ \<Rightarrow> True)"

lemma step_inv:
  assumes inv: "mbx_inv sdo s" and st: "mbx_step sdo e s = Some s'" and nt: "no_timeout e"
  shows "mbx_inv sdo s'"
proof (cases e)
  case (ECall i rq)
  then show ?thesis using submit_inv [OF inv] st by (cases "sy_caller s i") auto
next
  case EPop
  then show ?thesis using pop_inv [OF inv] st by blast
next
  case (EExec k)
  then show ?thesis using exec_inv [OF inv] st by blast
next
  case ESignal
  then show ?thesis using signal_inv [OF inv] st by blast
next
  case (EWake i)
  then show ?thesis using wake_inv [OF inv] st by blast
next
  case (ETimeout i)
  then show ?thesis using nt by (simp add: no_timeout_def)
next
  case (ETick n)
  then have s': "s' = s\<lparr>sy_clk := sy_clk s + int n\<rparr>" using st by simp
  have "pend s' = pend s" by (simp add: pend_def s')
  then show ?thesis using inv unfolding mbx_inv_def by (simp add: s')
qed

lemma run_inv: "mbx_run sdo es s = Some s' \<Longrightarrow> list_all no_timeout es \<Longrightarrow> mbx_inv sdo s \<Longrightarrow> mbx_inv sdo s'"
  by (induction es arbitrary: s) (auto simp: bind_eq_Some_conv dest: step_inv)

lemma init_inv: "mbx_inv sdo (mbx_init fr)"
  by (simp add: mbx_inv_def mbx_init_def pend_def queue_init_def mq_inv_def mq_cont_def)

text \<open>How far the job of caller \<open>i\<close> is from its end, in steps of the worker: three for every job
  ahead of it, and what is left of the job in the worker. Zero when it is not pending.\<close>

definition worker_ev :: "mbx_ev \<Rightarrow> bool" where
  "worker_ev e = (case e of EPop \<Rightarrow> True | EExec _ \<Rightarrow> True | ESignal \<Rightarrow> True | _ \<Rightarrow> False)"

definition rank :: "nat \<Rightarrow> mbx_sys \<Rightarrow> nat" where
  "rank i s = (if i \<in> set (pend s)
     then 3 * length (takeWhile (\<lambda>j. j \<noteq> i) (pend s)) + (case sy_worker s of WIdle \<Rightarrow> 3 | WExec _ _ \<Rightarrow> 2 | WSig _ \<Rightarrow> 1)
     else 0)"

lemma rank_pend: "rank i s \<le> 3 * length (pend s)"
proof (cases "i \<in> set (pend s)")
  case True
  then obtain as bs where "pend s = as @ i # bs" "i \<notin> set as" by (meson split_list_first)
  then have "takeWhile (\<lambda>j. j \<noteq> i) (pend s) = as" "length as < length (pend s)"
    by (auto simp: takeWhile_tail)
  then show ?thesis by (simp add: rank_def split: worker.splits)
qed (simp add: rank_def)

lemma submit_rank:
  assumes inv: "mbx_inv sdo s" and "i \<noteq> j"
  shows "rank i (submit j rq s) = rank i s" and "sy_caller (submit j rq s) i = sy_caller s i"
proof -
  obtain q ok where p: "queue_push j (sy_queue s) = (q, ok)" by fastforce
  have "mq_cont q = mq_cont (sy_queue s) @ [j]" if ok
    using mbq.push_cont [OF mbx_invD(1) [OF inv], of j] mbq.push_ok_iff [OF mbx_invD(1) [OF inv], of j] p that by simp
  then have "pend (submit j rq s) = pend s \<or> pend (submit j rq s) = pend s @ [j]" "sy_worker (submit j rq s) = sy_worker s"
    using p by (auto simp: submit_def pend_def Let_def)
  then show "rank i (submit j rq s) = rank i s" using assms(2) by (auto simp: rank_def)
  show "sy_caller (submit j rq s) i = sy_caller s i" using assms(2) p by (simp add: submit_def Let_def)
qed

lemma worker_rank:
  assumes inv: "mbx_inv sdo s" and st: "mbx_step sdo e s = Some s'" and "worker_ev e"
  shows "rank i s' = rank i s - 1" and "sy_caller s' = sy_caller s"
proof -
  have d: "distinct (pend s)" by (rule mbx_invD(2) [OF inv])
  have "rank i s' = rank i s - 1 \<and> sy_caller s' = sy_caller s"
  proof (cases e)
    case EPop
    then have w: "sy_worker s = WIdle" using st by (auto split: worker.splits)
    show ?thesis
    proof (cases "queue_pop (sy_queue s)")
      case None
      then have "pend s = []" "s' = s" using mbq.pop_none_iff [OF mbx_invD(1) [OF inv]] st EPop w by (simp_all add: pend_def)
      then show ?thesis by (simp add: rank_def)
    next
      case (Some r)
      then obtain j q where p: "queue_pop (sy_queue s) = Some (j, q)" by (cases r) auto
      then have "mq_cont (sy_queue s) = j # mq_cont q" using mbq.pop_some [OF mbx_invD(1) [OF inv] p] by simp
      then show ?thesis using st EPop w p by (auto simp: rank_def pend_def)
    qed
  next
    case (EExec k)
    then show ?thesis using st by (auto simp: rank_def pend_def split: worker.splits)
  next
    case ESignal
    then show ?thesis using st d by (auto simp: rank_def pend_def split: worker.splits)
  qed (use assms(3) in \<open>simp_all add: worker_ev_def\<close>)
  then show "rank i s' = rank i s - 1" "sy_caller s' = sy_caller s" by blast+
qed

lemma other_rank:
  assumes inv: "mbx_inv sdo s" and st: "mbx_step sdo e s = Some s'" and "\<not> worker_ev e" "no_timeout e" "e \<noteq> EWake i"
    and w: "sy_caller s i = CWait rq d"
  shows "rank i s' = rank i s" and "sy_caller s' i = CWait rq d"
proof -
  have "rank i s' = rank i s \<and> sy_caller s' i = sy_caller s i"
  proof (cases e)
    case (ECall j r)
    then have "i \<noteq> j" "s' = submit j r s" using st w by (auto split: caller.splits)
    then show ?thesis using submit_rank [OF inv] by simp
  qed (use assms in \<open>auto simp: worker_ev_def no_timeout_def rank_def pend_def split: caller.splits if_splits\<close>)
  then show "rank i s' = rank i s" "sy_caller s' i = CWait rq d" using w by simp_all
qed

text \<open>Every worker step brings a waiting call nearer, and no other step sets it back.\<close>

lemma run_rank:
  assumes "mbx_inv sdo s" and "sy_caller s i = CWait rq d" and "mbx_run sdo fs s = Some s'" and "list_all no_timeout fs"
    and "EWake i \<notin> set fs"
  shows "sy_caller s' i = CWait rq d \<and> rank i s' = rank i s - length (filter worker_ev fs)"
  using assms
proof (induction fs arbitrary: s)
  case (Cons e fs)
  then obtain s1 where s1: "mbx_step sdo e s = Some s1" "mbx_run sdo fs s1 = Some s'" by (auto simp: bind_eq_Some_conv)
  have nt: "no_timeout e" "e \<noteq> EWake i" using Cons.prems by auto
  have i1: "mbx_inv sdo s1" by (rule step_inv [OF Cons.prems(1) s1(1) nt(1)])
  have "sy_caller s1 i = CWait rq d \<and> rank i s1 = rank i s - (if worker_ev e then 1 else 0)"
    using worker_rank [OF Cons.prems(1) s1(1)] other_rank [OF Cons.prems(1) s1(1) _ nt Cons.prems(2)] Cons.prems(2)
    by (cases "worker_ev e") auto
  then show ?case using Cons.IH [OF i1 _ s1(2)] Cons.prems(4,5) by auto
qed simp

lemma worker_ready: "\<exists>e s'. worker_ev e \<and> mbx_step sdo e s = Some s'"
proof (cases "sy_worker s")
  case WIdle
  then show ?thesis by (intro exI [of _ EPop]) (simp add: worker_ev_def split: option.splits)
next
  case (WExec j t)
  then show ?thesis by (intro exI [of _ "EExec 0"]) (simp add: worker_ev_def)
next
  case (WSig j)
  then show ?thesis by (intro exI [of _ ESignal]) (simp add: worker_ev_def)
qed

lemma pend_length: "mbx_inv sdo s \<Longrightarrow> length (pend s) \<le> 33"
  using mbq.qinv_bound [OF mbx_invD(1)] by (fastforce simp: pend_def split: worker.splits)

lemma wait_until_ns:
  assumes "0 \<le> us"
  shows "ts_ns (wait_until (clk div 1000000000, clk mod 1000000000) us) = clk + us * 1000 + 500000000"
proof -
  let ?x = "us * 1000 + 500000000 :: int"
  have "?x sdiv 1000000000 = ?x div 1000000000" "?x smod 1000000000 = ?x mod 1000000000"
    using assms by (simp_all add: signed_divide_int_def signed_modulo_int_def)
  then show ?thesis
    using div_mult_mod_eq [of ?x 1000000000] div_mult_mod_eq [of clk 1000000000]
    by (simp add: wait_until_def ts_ns_def Let_def algebra_simps)
qed

text \<open>A call in progress, timeouts of any call allowed: its deadline, and where its frame is.\<close>

definition call_inv :: "nat \<Rightarrow> mbx_req \<Rightarrow> int \<Rightarrow> mbx_sys \<Rightarrow> bool" where
  "call_inv i rq d s \<longleftrightarrow> mq_inv (sy_queue s) \<and>
     (\<forall>r t. sy_caller s i = CWait r t \<longrightarrow> r = rq \<and> t = d \<and> (jb_done (sy_frame s i) \<or> i \<in> set (pend s)))"

lemma mq_inv_submit: "mq_inv (sy_queue s) \<Longrightarrow> mq_inv (sy_queue (submit i rq s))"
  using mbq.push_inv [of "sy_queue s" i] by (auto simp: submit_def Let_def split: prod.splits)

lemma submit_queue:
  assumes "mq_inv (sy_queue s)"
  shows "set (pend s) \<subseteq> set (pend (submit j rq s))"
    and "sy_caller (submit j rq s) j = CWait r t \<Longrightarrow> r = rq \<and> j \<in> set (pend (submit j rq s)) \<and>
      t = sy_clk s + int (rq_timeout_us rq) * 1000 + 500000000"
proof -
  obtain q ok where p: "queue_push j (sy_queue s) = (q, ok)" by fastforce
  have c: "mq_cont q = mq_cont (sy_queue s) @ [j]" if ok
    using mbq.push_cont [OF assms, of j] mbq.push_ok_iff [OF assms, of j] p that by simp
  then show "set (pend s) \<subseteq> set (pend (submit j rq s))" using p by (auto simp: submit_def pend_def Let_def)
  show "sy_caller (submit j rq s) j = CWait r t \<Longrightarrow> r = rq \<and> j \<in> set (pend (submit j rq s)) \<and>
      t = sy_clk s + int (rq_timeout_us rq) * 1000 + 500000000"
    using p c wait_until_ns [of "int (rq_timeout_us rq)" "sy_clk s"] by (auto simp: submit_def pend_def Let_def split: if_splits)
qed

lemma call_inv_step:
  assumes inv: "call_inv i rq d s" and st: "mbx_step sdo e s = Some s'" and ne: "\<And>r. e \<noteq> ECall i r"
  shows "call_inv i rq d s'"
proof (cases e)
  case (ECall j r)
  then have s': "s' = submit j r s" "j \<noteq> i" using st ne by (auto split: caller.splits)
  have q: "mq_inv (sy_queue s)" using inv by (simp add: call_inv_def)
  have "sy_caller s' i = sy_caller s i" "sy_frame s' i = sy_frame s i"
    using s' by (auto simp: submit_def Let_def split: prod.splits)
  then show ?thesis using inv submit_queue(1) [OF q, of j r] mq_inv_submit [OF q, of j r] by (auto simp: call_inv_def s')
next
  case EPop
  then have w: "sy_worker s = WIdle" using st by (auto split: worker.splits)
  have q: "mq_inv (sy_queue s)" using inv by (simp add: call_inv_def)
  show ?thesis
  proof (cases "queue_pop (sy_queue s)")
    case None
    then show ?thesis using inv st EPop w by simp
  next
    case (Some r)
    then obtain j q' where p: "queue_pop (sy_queue s) = Some (j, q')" by (cases r) auto
    then show ?thesis using mbq.pop_some [OF q p] inv st EPop w by (auto simp: call_inv_def pend_def)
  qed
next
  case (ETick n)
  then have "s' = s\<lparr>sy_clk := sy_clk s + int n\<rparr>" using st by simp
  then show ?thesis using inv by (simp add: call_inv_def pend_def)
qed (use inv st in \<open>auto simp: call_inv_def pend_def split: worker.splits caller.splits if_splits\<close>)

lemma call_inv_run:
  "call_inv i rq d s \<Longrightarrow> mbx_run sdo es s = Some s' \<Longrightarrow> \<forall>r. ECall i r \<notin> set es \<Longrightarrow> call_inv i rq d s'"
proof (induction es arbitrary: s)
  case (Cons e es)
  then obtain s1 where s1: "mbx_step sdo e s = Some s1" "mbx_run sdo es s1 = Some s'" by (auto simp: bind_eq_Some_conv)
  have "call_inv i rq d s1" using call_inv_step [OF Cons.prems(1) s1(1)] Cons.prems(3) by auto
  then show ?case using Cons.IH [OF _ s1(2)] Cons.prems(3) by auto
qed simp

lemma mq_inv_run: "mq_inv (sy_queue s) \<Longrightarrow> mbx_run sdo es s = Some s' \<Longrightarrow> mq_inv (sy_queue s')"
proof (induction es arbitrary: s)
  case (Cons e es)
  then obtain s1 where s1: "mbx_step sdo e s = Some s1" "mbx_run sdo es s1 = Some s'" by (auto simp: bind_eq_Some_conv)
  have "mq_inv (sy_queue s1)"
    using s1(1) Cons.prems(1) mq_inv_submit mbq.pop_some [OF Cons.prems(1)]
    by (cases e) (auto split: worker.splits caller.splits option.splits if_splits)
  then show ?case using Cons.IH s1(2) by blast
qed simp

section \<open>Properties\<close>

text \<open>C30. While no call times out, the mailbox is a blocking SDO transfer: whatever the order in
  which callers and worker run, a call that returned was refused for its size, refused for
  a full queue, or returned what one SOEM transfer of its own job gave; and the frame of
  every job that is queued or in the worker still belongs to a caller that waits.\<close>

theorem mbx_calls_are_transfers:
  assumes "mbx_run sdo es (mbx_init fr) = Some s" and "list_all no_timeout es"
  shows "(\<forall>i rq rc out. sy_caller s i = CRet rq rc out \<longrightarrow>
      (rc = - 3 \<and> rq_size rq > 256 \<or> rc = - 1 \<and> rq_size rq \<le> 256 \<or>
       (\<exists>k. (rc, out) = sdo_return (execute_job (sdo k) (new_job rq))))) \<and>
    (\<forall>j\<in>set (pend s). \<exists>rq d. sy_caller s j = CWait rq d \<and> \<not> jb_done (sy_frame s j)) \<and> distinct (pend s)"
proof -
  have inv: "mbx_inv sdo s" using run_inv [OF assms init_inv] .
  note c = mbx_invD(3) [OF inv]
  have "rc = - 3 \<and> rq_size rq > 256 \<or> rc = - 1 \<and> rq_size rq \<le> 256 \<or>
       (\<exists>k. (rc, out) = sdo_return (execute_job (sdo k) (new_job rq)))" if "sy_caller s i = CRet rq rc out" for i rq rc out
    using c [of i] that by (auto simp: ret_ok_def)
  moreover have "\<exists>rq d. sy_caller s j = CWait rq d \<and> \<not> jb_done (sy_frame s j)" if "j \<in> set (pend s)" for j
    using c [of j] that by (cases "sy_caller s j") (auto split: if_splits)
  ultimately show ?thesis using mbx_invD(2) [OF inv] by blast
qed

text \<open>C31. No waiting call starves: take any state reached without a timeout in which caller \<open>i\<close>
  waits, and any timeout-free continuation in which the worker takes three steps for every
  job then pending, at most 99, whatever the callers do in between, further calls included.
  Then the caller has been woken in it, or its job is done and its wake-up is enabled and
  returns what a SOEM transfer of its own job gave. The worker can always take a step, so only a
  scheduler that stops running it could keep the call waiting.\<close>

theorem mbx_served:
  assumes "mbx_run sdo es (mbx_init fr) = Some s" and "list_all no_timeout es" and "sy_caller s i = CWait rq d"
    and "mbx_run sdo fs s = Some s'" and "list_all no_timeout fs" and "3 * length (pend s) \<le> length (filter worker_ev fs)"
  shows "3 * length (pend s) \<le> 99 \<and>
    (EWake i \<in> set fs \<or>
     (\<exists>s'' k. mbx_step sdo (EWake i) s' = Some s'' \<and>
        (let r = sdo_return (execute_job (sdo k) (new_job rq)) in sy_caller s'' i = CRet rq (fst r) (snd r)))) \<and>
    (\<exists>e s''. worker_ev e \<and> mbx_step sdo e s' = Some s'')"
proof -
  have inv: "mbx_inv sdo s" using run_inv [OF assms(1,2) init_inv] .
  have "\<exists>s'' k. mbx_step sdo (EWake i) s' = Some s'' \<and>
        (let r = sdo_return (execute_job (sdo k) (new_job rq)) in sy_caller s'' i = CRet rq (fst r) (snd r))" if "EWake i \<notin> set fs"
  proof -
    have r: "sy_caller s' i = CWait rq d" "rank i s' = 0"
      using run_rank [OF inv assms(3-5) that] rank_pend [of i s] assms(6) by auto
    have np: "i \<notin> set (pend s')" using r(2) by (auto simp: rank_def split: worker.splits if_splits)
    then have "sy_worker s' \<noteq> WSig i" by (auto simp: pend_def)
    then obtain k where "sy_frame s' i = job_signal_done (execute_job (sdo k) (new_job rq))"
      using mbx_invD(3) [OF run_inv [OF assms(4,5) inv], of i] np r(1) by auto
    then show ?thesis using r(1) by (auto simp: Let_def)
  qed
  then show ?thesis using pend_length [OF inv] worker_ready by auto
qed

text \<open>C32. What a timeout of a call means, in every run, other timeouts included: the call returns
  -2 no earlier than its own timeout and half a second after it was made, the time its job
  waits behind others counting too; and if its job is not done by then, the address of its
  frame stays in the queue or with the worker, since nothing takes it back. The worker
  writes through that address when the job's turn comes.\<close>

theorem mbx_timeout_dangles:
  assumes "mbx_run sdo es (mbx_init fr) = Some s0" and "mbx_step sdo (ECall i rq) s0 = Some s1"
    and "mbx_run sdo es' s1 = Some s" and "\<forall>r. ECall i r \<notin> set es'" and "mbx_step sdo (ETimeout i) s = Some s'"
  shows "sy_caller s' i = CRet rq (- 2) [] \<and> sy_clk s0 + int (rq_timeout_us rq) * 1000 + 500000000 \<le> sy_clk s' \<and>
    (jb_done (sy_frame s' i) \<or> i \<in> set (pend s'))"
proof -
  have q: "mq_inv (sy_queue s0)"
    using mq_inv_run [OF _ assms(1)] by (simp add: mbx_init_def queue_init_def mq_inv_def)
  have s1: "s1 = submit i rq s0" using assms(2) by (auto split: caller.splits)
  let ?d = "sy_clk s0 + int (rq_timeout_us rq) * 1000 + 500000000"
  have "call_inv i rq ?d s1"
    unfolding call_inv_def s1 using submit_queue(2) [OF q] mq_inv_submit [OF q] by blast
  from call_inv_run [OF this assms(3,4)] have "call_inv i rq ?d s" .
  then show ?thesis
    using assms(5) by (auto simp: call_inv_def pend_def split: caller.splits if_splits)
qed

definition demo_req :: mbx_req where
  "demo_req = \<lparr>rq_op = JOB_SDO_READ, rq_slave = 1, rq_index = 0x6041, rq_subindex = 0, rq_ca = False, rq_size = 2, rq_data = [],
     rq_timeout_us = 2000000\<rparr>"

text \<open>A SOEM that answers the first transfer with two bytes and lets the others time out.\<close>

definition demo_sdo :: "nat \<Rightarrow> soem_sdo" where
  "demo_sdo k job = (if k = 0 then (1, 2, [0x37, 0x12]) else (0, jb_size job, []))"

definition demo_run :: "mbx_ev list" where
  "demo_run = [ECall 0 demo_req, ECall 1 demo_req, EPop, EExec 0, ESignal, EWake 0]"

lemma demo_run_eval:
  "\<exists>s. mbx_run demo_sdo demo_run (mbx_init fr) = Some s \<and> sy_caller s 0 = CRet demo_req 0 [0x37, 0x12] \<and>
     (\<exists>d. sy_caller s 1 = CWait demo_req d) \<and> pend s = [1] \<and>
     mbx_run demo_sdo [EPop, ECall 2 demo_req, EExec 0, ETick 5, ESignal] s \<noteq> None"
  by (simp add: pend_def mq_cont_def demo_run_def demo_req_def mbx_init_def submit_def queue_init_def queue_push_def queue_pop_def new_job_def
      execute_job_def demo_sdo_def job_signal_done_def sdo_return_def Let_def)

abbreviation (input) demo_start :: mbx_sys where "demo_start \<equiv> mbx_init (\<lambda>_. new_job demo_req)"

theorem mbx_calls_are_transfers_witness:
  "\<exists>s. mbx_run demo_sdo demo_run demo_start = Some s \<and> sy_caller s 0 = CRet demo_req 0 [0x37, 0x12] \<and>
     (\<exists>k. (0, [0x37, 0x12]) = sdo_return (execute_job (demo_sdo k) (new_job demo_req))) \<and> distinct (pend s)"
proof -
  obtain s where s: "mbx_run demo_sdo demo_run demo_start = Some s" "sy_caller s 0 = CRet demo_req 0 [0x37, 0x12]"
    using demo_run_eval by blast
  have "list_all no_timeout demo_run" by (simp add: demo_run_def no_timeout_def)
  note c = mbx_calls_are_transfers [OF s(1) this]
  have "\<exists>k. (0, [0x37, 0x12]) = sdo_return (execute_job (demo_sdo k) (new_job demo_req))"
    using conjunct1 [OF c, rule_format, OF s(2)] by simp
  then show ?thesis using s conjunct2 [OF conjunct2 [OF c]] by blast
qed

text \<open>The worker serves the second call while a third one comes in.\<close>

theorem mbx_served_witness:
  "\<exists>s s' s'' rc out. mbx_run demo_sdo demo_run demo_start = Some s \<and>
     mbx_run demo_sdo [EPop, ECall 2 demo_req, EExec 0, ETick 5, ESignal] s = Some s' \<and>
     mbx_step demo_sdo (EWake 1) s' = Some s'' \<and> sy_caller s'' 1 = CRet demo_req rc out"
proof -
  obtain s d where s: "mbx_run demo_sdo demo_run demo_start = Some s" "sy_caller s 1 = CWait demo_req d" "pend s = [1]"
    and r: "mbx_run demo_sdo [EPop, ECall 2 demo_req, EExec 0, ETick 5, ESignal] s \<noteq> None"
    using demo_run_eval [of "\<lambda>_. new_job demo_req"] by blast
  have nt: "list_all no_timeout demo_run" by (simp add: demo_run_def no_timeout_def)
  obtain s' where s': "mbx_run demo_sdo [EPop, ECall 2 demo_req, EExec 0, ETick 5, ESignal] s = Some s'" using r by blast
  have "3 * length (pend s) \<le> length (filter worker_ev [EPop, ECall 2 demo_req, EExec 0, ETick 5, ESignal])"
    by (simp add: s(3) worker_ev_def)
  with mbx_served [OF s(1) nt s(2) s'] s(1) s' show ?thesis by (auto simp: no_timeout_def Let_def)
qed

text \<open>Two reads with a timeout of 2 s are made together and the first runs into its timeout in
  SOEM: after 2.5 s the second call returns, its job still in the worker.\<close>

theorem mbx_timeout_dangles_witness:
  "\<exists>s s'. mbx_run demo_sdo [ECall 0 demo_req, ECall 1 demo_req, EPop, ETick 2000000000, EExec 1, ESignal, EWake 0, EPop,
       ETick 500000000] demo_start = Some s \<and> mbx_step demo_sdo (ETimeout 1) s = Some s' \<and>
     sy_caller s' 1 = CRet demo_req (- 2) [] \<and> 1 \<in> set (pend s')"
proof -
  let ?es = "[EPop, ETick 2000000000, EExec 1, ESignal, EWake 0, EPop, ETick 500000000]"
  have w: "ts_ns (wait_until (0, 0) 2000000) = 2500000000" using wait_until_ns [of 2000000 0] by simp
  obtain s0 s1 s s' where r: "mbx_run demo_sdo [ECall 0 demo_req] demo_start = Some s0" "mbx_step demo_sdo (ECall 1 demo_req) s0 = Some s1"
    "mbx_run demo_sdo ?es s1 = Some s" "mbx_step demo_sdo (ETimeout 1) s = Some s'" "\<not> jb_done (sy_frame s' 1)"
    by (simp add: demo_req_def mbx_init_def submit_def queue_init_def queue_push_def queue_pop_def new_job_def
      execute_job_def demo_sdo_def job_signal_done_def sdo_return_def w Let_def)
  have "mbx_run demo_sdo (ECall 0 demo_req # ECall 1 demo_req # ?es) demo_start = Some s"
    using r(1-3) by (auto simp: bind_eq_Some_conv)
  then show ?thesis using mbx_timeout_dangles [OF r(1-3) _ r(4)] r(4,5) by auto
qed

end
