(* ===== verification/Drive.thy ===== *)
theory Drive
  imports Pdo
begin

text \<open>
  The virtual CiA 402 drive of the software bus (\<open>tools/soft_bus/esc_cia402.c\<close>): commands and
  parameters it takes from the process data, the power drive state machine with its
  timing, fault handling and injections, the motion in every mode, and the statusword.
  The motion computes with \<open>double\<close>: its arithmetic is a parameter \<open>F\<close>, a record of the
  operations of the language and of \<open>math.h\<close> the code uses, about which nothing is assumed.
  Not modelled: the object dictionary and the PDO mapping of a node, and the control
  commands.
\<close>

section \<open>Floating point\<close>

text \<open>\<open>fl_of\<close> is the conversion from an integer, and an integer literal such as \<open>1e15\<close>.\<close>

record 'd flt =
  fl_of :: "int \<Rightarrow> 'd"
  fl_half :: 'd \<comment> \<open>\<open>0.5\<close>\<close>
  fl_milli :: 'd \<comment> \<open>\<open>1e-3\<close>\<close>
  fl_add :: "'d \<Rightarrow> 'd \<Rightarrow> 'd"
  fl_sub :: "'d \<Rightarrow> 'd \<Rightarrow> 'd"
  fl_mul :: "'d \<Rightarrow> 'd \<Rightarrow> 'd"
  fl_div :: "'d \<Rightarrow> 'd \<Rightarrow> 'd"
  fl_neg :: "'d \<Rightarrow> 'd"
  fl_lt :: "'d \<Rightarrow> 'd \<Rightarrow> bool"
  fl_le :: "'d \<Rightarrow> 'd \<Rightarrow> bool"
  fl_fabs :: "'d \<Rightarrow> 'd"
  fl_sqrt :: "'d \<Rightarrow> 'd"
  fl_llround :: "'d \<Rightarrow> int"

section \<open>Data\<close>

datatype cia402_ds = DS_NOT_READY | DS_SOD | DS_RTSO | DS_SO | DS_OE | DS_QSA | DS_FRA | DS_FAULT

abbreviation (input) MODE_PP :: int where "MODE_PP \<equiv> 1"
abbreviation (input) MODE_PV :: int where "MODE_PV \<equiv> 3"
abbreviation (input) MODE_HM :: int where "MODE_HM \<equiv> 6"
abbreviation (input) MODE_CSP :: int where "MODE_CSP \<equiv> 8"
abbreviation (input) MODE_CSV :: int where "MODE_CSV \<equiv> 9"
abbreviation (input) SW_TARGET :: u16 where "SW_TARGET \<equiv> 0x0400"
abbreviation (input) SW_OMS12 :: u16 where "SW_OMS12 \<equiv> 0x1000"
abbreviation (input) SW_OMS13 :: u16 where "SW_OMS13 \<equiv> 0x2000"
abbreviation (input) CW_OMS4 :: u16 where "CW_OMS4 \<equiv> 0x0010"
abbreviation (input) CW_OMS5 :: u16 where "CW_OMS5 \<equiv> 0x0020"
abbreviation (input) CW_OMS6 :: u16 where "CW_OMS6 \<equiv> 0x0040"
abbreviation (input) CW_FR :: u16 where "CW_FR \<equiv> 0x0080"
abbreviation (input) CW_HALT :: u16 where "CW_HALT \<equiv> 0x0100"

record 'd esc_cia402_cal =
  cal_power_on_ms :: u32
  cal_trans_cycles :: u32
  cal_code_lost_op :: u16
  cal_code_ferr :: u16
  cal_code_sync :: u16
  cal_supported_modes :: u32
  cal_csp_lag_ms :: 'd
  cal_vel_scale :: 'd
  cal_lost_pd_fault :: bool
  cal_lost_op_emcy :: bool
  cal_lost_op_autoclear :: bool
  cal_reinit_ms :: u32
  cal_csp_target_window :: u32
  cal_sw_target_hold :: bool
  cal_disable_op_decel :: 'd
  cal_op_delay_ms :: u32

text \<open>\<open>x_posted\<close> are the emergencies the axis handed to its node, in order.\<close>

record 'd esc_cia402_axis =
  x_cw :: u16
  x_cw_prev :: u16
  x_mode_req :: int
  x_target_pos :: int
  x_target_vel :: int
  x_target_torque :: int
  x_profile_vel :: u32
  x_max_profile_vel :: u32
  x_accel :: u32
  x_decel :: u32
  x_max_accel :: u32
  x_max_decel :: u32
  x_max_motor_speed :: u32
  x_qs_decel :: u32
  x_qs_option :: int
  x_ferr_window :: u32
  x_hm_method :: int
  x_hm_speed_fast :: u32
  x_hm_speed_slow :: u32
  x_hm_accel :: u32
  x_hm_offset :: int
  x_supported :: u32
  x_ds :: cia402_ds
  x_mode :: int
  x_sw :: u16
  x_err_code :: u16
  x_pos :: 'd
  x_vel :: 'd
  x_ferr :: int
  x_warn_mode :: bool
  x_wait_cycles :: u32
  x_pending :: cia402_ds
  x_t_since_power_ns :: u64
  x_pp_active :: bool
  x_pp_buffered :: bool
  x_pp_ack :: bool
  x_pp_target :: int
  x_pp_next :: int
  x_hm_running :: bool
  x_hm_done :: bool
  x_hm_error :: bool
  x_hm_phase :: u8
  x_hm_switch :: int
  x_hm_has_switch :: bool
  x_inj_refuse_enable :: bool
  x_inj_slow_ms :: u32
  x_inj_ferr :: int
  x_inj_fault_code :: u16
  x_inj_latched :: bool
  x_inj_quickstop :: bool
  x_braking :: bool
  x_reinit :: bool
  x_tr_hold :: bool
  x_steps :: u64
  x_transitions :: u64
  x_faults :: u64
  x_emcy :: u64
  x_posted :: "u16 list"

definition esc_cia402_cal_default :: "'d flt \<Rightarrow> 'd esc_cia402_cal" where
  "esc_cia402_cal_default F = \<lparr>cal_power_on_ms = 0, cal_trans_cycles = 1, cal_code_lost_op = 0x8700, cal_code_ferr = 0x8611,
     cal_code_sync = 0x8700, cal_supported_modes = 0x1A5, cal_csp_lag_ms = fl_of F 0, cal_vel_scale = fl_of F 0, cal_lost_pd_fault = False, cal_lost_op_emcy = True,
     cal_lost_op_autoclear = False, cal_reinit_ms = 0, cal_csp_target_window = 0, cal_sw_target_hold = False,
     cal_disable_op_decel = fl_of F 0, cal_op_delay_ms = 0\<rparr>"

text \<open>\<open>axis_reset\<close>: power on.\<close>

definition esc_axis_reset :: "'d flt \<Rightarrow> u32 \<Rightarrow> 'd esc_cia402_axis" where
  "esc_axis_reset F supported = \<lparr>x_cw = 0, x_cw_prev = 0, x_mode_req = 0, x_target_pos = 0, x_target_vel = 0, x_target_torque = 0,
     x_profile_vel = 0, x_max_profile_vel = 0, x_accel = 0, x_decel = 0, x_max_accel = 0, x_max_decel = 0,
     x_max_motor_speed = 0, x_qs_decel = 0, x_qs_option = 2, x_ferr_window = 0xFFFFFFFF, x_hm_method = 0, x_hm_speed_fast = 0,
     x_hm_speed_slow = 0, x_hm_accel = 0, x_hm_offset = 0, x_supported = supported, x_ds = DS_NOT_READY, x_mode = 0, x_sw = 0,
     x_err_code = 0, x_pos = fl_of F 0, x_vel = fl_of F 0, x_ferr = 0, x_warn_mode = False, x_wait_cycles = 0, x_pending = DS_NOT_READY,
     x_t_since_power_ns = 0, x_pp_active = False, x_pp_buffered = False, x_pp_ack = False, x_pp_target = 0, x_pp_next = 0,
     x_hm_running = False, x_hm_done = False, x_hm_error = False, x_hm_phase = 0, x_hm_switch = 0, x_hm_has_switch = False,
     x_inj_refuse_enable = False, x_inj_slow_ms = 0, x_inj_ferr = 0, x_inj_fault_code = 0,
     x_inj_latched = False, x_inj_quickstop = False, x_braking = False, x_reinit = False, x_tr_hold = False, x_steps = 0,
     x_transitions = 0, x_faults = 0, x_emcy = 0, x_posted = []\<rparr>"

section \<open>The pure state machine\<close>

primrec esc_cia402_sw_state :: "cia402_ds \<Rightarrow> u16" where
  "esc_cia402_sw_state DS_NOT_READY = 0x0000"
| "esc_cia402_sw_state DS_SOD = 0x0040"
| "esc_cia402_sw_state DS_RTSO = 0x0021"
| "esc_cia402_sw_state DS_SO = 0x0023"
| "esc_cia402_sw_state DS_OE = 0x0027"
| "esc_cia402_sw_state DS_QSA = 0x0007"
| "esc_cia402_sw_state DS_FRA = 0x000F"
| "esc_cia402_sw_state DS_FAULT = 0x0008"

definition CMD_DISABLE_VOLTAGE :: "u16 \<Rightarrow> bool" where "CMD_DISABLE_VOLTAGE w \<longleftrightarrow> w AND 0x0082 = 0x0000"
definition CMD_QUICK_STOP :: "u16 \<Rightarrow> bool" where "CMD_QUICK_STOP w \<longleftrightarrow> w AND 0x0086 = 0x0002"
definition CMD_SHUTDOWN :: "u16 \<Rightarrow> bool" where "CMD_SHUTDOWN w \<longleftrightarrow> w AND 0x0087 = 0x0006"
definition CMD_SWITCH_ON :: "u16 \<Rightarrow> bool" where "CMD_SWITCH_ON w \<longleftrightarrow> w AND 0x008F = 0x0007"
definition CMD_ENABLE_OP :: "u16 \<Rightarrow> bool" where "CMD_ENABLE_OP w \<longleftrightarrow> w AND 0x008F = 0x000F"

definition esc_cia402_next :: "cia402_ds \<Rightarrow> u16 \<Rightarrow> u16 \<Rightarrow> int \<Rightarrow> cia402_ds" where
  "esc_cia402_next ds w w_prev qs =
    (case ds of
       DS_NOT_READY \<Rightarrow> DS_NOT_READY
     | DS_FAULT \<Rightarrow> if w AND CW_FR \<noteq> 0 \<and> w_prev AND CW_FR = 0 then DS_SOD else DS_FAULT
     | DS_FRA \<Rightarrow> DS_FRA
     | DS_SOD \<Rightarrow> if CMD_SHUTDOWN w then DS_RTSO else DS_SOD
     | DS_RTSO \<Rightarrow> if CMD_DISABLE_VOLTAGE w \<or> CMD_QUICK_STOP w then DS_SOD
         else if CMD_SWITCH_ON w \<or> CMD_ENABLE_OP w then DS_SO else DS_RTSO
     | DS_SO \<Rightarrow> if CMD_DISABLE_VOLTAGE w \<or> CMD_QUICK_STOP w then DS_SOD
         else if CMD_SHUTDOWN w then DS_RTSO else if CMD_ENABLE_OP w then DS_OE else DS_SO
     | DS_OE \<Rightarrow> if CMD_DISABLE_VOLTAGE w then DS_SOD else if CMD_QUICK_STOP w then DS_QSA
         else if CMD_SHUTDOWN w then DS_RTSO else if CMD_SWITCH_ON w then DS_SO else DS_OE
     | DS_QSA \<Rightarrow> if CMD_DISABLE_VOLTAGE w then DS_SOD
         else if qs \<ge> 5 \<and> qs \<le> 8 \<and> CMD_ENABLE_OP w then DS_OE else DS_QSA)"

section \<open>Process data\<close>

definition esc_get_bits :: "iomap \<Rightarrow> u32 \<Rightarrow> u16 \<Rightarrow> u32" where
  "esc_get_bits base b bits =
    fold (\<lambda>k v. if bit (base (unat (b + of_nat k) div 8)) (unat (b + of_nat k) mod 8) then v OR push_bit k 1 else v)
      [0..<min (unat bits) 32] 0"

definition esc_set_bit :: "nat \<Rightarrow> bool \<Rightarrow> iomap \<Rightarrow> iomap" where
  "esc_set_bit p c io =
    (let m = push_bit (p mod 8) 1 in io(p div 8 := (if c then io (p div 8) OR m else io (p div 8) AND NOT m)))"

definition esc_set_bits :: "iomap \<Rightarrow> u32 \<Rightarrow> u16 \<Rightarrow> u32 \<Rightarrow> iomap" where
  "esc_set_bits base b bits v =
    fold (\<lambda>k. esc_set_bit (unat (b + of_nat k)) (bit v k)) [0..<min (unat bits) 32] base"

definition esc_sext :: "u32 \<Rightarrow> int \<Rightarrow> int" where
  "esc_sext v bits =
    (if bits \<le> 0 \<or> bits \<ge> 32 then sint v
     else let m = push_bit (nat (bits - 1)) 1 in sint (((v AND (push_bit (nat bits) 1 - 1)) XOR m) - m))"

definition esc_axis_of :: "nat \<Rightarrow> u16 \<Rightarrow> (nat \<times> u16) option" where
  "esc_axis_of axes idx =
    (if idx < 0x6000 then None
     else let a = (unat idx - 0x6000) div 0x800 in
          if a \<ge> axes then None else Some (a, idx - of_nat (a * 0x800)))"

definition esc_put_cmd :: "'d esc_cia402_axis \<Rightarrow> u16 \<Rightarrow> u8 \<Rightarrow> u32 \<Rightarrow> int \<Rightarrow> 'd esc_cia402_axis \<times> bool" where
  "esc_put_cmd x base sub v bits =
    (if base = 0x6040 then (x\<lparr>x_cw := ucast v\<rparr>, True)
     else if base = 0x6060 then (x\<lparr>x_mode_req := to_i8 (esc_sext v (if bits \<noteq> 0 then bits else 8))\<rparr>, True)
     else if base = 0x607A then (x\<lparr>x_target_pos := esc_sext v bits\<rparr>, True)
     else if base = 0x60FF then (x\<lparr>x_target_vel := esc_sext v bits\<rparr>, True)
     else if base = 0x6071 then (x\<lparr>x_target_torque := to_i16 (esc_sext v bits)\<rparr>, True)
     else if base = 0x6081 then (x\<lparr>x_profile_vel := v\<rparr>, True)
     else if base = 0x607F then (x\<lparr>x_max_profile_vel := v\<rparr>, True)
     else if base = 0x6083 then (x\<lparr>x_accel := v\<rparr>, True)
     else if base = 0x6084 then (x\<lparr>x_decel := v\<rparr>, True)
     else if base = 0x6085 then (x\<lparr>x_qs_decel := v\<rparr>, True)
     else if base = 0x60C5 then (x\<lparr>x_max_accel := v\<rparr>, True)
     else if base = 0x60C6 then (x\<lparr>x_max_decel := v\<rparr>, True)
     else if base = 0x6080 then (x\<lparr>x_max_motor_speed := v\<rparr>, True)
     else if base = 0x605A then (x\<lparr>x_qs_option := to_i16 (esc_sext v bits)\<rparr>, True)
     else if base = 0x6065 then (x\<lparr>x_ferr_window := v\<rparr>, True)
     else if base = 0x6098 then (x\<lparr>x_hm_method := to_i8 (esc_sext v (if bits \<noteq> 0 then bits else 8))\<rparr>, True)
     else if base = 0x6099
     then (if sub = 1 then x\<lparr>x_hm_speed_fast := v\<rparr> else if sub = 2 then x\<lparr>x_hm_speed_slow := v\<rparr> else x, True)
     else if base = 0x609A then (x\<lparr>x_hm_accel := v\<rparr>, True)
     else if base = 0x607C then (x\<lparr>x_hm_offset := esc_sext v bits\<rparr>, True)
     else (x, False))"

section \<open>One step of an axis\<close>

definition esc_set_ds :: "'d esc_cia402_cal \<Rightarrow> cia402_ds \<Rightarrow> 'd esc_cia402_axis \<Rightarrow> 'd esc_cia402_axis" where
  "esc_set_ds cal d x =
    (if x_ds x = d then x
     else
      let x1 = (if x_ds x = DS_OE \<and> cal_sw_target_hold cal \<and> x_sw x AND SW_TARGET \<noteq> 0 \<and> d \<noteq> DS_FRA \<and> d \<noteq> DS_FAULT
                then x\<lparr>x_tr_hold := True\<rparr> else x);
          x2 = (if d = DS_OE then x1\<lparr>x_tr_hold := False\<rparr> else x1\<lparr>x_braking := False\<rparr>);
          x3 = x2\<lparr>x_ds := d, x_transitions := x_transitions x2 + 1, x_wait_cycles := 0\<rparr>
      in if d \<noteq> DS_OE
         then x3\<lparr>x_pp_active := False, x_pp_buffered := False, x_pp_ack := False, x_hm_running := False\<rparr> else x3)"

definition esc_raise_fault :: "'d esc_cia402_cal \<Rightarrow> u16 \<Rightarrow> 'd esc_cia402_axis \<Rightarrow> 'd esc_cia402_axis" where
  "esc_raise_fault cal code x =
    (if x_ds x = DS_FAULT \<or> x_ds x = DS_FRA then x
     else
      let x1 = x\<lparr>x_err_code := code, x_faults := x_faults x + 1, x_tr_hold := False, x_braking := False\<rparr>;
          x2 = (if code \<noteq> cal_code_lost_op cal \<or> cal_lost_op_emcy cal
                then x1\<lparr>x_emcy := x_emcy x1 + 1, x_posted := x_posted x1 @ [code]\<rparr> else x1)
      in esc_set_ds cal (if x_ds x = DS_OE \<or> x_ds x = DS_QSA then DS_FRA else DS_FAULT) x2)"

definition esc_mode_bit :: "int \<Rightarrow> nat option" where
  "esc_mode_bit m =
    (if m = 1 then Some 0 else if m = 2 then Some 1 else if m = 3 then Some 2 else if m = 4 then Some 3
     else if m = 6 then Some 5 else if m = 7 then Some 6 else if m = 8 then Some 7 else if m = 9 then Some 8
     else if m = 10 then Some 9 else None)"

definition esc_ms_to_cycles :: "u32 \<Rightarrow> u64 \<Rightarrow> u32" where
  "esc_ms_to_cycles ms dt_ns = (if ms = 0 \<or> dt_ns = 0 then 0 else ucast ((ucast ms * 1000000 + dt_ns - 1) div dt_ns))"

definition esc_power :: "'d esc_cia402_cal \<Rightarrow> u64 \<Rightarrow> 'd esc_cia402_axis \<Rightarrow> 'd esc_cia402_axis" where
  "esc_power cal dt_ns x =
    (if x_ds x \<noteq> DS_NOT_READY then x
     else
      let x1 = x\<lparr>x_t_since_power_ns := x_t_since_power_ns x + dt_ns\<rparr>;
          ms = (if x_reinit x1 then cal_reinit_ms cal else cal_power_on_ms cal)
      in if x_t_since_power_ns x1 \<ge> ucast ms * 1000000 then (esc_set_ds cal DS_SOD x1)\<lparr>x_reinit := False\<rparr> else x1)"

text \<open>Faults first: injected, then the EtherCAT state. \<open>wd\<close>: the AL status code is 0x001B.\<close>

definition esc_faults :: "'d esc_cia402_cal \<Rightarrow> bool \<Rightarrow> bool \<Rightarrow> 'd esc_cia402_axis \<Rightarrow> 'd esc_cia402_axis" where
  "esc_faults cal op wd x =
    (let x1 = (if x_inj_fault_code x \<noteq> 0 \<and> x_ds x \<noteq> DS_FAULT \<and> x_ds x \<noteq> DS_FRA
               then esc_raise_fault cal (x_inj_fault_code x) x else x);
         x2 = (if \<not> op \<and> (x_ds x1 = DS_OE \<or> x_ds x1 = DS_QSA) then esc_raise_fault cal (cal_code_lost_op cal) x1
               else if \<not> op \<and> (x_ds x1 = DS_RTSO \<or> x_ds x1 = DS_SO)
               then (if cal_lost_pd_fault cal \<and> wd then esc_raise_fault cal (cal_code_lost_op cal) x1
                     else esc_set_ds cal DS_SOD x1)
               else x1);
         x3 = (if op \<and> cal_lost_op_autoclear cal \<and> x_ds x2 = DS_FAULT \<and> x_err_code x2 = cal_code_lost_op cal
                  \<and> x_inj_fault_code x2 = 0
               then esc_set_ds cal DS_NOT_READY (x2\<lparr>x_err_code := 0, x_reinit := True, x_t_since_power_ns := 0\<rparr>) else x2)
     in if x_inj_quickstop x3 \<and> x_ds x3 = DS_OE then esc_set_ds cal DS_QSA (x3\<lparr>x_inj_quickstop := False\<rparr>) else x3)"

definition esc_mode :: "'d esc_cia402_axis \<Rightarrow> 'd esc_cia402_axis" where
  "esc_mode x =
    (if x_mode_req x = x_mode x then x
     else if x_mode_req x = 0 \<or> (case esc_mode_bit (x_mode_req x) of None \<Rightarrow> False | Some b \<Rightarrow> bit (x_supported x) b)
     then x\<lparr>x_mode := x_mode_req x, x_warn_mode := False, x_pp_active := False, x_pp_buffered := False, x_pp_ack := False,
            x_hm_running := False, x_hm_done := False, x_hm_error := False\<rparr>
     else x\<lparr>x_warn_mode := True\<rparr>)"

text \<open>The state the controlword asks for, after latched faults, a refused enable and braking.\<close>

definition esc_wanted :: "'d flt \<Rightarrow> 'd esc_cia402_cal \<Rightarrow> 'd esc_cia402_axis \<Rightarrow> 'd esc_cia402_axis \<times> cia402_ds" where
  "esc_wanted F cal x =
    (let nx = esc_cia402_next (x_ds x) (x_cw x) (x_cw_prev x) (x_qs_option x);
         nx = (if nx = DS_SOD \<and> x_ds x = DS_FAULT \<and> x_inj_latched x \<and> x_err_code x \<noteq> 0 then DS_FAULT else nx);
         nx = (if nx = DS_OE \<and> x_ds x \<noteq> DS_QSA \<and> x_inj_refuse_enable x then x_ds x else nx)
     in if x_ds x = DS_OE \<and> nx = DS_SO \<and> fl_lt F (fl_of F 0) (cal_disable_op_decel cal) \<and> fl_le F (fl_half F) (fl_fabs F (x_vel x))
        then (x\<lparr>x_braking := True\<rparr>, DS_OE)
        else (x, nx))"

definition esc_commanded :: "'d flt \<Rightarrow> 'd esc_cia402_cal \<Rightarrow> bool \<Rightarrow> u64 \<Rightarrow> 'd esc_cia402_axis \<Rightarrow> 'd esc_cia402_axis" where
  "esc_commanded F cal op dt_ns x =
    (if \<not> (op \<and> x_ds x \<noteq> DS_NOT_READY \<and> x_ds x \<noteq> DS_FRA) then x
     else
      let (x1, nx) = esc_wanted F cal x in
      if nx = x_ds x1 then x1\<lparr>x_wait_cycles := 0\<rparr>
      else
       let urgent = (nx = DS_QSA \<or> nx = DS_SOD);
           need = (if urgent then 0
                   else (if cal_trans_cycles cal \<noteq> 0 then cal_trans_cycles cal - 1 else 0) + esc_ms_to_cycles (x_inj_slow_ms x1) dt_ns);
           x2 = (if x_wait_cycles x1 = 0 \<or> x_pending x1 \<noteq> nx then x1\<lparr>x_pending := nx, x_wait_cycles := need + 1\<rparr> else x1);
           x3 = x2\<lparr>x_wait_cycles := x_wait_cycles x2 - 1\<rparr>
       in if x_wait_cycles x3 \<noteq> 0 then x3
          else
           let x4 = (if nx = DS_SOD \<and> x_ds x3 = DS_FAULT then x3\<lparr>x_err_code := 0\<rparr> else x3);
               x5 = (if nx = DS_OE \<and> x_mode x4 = MODE_CSP then x4\<lparr>x_ferr := 0\<rparr> else x4)
           in esc_set_ds cal nx x5)"

section \<open>Motion\<close>

abbreviation (input) BIG :: "'d flt \<Rightarrow> 'd" where "BIG F \<equiv> fl_of F 1000000000000000"
abbreviation (input) DFLT_PROFILE_VEL :: "'d flt \<Rightarrow> 'd" where "DFLT_PROFILE_VEL F \<equiv> fl_of F 100000"
abbreviation (input) DFLT_ACCEL :: "'d flt \<Rightarrow> 'd" where "DFLT_ACCEL F \<equiv> fl_of F 1000000"
abbreviation (input) DFLT_QS_DECEL :: "'d flt \<Rightarrow> 'd" where "DFLT_QS_DECEL F \<equiv> fl_of F 10000000"

abbreviation (input) esc_pos_i32 :: "'d flt \<Rightarrow> 'd \<Rightarrow> int" where
  "esc_pos_i32 F p \<equiv> to_i32 (fl_llround F p)"

definition esc_ramp :: "'d flt \<Rightarrow> 'd \<Rightarrow> 'd \<Rightarrow> 'd \<Rightarrow> 'd \<Rightarrow> 'd \<Rightarrow> 'd" where
  "esc_ramp F v v_to acc dcl dt =
    (let dv = fl_sub F v_to v;
         lim = (if fl_lt F (fl_fabs F v) (fl_fabs F v_to) \<and> fl_le F (fl_of F 0) (fl_mul F v v_to)
                then fl_mul F acc dt else fl_mul F dcl dt);
         dv = (if fl_lt F lim dv then lim else dv);
         dv = (if fl_lt F dv (fl_neg F lim) then fl_neg F lim else dv)
     in fl_add F v dv)"

text \<open>\<open>lim_or\<close> of an object of 32 bits.\<close>

abbreviation (input) esc_lim_or :: "'d flt \<Rightarrow> u32 \<Rightarrow> 'd \<Rightarrow> 'd" where
  "esc_lim_or F v dflt \<equiv> (let d = fl_of F (uint v) in if fl_lt F (fl_of F 0) d then d else dflt)"

definition esc_stop_motion :: "'d flt \<Rightarrow> 'd \<Rightarrow> 'd \<Rightarrow> 'd esc_cia402_axis \<Rightarrow> 'd esc_cia402_axis" where
  "esc_stop_motion F dcl dt x =
    (let v = esc_ramp F (x_vel x) (fl_of F 0) dcl dcl dt in x\<lparr>x_vel := v, x_pos := fl_add F (x_pos x) (fl_mul F v dt)\<rparr>)"

text \<open>One step of the trapezoidal profile; true when the target is reached.\<close>

definition esc_pp_step :: "'d flt \<Rightarrow> 'd \<Rightarrow> 'd esc_cia402_axis \<Rightarrow> 'd esc_cia402_axis \<times> bool" where
  "esc_pp_step F dt x =
    (let vmax = esc_lim_or F (x_profile_vel x) (DFLT_PROFILE_VEL F);
         mp = fl_of F (uint (x_max_profile_vel x));
         vmax = (if x_max_profile_vel x \<noteq> 0 \<and> fl_lt F mp vmax then mp else vmax);
         acc = esc_lim_or F (x_accel x) (DFLT_ACCEL F); dcl = esc_lim_or F (x_decel x) (DFLT_ACCEL F);
         target = fl_of F (x_pp_target x);
         rem = fl_sub F target (x_pos x)
     in if fl_lt F (fl_fabs F rem) (fl_half F) \<and> fl_lt F (fl_mul F (fl_fabs F (x_vel x)) dt) (fl_half F)
        then (x\<lparr>x_pos := target, x_vel := fl_of F 0\<rparr>, True)
        else
         let dir = (if fl_lt F (fl_of F 0) rem then fl_of F 1 else fl_of F (- 1));
             vb = fl_sqrt F (fl_mul F (fl_mul F (fl_of F 2) dcl) (fl_fabs F rem));
             v = esc_ramp F (x_vel x) (fl_mul F dir (if fl_lt F vb vmax then vb else vmax)) acc dcl dt;
             step = fl_mul F v dt
         in if fl_lt F (fl_of F 0) rem \<and> fl_le F rem step \<or> fl_lt F rem (fl_of F 0) \<and> fl_le F step rem
            then (x\<lparr>x_pos := target, x_vel := fl_of F 0\<rparr>, True)
            else (x\<lparr>x_vel := v, x_pos := fl_add F (x_pos x) step\<rparr>, False))"

abbreviation (input) esc_oms :: "u16 \<Rightarrow> 'd esc_cia402_axis \<Rightarrow> 'd esc_cia402_axis" where
  "esc_oms oms x \<equiv> x\<lparr>x_sw := x_sw x OR oms\<rparr>"

abbreviation (input) esc_edge4 :: "'d esc_cia402_axis \<Rightarrow> bool" where
  "esc_edge4 x \<equiv> x_cw x AND CW_OMS4 \<noteq> 0 \<and> x_cw_prev x AND CW_OMS4 = 0"

abbreviation (input) esc_vs :: "'d flt \<Rightarrow> 'd esc_cia402_cal \<Rightarrow> 'd" where
  "esc_vs F cal \<equiv> (if fl_lt F (fl_of F 0) (cal_vel_scale cal) then cal_vel_scale cal else fl_of F 1)"

text \<open>The velocity of a cyclic mode: the ramp with the limits of the drive, cut at the motor speed.\<close>

definition esc_cyclic_v :: "'d flt \<Rightarrow> 'd \<Rightarrow> 'd \<Rightarrow> 'd esc_cia402_axis \<Rightarrow> 'd esc_cia402_axis" where
  "esc_cyclic_v F v_to dt x =
    (let acc = esc_lim_or F (x_max_accel x) (BIG F); dcl = esc_lim_or F (x_max_decel x) (BIG F);
         vmax = (if x_max_motor_speed x \<noteq> 0 then fl_of F (uint (x_max_motor_speed x)) else BIG F);
         v = esc_ramp F (x_vel x) v_to acc dcl dt;
         v = (if fl_lt F vmax v then vmax else v);
         v = (if fl_lt F v (fl_neg F vmax) then fl_neg F vmax else v)
     in x\<lparr>x_vel := v, x_pos := fl_add F (x_pos x) (fl_mul F v dt)\<rparr>)"

text \<open>CSP: toward the target with a first-order lag, the shortest way round; a following error
  beyond its window is a fault.\<close>

definition esc_csp_v :: "'d flt \<Rightarrow> 'd esc_cia402_cal \<Rightarrow> 'd \<Rightarrow> 'd esc_cia402_axis \<Rightarrow> 'd" where
  "esc_csp_v F cal dt x =
    (let lag = cal_csp_lag_ms cal;
         tau = (if fl_lt F (fl_of F 0) lag then fl_mul F lag (fl_milli F) else dt);
         tau = (if fl_lt F tau dt then dt else tau);
         v = fl_div F (fl_sub F (fl_of F (x_target_pos x)) (x_pos x)) tau;
         v = (if fl_lt F (fl_of F 2147483648) (fl_mul F v tau) then fl_sub F v (fl_div F (fl_of F 4294967296) tau) else v)
     in if fl_lt F (fl_mul F v tau) (fl_of F (- 2147483648)) then fl_add F v (fl_div F (fl_of F 4294967296) tau) else v)"

abbreviation (input) esc_ferr :: "'d flt \<Rightarrow> 'd esc_cia402_axis \<Rightarrow> int" where
  "esc_ferr F x \<equiv> to_i32 (fl_llround F (fl_sub F (fl_of F (x_target_pos x)) (x_pos x)))"

definition esc_csp :: "'d flt \<Rightarrow> 'd esc_cia402_cal \<Rightarrow> 'd \<Rightarrow> 'd esc_cia402_axis \<Rightarrow> 'd esc_cia402_axis" where
  "esc_csp F cal dt x =
    (let x1 = esc_cyclic_v F (esc_csp_v F cal dt x) dt x;
         x2 = x1\<lparr>x_ferr := to_i32 (esc_ferr F x1 + x_inj_ferr x1)\<rparr>;
         ferr = (of_int \<bar>x_ferr x2\<bar> :: u32);
         oms = (if cal_csp_target_window cal \<noteq> 0 \<and> ferr \<le> cal_csp_target_window cal then SW_OMS12 OR SW_TARGET else SW_OMS12)
     in if x_ferr_window x2 \<noteq> 0xFFFFFFFF \<and> ferr > x_ferr_window x2
        then esc_raise_fault cal (cal_code_ferr cal) x2
        else esc_oms oms x2)"

abbreviation (input) esc_csv :: "'d flt \<Rightarrow> 'd esc_cia402_cal \<Rightarrow> bool \<Rightarrow> 'd \<Rightarrow> 'd esc_cia402_axis \<Rightarrow> 'd esc_cia402_axis" where
  "esc_csv F cal halt dt x \<equiv>
    esc_oms SW_OMS12 (esc_cyclic_v F (if halt then fl_of F 0 else fl_mul F (fl_of F (x_target_vel x)) (esc_vs F cal)) dt x)"

definition esc_pv :: "'d flt \<Rightarrow> 'd esc_cia402_cal \<Rightarrow> bool \<Rightarrow> 'd \<Rightarrow> 'd esc_cia402_axis \<Rightarrow> 'd esc_cia402_axis" where
  "esc_pv F cal halt dt x =
    (let v_to = (if halt then fl_of F 0 else fl_mul F (fl_of F (x_target_vel x)) (esc_vs F cal));
         v = esc_ramp F (x_vel x) v_to (esc_lim_or F (x_accel x) (DFLT_ACCEL F)) (esc_lim_or F (x_decel x) (DFLT_ACCEL F)) dt;
         x1 = x\<lparr>x_vel := v, x_pos := fl_add F (x_pos x) (fl_mul F v dt)\<rparr>
     in esc_oms ((if fl_lt F (fl_fabs F (fl_sub F v v_to)) (fl_half F) then SW_TARGET else 0)
          OR (if fl_lt F (fl_fabs F v) (fl_half F) then SW_OMS12 else 0)) x1)"

text \<open>PP: a new set-point on the rising edge of bit 4, at once or buffered, then the profile.\<close>

definition esc_pp_take :: "'d flt \<Rightarrow> 'd esc_cia402_axis \<Rightarrow> 'd esc_cia402_axis" where
  "esc_pp_take F x =
    (if \<not> esc_edge4 x then x
     else
      let base = (if x_pp_active x then x_pp_target x else esc_pos_i32 F (x_pos x));
          t = (if x_cw x AND CW_OMS6 \<noteq> 0 then to_i32 (base + x_target_pos x) else x_target_pos x)
      in if \<not> x_pp_active x \<or> x_cw x AND CW_OMS5 \<noteq> 0
         then x\<lparr>x_pp_target := t, x_pp_active := True, x_pp_ack := True, x_pp_buffered := False\<rparr>
         else if \<not> x_pp_buffered x then x\<lparr>x_pp_next := t, x_pp_buffered := True, x_pp_ack := True\<rparr>
         else x)"

definition esc_pp_move :: "'d flt \<Rightarrow> bool \<Rightarrow> 'd \<Rightarrow> 'd esc_cia402_axis \<Rightarrow> 'd esc_cia402_axis" where
  "esc_pp_move F halt dt x =
    (if halt
     then let x1 = esc_stop_motion F (esc_lim_or F (x_decel x) (DFLT_ACCEL F)) dt x
          in if fl_lt F (fl_fabs F (x_vel x1)) (fl_half F) then esc_oms SW_TARGET x1 else x1
     else if x_pp_active x
     then (case esc_pp_step F dt x of
             (x1, False) \<Rightarrow> x1
           | (x1, True) \<Rightarrow> if x_pp_buffered x1 then x1\<lparr>x_pp_target := x_pp_next x1, x_pp_buffered := False, x_pp_active := True\<rparr>
                           else x1\<lparr>x_pp_active := False\<rparr>)
     else x\<lparr>x_vel := fl_of F 0\<rparr>)"

definition esc_pp :: "'d flt \<Rightarrow> bool \<Rightarrow> 'd \<Rightarrow> 'd esc_cia402_axis \<Rightarrow> 'd esc_cia402_axis" where
  "esc_pp F halt dt x =
    (let x1 = esc_pp_take F x;
         x2 = (if x_cw x1 AND CW_OMS4 = 0 then x1\<lparr>x_pp_ack := False\<rparr> else x1);
         x3 = esc_pp_move F halt dt x2
     in esc_oms ((if \<not> x_pp_active x3 \<and> \<not> halt then SW_TARGET else 0) OR (if x_pp_ack x3 then SW_OMS12 else 0))
          (x3\<lparr>x_ferr := x_inj_ferr x3\<rparr>))"

text \<open>HM: methods 35 and 37 at once, 19 and 21 to the virtual switch.\<close>

definition esc_hm_start :: "'d flt \<Rightarrow> 'd esc_cia402_axis \<Rightarrow> 'd esc_cia402_axis" where
  "esc_hm_start F x =
    (if \<not> esc_edge4 x then x
     else
      let x1 = x\<lparr>x_hm_done := False, x_hm_error := False, x_hm_phase := 0\<rparr> in
      if x_hm_method x1 = 35 \<or> x_hm_method x1 = 37
      then x1\<lparr>x_pos := fl_of F (x_hm_offset x1), x_vel := fl_of F 0, x_hm_done := True\<rparr>
      else if (x_hm_method x1 = 19 \<or> x_hm_method x1 = 21) \<and> x_hm_has_switch x1 then x1\<lparr>x_hm_running := True\<rparr>
      else x1\<lparr>x_hm_error := True\<rparr>)"

definition esc_hm_move :: "'d flt \<Rightarrow> 'd \<Rightarrow> 'd esc_cia402_axis \<Rightarrow> 'd esc_cia402_axis" where
  "esc_hm_move F dt x =
    (if \<not> x_hm_running x then x\<lparr>x_vel := fl_of F 0\<rparr>
     else
      let fwd = (x_hm_method x = 19);
          dir = (if fwd then fl_of F 1 else fl_of F (- 1));
          ha = esc_lim_or F (x_hm_accel x) (DFLT_ACCEL F);
          v = esc_ramp F (x_vel x) (fl_mul F dir (esc_lim_or F (x_hm_speed_fast x) (DFLT_PROFILE_VEL F))) ha ha dt;
          np = fl_add F (x_pos x) (fl_mul F v dt);
          sw = fl_of F (x_hm_switch x);
          hit = (if fwd then fl_lt F (x_pos x) sw \<and> fl_le F sw np else fl_lt F sw (x_pos x) \<and> fl_le F np sw)
      in if hit \<or> (if fwd then fl_le F sw (x_pos x) else fl_le F (x_pos x) sw)
         then x\<lparr>x_pos := fl_of F (x_hm_offset x), x_hm_switch := x_hm_offset x, x_vel := fl_of F 0, x_hm_running := False,
                x_hm_done := True\<rparr>
         else x\<lparr>x_vel := v, x_pos := np\<rparr>)"

definition esc_hm :: "'d flt \<Rightarrow> 'd \<Rightarrow> 'd esc_cia402_axis \<Rightarrow> 'd esc_cia402_axis" where
  "esc_hm F dt x =
    (let x1 = esc_hm_start F x;
         x2 = (if x_cw x1 AND CW_OMS4 = 0 \<and> x_hm_running x1 then x1\<lparr>x_hm_running := False\<rparr> else x1);
         x3 = esc_hm_move F dt x2
     in esc_oms ((if x_hm_done x3 then SW_OMS12 OR SW_TARGET else 0) OR (if x_hm_error x3 then SW_OMS13 OR SW_TARGET else 0)) x3)"

definition esc_motion :: "'d flt \<Rightarrow> 'd esc_cia402_cal \<Rightarrow> 'd \<Rightarrow> 'd esc_cia402_axis \<Rightarrow> 'd esc_cia402_axis" where
  "esc_motion F cal dt x =
    (if x_ds x = DS_QSA \<or> x_ds x = DS_FRA then esc_stop_motion F (esc_lim_or F (x_qs_decel x) (DFLT_QS_DECEL F)) dt x
     else if x_ds x \<noteq> DS_OE then x\<lparr>x_vel := fl_of F 0\<rparr>
     else if x_braking x
     then let x1 = esc_stop_motion F (cal_disable_op_decel cal) dt x in x1\<lparr>x_ferr := esc_ferr F x1\<rparr>
     else
      let halt = (x_cw x AND CW_HALT \<noteq> 0) in
      if x_mode x = MODE_CSP then esc_csp F cal dt x
      else if x_mode x = MODE_CSV then esc_csv F cal halt dt x
      else if x_mode x = MODE_PV then esc_pv F cal halt dt x
      else if x_mode x = MODE_PP then esc_pp F halt dt x
      else if x_mode x = MODE_HM then esc_hm F dt x
      else x\<lparr>x_vel := fl_of F 0\<rparr>)"

text \<open>The end of a fault reaction or of a quick stop: the motor has stopped.\<close>

definition esc_stopped :: "'d flt \<Rightarrow> 'd esc_cia402_cal \<Rightarrow> 'd esc_cia402_axis \<Rightarrow> 'd esc_cia402_axis" where
  "esc_stopped F cal x =
    (let still = fl_lt F (fl_fabs F (x_vel x)) (fl_half F) in
     if x_ds x = DS_FRA \<and> still then esc_set_ds cal DS_FAULT (x\<lparr>x_vel := fl_of F 0\<rparr>)
     else if x_ds x = DS_QSA \<and> still \<and> x_qs_option x \<le> 4 then esc_set_ds cal DS_SOD (x\<lparr>x_vel := fl_of F 0\<rparr>)
     else x)"

definition esc_status :: "'d esc_cia402_axis \<Rightarrow> u16" where
  "esc_status x =
    (let s1 = (x_sw x AND NOT 0x006F) OR esc_cia402_sw_state (x_ds x);
         s2 = (if x_ds x \<noteq> DS_OE then s1 AND NOT 0x3400 else s1)
     in if x_tr_hold x \<and> x_ds x \<in> {DS_RTSO, DS_SO, DS_SOD} then s2 OR SW_TARGET else s2)"

definition esc_axis_step :: "'d flt \<Rightarrow> 'd esc_cia402_cal \<Rightarrow> bool \<Rightarrow> bool \<Rightarrow> 'd \<Rightarrow> u64 \<Rightarrow> 'd esc_cia402_axis \<Rightarrow> 'd esc_cia402_axis" where
  "esc_axis_step F cal op wd dt dt_ns x =
    (let x1 = esc_commanded F cal op dt_ns (esc_mode (esc_faults cal op wd (esc_power cal dt_ns x)));
         s = esc_cia402_sw_state (x_ds x1) OR 0x0210;
         x2 = x1\<lparr>x_sw := (if x_warn_mode x1 then s OR 0x0080 else s)\<rparr>;
         x3 = esc_stopped F cal (esc_motion F cal dt x2)
     in x3\<lparr>x_sw := esc_status x3, x_cw_prev := x_cw x3, x_steps := x_steps x3 + 1\<rparr>)"

end
