(* ===== verification/Closed_Loop.thy ===== *)
theory Closed_Loop
  imports Cia402_Stages Drive Complex_Main
begin

text \<open>
  Master and drive together: the axis layer of the master (theories \<open>Cia402_Axis\<close>,
  \<open>Cia402_Stages\<close>) against the virtual drive (theory \<open>Drive\<close>), two independent
  implementations of CiA 402. In a bus cycle the master runs its step on the inputs of
  the last frame; the frame then takes the controlword to the drive, which steps and
  leaves its statusword for the next cycle. The drive reads and writes the process image
  with its own bit access, at the position of the objects in the master's binding.
\<close>

section \<open>Bit access of the two sides\<close>

lemma bit_esc_get:
  assumes "n \<le> 32"
  shows "bit (fold (\<lambda>k v. if P k then v OR push_bit k 1 else v) [0..<n] (0 :: u32)) i \<longleftrightarrow> i < n \<and> P i"
  using assms
proof (induction n)
  case (Suc n)
  have "bit (push_bit n (1 :: u32)) i \<longleftrightarrow> i = n" using Suc.prems by (auto simp: bit_exp_iff)
  then show ?case using Suc by (auto simp: bit_or_iff less_Suc_eq)
qed simp

lemma esc_get_is_pdo_get:
  assumes "handle_ok h" and "h_bits h = 16"
  shows "esc_get_bits io (h_bit h) 16 = ucast (ecm_pdo_get h io)"
proof (rule bit_word_eqI)
  fix i :: nat
  have n: "unat (h_bit h) + 16 < 2 ^ 32" using assms by (simp add: handle_ok_def)
  have u: "unat (h_bit h + of_nat k) = unat (h_bit h) + k" if "k < 16" for k
    using that n by (intro unat_add_of_nat) simp
  assume "i < LENGTH(32)"
  then show "bit (esc_get_bits io (h_bit h) 16) i \<longleftrightarrow> bit (ucast (ecm_pdo_get h io) :: u32) i"
    using assms u [of i] unfolding esc_get_bits_def
    by (simp add: bit_esc_get bit_ucast_iff bit_ecm_pdo_get io_bit_def) auto
qed

lemma io_bit_set_bit: "io_bit (esc_set_bit q c io) p \<longleftrightarrow> (if p = q then c else io_bit io p)"
proof -
  have m: "bit (push_bit (q mod 8) (1 :: u8)) (p mod 8) \<longleftrightarrow> p mod 8 = q mod 8"
    "bit (push_bit (q mod 8) (1 :: u8)) (q mod 8)"
    by (auto simp: bit_exp_iff)
  have "p = q \<longleftrightarrow> p div 8 = q div 8 \<and> p mod 8 = q mod 8" by (metis div_mult_mod_eq)
  then show ?thesis
    by (auto simp: esc_set_bit_def Let_def io_bit_def m bit_or_iff bit_and_iff bit_not_iff simp del: push_bit_of_1)
qed

lemma io_bit_esc_set:
  fixes b v :: u32 and io :: iomap
  assumes "unat b + n < 2 ^ 32"
  shows "io_bit (fold (\<lambda>k. esc_set_bit (unat (b + of_nat k)) (bit v k)) [0..<n] io) p \<longleftrightarrow>
    (if unat b \<le> p \<and> p < unat b + n then bit v (p - unat b) else io_bit io p)"
  using assms
proof (induction n)
  case (Suc n)
  have u: "unat (b + of_nat n) = unat b + n" using Suc.prems by (intro unat_add_of_nat) simp
  show ?case using Suc by (auto simp: io_bit_set_bit u)
qed auto

lemma pdo_get_esc_set:
  assumes "handle_ok h" and "h_bits h = 16"
  shows "ecm_pdo_get h (esc_set_bits io (h_bit h) 16 v) = ucast (take_bit 16 v)"
proof (rule bit_word_eqI)
  fix i :: nat
  have n: "unat (h_bit h) + 16 < 2 ^ 32" using assms by (simp add: handle_ok_def)
  assume "i < LENGTH(64)"
  then show "bit (ecm_pdo_get h (esc_set_bits io (h_bit h) 16 v)) i \<longleftrightarrow> bit (ucast (take_bit 16 v) :: u64) i"
    using assms io_bit_esc_set [OF n, of v io "unat (h_bit h) + i"]
    by (auto simp: bit_ecm_pdo_get esc_set_bits_def bit_ucast_iff bit_take_bit_iff)
qed

section \<open>The statusword\<close>

primrec ds_of :: "cia402_ds \<Rightarrow> ecm_ds" where
  "ds_of DS_NOT_READY = ECM_DS_NOT_READY"
| "ds_of DS_SOD = ECM_DS_SOD"
| "ds_of DS_RTSO = ECM_DS_RTSO"
| "ds_of DS_SO = ECM_DS_SO"
| "ds_of DS_OE = ECM_DS_OE"
| "ds_of DS_QSA = ECM_DS_QSA"
| "ds_of DS_FRA = ECM_DS_FRA"
| "ds_of DS_FAULT = ECM_DS_FAULT"

lemma decode_low: "w AND 0x6F = v AND 0x6F \<Longrightarrow> ecm_cia402_decode w = ecm_cia402_decode v"
proof -
  assume a: "w AND 0x6F = v AND 0x6F"
  have "x AND 0x4F = (x AND 0x6F) AND 0x4F" for x :: u16 by (simp add: and.assoc)
  then have "w AND 0x4F = v AND 0x4F" using a by metis
  with a show ?thesis by (simp add: ecm_cia402_decode_def)
qed

lemma status_low: "esc_status x AND 0x6F = esc_cia402_sw_state (x_ds x)"
proof -
  have m: "(s AND NOT 0x3400) AND 0x6F = s AND 0x6F" "(s OR 0x400) AND 0x6F = s AND 0x6F"
    "((s AND NOT 0x6F) OR t) AND 0x6F = t AND 0x6F" for s t :: u16
    by (simp_all add: and.assoc bit.conj_disj_distrib2)
  have "esc_cia402_sw_state d AND 0x6F = esc_cia402_sw_state d" for d by (cases d) simp_all
  then show ?thesis
    by (simp only: esc_status_def Let_def if_distrib [of "\<lambda>s. s AND 0x6F"] m if_cancel)
qed

lemma decode_state: "ecm_cia402_decode (esc_cia402_sw_state d) = ds_of d"
  by (cases d) (simp_all add: ecm_cia402_decode_def)

lemma decode_status: "ecm_cia402_decode (esc_status x) = ds_of (x_ds x)"
proof -
  have "esc_cia402_sw_state d AND 0x6F = esc_cia402_sw_state d" for d by (cases d) simp_all
  then show ?thesis using decode_low [of "esc_status x" "esc_cia402_sw_state (x_ds x)"] by (simp add: status_low decode_state)
qed

section \<open>A step of the master on the way to Operation enabled\<close>

lemma walk_frames:
  "a_ds_wait (fst (st_step got run a w)) = a_ds_wait a" "a_step_since (fst (st_step got run a w)) = a_step_since a"
  "a_ds_wait (fst (st_cyclic got run en a io)) = a_ds_wait a" "a_step_since (fst (st_cyclic got run en a io)) = a_step_since a"
  "a_ds_wait (fst (st_profile tmo htmo tk False a w io)) = a_ds_wait a"
  "a_step_since (fst (st_profile tmo htmo tk False a w io)) = a_step_since a"
  by (simp_all add: st_step_def st_cyclic_def st_csp_def st_csv_def st_profile_def st_pp_def pp_next_def Let_def
      split: prod.splits)

lemma axis_back_walk:
  assumes b: "axis_back tmo htmo tk en a3 w3 r io = (a', r', io')" and ds: "a_ds a3 \<noteq> ECM_DS_OE"
    and h: "handle_ok (b_cw (a_b a3))"
  shows "a_ds_wait a' = a_ds_wait a3" and "a_step_since a' = a_step_since a3" and "a_reached_oe a' = a_reached_oe a3"
    and "ecm_pdo_get (b_cw (a_b a3)) io' = take_bit (unat (h_bits (b_cw (a_b a3)))) (ucast w3)"
proof -
  obtain run cyclic a5 got a7 w7 got7 run7 a8 io8 a10 w10 io10 where e:
    "run = (a_target a3 = ECM_TGT_ENABLED \<and> a_ds a3 = ECM_DS_OE \<and> a_mode_ok a3)"
    "cyclic = (a_mode_req a3 = ECM_OPMODE_CSP \<or> a_mode_req a3 = ECM_OPMODE_CSV)"
    "sp_loop ECM_XCHG_SP_SKIP_MAX run cyclic (tk + 1) (a3\<lparr>a_running := run\<rparr>) r = (a5, r', got)"
    "st_step got run (st_underrun run cyclic got a5) w3 = (a7, w7, got7, run7)"
    "st_cyclic got7 run7 en a7 io = (a8, io8)"
    "st_profile tmo htmo tk run7 (st_stop run7 a8) w7 io8 = (a10, w10, io10)"
    "st_write a10 w10 io10 = (a', io')"
    using b by (rule axis_backE)
  have run: "\<not> run" using e(1) ds by simp
  have a5: "a_ds_wait a5 = a_ds_wait a3" "a_step_since a5 = a_step_since a3" "a_reached_oe a5 = a_reached_oe a3" and got: "\<not> got"
    using sp_loop_result [OF e(3)] run by auto
  have r7: "\<not> run7" using st_step_result [OF e(4)] got run by auto
  have e6: "st_profile tmo htmo tk False (st_stop run7 a8) w7 io8 = (a10, w10, io10)" using e(6) r7 by simp
  have fr: "a_ds_wait a10 = a_ds_wait a3" "a_step_since a10 = a_step_since a3" "a_reached_oe a10 = a_reached_oe a3"
    using walk_frames(1,2) [of got run "st_underrun run cyclic got a5" w3, unfolded e(4)]
      walk_frames(3,4) [of got7 run7 en a7 io, unfolded e(5)] walk_frames(5,6) [of tmo htmo tk "st_stop run7 a8" w7 io8, unfolded e6]
      st_step_frame(9-) [of got run "st_underrun run cyclic got a5" w3, unfolded e(4)]
      st_cyclic_frame [of got7 run7 en a7 io, unfolded e(5)] st_profile_frame [of tmo htmo tk False "st_stop run7 a8" w7 io8, unfolded e6] a5
    by simp_all
  show "a_ds_wait a' = a_ds_wait a3" "a_step_since a' = a_step_since a3" "a_reached_oe a' = a_reached_oe a3"
    using e(7) fr by (auto simp: st_write_def Let_def)
  have "a_b a10 = a_b a3" using e(7) axis_back_result(6) [OF b] by (auto simp: st_write_def Let_def)
  moreover have "a_cw a' = w3" using axis_back_idle [OF b] ds by simp
  ultimately show "ecm_pdo_get (b_cw (a_b a3)) io' = take_bit (unat (h_bits (b_cw (a_b a3)))) (ucast w3)"
    using e(7) h by (auto simp: st_write_def Let_def pdo_get_set_same)
qed

text \<open>What the master relies on: enabled, no fault reset pending, Operation enabled not reached yet, a
  mode requested and its display not mapped; controlword and statusword of 16 bits.\<close>

definition walking :: "ecm_cia402_axis \<Rightarrow> bool" where
  "walking a \<longleftrightarrow> a_target a = ECM_TGT_ENABLED \<and> a_reset_pulse a = 0 \<and> \<not> a_reached_oe a \<and> a_mode_req a \<noteq> 0 \<and>
     h_bits (b_mode_disp (a_b a)) = 0 \<and> handle_ok (b_cw (a_b a)) \<and> h_bits (b_cw (a_b a)) = 16 \<and>
     handle_ok (b_sw (a_b a)) \<and> h_bits (b_sw (a_b a)) = 16"

lemma front1_walk:
  assumes "walking a" and d: "ecm_cia402_decode (ucast (ecm_pdo_get (b_sw (a_b a)) io)) = d" and "d \<in> {ECM_DS_SOD, ECM_DS_RTSO, ECM_DS_SO}"
  shows "front1 cyc 0 True False io a = st_inputs cyc io True a" and "a_ds (st_inputs cyc io True a) = d"
    and "a_mode_ok (st_inputs cyc io True a)"
proof -
  show ds: "a_ds (st_inputs cyc io True a) = d" using d by (simp add: st_inputs_def in_ds_def [unfolded Let_def])
  show "a_mode_ok (st_inputs cyc io True a)"
    using assms(1) unfolding st_inputs_def in_mode_ok_def walking_def by (simp add: in_ds_def in_mode_def Let_def)
  show "front1 cyc 0 True False io a = st_inputs cyc io True a"
  proof -
    have "d \<noteq> ECM_DS_FAULT" "d \<noteq> ECM_DS_FRA" "d \<noteq> ECM_DS_OE" "\<not> a_reached_oe a" using assms(1,3) by (auto simp: walking_def)
    then show ?thesis by (simp add: front1_def st_latch_def st_ext_def st_dropped_def ds)
  qed
qed

lemma master_walk:
  assumes st: "axis_step cyc tmo htmo 0 tk True False a r io = (a', r', io')" and wk: "walking a"
    and d: "ecm_cia402_decode (ucast (ecm_pdo_get (b_sw (a_b a)) io)) = d" "d \<in> {ECM_DS_SOD, ECM_DS_RTSO, ECM_DS_SO}"
    and tm: "a_ds_wait a = d \<longrightarrow> tk - a_step_since a \<le> ucast tmo"
  shows "walking a'" and "a_b a' = a_b a" and "a_ds_wait a' = d" and "a_step_since a' = (if a_ds_wait a = d then a_step_since a else tk)"
    and "ecm_pdo_get (b_cw (a_b a)) io' = ucast (walk_cw ECM_TGT_ENABLED d True)"
proof -
  obtain a3 w3 en where f: "axis_front cyc tmo 0 tk True False io a = (a3, w3, en)" by (metis prod_cases3)
  with st have b: "axis_back tmo htmo tk en a3 w3 r io = (a', r', io')" by (simp add: axis_step_def)
  obtain a2 w2 where c: "st_cw (front1 cyc 0 True False io a) = (a2, w2, en)" and t: "st_timeout tmo tk False a2 w2 = (a3, w3)"
    using f by (rule axis_frontE)
  note F = front1_walk [OF wk d, of cyc]
  let ?a1 = "st_inputs cyc io True a"
  have 2: "a2 = ?a1" "w2 = walk_cw ECM_TGT_ENABLED d True"
    using c F wk by (auto simp: st_cw_def Let_def walking_def split: if_splits)
  have "\<not> (a_ds_wait a = d \<and> tk - a_step_since a > ucast tmo)" using tm by (auto simp: not_less)
  then have 3: "a3 = (if a_ds_wait a = d then ?a1 else ?a1\<lparr>a_ds_wait := d, a_step_since := tk\<rparr>)" "w3 = w2"
    using t F(2) wk d(2) 2 by (auto simp: st_timeout_def walking_def split: if_splits)
  have ds: "a_ds a3 = d" "a_b a3 = a_b a" "a_ds_wait a3 = d" "a_target a3 = ECM_TGT_ENABLED"
    "a_step_since a3 = (if a_ds_wait a = d then a_step_since a else tk)" "a_reached_oe a3 = a_reached_oe a"
    "a_reset_pulse a3 = 0" "a_mode_req a3 = a_mode_req a"
    using F(2) wk by (auto simp: 3 walking_def)
  have noe: "a_ds a3 \<noteq> ECM_DS_OE" using ds d(2) by auto
  have hc: "handle_ok (b_cw (a_b a3))" using ds wk by (simp add: walking_def)
  note W = axis_back_walk [OF b noe hc] and B = axis_back_result [OF b] and I = axis_back_idle [OF b]
  show "a_b a' = a_b a" "a_ds_wait a' = d" "a_step_since a' = (if a_ds_wait a = d then a_step_since a else tk)"
    using W B ds by simp_all
  show "walking a'" using wk W(3) B(6-8) I noe ds by (simp add: walking_def)
  have "take_bit 16 (ucast (w :: u16) :: u64) = ucast w" for w
    using bit_imp_le_length [of w] by (intro bit_word_eqI) (auto simp: bit_take_bit_iff bit_ucast_iff)
  then show "ecm_pdo_get (b_cw (a_b a)) io' = ucast (walk_cw ECM_TGT_ENABLED d True)"
    using W(4) ds(2) wk 2(2) 3(2) by (simp add: walking_def)
qed

section \<open>A step of the drive\<close>

text \<open>No injection is active, and the following error is not watched: its window is off, the value
  after a reset, or the mode is not CSP.\<close>

definition quiet :: "'d esc_cia402_axis \<Rightarrow> bool" where
  "quiet x \<longleftrightarrow> x_inj_fault_code x = 0 \<and> \<not> x_inj_quickstop x \<and> \<not> x_inj_refuse_enable x \<and> x_inj_slow_ms x = 0 \<and>
     (x_ferr_window x = 0xFFFFFFFF \<or> x_mode x \<noteq> MODE_CSP \<and> x_mode_req x \<noteq> MODE_CSP)"

text \<open>The state the controlword of the master leads to.\<close>

fun up :: "cia402_ds \<Rightarrow> cia402_ds" where
  "up DS_SOD = DS_RTSO"
| "up DS_RTSO = DS_SO"
| "up DS_SO = DS_OE"
| "up d = d"

text \<open>How far a commanded transition of \<open>c\<close> cycles is.\<close>

definition prog :: "nat \<Rightarrow> nat \<Rightarrow> 'd esc_cia402_axis \<Rightarrow> bool" where
  "prog c k x \<longleftrightarrow> k < c \<and> (if k = 0 then x_wait_cycles x = 0
     else x_pending x = up (x_ds x) \<and> x_wait_cycles x = of_nat (c - k))"

lemma esc_mode_frame [simp]:
  "x_ds (esc_mode x) = x_ds x" "x_cw (esc_mode x) = x_cw x" "x_cw_prev (esc_mode x) = x_cw_prev x"
  "x_wait_cycles (esc_mode x) = x_wait_cycles x" "x_pending (esc_mode x) = x_pending x"
  "x_qs_option (esc_mode x) = x_qs_option x" "x_inj_latched (esc_mode x) = x_inj_latched x"
  by (simp_all add: esc_mode_def)

lemma quiet_mode: "quiet x \<Longrightarrow> quiet (esc_mode x)"
  by (auto simp: esc_mode_def quiet_def)

lemma esc_set_ds_frame [simp]:
  "x_ds (esc_set_ds cal d x) = d" "quiet (esc_set_ds cal d x) = quiet x" "x_cw (esc_set_ds cal d x) = x_cw x"
  "d \<noteq> x_ds x \<Longrightarrow> x_wait_cycles (esc_set_ds cal d x) = 0"
  by (simp_all add: esc_set_ds_def quiet_def Let_def)

lemma next_up:
  assumes "d \<in> {DS_SOD, DS_RTSO, DS_SO}"
  shows "esc_cia402_next d (walk_cw ECM_TGT_ENABLED (ds_of d) True) wp qs = up d"
  using assms
  by (auto simp: esc_cia402_next_def walk_cw_def CMD_SHUTDOWN_def CMD_DISABLE_VOLTAGE_def CMD_QUICK_STOP_def CMD_SWITCH_ON_def
      CMD_ENABLE_OP_def)

lemma wanted_up:
  assumes "quiet x" and "x_ds x \<in> {DS_SOD, DS_RTSO, DS_SO}" and "x_cw x = walk_cw ECM_TGT_ENABLED (ds_of (x_ds x)) True"
  shows "esc_wanted F cal x = (x, up (x_ds x))"
proof -
  have n: "esc_cia402_next (x_ds x) (x_cw x) (x_cw_prev x) (x_qs_option x) = up (x_ds x)"
    unfolding assms(3) using assms(2) by (rule next_up)
  have "x_ds x \<noteq> DS_FAULT" "x_ds x \<noteq> DS_OE" "\<not> x_inj_refuse_enable x" using assms(1,2) by (auto simp: quiet_def)
  then show ?thesis by (simp add: esc_wanted_def Let_def n)
qed

lemma commanded_walk:
  assumes q: "quiet x" and d: "x_ds x \<in> {DS_SOD, DS_RTSO, DS_SO}"
    and w: "x_cw x = walk_cw ECM_TGT_ENABLED (ds_of (x_ds x)) True" and c: "c = unat (cal_trans_cycles cal)" and p: "prog c k x"
  shows "quiet (esc_commanded F cal True dt x)"
    and "Suc k < c \<Longrightarrow> x_ds (esc_commanded F cal True dt x) = x_ds x \<and> prog c (Suc k) (esc_commanded F cal True dt x)"
    and "Suc k = c \<Longrightarrow> x_ds (esc_commanded F cal True dt x) = up (x_ds x) \<and> x_wait_cycles (esc_commanded F cal True dt x) = 0"
proof -
  let ?t = "cal_trans_cycles cal" and ?n = "up (x_ds x)"
  have k: "k < c" and t0: "?t \<noteq> 0" using p c by (auto simp: prog_def)
  have un: "?n \<noteq> x_ds x" "?n \<noteq> DS_SOD" "?n \<noteq> DS_QSA" using d by auto
  define x2 where "x2 = (if x_wait_cycles x = 0 \<or> x_pending x \<noteq> ?n then x\<lparr>x_pending := ?n, x_wait_cycles := ?t\<rparr> else x)"
  have c32: "c < 2 ^ 32" using unat_bound [of ?t] c by simp
  have nz: "(of_nat m :: u32) \<noteq> 0" if "0 < m" "m < c" for m
    using that c32 unat_add_of_nat [of "0 :: u32" m] by auto
  have w2: "x_wait_cycles x2 = of_nat (c - k)" "x_pending x2 = ?n"
    using p nz [of "c - k"] c k by (auto simp: x2_def prog_def split: if_splits)
  have dec: "(of_nat (c - k) :: u32) - 1 = of_nat (c - Suc k)"
  proof -
    have "c - k = Suc (c - Suc k)" using k by simp
    then show ?thesis by simp
  qed
  define x3 where "x3 = x2\<lparr>x_wait_cycles := of_nat (c - Suc k)\<rparr>"
  have ds: "x_ds x3 = x_ds x" "x_pending x3 = ?n" "quiet x3 = quiet x" "x_cw x3 = x_cw x"
    using w2(2) by (simp_all add: x3_def x2_def quiet_def)
  have st: "x_ds x \<noteq> DS_NOT_READY" "x_ds x \<noteq> DS_FRA" "x_ds x \<noteq> DS_FAULT" using d by auto
  have need: "(?t - 1) + esc_ms_to_cycles (x_inj_slow_ms x) dt + 1 = ?t" using q by (simp add: esc_ms_to_cycles_def quiet_def)
  have x3: "x2\<lparr>x_wait_cycles := x_wait_cycles x2 - 1\<rparr> = x3" by (simp add: x3_def w2(1) dec)
  have e: "esc_commanded F cal True dt x =
      (if of_nat (c - Suc k) \<noteq> (0 :: u32) then x3
       else esc_set_ds cal ?n (if ?n = DS_OE \<and> x_mode x3 = 8 then x3\<lparr>x_ferr := 0\<rparr> else x3))"
  proof -
    have "x_wait_cycles x3 = of_nat (c - Suc k)" by (simp add: x3_def)
    then show ?thesis
      unfolding esc_commanded_def wanted_up [OF q d w] Let_def prod.case
      by (simp only: un st t0 need x2_def [symmetric] x3 if_False if_True simp_thms)
  qed
  have "quiet (x3\<lparr>x_ferr := 0\<rparr>) = quiet x3" by (simp add: quiet_def)
  then show "quiet (esc_commanded F cal True dt x)" using ds q by (simp add: e)
  show "Suc k < c \<Longrightarrow> x_ds (esc_commanded F cal True dt x) = x_ds x \<and> prog c (Suc k) (esc_commanded F cal True dt x)"
    using nz [of "c - Suc k"] ds by (simp add: e prog_def) (simp add: x3_def)
  show "Suc k = c \<Longrightarrow> x_ds (esc_commanded F cal True dt x) = ?n \<and> x_wait_cycles (esc_commanded F cal True dt x) = 0"
    using un(1) ds by (auto simp: e)
qed

text \<open>The motion in Operation enabled leaves that state only for a watched following error in CSP.\<close>

lemma motion_frames:
  "x_ds (esc_stop_motion F dcl dt x) = x_ds x" "x_ds (esc_cyclic_v F v dt x) = x_ds x"
  "x_ferr_window (esc_cyclic_v F v dt x) = x_ferr_window x" "x_ds (fst (esc_pp_step F dt x)) = x_ds x"
  "x_ds (esc_pp_take F x) = x_ds x" "x_ds (esc_hm_start F x) = x_ds x" "x_ds (esc_hm_move F dt x) = x_ds x"
  by (simp_all add: esc_stop_motion_def esc_cyclic_v_def esc_pp_step_def esc_pp_take_def esc_hm_start_def
      esc_hm_move_def Let_def)

lemma motion_pp: "x_ds (esc_pp F halt dt x) = x_ds x"
proof -
  have "x_ds (esc_pp_move F halt dt y) = x_ds y" for y
  proof -
    obtain z b where e: "esc_pp_step F dt y = (z, b)" by fastforce
    then have "x_ds z = x_ds y" using motion_frames(4) [of F dt y] by simp
    then show ?thesis by (cases b) (simp_all add: esc_pp_move_def Let_def motion_frames(1) e)
  qed
  then show ?thesis by (simp add: esc_pp_def Let_def motion_frames)
qed

lemma motion_oe:
  assumes "x_ds x = DS_OE" and "x_ferr_window x = 0xFFFFFFFF \<or> x_mode x \<noteq> MODE_CSP"
  shows "x_ds (esc_motion F cal dt x) = DS_OE"
  using assms
  by (auto simp: esc_motion_def esc_csp_def esc_pv_def esc_hm_def Let_def motion_frames motion_pp)

lemma decode_step: "ecm_cia402_decode (x_sw (esc_axis_step F cal op wd dt dt_ns x)) = ds_of (x_ds (esc_axis_step F cal op wd dt dt_ns x))"
  by (simp add: esc_axis_step_def Let_def decode_status)

lemma esc_front:
  assumes "quiet x" and "x_ds x \<in> {DS_SOD, DS_RTSO, DS_SO}"
  shows "esc_faults cal True wd (esc_power cal dt_ns x) = x"
  using assms by (auto simp: esc_faults_def esc_power_def quiet_def)

lemma esc_tail_quiet:
  assumes "x_ds y \<in> {DS_SOD, DS_RTSO, DS_SO}"
  shows "esc_stopped F cal (esc_motion F cal dt y) = y\<lparr>x_vel := fl_of F 0\<rparr>"
  using assms by (auto simp: esc_stopped_def esc_motion_def)

lemma esc_tail_oe:
  assumes "x_ds y = DS_OE" and "x_ferr_window y = 0xFFFFFFFF \<or> x_mode y \<noteq> MODE_CSP"
  shows "x_ds (esc_stopped F cal (esc_motion F cal dt y)) = DS_OE"
  using motion_oe [OF assms] by (simp add: esc_stopped_def)

lemma drive_walk:
  assumes q: "quiet x" and d: "x_ds x \<in> {DS_SOD, DS_RTSO, DS_SO}"
    and w: "x_cw x = walk_cw ECM_TGT_ENABLED (ds_of (x_ds x)) True" and c: "c = unat (cal_trans_cycles cal)" and p: "prog c k x"
  shows "Suc k < c \<Longrightarrow> x_ds (esc_axis_step F cal True wd dt dt_ns x) = x_ds x \<and> prog c (Suc k) (esc_axis_step F cal True wd dt dt_ns x) \<and>
      quiet (esc_axis_step F cal True wd dt dt_ns x)"
    and "Suc k = c \<Longrightarrow> x_ds (esc_axis_step F cal True wd dt dt_ns x) = up (x_ds x) \<and>
      (up (x_ds x) \<noteq> DS_OE \<longrightarrow> prog c 0 (esc_axis_step F cal True wd dt dt_ns x) \<and> quiet (esc_axis_step F cal True wd dt dt_ns x))"
proof -
  let ?m = "esc_mode x" and ?y = "esc_commanded F cal True dt_ns (esc_mode x)"
  have m: "quiet ?m" "x_ds ?m \<in> {DS_SOD, DS_RTSO, DS_SO}" "x_cw ?m = walk_cw ECM_TGT_ENABLED (ds_of (x_ds ?m)) True" "prog c k ?m"
    using q d w p by (simp_all add: prog_def quiet_mode)
  note C = commanded_walk [OF m(1-3) c m(4), where F = F and dt = dt_ns]
  have k: "k < c" using p by (simp add: prog_def)
  obtain v z where x3: "z = esc_stopped F cal (esc_motion F cal dt (?y\<lparr>x_sw := v\<rparr>))"
    and s: "esc_axis_step F cal True wd dt dt_ns x = z\<lparr>x_sw := esc_status z, x_cw_prev := x_cw z, x_steps := x_steps z + 1\<rparr>"
    unfolding esc_axis_step_def esc_front [OF q d] Let_def by blast
  have t: "z = ?y\<lparr>x_sw := v, x_vel := fl_of F 0\<rparr>" if "x_ds ?y \<in> {DS_SOD, DS_RTSO, DS_SO}"
    unfolding x3 using esc_tail_quiet [of "?y\<lparr>x_sw := v\<rparr>" F cal dt] that by simp
  show "Suc k < c \<Longrightarrow> x_ds (esc_axis_step F cal True wd dt dt_ns x) = x_ds x \<and> prog c (Suc k) (esc_axis_step F cal True wd dt dt_ns x) \<and>
      quiet (esc_axis_step F cal True wd dt dt_ns x)"
    using C(1,2) t d unfolding s by (simp add: prog_def quiet_def)
  show "Suc k = c \<Longrightarrow> x_ds (esc_axis_step F cal True wd dt dt_ns x) = up (x_ds x) \<and>
      (up (x_ds x) \<noteq> DS_OE \<longrightarrow> prog c 0 (esc_axis_step F cal True wd dt dt_ns x) \<and> quiet (esc_axis_step F cal True wd dt dt_ns x))"
  proof (cases "up (x_ds x) = DS_OE")
    case True
    assume "Suc k = c"
    then have "x_ds (?y\<lparr>x_sw := v\<rparr>) = DS_OE" using C(3) True by simp
    moreover have "x_ferr_window (?y\<lparr>x_sw := v\<rparr>) = 0xFFFFFFFF \<or> x_mode (?y\<lparr>x_sw := v\<rparr>) \<noteq> MODE_CSP"
      using C(1) by (auto simp: quiet_def)
    ultimately have "x_ds z = DS_OE" unfolding x3 by (rule esc_tail_oe)
    then show ?thesis using True unfolding s by simp
  next
    case False
    assume "Suc k = c"
    then have y: "x_ds ?y = up (x_ds x)" "x_wait_cycles ?y = 0" using C(3) by simp_all
    have "up (x_ds x) \<in> {DS_SOD, DS_RTSO, DS_SO}" using False d by auto
    then show ?thesis using C(1) t y k unfolding s by (simp add: prog_def quiet_def)
  qed
qed

section \<open>The loop\<close>

type_synonym 'd loop_state = "ecm_cia402_axis \<times> ecm_xsp ecm_xring \<times> iomap \<times> 'd esc_cia402_axis"

text \<open>One bus cycle at tick \<open>tk\<close>, with a good frame and both sides in OP.\<close>

definition loop_cycle :: "u64 \<Rightarrow> u32 \<Rightarrow> u32 \<Rightarrow> 'd flt \<Rightarrow> 'd esc_cia402_cal \<Rightarrow> 'd \<Rightarrow> u64 \<Rightarrow> u64
    \<Rightarrow> 'd loop_state \<Rightarrow> 'd loop_state" where
  "loop_cycle cyc tmo htmo F cal dt dt_ns tk = (\<lambda>(a, r, io, x).
    let (a', r', io') = axis_step cyc tmo htmo 0 tk True False a r io;
        x1 = fst (esc_put_cmd x 0x6040 0 (esc_get_bits io' (h_bit (b_cw (a_b a))) 16) 16);
        x2 = esc_axis_step F cal True False dt dt_ns x1
    in (a', r', esc_set_bits io' (h_bit (b_sw (a_b a))) 16 (ucast (x_sw x2)), x2))"

fun loop_run :: "u64 \<Rightarrow> u32 \<Rightarrow> u32 \<Rightarrow> 'd flt \<Rightarrow> 'd esc_cia402_cal \<Rightarrow> 'd \<Rightarrow> u64 \<Rightarrow> nat \<Rightarrow> u64
    \<Rightarrow> 'd loop_state \<Rightarrow> 'd loop_state" where
  "loop_run cyc tmo htmo F cal dt dt_ns 0 tk s = s"
| "loop_run cyc tmo htmo F cal dt dt_ns (Suc n) tk s =
    loop_run cyc tmo htmo F cal dt dt_ns n (tk + 1) (loop_cycle cyc tmo htmo F cal dt dt_ns tk s)"

lemma loop_run_add:
  "loop_run cyc tmo htmo F cal dt dt_ns (m + n) tk s =
   loop_run cyc tmo htmo F cal dt dt_ns n (tk + of_nat m) (loop_run cyc tmo htmo F cal dt dt_ns m tk s)"
  by (induction m arbitrary: tk s) (simp_all add: algebra_simps)

text \<open>Master and drive in state \<open>d\<close>, the drive \<open>k\<close> cycles into the next transition.\<close>

definition loop_at :: "nat \<Rightarrow> cia402_ds \<Rightarrow> nat \<Rightarrow> u64 \<Rightarrow> 'd loop_state \<Rightarrow> bool" where
  "loop_at c d k tk = (\<lambda>(a, r, io, x).
    walking a \<and> ecm_cia402_decode (ucast (ecm_pdo_get (b_sw (a_b a)) io)) = ds_of d \<and>
    (a_ds_wait a = ds_of d \<longrightarrow> tk - a_step_since a \<le> of_nat k) \<and> x_ds x = d \<and> (d \<noteq> DS_OE \<longrightarrow> quiet x \<and> prog c k x))"

lemma put_cw: "fst (esc_put_cmd x 0x6040 sub v bits) = x\<lparr>x_cw := ucast v\<rparr>"
  by (simp add: esc_put_cmd_def)

lemma wait_Suc:
  fixes tk s :: u64
  assumes "tk - s \<le> of_nat k" and "k < 2 ^ 32"
  shows "tk + 1 - s \<le> of_nat (Suc k)"
proof -
  have u: "unat (of_nat k :: u64) = k" "unat (of_nat (Suc k) :: u64) = Suc k"
    using assms(2) unat_add_of_nat [of "0 :: u64" k] unat_add_of_nat [of "0 :: u64" "Suc k"] by simp_all
  have "unat (tk - s) \<le> k" using assms(1) u by (simp add: word_le_nat_alt)
  then have "unat (tk + 1 - s) = Suc (unat (tk - s))"
    using assms(2) by (intro unat_diff_Suc [where m = "Suc k"]) simp_all
  then show ?thesis using u \<open>unat (tk - s) \<le> k\<close> unfolding word_le_nat_alt by simp
qed

lemma loop_step:
  assumes at: "loop_at c d k tk s" and d: "d \<in> {DS_SOD, DS_RTSO, DS_SO}"
    and c: "c = unat (cal_trans_cycles cal)" "c \<le> unat tmo"
  shows "Suc k < c \<Longrightarrow> loop_at c d (Suc k) (tk + 1) (loop_cycle cyc tmo htmo F cal dt dt_ns tk s)"
    and "Suc k = c \<Longrightarrow> loop_at c (up d) 0 (tk + 1) (loop_cycle cyc tmo htmo F cal dt dt_ns tk s)"
proof -
  obtain a r io x where s: "s = (a, r, io, x)" by (metis prod_cases4)
  have A: "walking a" "ecm_cia402_decode (ucast (ecm_pdo_get (b_sw (a_b a)) io)) = ds_of d"
    "a_ds_wait a = ds_of d \<Longrightarrow> tk - a_step_since a \<le> of_nat k" "x_ds x = d" "quiet x" "prog c k x"
    using at d by (auto simp: loop_at_def s)
  have k: "k < c" "k < 2 ^ 32" using A(6) c(1) unat_bound [of "cal_trans_cycles cal"] by (auto simp: prog_def)
  have sd: "ds_of d \<in> {ECM_DS_SOD, ECM_DS_RTSO, ECM_DS_SO}" using d by auto
  have "of_nat k \<le> (ucast tmo :: u64)"
    using k c(2) unat_add_of_nat [of "0 :: u64" k] by (simp add: word_le_nat_alt unat_ucast_up)
  then have tm: "a_ds_wait a = ds_of d \<longrightarrow> tk - a_step_since a \<le> ucast tmo" using A(3) by (meson order_trans)
  obtain a' r' io' where st: "axis_step cyc tmo htmo 0 tk True False a r io = (a', r', io')" by (metis prod_cases3)
  note M = master_walk [OF st A(1,2) sd tm]
  let ?w = "walk_cw ECM_TGT_ENABLED (ds_of d) True" and ?x1 = "x\<lparr>x_cw := walk_cw ECM_TGT_ENABLED (ds_of d) True\<rparr>"
  let ?x2 = "esc_axis_step F cal True False dt dt_ns ?x1" and ?h = "b_sw (a_b a)"
  have h: "handle_ok (b_cw (a_b a))" "h_bits (b_cw (a_b a)) = 16" "handle_ok ?h" "h_bits ?h = 16" using A(1) by (simp_all add: walking_def)
  have ww: "ucast (esc_get_bits io' (h_bit (b_cw (a_b a))) 16) = ?w"
    unfolding esc_get_is_pdo_get [OF h(1,2)] M(5) by (rule bit_word_eqI) (simp add: bit_ucast_iff)
  have cyc: "loop_cycle cyc tmo htmo F cal dt dt_ns tk s = (a', r', esc_set_bits io' (h_bit ?h) 16 (ucast (x_sw ?x2)), ?x2)"
    by (simp add: loop_cycle_def s st put_cw ww Let_def)
  have "ucast (ecm_pdo_get ?h (esc_set_bits io' (h_bit ?h) 16 (ucast (x_sw ?x2)))) = x_sw ?x2"
    unfolding pdo_get_esc_set [OF h(3,4)] by (rule bit_word_eqI) (simp add: bit_ucast_iff bit_take_bit_iff)
  then have dec: "ecm_cia402_decode (ucast (ecm_pdo_get ?h (esc_set_bits io' (h_bit ?h) 16 (ucast (x_sw ?x2))))) = ds_of (x_ds ?x2)"
    using decode_step by simp
  have "tk - a_step_since a' \<le> of_nat k" using M(4) A(3) by simp
  then have W: "a_ds_wait a' = ds_of d" "tk + 1 - a_step_since a' \<le> of_nat (Suc k)" using M(3) wait_Suc k(2) by blast+
  have D: "quiet ?x1" "x_ds ?x1 \<in> {DS_SOD, DS_RTSO, DS_SO}" "x_cw ?x1 = walk_cw ECM_TGT_ENABLED (ds_of (x_ds ?x1)) True" "prog c k ?x1"
    using A(4-6) d by (simp_all add: quiet_def prog_def)
  note X = drive_walk [OF D(1,2) D(3) c(1) D(4)]
  show "Suc k < c \<Longrightarrow> loop_at c d (Suc k) (tk + 1) (loop_cycle cyc tmo htmo F cal dt dt_ns tk s)"
    using X(1) [where F = F and wd = False and dt = dt and dt_ns = dt_ns] M(1,2) dec W(2) A(4) by (simp add: cyc loop_at_def)
  have "ds_of (up d) \<noteq> ds_of d" using d by auto
  then show "Suc k = c \<Longrightarrow> loop_at c (up d) 0 (tk + 1) (loop_cycle cyc tmo htmo F cal dt dt_ns tk s)"
    using X(2) [where F = F and wd = False and dt = dt and dt_ns = dt_ns] M(1,2) dec W(1) A(4) by (simp add: cyc loop_at_def)
qed

lemma loop_transition:
  assumes "c = unat (cal_trans_cycles cal)" "c \<le> unat tmo" and "d \<in> {DS_SOD, DS_RTSO, DS_SO}"
  shows "loop_at c d k tk s \<Longrightarrow> k + n = c \<Longrightarrow> 0 < n \<Longrightarrow>
    loop_at c (up d) 0 (tk + of_nat n) (loop_run cyc tmo htmo F cal dt dt_ns n tk s)"
proof (induction n arbitrary: k tk s)
  case (Suc n)
  note st = loop_step [OF Suc.prems(1) assms(3,1,2), where cyc = cyc and htmo = htmo and F = F and dt = dt and dt_ns = dt_ns]
  show ?case
  proof (cases n)
    case 0
    then show ?thesis using st(2) Suc.prems(2) by simp
  next
    case (Suc m)
    then have "loop_at c (up d) 0 (tk + 1 + of_nat n)
        (loop_run cyc tmo htmo F cal dt dt_ns n (tk + 1) (loop_cycle cyc tmo htmo F cal dt dt_ns tk s))"
      using Suc.prems(2) by (intro Suc.IH [OF st(1)]) simp_all
    then show ?thesis by (simp add: algebra_simps)
  qed
qed simp

section \<open>Properties\<close>

text \<open>The two implementations of CiA 402 agree on the statusword: whatever the drive does in a
  cycle, faults, injections and motion included, the master decodes the statusword it
  publishes to the state the drive is in.\<close>

theorem status_roundtrip:
  "ecm_cia402_decode (x_sw (esc_axis_step F cal op wd dt dt_ns x)) = ds_of (x_ds (esc_axis_step F cal op wd dt dt_ns x))"
  by (rule decode_step)

text \<open>C33. An ENABLE command brings the drive to Operation enabled: from Switch on disabled, with a
  drive that takes \<open>c\<close> cycles for a transition and a master whose transition timeout is at
  least that, the drive is in Operation enabled after \<open>3 c\<close> bus cycles, its statusword says
  so, and the master still has the target ENABLED, so no timeout and no other latch fired
  on the way. The drive has no injection active and does not watch the following error
  (window off, or a mode other than CSP), or the motion could fault in the last cycle; the
  mode display is not mapped, so the master does not wait for it. The arithmetic \<open>F\<close> of the
  motion is arbitrary.\<close>

theorem closed_loop_enables:
  assumes "a = cmd_enable False 0 tk a0" and "mode_allowed a0 (a_mode_req a0)" and "a_ds a0 = ECM_DS_SOD" and "a_reset_pulse a0 = 0"
    and "h_bits (b_mode_disp (a_b a0)) = 0" and "handle_ok (b_cw (a_b a0))" and "h_bits (b_cw (a_b a0)) = 16"
    and "handle_ok (b_sw (a_b a0))" and "h_bits (b_sw (a_b a0)) = 16"
    and "ecm_cia402_decode (ucast (ecm_pdo_get (b_sw (a_b a0)) io)) = ECM_DS_SOD"
    and "x_ds x = DS_SOD" and "quiet x" and "x_wait_cycles x = 0"
    and "c = unat (cal_trans_cycles cal)" and "0 < c" and "c \<le> unat tmo"
    and "loop_run cyc tmo htmo F cal dt dt_ns (3 * c) tk (a, r, io, x) = (a', r', io', x')"
  shows "x_ds x' = DS_OE \<and> a_target a' = ECM_TGT_ENABLED \<and>
    ecm_cia402_decode (ucast (ecm_pdo_get (b_sw (a_b a')) io')) = ECM_DS_OE"
proof -
  have m: "a_mode_req a0 \<noteq> 0" using assms(2) by (auto simp: mode_allowed_def)
  have a: "a = a0\<lparr>a_target := ECM_TGT_ENABLED, a_err := ECM_AXERR_NONE, a_err_ds := 0, a_ds_wait := ECM_DS_SOD,
            a_step_since := tk, a_reached_oe := False\<rparr>"
    using assms(1-3) by (simp add: cmd_enable_def)
  have 0: "loop_at c DS_SOD 0 tk (a, r, io, x)"
    using assms(4-15) m by (simp add: loop_at_def a walking_def prog_def)
  let ?R = "loop_run cyc tmo htmo F cal dt dt_ns c"
  note T = loop_transition [OF assms(14,16), where n = c and k = 0 and cyc = cyc and htmo = htmo and F = F and dt = dt and dt_ns = dt_ns]
  have 1: "loop_at c DS_RTSO 0 (tk + of_nat c) (?R tk (a, r, io, x))" using T [of DS_SOD, OF _ 0] assms(15) by simp
  have 2: "loop_at c DS_SO 0 (tk + of_nat c + of_nat c) (?R (tk + of_nat c) (?R tk (a, r, io, x)))"
    using T [of DS_RTSO, OF _ 1] assms(15) by simp
  have 3: "loop_at c DS_OE 0 (tk + of_nat c + of_nat c + of_nat c) (?R (tk + of_nat c + of_nat c) (?R (tk + of_nat c) (?R tk (a, r, io, x))))"
    using T [of DS_SO, OF _ 2] assms(15) by simp
  have "3 * c = c + (c + c)" by simp
  then have e: "(a', r', io', x') = ?R (tk + of_nat c + of_nat c) (?R (tk + of_nat c) (?R tk (a, r, io, x)))"
    using assms(17) by (simp only: loop_run_add)
  show ?thesis using 3 [folded e] by (simp add: loop_at_def walking_def)
qed

text \<open>Exact arithmetic as the arithmetic of the motion.\<close>

definition flt_real :: "real flt" where
  "flt_real = \<lparr>fl_of = of_int, fl_half = 1 / 2, fl_milli = 1 / 1000, fl_add = (+), fl_sub = (-), fl_mul = (*), fl_div = (/),
     fl_neg = uminus, fl_lt = (<), fl_le = (\<le>), fl_fabs = abs, fl_sqrt = sqrt, fl_llround = round\<rparr>"

definition demo_drive :: "real esc_cia402_axis" where
  "demo_drive = (esc_axis_reset flt_real 0x1A5)\<lparr>x_ds := DS_SOD, x_mode_req := MODE_CSP\<rparr>"

theorem closed_loop_enables_witness:
  "x_ds (snd (snd (snd (loop_run 1000000 500 30000 flt_real (esc_cia402_cal_default flt_real) (1 / 1000) 1000000 3 5
     (cmd_enable False 0 5 (demo_axis ECM_TGT_DISABLED ECM_DS_SOD), demo_ring, demo_io 0x40, demo_drive))))) = DS_OE"
proof -
  let ?a0 = "demo_axis ECM_TGT_DISABLED ECM_DS_SOD" and ?cal = "esc_cia402_cal_default flt_real"
  obtain a' r' io' x' where s: "loop_run 1000000 500 30000 flt_real ?cal (1 / 1000) 1000000 (3 * 1) 5
      (cmd_enable False 0 5 ?a0, demo_ring, demo_io 0x40, demo_drive) = (a', r', io', x')"
    by (metis prod_cases4)
  have b: "a_b ?a0 = demo_bind" "b_sw demo_bind = demo_h 48 16 ECM_PDO_IN" "b_cw demo_bind = demo_h 0 16 ECM_PDO_OUT"
    "h_bits (b_mode_disp demo_bind) = 0"
    by (simp_all add: demo_axis_def axis_zero_def demo_bind_def bind_zero_def handle_zero_def)
  have h: "handle_ok (demo_h 0 16 ECM_PDO_OUT)" "handle_ok (demo_h 48 16 ECM_PDO_IN)"
    "h_bits (demo_h 0 16 ECM_PDO_OUT) = 16" "h_bits (demo_h 48 16 ECM_PDO_IN) = 16"
    by (simp_all add: handle_ok_def demo_h_def)
  have "x_ds x' = DS_OE \<and> a_target a' = ECM_TGT_ENABLED \<and> ecm_cia402_decode (ucast (ecm_pdo_get (b_sw (a_b a')) io')) = ECM_DS_OE"
  proof (rule closed_loop_enables [OF refl _ _ _ _ _ _ _ _ _ _ _ _ _ _ _ s])
    show "mode_allowed ?a0 (a_mode_req ?a0)" "a_ds ?a0 = ECM_DS_SOD" "a_reset_pulse ?a0 = 0"
      by (simp_all add: demo_axis_def axis_zero_def mode_allowed_def demo_cfg_def)
    show "ecm_cia402_decode (ucast (ecm_pdo_get (b_sw (a_b ?a0)) (demo_io 0x40))) = ECM_DS_SOD"
      by (simp add: b demo_sw ecm_cia402_decode_def)
    show "x_ds demo_drive = DS_SOD" "quiet demo_drive" "x_wait_cycles demo_drive = 0"
      by (simp_all add: demo_drive_def esc_axis_reset_def quiet_def)
    show "1 = unat (cal_trans_cycles ?cal)" by (simp add: esc_cia402_cal_default_def)
  qed (simp_all add: b h)
  then show ?thesis using s by simp
qed

end
