(* ===== verification/Sha256.thy ===== *)
theory Sha256
  imports Prelude
begin

text \<open>
  The hash of the configuration file (\<open>libecmaster/api/ecm_sha256.c\<close>): the compression of
  one block, the incremental interface with its partial block, and the reference definition
  on a whole message. The two loops of the incremental interface have fuel; it is shown to
  be enough. Reading the file and printing the digest are not modelled.
\<close>

unbundle bit_operations_syntax

record ecm_sha256 =
  sh_h :: "u32 list"
  sh_bytes :: u64
  sh_buf :: "u8 list"
  sh_nbuf :: nat

definition sha_K :: "u32 list" where
  "sha_K = [
    0x428A2F98, 0x71374491, 0xB5C0FBCF, 0xE9B5DBA5, 0x3956C25B, 0x59F111F1,
    0x923F82A4, 0xAB1C5ED5, 0xD807AA98, 0x12835B01, 0x243185BE, 0x550C7DC3,
    0x72BE5D74, 0x80DEB1FE, 0x9BDC06A7, 0xC19BF174, 0xE49B69C1, 0xEFBE4786,
    0x0FC19DC6, 0x240CA1CC, 0x2DE92C6F, 0x4A7484AA, 0x5CB0A9DC, 0x76F988DA,
    0x983E5152, 0xA831C66D, 0xB00327C8, 0xBF597FC7, 0xC6E00BF3, 0xD5A79147,
    0x06CA6351, 0x14292967, 0x27B70A85, 0x2E1B2138, 0x4D2C6DFC, 0x53380D13,
    0x650A7354, 0x766A0ABB, 0x81C2C92E, 0x92722C85, 0xA2BFE8A1, 0xA81A664B,
    0xC24B8B70, 0xC76C51A3, 0xD192E819, 0xD6990624, 0xF40E3585, 0x106AA070,
    0x19A4C116, 0x1E376C08, 0x2748774C, 0x34B0BCB5, 0x391C0CB3, 0x4ED8AA4A,
    0x5B9CCA4F, 0x682E6FF3, 0x748F82EE, 0x78A5636F, 0x84C87814, 0x8CC70208,
    0x90BEFFFA, 0xA4506CEB, 0xBEF9A3F7, 0xC67178F2]"

definition sha_H0 :: "u32 list" where
  "sha_H0 = [0x6A09E667, 0xBB67AE85, 0x3C6EF372, 0xA54FF53A, 0x510E527F, 0x9B05688C, 0x1F83D9AB, 0x5BE0CD19]"

section \<open>One block\<close>

definition ror :: "u32 \<Rightarrow> nat \<Rightarrow> u32" where
  "ror x n = drop_bit n x OR push_bit (32 - n) x"

definition load_be :: "u8 list \<Rightarrow> nat \<Rightarrow> u32" where
  "load_be p i = push_bit 24 (ucast (p ! (4 * i))) OR push_bit 16 (ucast (p ! (4 * i + 1)))
     OR push_bit 8 (ucast (p ! (4 * i + 2))) OR ucast (p ! (4 * i + 3))"

definition sched_step :: "u32 list \<Rightarrow> nat \<Rightarrow> u32 list" where
  "sched_step w i =
    (let a = w ! (i - 15); b = w ! (i - 2);
         s0 = ror a 7 XOR ror a 18 XOR drop_bit 3 a;
         s1 = ror b 17 XOR ror b 19 XOR drop_bit 10 b
     in w @ [w ! (i - 16) + s0 + w ! (i - 7) + s1])"

definition schedule :: "u8 list \<Rightarrow> u32 list" where
  "schedule p = foldl sched_step (map (load_be p) [0..<16]) [16..<64]"

type_synonym sha_vars = "u32 \<times> u32 \<times> u32 \<times> u32 \<times> u32 \<times> u32 \<times> u32 \<times> u32"

definition sha_round :: "u32 list \<Rightarrow> sha_vars \<Rightarrow> nat \<Rightarrow> sha_vars" where
  "sha_round w v i =
    (case v of (a, b, cc, d, e, f, g, h) \<Rightarrow>
       let t1 = h + (ror e 6 XOR ror e 11 XOR ror e 25) + ((e AND f) XOR (NOT e AND g)) + sha_K ! i + w ! i;
           t2 = (ror a 2 XOR ror a 13 XOR ror a 22) + ((a AND b) XOR (a AND cc) XOR (b AND cc))
       in (t1 + t2, a, b, cc, d + t1, e, f, g))"

definition sha_block :: "u32 list \<Rightarrow> u8 list \<Rightarrow> u32 list" where
  "sha_block hs p =
    (case foldl (sha_round (schedule p)) (hs ! 0, hs ! 1, hs ! 2, hs ! 3, hs ! 4, hs ! 5, hs ! 6, hs ! 7) [0..<64] of
       (a, b, cc, d, e, f, g, h) \<Rightarrow>
         [hs ! 0 + a, hs ! 1 + b, hs ! 2 + cc, hs ! 3 + d, hs ! 4 + e, hs ! 5 + f, hs ! 6 + g, hs ! 7 + h])"

section \<open>The incremental interface\<close>

text \<open>The bytes of the buffer beyond \<open>nbuf\<close> are whatever was there.\<close>

definition ecm_sha256_init :: "u8 list \<Rightarrow> ecm_sha256" where
  "ecm_sha256_init junk = \<lparr>sh_h = sha_H0, sh_bytes = 0, sh_buf = junk, sh_nbuf = 0\<rparr>"

text \<open>The loop over the data; with a full buffer it would not advance, hence the fuel.\<close>

fun update_loop :: "nat \<Rightarrow> ecm_sha256 \<Rightarrow> u8 list \<Rightarrow> ecm_sha256 option" where
  "update_loop _ c [] = Some c"
| "update_loop 0 c p = None"
| "update_loop (Suc f) c p =
    (let k = min (64 - sh_nbuf c) (length p);
         b = take (sh_nbuf c) (sh_buf c) @ take k p @ drop (sh_nbuf c + k) (sh_buf c);
         c1 = c\<lparr>sh_buf := b, sh_nbuf := sh_nbuf c + k\<rparr>
     in update_loop f (if sh_nbuf c1 = 64 then c1\<lparr>sh_h := sha_block (sh_h c1) b, sh_nbuf := 0\<rparr> else c1) (drop k p))"

definition ecm_sha256_update :: "ecm_sha256 \<Rightarrow> u8 list \<Rightarrow> ecm_sha256 option" where
  "ecm_sha256_update c p = update_loop (length p) (c\<lparr>sh_bytes := sh_bytes c + of_nat (length p)\<rparr>) p"

text \<open>Zero bytes until 56 bytes are in the block.\<close>

primrec pad_loop :: "nat \<Rightarrow> ecm_sha256 \<Rightarrow> ecm_sha256 option" where
  "pad_loop 0 c = None"
| "pad_loop (Suc f) c =
    (if sh_nbuf c = 56 then Some c else Option.bind (ecm_sha256_update c [0]) (pad_loop f))"

definition len_bytes :: "u64 \<Rightarrow> u8 list" where
  "len_bytes bits = map (\<lambda>i. ucast (drop_bit (56 - 8 * i) bits)) [0..<8]"

definition digest :: "u32 list \<Rightarrow> u8 list" where
  "digest hs = concat (map (\<lambda>i. [ucast (drop_bit 24 (hs ! i)), ucast (drop_bit 16 (hs ! i)),
     ucast (drop_bit 8 (hs ! i)), ucast (hs ! i)]) [0..<8])"

definition ecm_sha256_final :: "ecm_sha256 \<Rightarrow> u8 list option" where
  "ecm_sha256_final c =
    (let bits = sh_bytes c * 8 in
     Option.bind (ecm_sha256_update c [0x80]) (\<lambda>c1.
     Option.bind (pad_loop 64 c1) (\<lambda>c2.
     Option.bind (ecm_sha256_update c2 (len_bytes bits)) (\<lambda>c3. Some (digest (sh_h c3))))))"

text \<open>The data of a file in the chunks \<open>fread\<close> delivers.\<close>

primrec update_all :: "ecm_sha256 \<Rightarrow> u8 list list \<Rightarrow> ecm_sha256 option" where
  "update_all c [] = Some c"
| "update_all c (p # ps) = Option.bind (ecm_sha256_update c p) (\<lambda>c1. update_all c1 ps)"

section \<open>The reference\<close>

text \<open>The message with a one bit, zeros up to 56 modulo 64, and its length in bits.\<close>

definition sha_padded :: "u8 list \<Rightarrow> u8 list" where
  "sha_padded m = m @ [0x80] @ replicate ((119 - length m mod 64) mod 64) 0 @ len_bytes (of_nat (8 * length m))"

fun sha_blocks :: "u32 list \<Rightarrow> u8 list \<Rightarrow> u32 list" where
  "sha_blocks hs m = (if length m < 64 then hs else sha_blocks (sha_block hs (take 64 m)) (drop 64 m))"

declare sha_blocks.simps [simp del]

definition sha256 :: "u8 list \<Rightarrow> u8 list" where
  "sha256 m = digest (sha_blocks sha_H0 (sha_padded m))"

section \<open>The incremental interface computes the reference\<close>

lemma sha_blocks_more:
  "length m mod 64 + length x < 64 \<Longrightarrow> sha_blocks hs (m @ x) = sha_blocks hs m"
proof (induction hs m rule: sha_blocks.induct)
  case (1 hs m)
  show ?case
  proof (cases "length m < 64")
    case True
    then show ?thesis using 1(2) by (simp add: sha_blocks.simps [of hs "m @ x"] sha_blocks.simps [of hs m])
  next
    case False
    then have "length (drop 64 m) mod 64 = length m mod 64" by (simp add: le_mod_geq)
    then show ?thesis using False 1 by (simp add: sha_blocks.simps [of hs "m @ x"] sha_blocks.simps [of hs m])
  qed
qed

lemma sha_blocks_full:
  "length m mod 64 + length x = 64 \<Longrightarrow>
   sha_blocks hs (m @ x) = sha_block (sha_blocks hs m) (drop (length m - length m mod 64) m @ x)"
proof (induction hs m rule: sha_blocks.induct)
  case (1 hs m)
  show ?case
  proof (cases "length m < 64")
    case True
    then show ?thesis using 1(2)
      by (simp add: sha_blocks.simps [of hs "m @ x"] sha_blocks.simps [of hs m] sha_blocks.simps [of _ "[]"])
  next
    case False
    then have d: "length (drop 64 m) mod 64 = length m mod 64" by (simp add: le_mod_geq)
    have "1 \<le> length m div 64" using False div_le_mono [of 64 "length m" 64] by simp
    then have "64 \<le> length m - length m mod 64" using minus_mod_eq_mult_div [of "length m" 64] by simp
    then have "drop (length (drop 64 m) - length (drop 64 m) mod 64) (drop 64 m) = drop (length m - length m mod 64) m"
      unfolding d by (simp add: add.commute)
    then show ?thesis using False 1 d by (simp add: sha_blocks.simps [of hs "m @ x"] sha_blocks.simps [of hs m])
  qed
qed

text \<open>After the bytes \<open>m\<close>: the whole blocks are compressed, the rest is in the buffer.\<close>

definition sha_core :: "u8 list \<Rightarrow> ecm_sha256 \<Rightarrow> bool" where
  "sha_core m c \<longleftrightarrow> length (sh_buf c) = 64 \<and> sh_nbuf c = length m mod 64 \<and>
     take (sh_nbuf c) (sh_buf c) = drop (length m - sh_nbuf c) m \<and> sh_h c = sha_blocks sha_H0 m"

lemma sha_core_step:
  assumes c: "sha_core m c" and k: "k = min (64 - sh_nbuf c) (length p)"
    and b: "b = take (sh_nbuf c) (sh_buf c) @ take k p @ drop (sh_nbuf c + k) (sh_buf c)"
    and c1: "c1 = c\<lparr>sh_buf := b, sh_nbuf := sh_nbuf c + k\<rparr>"
  shows "sha_core (m @ take k p) (if sh_nbuf c1 = 64 then c1\<lparr>sh_h := sha_block (sh_h c1) b, sh_nbuf := 0\<rparr> else c1)"
proof -
  define n where "n = length m mod 64"
  have n: "sh_nbuf c = n" "n < 64" "n \<le> length m" and lb: "length (sh_buf c) = 64" "length b = 64"
    using c k b by (auto simp: sha_core_def n_def)
  have tk: "take n (sh_buf c) = drop (length m - n) m" using c n(1) unfolding sha_core_def by metis
  have kp: "length (take k p) = k" "n + k \<le> 64" using k n by auto
  show ?thesis
  proof (cases "n + k = 64")
    case True
    have "b = drop (length m - n) m @ take k p" using b n(1) tk True lb(1) by simp
    moreover have "sha_blocks sha_H0 (m @ take k p) = sha_block (sha_blocks sha_H0 m) (drop (length m - n) m @ take k p)"
      using sha_blocks_full [of m "take k p"] True kp by (simp add: n_def)
    moreover have "(length m + k) mod 64 = 0" using True by (metis mod_add_left_eq mod_self n_def)
    ultimately show ?thesis using c1 c n True kp lb by (simp add: sha_core_def)
  next
    case False
    then have lt: "n + k < 64" using kp by simp
    then have "(length m + k) mod 64 = n + k" by (metis mod_add_left_eq mod_less n_def)
    moreover have "sha_blocks sha_H0 (m @ take k p) = sha_blocks sha_H0 m"
      using sha_blocks_more [of m "take k p"] lt kp by (simp add: n_def)
    moreover have "take (n + k) b = drop (length m - n) m @ take k p" using b n tk lb kp by simp
    ultimately show ?thesis using c1 c n lt kp lb by (simp add: sha_core_def)
  qed
qed

lemma update_loop_core:
  "sha_core m c \<Longrightarrow> length p \<le> f \<Longrightarrow>
   \<exists>c'. update_loop f c p = Some c' \<and> sha_core (m @ p) c' \<and> sh_bytes c' = sh_bytes c"
proof (induction f c p arbitrary: m rule: update_loop.induct)
  case (3 f c x xs)
  define p where "p = x # xs"
  define k where "k = min (64 - sh_nbuf c) (length p)"
  define b where "b = take (sh_nbuf c) (sh_buf c) @ take k p @ drop (sh_nbuf c + k) (sh_buf c)"
  define c1 where "c1 = c\<lparr>sh_buf := b, sh_nbuf := sh_nbuf c + k\<rparr>"
  define c2 where "c2 = (if sh_nbuf c1 = 64 then c1\<lparr>sh_h := sha_block (sh_h c1) b, sh_nbuf := 0\<rparr> else c1)"
  have e: "update_loop (Suc f) c p = update_loop f c2 (drop k p)"
    unfolding p_def update_loop.simps Let_def c2_def c1_def b_def k_def by simp
  have "sh_nbuf c < 64" using 3(2) by (simp add: sha_core_def)
  then have k: "0 < k" by (simp add: k_def p_def)
  have "sha_core (m @ take k p) c2" unfolding c2_def by (rule sha_core_step [OF 3(2) k_def b_def c1_def])
  moreover have "length (drop k p) \<le> f" using k 3(3) by (simp add: p_def)
  moreover note IH = 3(1) [OF k_def [unfolded p_def] b_def [unfolded p_def] c1_def, folded c2_def p_def, of "m @ take k p"]
  ultimately obtain c' where "update_loop f c2 (drop k p) = Some c'" "sha_core (m @ p) c'" "sh_bytes c' = sh_bytes c2"
    by (auto simp: append.assoc)
  then show ?case using e by (auto simp: p_def [symmetric] c2_def c1_def)
qed auto

lemma update_core:
  assumes "sha_core m c"
  shows "\<exists>c'. ecm_sha256_update c p = Some c' \<and> sha_core (m @ p) c' \<and> sh_bytes c' = sh_bytes c + of_nat (length p)"
  using update_loop_core [of m "c\<lparr>sh_bytes := sh_bytes c + of_nat (length p)\<rparr>" p "length p"] assms
  by (auto simp: ecm_sha256_update_def sha_core_def)

lemma update_all_core:
  "sha_core m c \<Longrightarrow>
   \<exists>c'. update_all c ps = Some c' \<and> sha_core (m @ concat ps) c' \<and> sh_bytes c' = sh_bytes c + of_nat (length (concat ps))"
proof (induction ps arbitrary: m c)
  case (Cons p ps)
  obtain c1 where c1: "ecm_sha256_update c p = Some c1" "sha_core (m @ p) c1" "sh_bytes c1 = sh_bytes c + of_nat (length p)"
    using update_core [OF Cons(2)] by blast
  then show ?case using Cons(1) [OF c1(2)] by (auto simp: add.assoc)
qed simp

lemma zeros_Suc:
  assumes "n mod 64 \<noteq> (56 :: nat)"
  shows "(120 - n mod 64) mod 64 = Suc ((120 - Suc n mod 64) mod 64)"
proof -
  define r where "r = n mod 64"
  have r: "r < 64" "r \<noteq> 56" "Suc n mod 64 = (if r = 63 then 0 else Suc r)" using assms by (auto simp: r_def mod_Suc)
  consider "r < 56" | "56 < r" "r < 63" | "r = 63" using r by linarith
  then show ?thesis unfolding r_def [symmetric] r(3) by cases (auto simp: mod_if)
qed

lemma pad_loop_core:
  assumes "sha_core m c" "(120 - length m mod 64) mod 64 < f"
  shows "\<exists>c'. pad_loop f c = Some c' \<and> sha_core (m @ replicate ((120 - length m mod 64) mod 64) 0) c'"
  using assms
proof (induction f arbitrary: m c)
  case (Suc f)
  have nb: "sh_nbuf c = length m mod 64" using Suc(2) by (simp add: sha_core_def)
  show ?case
  proof (cases "length m mod 64 = 56")
    case True
    then show ?thesis using Suc(2) nb by simp
  next
    case False
    obtain c1 where c1: "ecm_sha256_update c [0] = Some c1" "sha_core (m @ [0]) c1"
      using update_core [OF Suc(2)] by blast
    define z where "z = (120 - Suc (length m) mod 64) mod 64"
    have z: "(120 - length m mod 64) mod 64 = Suc z" using zeros_Suc [OF False] by (simp add: z_def)
    then have "\<exists>c'. pad_loop f c1 = Some c' \<and> sha_core ((m @ [0]) @ replicate z 0) c'"
      using Suc.IH [OF c1(2)] Suc.prems(2) by (simp add: z_def)
    then show ?thesis using False nb c1 z by simp
  qed
qed simp

text \<open>C36. However the data is cut into pieces, the digest is the one of the reference: the
  padded message, its length in bits modulo \<open>2 ^ 64\<close>, compressed block by block. Both loops of
  the interface end, and what the buffer held before has no influence.\<close>

theorem sha256_incremental:
  assumes "length junk = 64"
  shows "Option.bind (update_all (ecm_sha256_init junk) ps) ecm_sha256_final = Some (sha256 (concat ps))"
proof -
  define m where "m = concat ps"
  define z where "z = (120 - length (m @ [0x80]) mod 64) mod 64"
  have "sha_core [] (ecm_sha256_init junk)"
    using assms by (simp add: sha_core_def ecm_sha256_init_def sha_blocks.simps)
  then obtain c where c: "update_all (ecm_sha256_init junk) ps = Some c" "sha_core m c" "sh_bytes c = of_nat (length m)"
    using update_all_core [of "[]" "ecm_sha256_init junk" ps] by (auto simp: m_def ecm_sha256_init_def)
  obtain c1 where c1: "ecm_sha256_update c [0x80] = Some c1" "sha_core (m @ [0x80]) c1"
    using update_core [OF c(2)] by blast
  obtain c2 where c2: "pad_loop 64 c1 = Some c2" "sha_core ((m @ [0x80]) @ replicate z 0) c2"
    using pad_loop_core [OF c1(2), of 64] by (auto simp: z_def)
  obtain c3 where c3: "ecm_sha256_update c2 (len_bytes (sh_bytes c * 8)) = Some c3"
    "sha_core (((m @ [0x80]) @ replicate z 0) @ len_bytes (sh_bytes c * 8)) c3"
    using update_core [OF c2(2)] by blast
  have "z = (119 - length m mod 64) mod 64" by (simp add: z_def mod_Suc)
  moreover have "sh_bytes c * 8 = of_nat (8 * length m)" using c(3) by simp
  ultimately have "sh_h c3 = sha_blocks sha_H0 (sha_padded m)" using c3(2) by (simp add: sha_core_def sha_padded_def)
  then show ?thesis using c(1) c1(1) c2(1) c3(1) by (simp add: ecm_sha256_final_def sha256_def m_def)
qed

theorem sha256_incremental_witness:
  "Option.bind (update_all (ecm_sha256_init (replicate 64 7)) [[0x61], [], [0x62, 0x63]]) ecm_sha256_final =
     Some (sha256 [0x61, 0x62, 0x63])"
  using sha256_incremental [of "replicate 64 7" "[[0x61], [], [0x62, 0x63]]"] by simp

section \<open>The constants\<close>

text \<open>
  The round constants are the first 32 bits of the fractional parts of the cube roots of the
  first 64 primes, the initial state those of the square roots of the first 8.
\<close>

text \<open>\<open>k\<close> is the first 32 fractional bits of the \<open>e\<close>-th root of \<open>p\<close>, whose integer part is \<open>c\<close>.\<close>

definition root_bits :: "nat \<Rightarrow> int \<times> int \<Rightarrow> u32 \<Rightarrow> bool" where
  "root_bits e cp k =
    (case cp of (c, p) \<Rightarrow> let x = c * 2 ^ 32 + uint k in x ^ e \<le> p * 2 ^ (32 * e) \<and> p * 2 ^ (32 * e) < (x + 1) ^ e)"

lemma sha_K_roots:
  "list_all2 (root_bits 3) [
    (1, 2), (1, 3), (1, 5), (1, 7), (2, 11), (2, 13), (2, 17), (2, 19), (2, 23),
    (3, 29), (3, 31), (3, 37), (3, 41), (3, 43), (3, 47), (3, 53), (3, 59), (3, 61),
    (4, 67), (4, 71), (4, 73), (4, 79), (4, 83), (4, 89), (4, 97), (4, 101), (4, 103),
    (4, 107), (4, 109), (4, 113), (5, 127), (5, 131), (5, 137), (5, 139), (5, 149), (5, 151),
    (5, 157), (5, 163), (5, 167), (5, 173), (5, 179), (5, 181), (5, 191), (5, 193), (5, 197),
    (5, 199), (5, 211), (6, 223), (6, 227), (6, 229), (6, 233), (6, 239), (6, 241), (6, 251),
    (6, 257), (6, 263), (6, 269), (6, 271), (6, 277), (6, 281), (6, 283), (6, 293), (6, 307),
    (6, 311)] sha_K"
  by (simp add: sha_K_def root_bits_def)

lemma sha_H0_roots:
  "list_all2 (root_bits 2) [(1, 2), (1, 3), (2, 5), (2, 7), (3, 11), (3, 13), (4, 17), (4, 19)] sha_H0"
  by (simp add: sha_H0_def root_bits_def)

end
