(* ===== verification/Json.thy ===== *)
theory Json
  imports Cstr
begin

text \<open>
  The JSON tokenizer of the control interface (\<open>libecmaster/api/ecm_json.c\<close>): a strict
  recursive descent over the text into a flat array of tokens in document order, and the
  accessors on that array. The text is a list of bytes and may contain NUL; the token
  array is a list with a capacity. A parse function returns the new state of the parser
  and the index of its token, \<open>None\<close> for the \<open>-1\<close> of the code. The recursion between
  values and containers has fuel; below, \<open>2 n + 1\<close> is shown to be enough for \<open>n\<close> bytes.
\<close>

section \<open>Tokens\<close>

datatype ecm_jtype = ECM_J_OBJ | ECM_J_ARR | ECM_J_STR | ECM_J_NUM | ECM_J_TRUE | ECM_J_FALSE | ECM_J_NULL

record ecm_jtok =
  jt_type :: ecm_jtype
  jt_start :: nat
  jt_end :: nat
  jt_size :: nat
  jt_parent :: int

abbreviation (input) ECM_JSON_MAX_DEPTH :: nat where "ECM_JSON_MAX_DEPTH \<equiv> 16"

record jp =
  jp_pos :: nat
  jp_t :: "ecm_jtok list"
  jp_err :: int

abbreviation (input) c_quote :: char where "c_quote \<equiv> CHR 0x22"
abbreviation (input) c_bsl :: char where "c_bsl \<equiv> CHR 0x5C"

definition is_ws :: "char \<Rightarrow> bool" where
  "is_ws c \<longleftrightarrow> c \<in> {CHR '' '', CHR 0x09, CHR 0x0A, CHR 0x0D}"

definition ws :: "string \<Rightarrow> jp \<Rightarrow> jp" where
  "ws s p = p\<lparr>jp_pos := jp_pos p + length (takeWhile is_ws (drop (jp_pos p) s))\<rparr>"

text \<open>The byte at the position, if there is one left.\<close>

definition cur :: "string \<Rightarrow> jp \<Rightarrow> char option" where
  "cur s p = (if jp_pos p < length s then Some (s ! jp_pos p) else None)"

definition adv :: "nat \<Rightarrow> jp \<Rightarrow> jp" where
  "adv n p = p\<lparr>jp_pos := jp_pos p + n\<rparr>"

definition tok :: "nat \<Rightarrow> ecm_jtype \<Rightarrow> nat \<Rightarrow> int \<Rightarrow> jp \<Rightarrow> jp \<times> nat option" where
  "tok mx ty start parent p =
    (if length (jp_t p) \<ge> mx then (p\<lparr>jp_err := - 2\<rparr>, None)
     else (p\<lparr>jp_t := jp_t p @ [\<lparr>jt_type = ty, jt_start = start, jt_end = start, jt_size = 0, jt_parent = parent\<rparr>]\<rparr>,
           Some (length (jp_t p))))"

definition set_end :: "nat \<Rightarrow> nat \<Rightarrow> jp \<Rightarrow> jp" where
  "set_end k e p = p\<lparr>jp_t := (jp_t p)[k := (jp_t p ! k)\<lparr>jt_end := e\<rparr>]\<rparr>"

definition inc_size :: "nat \<Rightarrow> jp \<Rightarrow> jp" where
  "inc_size k p = p\<lparr>jp_t := (jp_t p)[k := (jp_t p ! k)\<lparr>jt_size := jt_size (jp_t p ! k) + 1\<rparr>]\<rparr>"

section \<open>Scalars\<close>

definition is_hex :: "char \<Rightarrow> bool" where
  "is_hex c = (let n = char_code c in 48 \<le> n \<and> n \<le> 57 \<or> 97 \<le> n \<and> n \<le> 102 \<or> 65 \<le> n \<and> n \<le> 70)"

definition is_dec :: "char \<Rightarrow> bool" where
  "is_dec c = (let n = char_code c in 48 \<le> n \<and> n \<le> 57)"

text \<open>After a backslash, \<open>strchr\<close> also finds the terminating NUL of its own string.\<close>

definition esc_ok :: "char \<Rightarrow> bool" where
  "esc_ok e \<longleftrightarrow> e \<in> {c_quote, c_bsl, CHR ''/'', CHR ''b'', CHR ''f'', CHR ''n'', CHR ''r'', CHR ''t'', CHR 0x00}"

text \<open>The bytes after the opening quote: where the scan stops, and whether at the closing quote.\<close>

fun str_scan :: "string \<Rightarrow> nat \<Rightarrow> nat \<times> bool" where
  "str_scan [] pos = (pos, False)"
| "str_scan (c # cs) pos =
    (if c = c_quote then (pos, True)
     else if char_code c < 0x20 then (pos, False)
     else if c = c_bsl then
       (case cs of
          [] \<Rightarrow> (pos + 1, False)
        | e # es \<Rightarrow>
            if e = CHR ''u'' then
              (case es of
                 a # b # g # h # r \<Rightarrow>
                   if is_hex a \<and> is_hex b \<and> is_hex g \<and> is_hex h then str_scan r (pos + 6) else (pos + 1, False)
               | _ \<Rightarrow> (pos + 1, False))
            else if esc_ok e then str_scan es (pos + 2)
            else (pos + 1, False))
     else str_scan cs (pos + 1))"

definition json_string :: "string \<Rightarrow> nat \<Rightarrow> int \<Rightarrow> jp \<Rightarrow> jp \<times> nat option" where
  "json_string s mx parent p =
    (case tok mx ECM_J_STR (jp_pos p + 1) parent p of
       (p1, None) \<Rightarrow> (p1, None)
     | (p1, Some k) \<Rightarrow>
         (case str_scan (drop (jp_pos p + 1) s) (jp_pos p + 1) of
            (q, True) \<Rightarrow> (set_end k q (p1\<lparr>jp_pos := q + 1\<rparr>), Some k)
          | (q, False) \<Rightarrow> (p1\<lparr>jp_pos := q\<rparr>, None)))"

definition num_frac :: "string \<Rightarrow> nat option" where
  "num_frac cs =
    (case cs of
       [] \<Rightarrow> Some 0
     | c # r \<Rightarrow> if c = CHR ''.'' then (let n = length (takeWhile is_dec r) in if n = 0 then None else Some (1 + n)) else Some 0)"

definition num_exp :: "string \<Rightarrow> nat option" where
  "num_exp cs =
    (case cs of
       [] \<Rightarrow> Some 0
     | c # r \<Rightarrow>
         if c = CHR ''e'' \<or> c = CHR ''E'' then
           (let g = (case r of x # _ \<Rightarrow> if x = CHR ''+'' \<or> x = CHR ''-'' then 1 else 0 | [] \<Rightarrow> 0);
                n = length (takeWhile is_dec (drop g r))
            in if n = 0 then None else Some (1 + g + n))
         else Some 0)"

definition num_int :: "string \<Rightarrow> nat option" where
  "num_int cs =
    (case cs of
       [] \<Rightarrow> None
     | c # r \<Rightarrow> if c = CHR ''0'' then Some 1 else if is_dec c then Some (length (takeWhile is_dec cs)) else None)"

text \<open>The length of the number at the head of the text.\<close>

definition num_len :: "string \<Rightarrow> nat option" where
  "num_len cs =
    (let g = (case cs of c # _ \<Rightarrow> if c = CHR ''-'' then 1 else 0 | [] \<Rightarrow> 0) in
     Option.bind (num_int (drop g cs)) (\<lambda>m.
     Option.bind (num_frac (drop (g + m) cs)) (\<lambda>f.
     Option.bind (num_exp (drop (g + m + f) cs)) (\<lambda>e. Some (g + m + f + e)))))"

definition json_number :: "string \<Rightarrow> nat \<Rightarrow> int \<Rightarrow> jp \<Rightarrow> jp \<times> nat option" where
  "json_number s mx parent p =
    (case tok mx ECM_J_NUM (jp_pos p) parent p of
       (p1, None) \<Rightarrow> (p1, None)
     | (p1, Some k) \<Rightarrow>
         (case num_len (drop (jp_pos p) s) of
            None \<Rightarrow> (p1, None)
          | Some n \<Rightarrow> (set_end k (jp_pos p + n) (p1\<lparr>jp_pos := jp_pos p + n\<rparr>), Some k)))"

definition json_literal :: "string \<Rightarrow> nat \<Rightarrow> int \<Rightarrow> string \<Rightarrow> ecm_jtype \<Rightarrow> jp \<Rightarrow> jp \<times> nat option" where
  "json_literal s mx parent w ty p =
    (if take (length w) (drop (jp_pos p) s) \<noteq> w then (p, None)
     else (case tok mx ty (jp_pos p) parent p of
             (p1, None) \<Rightarrow> (p1, None)
           | (p1, Some k) \<Rightarrow> (set_end k (jp_pos p + length w) (adv (length w) p1), Some k)))"

section \<open>Containers and values\<close>

definition close_of :: "bool \<Rightarrow> char" where "close_of obj = (if obj then CHR ''}'' else CHR '']'')"

text \<open>Up to the first member: finished (a failure or an empty container), or the index of the token.\<close>

definition json_open :: "string \<Rightarrow> nat \<Rightarrow> int \<Rightarrow> nat \<Rightarrow> bool \<Rightarrow> jp \<Rightarrow> jp \<times> (nat option + nat)" where
  "json_open s mx parent depth obj p =
    (if depth \<ge> ECM_JSON_MAX_DEPTH then (p\<lparr>jp_err := - 3\<rparr>, Inl None)
     else
      (case tok mx (if obj then ECM_J_OBJ else ECM_J_ARR) (jp_pos p) parent p of
         (p1, None) \<Rightarrow> (p1, Inl None)
       | (p1, Some k) \<Rightarrow>
           let p2 = ws s (adv 1 p1) in
           if cur s p2 = Some (close_of obj) then (set_end k (jp_pos p2 + 1) (adv 1 p2), Inl (Some k)) else (p2, Inr k)))"

text \<open>The key of a member and its colon.\<close>

definition json_key :: "string \<Rightarrow> nat \<Rightarrow> nat \<Rightarrow> jp \<Rightarrow> jp \<times> bool" where
  "json_key s mx k p =
    (if cur s p \<noteq> Some c_quote then (p, False)
     else
      (case json_string s mx (int k) p of
         (p1, None) \<Rightarrow> (p1, False)
       | (p1, Some _) \<Rightarrow>
           let p2 = ws s (inc_size k p1) in
           if cur s p2 \<noteq> Some (CHR '':'') then (p2, False) else (ws s (adv 1 p2), True)))"

fun json_value :: "nat \<Rightarrow> string \<Rightarrow> nat \<Rightarrow> int \<Rightarrow> nat \<Rightarrow> jp \<Rightarrow> (jp \<times> nat option) option"
  and json_members :: "nat \<Rightarrow> string \<Rightarrow> nat \<Rightarrow> nat \<Rightarrow> nat \<Rightarrow> bool \<Rightarrow> jp \<Rightarrow> (jp \<times> bool) option" where
  "json_value 0 s mx parent depth p = None"
| "json_value (Suc f) s mx parent depth p0 =
    (let p = ws s p0 in
     case cur s p of
       None \<Rightarrow> Some (p, None)
     | Some c \<Rightarrow>
         if c = CHR ''{'' \<or> c = CHR ''['' then
           (case json_open s mx parent depth (c = CHR ''{'') p of
              (p1, Inl r) \<Rightarrow> Some (p1, r)
            | (p1, Inr k) \<Rightarrow>
                (case json_members f s mx k depth (c = CHR ''{'') p1 of
                   None \<Rightarrow> None
                 | Some (p2, ok) \<Rightarrow> Some (p2, if ok then Some k else None)))
         else if c = c_quote then Some (json_string s mx parent p)
         else if c = CHR ''-'' \<or> is_dec c then Some (json_number s mx parent p)
         else if c = CHR ''t'' then Some (json_literal s mx parent ''true'' ECM_J_TRUE p)
         else if c = CHR ''f'' then Some (json_literal s mx parent ''false'' ECM_J_FALSE p)
         else if c = CHR ''n'' then Some (json_literal s mx parent ''null'' ECM_J_NULL p)
         else Some (p, None))"
| "json_members 0 s mx k depth obj p = None"
| "json_members (Suc f) s mx k depth obj p0 =
    (let (p, key) = (if obj then json_key s mx k (ws s p0) else (ws s p0, True)) in
     if \<not> key then Some (p, False)
     else
      (case json_value f s mx (int k) (depth + 1) p of
         None \<Rightarrow> None
       | Some (p1, None) \<Rightarrow> Some (p1, False)
       | Some (p1, Some _) \<Rightarrow>
           let p2 = ws s (inc_size k p1) in
           (case cur s p2 of
              None \<Rightarrow> Some (p2, False)
            | Some c \<Rightarrow>
                if c = CHR '','' then json_members f s mx k depth obj (adv 1 p2)
                else if c = close_of obj then Some (set_end k (jp_pos p2 + 1) (adv 1 p2), True)
                else Some (p2, False))))"

definition jp_init :: jp where "jp_init = \<lparr>jp_pos = 0, jp_t = [], jp_err = 0\<rparr>"

text \<open>The return value, the position of the error and the tokens; \<open>None\<close> only without fuel.\<close>

definition ecm_json_parse :: "string \<Rightarrow> nat \<Rightarrow> (int \<times> nat \<times> ecm_jtok list) option" where
  "ecm_json_parse s mx =
    (case json_value (2 * length s + 1) s mx (- 1) 0 jp_init of
       None \<Rightarrow> None
     | Some (p, r) \<Rightarrow>
         let p1 = (if r \<noteq> None then ws s p else p) in
         if r = None \<or> jp_pos p1 \<noteq> length s
         then Some (if jp_err p1 \<noteq> 0 then jp_err p1 else - 1, jp_pos p1, jp_t p1)
         else Some (int (length (jp_t p1)), jp_pos p1, jp_t p1))"

section \<open>Accessors\<close>

text \<open>Up the parents until the root or \<open>i\<close>, with fuel for an array that is not a tree.\<close>

primrec climb :: "nat \<Rightarrow> ecm_jtok list \<Rightarrow> int \<Rightarrow> int \<Rightarrow> int option" where
  "climb 0 t i a = None"
| "climb (Suc f) t i a = (if a \<ge> 0 \<and> a \<noteq> i then climb f t i (jt_parent (t ! nat a)) else Some a)"

primrec skip_from :: "nat \<Rightarrow> ecm_jtok list \<Rightarrow> nat \<Rightarrow> nat \<Rightarrow> nat option" where
  "skip_from 0 t i j = Some j"
| "skip_from (Suc f) t i j =
    (case climb (length t + 1) t (int i) (jt_parent (t ! j)) of
       None \<Rightarrow> None
     | Some a \<Rightarrow> if a \<noteq> int i then Some j else skip_from f t i (j + 1))"

definition ecm_json_skip :: "ecm_jtok list \<Rightarrow> nat \<Rightarrow> nat option" where
  "ecm_json_skip t i = skip_from (length t - (i + 1)) t i (i + 1)"

definition tok_text :: "string \<Rightarrow> ecm_jtok \<Rightarrow> string" where
  "tok_text s k = take (jt_end k - jt_start k) (drop (jt_start k) s)"

primrec get_loop :: "nat \<Rightarrow> string \<Rightarrow> ecm_jtok list \<Rightarrow> nat \<Rightarrow> string \<Rightarrow> nat option" where
  "get_loop 0 s t i key = None"
| "get_loop (Suc m) s t i key =
    (if i + 1 \<ge> length t then None
     else if jt_type (t ! i) = ECM_J_STR \<and> tok_text s (t ! i) = key then Some (i + 1)
     else (case ecm_json_skip t (i + 1) of None \<Rightarrow> None | Some j \<Rightarrow> get_loop m s t j key))"

definition ecm_json_get :: "string \<Rightarrow> ecm_jtok list \<Rightarrow> nat \<Rightarrow> string \<Rightarrow> nat option" where
  "ecm_json_get s t obj key =
    (if obj \<ge> length t \<or> jt_type (t ! obj) \<noteq> ECM_J_OBJ then None
     else get_loop (jt_size (t ! obj) div 2) s t (obj + 1) key)"

text \<open>The text of a string token with its escapes replaced.\<close>

definition unhex4 :: "string \<Rightarrow> char" where
  "unhex4 h = (let u = sv (strtol h 16) in if u > 0 \<and> u < 0x80 then char_of (nat u) else CHR ''?'')"

definition unescape1 :: "char \<Rightarrow> char" where
  "unescape1 e =
    (if e = CHR ''b'' then CHR 0x08 else if e = CHR ''f'' then CHR 0x0C else if e = CHR ''n'' then CHR 0x0A
     else if e = CHR ''r'' then CHR 0x0D else if e = CHR ''t'' then CHR 0x09 else e)"

fun unescape :: "string \<Rightarrow> string" where
  "unescape [] = []"
| "unescape (c # cs) =
    (if c = c_bsl then
       (case cs of
          [] \<Rightarrow> []
        | e # es \<Rightarrow>
            if e = CHR ''u''
            then (case es of a # b # g # h # r \<Rightarrow> unhex4 [a, b, g, h] # unescape r | _ \<Rightarrow> [])
            else unescape1 e # unescape es)
     else c # unescape cs)"

definition ecm_json_str :: "string \<Rightarrow> ecm_jtok \<Rightarrow> nat \<Rightarrow> string option" where
  "ecm_json_str s k cap =
    (if jt_type k \<noteq> ECM_J_STR \<or> cap = 0 then None
     else let o1 = unescape (tok_text s k) in if length o1 \<ge> cap then None else Some o1)"

text \<open>The copy of the digits is a C string: it ends at the first NUL.\<close>

definition int_text :: "string \<Rightarrow> ecm_jtok \<Rightarrow> nat \<Rightarrow> string option" where
  "int_text s k cap =
    (if jt_type k \<noteq> ECM_J_NUM \<and> jt_type k \<noteq> ECM_J_STR then None
     else
      let b = tok_text s k in
      if b = [] \<or> length b \<ge> cap then None
      else
       let b = takeWhile (\<lambda>c. c \<noteq> CHR 0x00) b in
       if jt_type k = ECM_J_NUM \<and> (\<exists>c\<in>set b. c \<in> {CHR ''.'', CHR ''e'', CHR ''E''}) then None else Some b)"

definition octal_like :: "string \<Rightarrow> bool" where
  "octal_like b = (case b of z # d # _ \<Rightarrow> z = CHR ''0'' \<and> is_dec d | _ \<Rightarrow> False)"

definition ecm_json_i64 :: "string \<Rightarrow> ecm_jtok \<Rightarrow> int option" where
  "ecm_json_i64 s k =
    (case int_text s k 40 of
       None \<Rightarrow> None
     | Some b \<Rightarrow>
         let r = strtol b (if jt_type k = ECM_J_STR then 0 else 10) in
         if srange r \<or> srest r \<noteq> [] \<or> \<not> sconv r then None
         else if jt_type k = ECM_J_STR \<and> octal_like b then None
         else Some (sv r))"

definition ecm_json_u64 :: "string \<Rightarrow> ecm_jtok \<Rightarrow> u64 option" where
  "ecm_json_u64 s k =
    (case int_text s k 40 of
       None \<Rightarrow> None
     | Some b \<Rightarrow>
         if take 1 b = ''-'' then None
         else if jt_type k = ECM_J_STR \<and> octal_like b then None
         else
          let r = strtoul b (if jt_type k = ECM_J_STR then 0 else 10) in
          if srange r \<or> srest r \<noteq> [] \<or> \<not> sconv r then None else Some (sv r))"

section \<open>The parser builds a tree\<close>

text \<open>
  What the token array means: a tree laid out in document order, every node with its span,
  the number of its direct children and the index of its parent. The key of a member is a
  child of the object, before the value.
\<close>

datatype jtree = JNode ecm_jtype nat nat "jtree list"

primrec nnodes :: "jtree \<Rightarrow> nat" where
  "nnodes (JNode ty a b cs) = Suc (sum_list (map nnodes cs))"

abbreviation nnodes_list :: "jtree list \<Rightarrow> nat" where
  "nnodes_list cs \<equiv> sum_list (map nnodes cs)"

fun flatten :: "nat \<Rightarrow> int \<Rightarrow> jtree \<Rightarrow> ecm_jtok list"
  and flatten_list :: "nat \<Rightarrow> int \<Rightarrow> jtree list \<Rightarrow> ecm_jtok list" where
  "flatten k par (JNode ty a b cs) =
    \<lparr>jt_type = ty, jt_start = a, jt_end = b, jt_size = length cs, jt_parent = par\<rparr> # flatten_list (Suc k) (int k) cs"
| "flatten_list k par [] = []"
| "flatten_list k par (c # cs) = flatten k par c @ flatten_list (k + nnodes c) par cs"

fun is_key :: "jtree \<Rightarrow> bool" where
  "is_key (JNode ty a b cs) \<longleftrightarrow> ty = ECM_J_STR \<and> cs = []"

fun keyed :: "jtree list \<Rightarrow> bool" where
  "keyed [] \<longleftrightarrow> True"
| "keyed [_] \<longleftrightarrow> False"
| "keyed (k # v # cs) \<longleftrightarrow> is_key k \<and> keyed cs"

text \<open>Spans inside the text and nested in order, members in pairs, leaves without children, bounded depth.\<close>

fun tree_ok :: "nat \<Rightarrow> nat \<Rightarrow> nat \<Rightarrow> jtree \<Rightarrow> bool"
  and trees_ok :: "nat \<Rightarrow> nat \<Rightarrow> nat \<Rightarrow> jtree list \<Rightarrow> bool" where
  "tree_ok d lo hi (JNode ty a b cs) \<longleftrightarrow>
     lo \<le> a \<and> a \<le> b \<and> b \<le> hi \<and>
     (if ty = ECM_J_OBJ \<or> ty = ECM_J_ARR
      then d < ECM_JSON_MAX_DEPTH \<and> (ty = ECM_J_OBJ \<longrightarrow> keyed cs) \<and> trees_ok (Suc d) (Suc a) (b - 1) cs
      else cs = [])"
| "trees_ok d lo hi [] \<longleftrightarrow> True"
| "trees_ok d lo hi (JNode ty a b xs # cs) \<longleftrightarrow> tree_ok d lo hi (JNode ty a b xs) \<and> trees_ok d b hi cs"

text \<open>
  The grammar of the text, apart from the code: what a node is spelled as, from which position to
  which. \<open>jval s i v j\<close>: the bytes from \<open>i\<close> up to \<open>j\<close> are exactly value \<open>v\<close>, no white space around it. A
  string token spans the bytes between its quotes, a container token includes its brackets, a
  number or a literal token is the whole word. \<open>jmem s obj key i cs j\<close>: the bytes from \<open>i\<close> up to \<open>j\<close>
  are the members \<open>cs\<close> with their separators and white space, a key first if \<open>key\<close>.
\<close>

definition span_text :: "string \<Rightarrow> nat \<Rightarrow> nat \<Rightarrow> string" where
  "span_text s i j = take (j - i) (drop i s)"

definition blank :: "string \<Rightarrow> nat \<Rightarrow> nat \<Rightarrow> bool" where
  "blank s i j \<longleftrightarrow> i \<le> j \<and> j \<le> length s \<and> list_all is_ws (span_text s i j)"

text \<open>The inside of a string: no quote, no control character, every backslash begins an escape.\<close>

fun str_body :: "string \<Rightarrow> bool" where
  "str_body [] = True"
| "str_body (c # cs) =
    (if c = c_bsl then
       (case cs of
          [] \<Rightarrow> False
        | e # es \<Rightarrow>
            if e = CHR ''u'' then
              (case es of a # b # g # h # r \<Rightarrow> is_hex a \<and> is_hex b \<and> is_hex g \<and> is_hex h \<and> str_body r | _ \<Rightarrow> False)
            else esc_ok e \<and> str_body es)
     else c \<noteq> c_quote \<and> char_code c \<ge> 0x20 \<and> str_body cs)"

definition digits :: "string \<Rightarrow> bool" where
  "digits x \<longleftrightarrow> x \<noteq> [] \<and> list_all is_dec x"

text \<open>Sign, integer part without a leading zero, fraction, exponent.\<close>

definition json_num :: "string \<Rightarrow> bool" where
  "json_num x \<longleftrightarrow> (\<exists>g m f e. x = g @ m @ f @ e \<and> g \<in> {[], ''-''} \<and> (m = ''0'' \<or> digits m \<and> hd m \<noteq> CHR ''0'') \<and>
     (f = [] \<or> (\<exists>d. f = CHR ''.'' # d \<and> digits d)) \<and>
     (e = [] \<or> (\<exists>c sg d. e = c # sg @ d \<and> c \<in> {CHR ''e'', CHR ''E''} \<and> sg \<in> {[], ''+'', ''-''} \<and> digits d)))"

definition LITERALS :: "(string \<times> ecm_jtype) set" where
  "LITERALS = {(''true'', ECM_J_TRUE), (''false'', ECM_J_FALSE), (''null'', ECM_J_NULL)}"

definition open_of :: "bool \<Rightarrow> char" where "open_of obj = (if obj then CHR ''{'' else CHR ''['')"

abbreviation (input) cont_type :: "bool \<Rightarrow> ecm_jtype" where "cont_type obj \<equiv> (if obj then ECM_J_OBJ else ECM_J_ARR)"

definition char_at :: "string \<Rightarrow> nat \<Rightarrow> char \<Rightarrow> bool" where
  "char_at s i c \<longleftrightarrow> i < length s \<and> s ! i = c"

inductive jval :: "string \<Rightarrow> nat \<Rightarrow> jtree \<Rightarrow> nat \<Rightarrow> bool"
  and jmem :: "string \<Rightarrow> bool \<Rightarrow> bool \<Rightarrow> nat \<Rightarrow> jtree list \<Rightarrow> nat \<Rightarrow> bool" for s :: string where
  V_str: "char_at s i c_quote \<Longrightarrow> Suc i \<le> b \<Longrightarrow> str_body (span_text s (Suc i) b) \<Longrightarrow> char_at s b c_quote \<Longrightarrow>
    jval s i (JNode ECM_J_STR (Suc i) b []) (Suc b)"
| V_num: "i < j \<Longrightarrow> j \<le> length s \<Longrightarrow> json_num (span_text s i j) \<Longrightarrow> jval s i (JNode ECM_J_NUM i j []) j"
| V_lit: "(w, ty) \<in> LITERALS \<Longrightarrow> span_text s i (i + length w) = w \<Longrightarrow> jval s i (JNode ty i (i + length w) []) (i + length w)"
| V_empty: "char_at s i (open_of obj) \<Longrightarrow> blank s (Suc i) j \<Longrightarrow> char_at s j (close_of obj) \<Longrightarrow>
    jval s i (JNode (cont_type obj) i (Suc j) []) (Suc j)"
| V_cont: "char_at s i (open_of obj) \<Longrightarrow> jmem s obj obj (Suc i) cs j \<Longrightarrow> char_at s j (close_of obj) \<Longrightarrow>
    jval s i (JNode (cont_type obj) i (Suc j) cs) (Suc j)"
| M_key: "blank s i a \<Longrightarrow> jval s a (JNode ECM_J_STR x y []) b \<Longrightarrow> blank s b m \<Longrightarrow> char_at s m (CHR '':'') \<Longrightarrow>
    jmem s obj False (Suc m) cs j \<Longrightarrow> jmem s obj True i (JNode ECM_J_STR x y [] # cs) j"
| M_one: "blank s i a \<Longrightarrow> jval s a v b \<Longrightarrow> blank s b j \<Longrightarrow> jmem s obj False i [v] j"
| M_more: "blank s i a \<Longrightarrow> jval s a v b \<Longrightarrow> blank s b m \<Longrightarrow> char_at s m (CHR '','') \<Longrightarrow> jmem s obj obj (Suc m) cs j \<Longrightarrow>
    jmem s obj False i (v # cs) j"

lemma blank_refl [simp]: "i \<le> length s \<Longrightarrow> blank s i i"
  by (simp add: blank_def span_text_def)

lemma span_text_append: "i \<le> j \<Longrightarrow> j \<le> k \<Longrightarrow> span_text s i k = span_text s i j @ span_text s j k"
proof -
  assume "i \<le> j" "j \<le> k"
  then have "k - i = (j - i) + (k - j)" "drop j s = drop (j - i) (drop i s)" by simp_all
  then show ?thesis unfolding span_text_def by (metis take_add)
qed

lemma blank_trans: "blank s i j \<Longrightarrow> blank s j k \<Longrightarrow> blank s i k"
  by (auto simp: blank_def span_text_append [of i j k s])

lemma jmem_blank: "blank s i i' \<Longrightarrow> jmem s obj key i' cs j \<Longrightarrow> jmem s obj key i cs j"
  by (erule jmem.cases) (auto intro: M_key M_one M_more blank_trans)

lemma flatten_length [simp]:
  "length (flatten k par v) = nnodes v"
  "length (flatten_list k par cs) = nnodes_list cs"
  by (induction k par v and k par cs rule: flatten_flatten_list.induct) auto

lemma flatten_list_append:
  "flatten_list k par (xs @ ys) = flatten_list k par xs @ flatten_list (k + nnodes_list xs) par ys"
  by (induction xs arbitrary: k) (auto simp: add.assoc)

lemma ws_simps [simp]: "jp_t (ws s p) = jp_t p" "jp_pos p \<le> jp_pos (ws s p)"
  by (auto simp: ws_def)

lemma ws_le [simp]: "jp_pos p \<le> length s \<Longrightarrow> jp_pos (ws s p) \<le> length s"
  using length_takeWhile_le [of is_ws "drop (jp_pos p) s"] by (simp add: ws_def)

lemma adv_simps [simp]: "jp_t (adv n p) = jp_t p" "jp_pos (adv n p) = jp_pos p + n"
  by (auto simp: adv_def)

lemma upd_pos [simp]: "jp_pos (set_end k e p) = jp_pos p" "jp_pos (inc_size k p) = jp_pos p"
  by (auto simp: set_end_def inc_size_def)

lemma cur_Some: "cur s p = Some c \<Longrightarrow> jp_pos p < length s"
  by (auto simp: cur_def split: if_splits)

lemma cur_at: "cur s p = Some c \<Longrightarrow> char_at s (jp_pos p) c"
  by (auto simp: cur_def char_at_def split: if_splits)

lemma ws_blank [simp]: "jp_pos p \<le> length s \<Longrightarrow> blank s (jp_pos p) (jp_pos (ws s p))"
proof -
  assume "jp_pos p \<le> length s"
  moreover have "take (length (takeWhile is_ws x)) x = takeWhile is_ws x" for x
    by (metis takeWhile_eq_take)
  ultimately show ?thesis using ws_le [of p s]
    by (simp add: blank_def span_text_def ws_def list_all_iff) (metis set_takeWhileD)
qed

lemma tree_ok_mono:
  "tree_ok d lo hi v \<Longrightarrow> lo' \<le> lo \<Longrightarrow> hi \<le> hi' \<Longrightarrow> tree_ok d lo' hi' v"
  by (cases v) auto

lemma trees_ok_mono:
  "trees_ok d lo hi cs \<Longrightarrow> lo' \<le> lo \<Longrightarrow> trees_ok d lo' hi cs"
  by (cases "(d, lo, hi, cs)" rule: trees_ok.cases) auto

lemma trees_ok_Cons:
  assumes "tree_ok d lo m v" "m \<le> m'" "m \<le> hi" "trees_ok d m' hi cs"
  shows "trees_ok d lo hi (v # cs)"
  using assms by (cases v) (auto intro: trees_ok_mono)

lemma tok_Some:
  assumes "tok mx ty st par p = (p1, Some k)"
  shows "k = length (jp_t p) \<and> k < mx \<and> jp_pos p1 = jp_pos p \<and> jp_t p1 = jp_t p @ flatten k par (JNode ty st st [])"
  using assms by (auto simp: tok_def split: if_splits)

lemma str_scan_True:
  "str_scan cs pos = (q, True) \<Longrightarrow>
    pos \<le> q \<and> q < pos + length cs \<and> str_body (take (q - pos) cs) \<and> cs ! (q - pos) = c_quote"
proof (induction cs arbitrary: pos rule: length_induct)
  case (1 cs)
  have IH: "pos \<le> q \<and> q < pos + length r \<and> str_body (take (q - pos) r) \<and> r ! (q - pos) = c_quote"
    if "str_scan r pos = (q, True)" "length r < length cs" for r pos
    using that 1(1) by blast
  obtain c cs' where c: "cs = c # cs'" using 1(2) by (cases cs) auto
  have nb: "\<not> char_code c_bsl < 0x20" by (simp add: char_code_def)
  consider "c = c_quote" "q = pos" | "c \<noteq> c_quote" "c \<noteq> c_bsl" "char_code c \<ge> 0x20" "str_scan cs' (pos + 1) = (q, True)"
    | e es where "c = c_bsl" "cs' = e # es" "e \<noteq> CHR ''u''" "esc_ok e" "str_scan es (pos + 2) = (q, True)"
    | a b g h t where "c = c_bsl" "cs' = CHR ''u'' # a # b # g # h # t" "is_hex a \<and> is_hex b \<and> is_hex g \<and> is_hex h"
        "str_scan t (pos + 6) = (q, True)"
  proof (cases "c = c_bsl")
    case True
    then obtain e es where e: "cs' = e # es" using 1(2) nb by (cases cs') (simp_all add: c)
    show ?thesis
    proof (cases "e = CHR ''u''")
      case u: True
      then have "\<exists>a b g h t. es = a # b # g # h # t \<and> (is_hex a \<and> is_hex b \<and> is_hex g \<and> is_hex h) \<and> str_scan t (pos + 6) = (q, True)"
        using 1(2) True e nb by (simp add: c split: list.splits if_splits)
      then show ?thesis using that(4) True u e by blast
    next
      case False
      then have "esc_ok e \<and> str_scan es (pos + 2) = (q, True)"
        using 1(2) True e nb by (simp add: c split: if_splits)
      then show ?thesis using that(3) True e False by blast
    qed
  next
    case False
    then show ?thesis using 1(2) that(1,2) by (cases "c = c_quote"; cases "char_code c < 0x20") (simp_all add: c)
  qed
  then show ?case
  proof cases
    case 1
    then show ?thesis by (simp add: c)
  next
    case 2
    from IH [OF 2(4)] have i: "pos + 1 \<le> q \<and> q < pos + 1 + length cs' \<and> str_body (take (q - (pos + 1)) cs') \<and> cs' ! (q - (pos + 1)) = c_quote"
      by (simp add: c)
    have "q - pos = Suc (q - (pos + 1))" using i by linarith
    then show ?thesis using 2 i by (simp add: c)
  next
    case 3
    from IH [OF 3(5)] have i: "pos + 2 \<le> q \<and> q < pos + 2 + length es \<and> str_body (take (q - (pos + 2)) es) \<and> es ! (q - (pos + 2)) = c_quote"
      by (simp add: c 3)
    have "q - pos = Suc (Suc (q - (pos + 2)))" using i by linarith
    then show ?thesis using 3 i by (simp add: c)
  next
    case 4
    from IH [OF 4(4)] have i: "pos + 6 \<le> q \<and> q < pos + 6 + length t \<and> str_body (take (q - (pos + 6)) t) \<and> t ! (q - (pos + 6)) = c_quote"
      by (simp add: c 4)
    have "q - pos = Suc (Suc (Suc (Suc (Suc (Suc (q - (pos + 6)))))))" using i by linarith
    then show ?thesis using 4 i by (simp add: c)
  qed
qed

lemma num_int_pos: "num_int cs = Some n \<Longrightarrow> 0 < n \<and> n \<le> length cs"
  using length_takeWhile_le [of is_dec cs] by (auto simp: num_int_def split: list.splits if_splits)

lemma num_frac_le: "num_frac cs = Some n \<Longrightarrow> n \<le> length cs"
  by (auto simp: num_frac_def Let_def length_takeWhile_le split: list.splits if_splits)

lemma num_exp_le: "num_exp cs = Some n \<Longrightarrow> n \<le> length cs"
proof (cases cs)
  case (Cons c r)
  assume e: "num_exp cs = Some n"
  have "g + length (takeWhile is_dec (drop g r)) \<le> length r" if "g \<le> length r" for g
    using that length_takeWhile_le [of is_dec "drop g r"] by simp
  then show ?thesis using e Cons by (fastforce simp: num_exp_def Let_def split: list.splits if_splits)
qed (simp add: num_exp_def)

lemma num_len_bounds:
  assumes "num_len cs = Some n"
  shows "0 < n \<and> n \<le> length cs"
proof -
  define g where "g = (case cs of c # _ \<Rightarrow> if c = CHR ''-'' then 1 else (0 :: nat) | [] \<Rightarrow> 0)"
  obtain m f e where p: "num_int (drop g cs) = Some m" "num_frac (drop (g + m) cs) = Some f"
    "num_exp (drop (g + m + f) cs) = Some e" "n = g + m + f + e"
    using assms by (auto simp: num_len_def g_def [symmetric] Let_def bind_eq_Some_conv)
  have "g \<le> length cs" by (auto simp: g_def split: list.splits)
  then show ?thesis using num_int_pos [OF p(1)] num_frac_le [OF p(2)] num_exp_le [OF p(3)] p(4) by (simp, linarith)
qed

lemma digits_takeWhile: "length (takeWhile is_dec x) \<noteq> 0 \<Longrightarrow> digits (take (length (takeWhile is_dec x)) x)"
  by (simp add: takeWhile_eq_take [symmetric] digits_def list_all_iff) (metis set_takeWhileD)

lemma num_int_text: "num_int x = Some m \<Longrightarrow> take m x = ''0'' \<or> digits (take m x) \<and> hd (take m x) \<noteq> CHR ''0''"
  using digits_takeWhile [of x] by (auto simp: num_int_def split: list.splits if_splits)

lemma num_frac_text: "num_frac x = Some f \<Longrightarrow> take f x = [] \<or> (\<exists>d. take f x = CHR ''.'' # d \<and> digits d)"
  using digits_takeWhile by (auto simp: num_frac_def Let_def split: list.splits if_splits)

lemma num_exp_text:
  assumes "num_exp x = Some e"
  shows "take e x = [] \<or> (\<exists>c sg d. take e x = c # sg @ d \<and> c \<in> {CHR ''e'', CHR ''E''} \<and> sg \<in> {[], ''+'', ''-''} \<and> digits d)"
proof (cases "e = 0")
  case False
  then obtain c y where x: "x = c # y" "c \<in> {CHR ''e'', CHR ''E''}" using assms by (auto simp: num_exp_def split: list.splits if_splits)
  define g where "g = (case y of z # _ \<Rightarrow> if z = CHR ''+'' \<or> z = CHR ''-'' then 1 else 0 | [] \<Rightarrow> (0 :: nat))"
  define n where "n = length (takeWhile is_dec (drop g y))"
  have e: "n \<noteq> 0" "e = 1 + g + n" using assms x by (auto simp: num_exp_def g_def n_def Let_def split: if_splits)
  have "take e x = c # take g y @ take n (drop g y)" by (simp add: x(1) e(2) take_add)
  moreover have "take g y \<in> {[], ''+'', ''-''}" by (auto simp: g_def split: list.splits)
  ultimately show ?thesis using digits_takeWhile [of "drop g y"] e(1) x(2) n_def by blast
qed simp

lemma num_len_text:
  assumes "num_len x = Some n"
  shows "json_num (take n x)"
proof -
  define g where "g = (case x of c # _ \<Rightarrow> if c = CHR ''-'' then 1 else (0 :: nat) | [] \<Rightarrow> 0)"
  obtain m f e where p: "num_int (drop g x) = Some m" "num_frac (drop (g + m) x) = Some f"
    "num_exp (drop (g + m + f) x) = Some e" "n = g + m + f + e"
    using assms by (auto simp: num_len_def g_def [symmetric] Let_def bind_eq_Some_conv)
  have "take n x = take g x @ take m (drop g x) @ take f (drop (g + m) x) @ take e (drop (g + m + f) x)"
    by (simp only: p(4) take_add append.assoc)
  moreover have "take g x \<in> {[], ''-''}" by (auto simp: g_def split: list.splits)
  ultimately show ?thesis
    unfolding json_num_def using num_int_text [OF p(1)] num_frac_text [OF p(2)] num_exp_text [OF p(3)] by blast
qed

text \<open>What a successful parse of one value appends, and the text it stands for.\<close>

definition value_post :: "string \<Rightarrow> nat \<Rightarrow> int \<Rightarrow> nat \<Rightarrow> jp \<Rightarrow> jp \<Rightarrow> jtree \<Rightarrow> bool" where
  "value_post s mx par d p p' v \<longleftrightarrow>
     jp_t p' = jp_t p @ flatten (length (jp_t p)) par v \<and> tree_ok d (jp_pos p) (jp_pos p') v \<and>
     (\<exists>i. blank s (jp_pos p) i \<and> jval s i v (jp_pos p')) \<and>
     jp_pos p < jp_pos p' \<and> jp_pos p' \<le> length s \<and> length (jp_t p') \<le> mx"

lemma json_string_post:
  assumes "json_string s mx par p = (p', Some k)" "char_at s (jp_pos p) c_quote"
  shows "k = length (jp_t p) \<and> (\<exists>v. value_post s mx par d p p' v \<and> is_key v)"
proof -
  obtain p1 q where t: "tok mx ECM_J_STR (jp_pos p + 1) par p = (p1, Some k)"
    and q: "str_scan (drop (jp_pos p + 1) s) (jp_pos p + 1) = (q, True)"
    and p': "p' = set_end k q (p1\<lparr>jp_pos := q + 1\<rparr>)"
    using assms(1) by (auto simp: json_string_def split: prod.splits option.splits bool.splits)
  have l: "jp_pos p < length s" using assms(2) by (simp add: char_at_def)
  have sc: "Suc (jp_pos p) \<le> q" "q < length s" "str_body (span_text s (Suc (jp_pos p)) q)" "s ! q = c_quote"
    using str_scan_True [OF q] l by (auto simp: span_text_def)
  have "jval s (jp_pos p) (JNode ECM_J_STR (Suc (jp_pos p)) q []) (Suc q)"
    by (intro V_str) (use sc assms(2) in \<open>simp_all add: char_at_def\<close>)
  then show ?thesis using tok_Some [OF t] sc l p'
    by (auto simp: value_post_def set_end_def intro!: exI [of _ "JNode ECM_J_STR (jp_pos p + 1) q []"] exI [of _ "jp_pos p"])
qed

lemma json_number_post:
  assumes "json_number s mx par p = (p', Some k)" "jp_pos p < length s"
  shows "k = length (jp_t p) \<and> (\<exists>v. value_post s mx par d p p' v)"
proof -
  obtain p1 n where t: "tok mx ECM_J_NUM (jp_pos p) par p = (p1, Some k)"
    and n: "num_len (drop (jp_pos p) s) = Some n"
    and p': "p' = set_end k (jp_pos p + n) (p1\<lparr>jp_pos := jp_pos p + n\<rparr>)"
    using assms(1) by (auto simp: json_number_def split: prod.splits option.splits)
  have "jval s (jp_pos p) (JNode ECM_J_NUM (jp_pos p) (jp_pos p + n) []) (jp_pos p + n)"
    by (intro V_num) (use num_len_bounds [OF n] num_len_text [OF n] assms(2) in \<open>auto simp: span_text_def\<close>)
  then show ?thesis using tok_Some [OF t] num_len_bounds [OF n] assms(2) p'
    by (auto simp: value_post_def set_end_def intro!: exI [of _ "JNode ECM_J_NUM (jp_pos p) (jp_pos p + n) []"] exI [of _ "jp_pos p"])
qed

lemma json_literal_post:
  assumes "json_literal s mx par w ty p = (p', Some k)" "jp_pos p < length s" "(w, ty) \<in> LITERALS"
  shows "k = length (jp_t p) \<and> (\<exists>v. value_post s mx par d p p' v)"
proof -
  obtain p1 where t: "tok mx ty (jp_pos p) par p = (p1, Some k)"
    and w: "take (length w) (drop (jp_pos p) s) = w"
    and p': "p' = set_end k (jp_pos p + length w) (adv (length w) p1)"
    using assms(1) by (auto simp: json_literal_def split: prod.splits option.splits if_splits)
  have "length w \<le> length s - jp_pos p" using arg_cong [OF w, of length] by simp
  moreover have "jval s (jp_pos p) (JNode ty (jp_pos p) (jp_pos p + length w) []) (jp_pos p + length w)"
    by (rule V_lit [OF assms(3)]) (simp add: span_text_def w)
  moreover have "w \<noteq> [] \<and> ty \<noteq> ECM_J_OBJ \<and> ty \<noteq> ECM_J_ARR" using assms(3) by (auto simp: LITERALS_def)
  ultimately show ?thesis using tok_Some [OF t] assms(2) p'
    by (auto simp: value_post_def set_end_def intro!: exI [of _ "JNode ty (jp_pos p) (jp_pos p + length w) []"] exI [of _ "jp_pos p"])
qed

text \<open>What the members of container \<open>k\<close> append, and what they change of its token.\<close>

definition grow :: "nat \<Rightarrow> nat \<Rightarrow> nat option \<Rightarrow> ecm_jtok list \<Rightarrow> ecm_jtok list" where
  "grow k n e t = t[k := (t ! k)\<lparr>jt_size := jt_size (t ! k) + n, jt_end := (case e of None \<Rightarrow> jt_end (t ! k) | Some x \<Rightarrow> x)\<rparr>]"

lemma grow_length [simp]: "length (grow k n e t) = length t"
  by (simp add: grow_def)

lemma grow_append: "k < length t \<Longrightarrow> grow k n e (t @ u) = grow k n e t @ u"
  by (cases e) (simp_all add: grow_def nth_append list_update_append1)

lemma grow_grow: "k < length t \<Longrightarrow> grow k m e (grow k n None t) = grow k (n + m) e t"
  by (cases e) (simp_all add: grow_def add.assoc)

lemma inc_size_grow [simp]: "jp_t (inc_size k p) = grow k 1 None (jp_t p)"
  by (simp add: inc_size_def grow_def)

lemma set_end_grow [simp]: "jp_t (set_end k e p) = grow k 0 (Some e) (jp_t p)"
  by (simp add: set_end_def grow_def)

definition members_post :: "string \<Rightarrow> nat \<Rightarrow> bool \<Rightarrow> bool \<Rightarrow> nat \<Rightarrow> nat \<Rightarrow> nat option \<Rightarrow> jp \<Rightarrow> jp \<Rightarrow> jtree list \<Rightarrow> bool" where
  "members_post s mx obj key k d e p p' cs \<longleftrightarrow>
     jp_t p' = grow k (length cs) e (jp_t p) @ flatten_list (length (jp_t p)) (int k) cs \<and>
     trees_ok d (jp_pos p) (jp_pos p' - 1) cs \<and>
     jmem s obj key (jp_pos p) cs (jp_pos p' - 1) \<and> char_at s (jp_pos p' - 1) (close_of obj) \<and>
     jp_pos p < jp_pos p' \<and> jp_pos p' \<le> length s \<and> length (jp_t p') \<le> mx"

lemma value_post_ws:
  assumes "value_post s mx par d (ws s p) p' v"
  shows "value_post s mx par d p p' v"
proof -
  have le: "jp_pos p \<le> jp_pos (ws s p)" "jp_pos p \<le> length s"
    using assms ws_simps(2) [of p s] by (auto simp: value_post_def simp del: ws_simps(2))
  obtain i where i: "blank s (jp_pos (ws s p)) i" "jval s i v (jp_pos p')" using assms by (auto simp: value_post_def)
  have "blank s (jp_pos p) i" by (rule blank_trans [OF ws_blank [OF le(2)] i(1)])
  then show ?thesis using assms le(1) i(2) by (auto simp: value_post_def simp del: ws_simps(2) elim: tree_ok_mono)
qed

lemma json_key_post:
  assumes "json_key s mx k p = (p', True)" "k < length (jp_t p)"
  shows "\<exists>x y. jp_t p' = grow k 1 None (jp_t p) @ flatten (length (jp_t p)) (int k) (JNode ECM_J_STR x y []) \<and>
    tree_ok d (jp_pos p) (jp_pos p') (JNode ECM_J_STR x y []) \<and> jp_pos p < jp_pos p' \<and> jp_pos p' \<le> length s \<and>
    (\<exists>i b m. blank s (jp_pos p) i \<and> jval s i (JNode ECM_J_STR x y []) b \<and> blank s b m \<and> char_at s m (CHR '':'') \<and>
       blank s (Suc m) (jp_pos p'))"
proof -
  obtain p1 j where st: "json_string s mx (int k) p = (p1, Some j)" and c: "cur s p = Some c_quote"
    and c2: "cur s (ws s (inc_size k p1)) = Some (CHR '':'')" and p': "p' = ws s (adv 1 (ws s (inc_size k p1)))"
    using assms(1) by (auto simp: json_key_def Let_def split: prod.splits option.splits if_splits)
  obtain x y where v: "value_post s mx (int k) d p p1 (JNode ECM_J_STR x y [])"
    using json_string_post [OF st cur_at [OF c]] by (metis is_key.elims(2))
  have le: "jp_pos p1 \<le> jp_pos p'" "jp_pos p' \<le> length s" "jp_pos p1 \<le> length s"
    using p' ws_simps(2) [of "adv 1 (ws s (inc_size k p1))" s] ws_simps(2) [of "inc_size k p1" s] cur_Some [OF c2]
    by simp_all
  have b: "blank s (jp_pos p1) (jp_pos (ws s (inc_size k p1)))" "blank s (Suc (jp_pos (ws s (inc_size k p1)))) (jp_pos p')"
    using ws_blank [of "inc_size k p1" s] ws_blank [of "adv 1 (ws s (inc_size k p1))" s] le(3) cur_Some [OF c2] p' by simp_all
  have "jp_t p' = grow k 1 None (jp_t p) @ flatten (length (jp_t p)) (int k) (JNode ECM_J_STR x y [])"
    using v(1) assms(2) p' by (simp add: value_post_def grow_append)
  moreover have "tree_ok d (jp_pos p) (jp_pos p') (JNode ECM_J_STR x y [])" "jp_pos p < jp_pos p'"
    using v le(1) by (auto simp: value_post_def intro: tree_ok_mono)
  moreover obtain i where "blank s (jp_pos p) i" "jval s i (JNode ECM_J_STR x y []) (jp_pos p1)"
    using v by (auto simp: value_post_def)
  ultimately show ?thesis using b cur_at [OF c2] le(2) by blast
qed

lemma members_post_Cons:
  assumes v: "value_post s mx (int k) d p p1 v" and k: "k < length (jp_t p)"
    and q: "jp_t q = grow k 1 None (jp_t p1)" "jp_pos p1 < jp_pos q"
    and b: "blank s (jp_pos p1) m" "char_at s m (CHR '','')" "jp_pos q = Suc m"
    and m: "members_post s mx obj obj k d e q p' cs"
  shows "members_post s mx obj False k d e p p' (v # cs)"
proof -
  have "jp_t p' = grow k (length (v # cs)) e (jp_t p) @ flatten_list (length (jp_t p)) (int k) (v # cs)"
    using v m q k by (simp add: value_post_def members_post_def grow_append grow_grow)
  moreover have "trees_ok d (jp_pos p) (jp_pos p' - 1) (v # cs)"
    using v m q(2) by (intro trees_ok_Cons [where m = "jp_pos p1" and m' = "jp_pos q"])
      (auto simp: value_post_def members_post_def)
  moreover have "jmem s obj False (jp_pos p) (v # cs) (jp_pos p' - 1)"
    using v m b by (auto simp: value_post_def members_post_def intro: M_more)
  ultimately show ?thesis using v m q by (auto simp: value_post_def members_post_def)
qed

lemma members_post_key:
  assumes v: "jp_t q = grow k 1 None (jp_t p) @ flatten (length (jp_t p)) (int k) v" "tree_ok d (jp_pos p) (jp_pos q) v"
    "jp_pos p < jp_pos q" and k: "k < length (jp_t p)"
    and b: "v = JNode ECM_J_STR x y []" "blank s (jp_pos p) i" "jval s i v b" "blank s b n" "char_at s n (CHR '':'')"
      "blank s (Suc n) (jp_pos q)"
    and m: "members_post s mx True False k d e q p' cs"
  shows "members_post s mx True True k d e p p' (v # cs)"
proof -
  have "jp_t p' = grow k (length (v # cs)) e (jp_t p) @ flatten_list (length (jp_t p)) (int k) (v # cs)"
    using v m k by (simp add: members_post_def grow_append grow_grow)
  moreover have "trees_ok d (jp_pos p) (jp_pos p' - 1) (v # cs)"
    using v m by (intro trees_ok_Cons [where m = "jp_pos q" and m' = "jp_pos q"]) (auto simp: members_post_def)
  moreover have "jmem s True False (Suc n) cs (jp_pos p' - 1)"
    using m jmem_blank [OF b(6)] by (simp add: members_post_def)
  then have "jmem s True True (jp_pos p) (v # cs) (jp_pos p' - 1)"
    using b(2-5) unfolding b(1) by (intro M_key)
  ultimately show ?thesis using v m by (auto simp: members_post_def)
qed

lemma members_post_ws:
  assumes "members_post s mx obj key k d e (ws s p) p' cs"
  shows "members_post s mx obj key k d e p p' cs"
proof -
  have le: "jp_pos p \<le> jp_pos (ws s p)" "jp_pos p \<le> length s"
    using assms ws_simps(2) [of p s] by (auto simp: members_post_def simp del: ws_simps(2))
  then show ?thesis using assms jmem_blank [OF ws_blank [OF le(2)]]
    by (auto simp: members_post_def simp del: ws_simps(2) elim: trees_ok_mono)
qed

text \<open>The last member: the closing bracket follows its value.\<close>

lemma members_post_last:
  assumes v: "value_post s mx (int k) d p p1 v" and k: "k < length (jp_t p)"
    and q: "q = ws s (inc_size k p1)" "cur s q = Some (close_of obj)"
  shows "members_post s mx obj False k d (Some (jp_pos q + 1)) p (set_end k (jp_pos q + 1) (adv 1 q)) [v]"
proof -
  have le: "jp_pos p1 \<le> jp_pos q" "jp_pos p1 \<le> length s"
    using ws_simps(2) [of "inc_size k p1" s] q(1) v by (simp_all add: value_post_def)
  have "blank s (jp_pos p1) (jp_pos q)" using ws_blank [of "inc_size k p1" s] le(2) q(1) by simp
  then have "jmem s obj False (jp_pos p) [v] (jp_pos q)" using v by (auto simp: value_post_def intro: M_one)
  then show ?thesis using v k q(1) le(1) cur_at [OF q(2)] cur_Some [OF q(2)]
    by (auto simp: value_post_def members_post_def grow_append grow_grow
      intro!: trees_ok_Cons [where m = "jp_pos p1" and m' = "jp_pos q"])
qed

lemma json_open_post:
  assumes "json_open s mx par d obj p = (p', r)" "char_at s (jp_pos p) (open_of obj)"
  shows "case r of
      Inl None \<Rightarrow> True
    | Inl (Some k) \<Rightarrow> k = length (jp_t p) \<and> (\<exists>v. value_post s mx par d p p' v)
    | Inr k \<Rightarrow> k = length (jp_t p) \<and> k < mx \<and> d < ECM_JSON_MAX_DEPTH \<and> jp_pos p < jp_pos p' \<and> jp_pos p' \<le> length s \<and>
        blank s (Suc (jp_pos p)) (jp_pos p') \<and> jp_t p' = jp_t p @ flatten k par (JNode (if obj then ECM_J_OBJ else ECM_J_ARR) (jp_pos p) (jp_pos p) [])"
proof (cases "d < ECM_JSON_MAX_DEPTH \<and> snd (tok mx (if obj then ECM_J_OBJ else ECM_J_ARR) (jp_pos p) par p) \<noteq> None")
  case True
  then obtain p1 k where t: "tok mx (if obj then ECM_J_OBJ else ECM_J_ARR) (jp_pos p) par p = (p1, Some k)"
    by (metis not_None_eq prod.collapse)
  define p2 where "p2 = ws s (adv 1 p1)"
  note T = tok_Some [OF t]
  have l: "jp_pos p < length s" using assms(2) by (simp add: char_at_def)
  have p2: "jp_pos p < jp_pos p2" "jp_pos p2 \<le> length s" "jp_t p2 = jp_t p1" "blank s (Suc (jp_pos p)) (jp_pos p2)"
    using ws_simps(2) [of "adv 1 p1" s] ws_blank [of "adv 1 p1" s] T l by (simp_all add: p2_def)
  have e: "json_open s mx par d obj p = (if cur s p2 = Some (close_of obj)
      then (set_end k (jp_pos p2 + 1) (adv 1 p2), Inl (Some k)) else (p2, Inr k))"
    using True t by (simp add: json_open_def p2_def Let_def)
  show ?thesis
  proof (cases "cur s p2 = Some (close_of obj)")
    case c: True
    have "jval s (jp_pos p) (JNode (cont_type obj) (jp_pos p) (Suc (jp_pos p2)) []) (Suc (jp_pos p2))"
      by (rule V_empty [OF assms(2) p2(4) cur_at [OF c]])
    then show ?thesis using e c assms(1) T p2 l cur_Some [OF c] True
      by (cases obj) (auto simp: value_post_def grow_def
        intro!: exI [of _ "JNode (cont_type obj) (jp_pos p) (jp_pos p2 + 1) []"] exI [of _ "jp_pos p"])
  next
    case False
    then show ?thesis using e assms(1) T p2 True by auto
  qed
next
  case False
  then show ?thesis using assms(1) by (auto simp: json_open_def split: if_splits prod.splits option.splits)
qed

text \<open>A container with its members: the node is complete when they are.\<close>

lemma container_post:
  assumes q: "jp_t q = jp_t p @ flatten (length (jp_t p)) par (JNode (cont_type obj) (jp_pos p) (jp_pos p) [])"
      "jp_pos p < jp_pos q" "d < ECM_JSON_MAX_DEPTH" "char_at s (jp_pos p) (open_of obj)" "blank s (Suc (jp_pos p)) (jp_pos q)"
    and m: "members_post s mx obj obj (length (jp_t p)) (Suc d) (Some (jp_pos p')) q p' cs" "obj \<longrightarrow> keyed cs"
  shows "value_post s mx par d p p' (JNode (cont_type obj) (jp_pos p) (jp_pos p') cs)"
proof -
  have t: "trees_ok (Suc d) (Suc (jp_pos p)) (jp_pos p' - 1) cs"
    using m q by (auto simp: members_post_def intro: trees_ok_mono)
  have "jmem s obj obj (Suc (jp_pos p)) cs (jp_pos p' - 1)" "char_at s (jp_pos p' - 1) (close_of obj)" "0 < jp_pos p'"
    using m(1) jmem_blank [OF q(5)] by (auto simp: members_post_def)
  then have "jval s (jp_pos p) (JNode (cont_type obj) (jp_pos p) (jp_pos p') cs) (jp_pos p')"
    using V_cont [OF q(4), of cs "jp_pos p' - 1"] by simp
  moreover have "blank s (jp_pos p) (jp_pos p)" using q(4) by (simp add: char_at_def)
  ultimately have "\<exists>i. blank s (jp_pos p) i \<and> jval s i (JNode (cont_type obj) (jp_pos p) (jp_pos p') cs) (jp_pos p')" by blast
  then show ?thesis using assms t by (cases obj) (auto simp: value_post_def members_post_def grow_def)
qed

lemma members_step_post:
  assumes v: "json_value f s mx (int k) (Suc d) p = Some (p1, Some j)" "\<exists>v. value_post s mx (int k) (Suc d) p p1 v"
    and k: "k < length (jp_t p)"
    and r: "(case cur s (ws s (inc_size k p1)) of
              None \<Rightarrow> Some (ws s (inc_size k p1), False)
            | Some c \<Rightarrow>
                if c = CHR '','' then json_members f s mx k d obj (adv 1 (ws s (inc_size k p1)))
                else if c = close_of obj then Some (set_end k (jp_pos (ws s (inc_size k p1)) + 1) (adv 1 (ws s (inc_size k p1))), True)
                else Some (ws s (inc_size k p1), False)) = Some (p', True)"
    and IH: "json_members f s mx k d obj (adv 1 (ws s (inc_size k p1))) = Some (p', True) \<longrightarrow>
       jp_pos (adv 1 (ws s (inc_size k p1))) \<le> length s \<longrightarrow>
       (\<exists>cs. members_post s mx obj obj k (Suc d) (Some (jp_pos p')) (adv 1 (ws s (inc_size k p1))) p' cs \<and> (obj \<longrightarrow> keyed cs))"
  shows "\<exists>v cs. members_post s mx obj False k (Suc d) (Some (jp_pos p')) p p' (v # cs) \<and> (obj \<longrightarrow> keyed cs)"
proof -
  define q where "q = ws s (inc_size k p1)"
  obtain v where v: "value_post s mx (int k) (Suc d) p p1 v" using assms(2) by blast
  obtain c where c: "cur s q = Some c" using r by (auto simp: q_def split: option.splits)
  have le: "jp_pos p1 \<le> jp_pos q" using ws_simps(2) [of "inc_size k p1" s] by (simp add: q_def)
  have bl: "blank s (jp_pos p1) (jp_pos q)" using ws_blank [of "inc_size k p1" s] v by (simp add: q_def value_post_def)
  show ?thesis
  proof (cases "c = CHR '',''")
    case True
    then obtain cs where "members_post s mx obj obj k (Suc d) (Some (jp_pos p')) (adv 1 q) p' cs" "obj \<longrightarrow> keyed cs"
      using r IH c cur_Some [OF c] by (auto simp: q_def [symmetric])
    moreover have "members_post s mx obj False k (Suc d) (Some (jp_pos p')) p p' (v # cs)"
      by (rule members_post_Cons [OF v k, of "adv 1 q" "jp_pos q"])
        (use le bl cur_at [OF c] True calculation in \<open>simp_all add: q_def\<close>)
    ultimately show ?thesis by blast
  next
    case False
    then have "p' = set_end k (jp_pos q + 1) (adv 1 q)" "c = close_of obj" using r c by (auto simp: q_def [symmetric] split: if_splits)
    then show ?thesis using members_post_last [OF v k q_def, of obj] c by (auto intro!: exI [of _ v] exI [of _ "[]"])
  qed
qed

lemma json_value_step:
  assumes IH: "\<And>k obj p p'. json_members f s mx k d obj p = Some (p', True) \<Longrightarrow> jp_pos p \<le> length s \<Longrightarrow>
      k < length (jp_t p) \<Longrightarrow> \<exists>cs. members_post s mx obj obj k (Suc d) (Some (jp_pos p')) p p' cs \<and> (obj \<longrightarrow> keyed cs)"
    and "json_value (Suc f) s mx par d p = Some (p', Some k)" "jp_pos p \<le> length s"
  shows "k = length (jp_t p) \<and> (\<exists>v. value_post s mx par d p p' v)"
proof -
  define q where "q = ws s p"
  obtain c where c: "cur s q = Some c" using assms(2-) by (auto simp: q_def Let_def split: option.splits)
  note q = cur_Some [OF c] and qc = cur_at [OF c]
  have "k = length (jp_t q) \<and> (\<exists>v. value_post s mx par d q p' v)"
  proof (cases "c = CHR ''{'' \<or> c = CHR ''[''")
    case True
    obtain p1 r where o: "json_open s mx par d (c = CHR ''{'') q = (p1, r)" by fastforce
    have op: "char_at s (jp_pos q) (open_of (c = CHR ''{''))" using qc True by (auto simp: open_of_def)
    note O = json_open_post [OF o op]
    show ?thesis
    proof (cases r)
      case (Inl a)
      then show ?thesis using assms(2-) c True o O by (auto simp: q_def [symmetric] Let_def split: option.splits)
    next
      case (Inr j)
      then have j: "json_members f s mx j d (c = CHR ''{'') p1 = Some (p', True)" "k = j"
        using assms(2-) c True o by (auto simp: q_def [symmetric] Let_def split: option.splits if_splits)
      have O': "j = length (jp_t q)" "d < ECM_JSON_MAX_DEPTH" "jp_pos q < jp_pos p1" "jp_pos p1 \<le> length s" "blank s (Suc (jp_pos q)) (jp_pos p1)"
        "jp_t p1 = jp_t q @ flatten (length (jp_t q)) par
           (JNode (if c = CHR ''{'' then ECM_J_OBJ else ECM_J_ARR) (jp_pos q) (jp_pos q) [])"
        using O Inr by simp_all
      obtain cs where cs: "members_post s mx (c = CHR ''{'') (c = CHR ''{'') j (Suc d) (Some (jp_pos p')) p1 p' cs" "c = CHR ''{'' \<longrightarrow> keyed cs"
        using IH [OF j(1) O'(4)] O' by auto
      have "value_post s mx par d q p' (JNode (if c = CHR ''{'' then ECM_J_OBJ else ECM_J_ARR) (jp_pos q) (jp_pos p') cs)"
        by (rule container_post [OF O'(6,3,2) op O'(5)]) (use cs O'(1) in auto)
      then show ?thesis using j(2) O'(1) by blast
    qed
  next
    case False
    have S: "k = length (jp_t q) \<and> (\<exists>v. value_post s mx par d q p' v)" if "json_string s mx par q = (p', Some k)" "c = c_quote"
      using json_string_post [OF that(1)] qc that(2) by blast
    show ?thesis using False assms(2-) c S json_number_post [OF _ q] json_literal_post [OF _ q]
      by (auto simp: q_def [symmetric] Let_def LITERALS_def split: if_splits)
  qed
  then show ?thesis using value_post_ws unfolding q_def ws_simps(1) by blast
qed

lemma json_members_step:
  assumes V: "\<And>par p p' k. json_value f s mx par (Suc d) p = Some (p', Some k) \<Longrightarrow> jp_pos p \<le> length s \<Longrightarrow>
      k = length (jp_t p) \<and> (\<exists>v. value_post s mx par (Suc d) p p' v)"
    and W: "\<And>p p'. json_members f s mx k' d obj p = Some (p', True) \<Longrightarrow> jp_pos p \<le> length s \<Longrightarrow>
      k' < length (jp_t p) \<Longrightarrow> \<exists>cs. members_post s mx obj obj k' (Suc d) (Some (jp_pos p')) p p' cs \<and> (obj \<longrightarrow> keyed cs)"
    and 2: "json_members (Suc f) s mx k' d obj p = Some (p', True)" and "jp_pos p \<le> length s" "k' < length (jp_t p)"
  shows "\<exists>cs. members_post s mx obj obj k' (Suc d) (Some (jp_pos p')) p p' cs \<and> (obj \<longrightarrow> keyed cs)"
proof -
  define q where "q = ws s p"
  obtain q1 where q1: "(if obj then json_key s mx k' q else (q, True)) = (q1, True)"
    using 2 by (auto simp: q_def [symmetric] Let_def split: prod.splits if_splits)
  obtain p1 j where v: "json_value f s mx (int k') (Suc d) q1 = Some (p1, Some j)"
    using 2 unfolding json_members.simps q_def [symmetric] q1 by (auto split: option.splits)
  have pos: "jp_pos q \<le> length s" "k' < length (jp_t q)" using assms(4,5) by (simp_all add: q_def)
  have key: "if obj then \<exists>x y. jp_t q1 = grow k' 1 None (jp_t q) @ flatten (length (jp_t q)) (int k') (JNode ECM_J_STR x y []) \<and>
      tree_ok (Suc d) (jp_pos q) (jp_pos q1) (JNode ECM_J_STR x y []) \<and> jp_pos q < jp_pos q1 \<and> jp_pos q1 \<le> length s \<and>
      (\<exists>i b m. blank s (jp_pos q) i \<and> jval s i (JNode ECM_J_STR x y []) b \<and> blank s b m \<and> char_at s m (CHR '':'') \<and>
         blank s (Suc m) (jp_pos q1)) else q1 = q"
    using q1 json_key_post [OF _ pos(2)] by (simp split: if_splits)
  then have q1': "jp_pos q1 \<le> length s" "k' < length (jp_t q1)" using pos by (auto split: if_splits)
  define q2 where "q2 = ws s (inc_size k' p1)"
  have r: "(case cur s q2 of
            None \<Rightarrow> Some (q2, False)
          | Some c \<Rightarrow>
              if c = CHR '','' then json_members f s mx k' d obj (adv 1 q2)
              else if c = close_of obj then Some (set_end k' (jp_pos q2 + 1) (adv 1 q2), True)
              else Some (q2, False)) = Some (p', True)"
    using 2 v q1 unfolding json_members.simps q_def [symmetric] q1 Let_def q2_def by simp
  have ex: "\<exists>v. value_post s mx (int k') (Suc d) q1 p1 v" using V [OF v q1'(1)] by blast
  then have "k' < length (jp_t (adv 1 q2))" using q1'(2) by (auto simp: value_post_def q2_def)
  then have IH: "json_members f s mx k' d obj (adv 1 q2) = Some (p', True) \<longrightarrow> jp_pos (adv 1 q2) \<le> length s \<longrightarrow>
      (\<exists>cs. members_post s mx obj obj k' (Suc d) (Some (jp_pos p')) (adv 1 q2) p' cs \<and> (obj \<longrightarrow> keyed cs))"
    using W by blast
  obtain w cs where w: "members_post s mx obj False k' (Suc d) (Some (jp_pos p')) q1 p' (w # cs)" "obj \<longrightarrow> keyed cs"
    using members_step_post [OF v ex q1'(2) r [unfolded q2_def] IH [unfolded q2_def]] by blast
  have "\<exists>cs. members_post s mx obj obj k' (Suc d) (Some (jp_pos p')) q p' cs \<and> (obj \<longrightarrow> keyed cs)"
  proof (cases obj)
    case True
    then obtain x y i b m where u: "jp_t q1 = grow k' 1 None (jp_t q) @ flatten (length (jp_t q)) (int k') (JNode ECM_J_STR x y [])"
      "tree_ok (Suc d) (jp_pos q) (jp_pos q1) (JNode ECM_J_STR x y [])" "jp_pos q < jp_pos q1"
      "blank s (jp_pos q) i" "jval s i (JNode ECM_J_STR x y []) b" "blank s b m" "char_at s m (CHR '':'')" "blank s (Suc m) (jp_pos q1)"
      using key by (auto simp del: flatten.simps tree_ok.simps)
    have "members_post s mx True True k' (Suc d) (Some (jp_pos p')) q p' (JNode ECM_J_STR x y [] # w # cs)"
      by (rule members_post_key [OF u(1-3) pos(2) refl u(4-8)]) (use w(1) True in simp)
    then show ?thesis using w(2) True by (intro exI [of _ "JNode ECM_J_STR x y [] # w # cs"]) simp
  next
    case False
    then show ?thesis using w(1) key by auto
  qed
  then show ?thesis using members_post_ws unfolding q_def by blast
qed

lemma json_post:
  "json_value f s mx par d p = Some (p', Some k) \<Longrightarrow> jp_pos p \<le> length s \<Longrightarrow>
     k = length (jp_t p) \<and> (\<exists>v. value_post s mx par d p p' v)"
  "json_members f s mx k' d obj p = Some (p', True) \<Longrightarrow> jp_pos p \<le> length s \<Longrightarrow> k' < length (jp_t p) \<Longrightarrow>
     \<exists>cs. members_post s mx obj obj k' (Suc d) (Some (jp_pos p')) p p' cs \<and> (obj \<longrightarrow> keyed cs)"
proof (induction f arbitrary: par d p p' k k' obj)
  case (Suc f)
  {
    case 1
    show ?case by (rule json_value_step [OF Suc.IH(2) 1])
  next
    case 2
    show ?case by (rule json_members_step [OF Suc.IH 2])
  }
qed simp_all

section \<open>The fuel is enough\<close>

lemma json_key_pos:
  assumes "json_key s mx k p = (p', True)" "jp_pos p \<le> length s"
  shows "jp_pos p < jp_pos p' \<and> jp_pos p' \<le> length s"
proof -
  obtain p1 j where st: "json_string s mx (int k) p = (p1, Some j)" and c: "cur s p = Some c_quote"
    and c2: "cur s (ws s (inc_size k p1)) = Some (CHR '':'')" and p': "p' = ws s (adv 1 (ws s (inc_size k p1)))"
    using assms(1) by (auto simp: json_key_def Let_def split: prod.splits option.splits if_splits)
  have "jp_pos p < jp_pos p1" using json_string_post [OF st cur_at [OF c], of 0] by (auto simp: value_post_def)
  then show ?thesis
    using p' ws_simps(2) [of "adv 1 (ws s (inc_size k p1))" s] ws_simps(2) [of "inc_size k p1" s] cur_Some [OF c2] by simp
qed

lemma json_value_pos:
  "json_value f s mx par d p = Some (p', Some k) \<Longrightarrow> jp_pos p \<le> length s \<Longrightarrow> jp_pos p < jp_pos p' \<and> jp_pos p' \<le> length s"
  using json_post(1) by (fastforce simp: value_post_def)

lemma json_members_fuel_step:
  assumes V: "\<And>par d p. 2 * (length s - jp_pos p) + 1 \<le> f \<Longrightarrow> jp_pos p \<le> length s \<Longrightarrow> json_value f s mx par d p \<noteq> None"
    and W: "\<And>p. 2 * (length s - jp_pos p) + 2 \<le> f \<Longrightarrow> jp_pos p \<le> length s \<Longrightarrow> json_members f s mx k d obj p \<noteq> None"
    and f: "2 * (length s - jp_pos p) + 2 \<le> Suc f" and le: "jp_pos p \<le> length s"
  shows "json_members (Suc f) s mx k d obj p \<noteq> None"
proof -
  define q where "q = ws s p"
  have q: "jp_pos p \<le> jp_pos q" "jp_pos q \<le> length s" using le by (simp_all add: q_def)
  obtain q1 b where q1: "(if obj then json_key s mx k q else (q, True)) = (q1, b)" by fastforce
  show ?thesis
  proof (cases b)
    case True
    have p1: "jp_pos q \<le> jp_pos q1" "jp_pos q1 \<le> length s"
      using q1 True json_key_pos [of s mx k q q1] q by (auto split: if_splits)
    obtain p1 r where v: "json_value f s mx (int k) (d + 1) q1 = Some (p1, r)"
      using V [of q1 "int k" "d + 1"] p1 q f by fastforce
    show ?thesis
    proof (cases r)
      case None
      then show ?thesis using True v unfolding json_members.simps q_def [symmetric] q1 by simp
    next
      case (Some j)
      define q2 where "q2 = ws s (inc_size k p1)"
      have le2: "jp_pos p1 \<le> jp_pos q2" using ws_simps(2) [of "inc_size k p1" s] by (simp add: q2_def)
      have "json_members f s mx k d obj (adv 1 q2) \<noteq> None" if "cur s q2 = Some c" for c
        using W [of "adv 1 q2"] cur_Some [OF that] le2 json_value_pos [OF v [unfolded Some] p1(2)] p1 q f by auto
      then show ?thesis using True v Some unfolding json_members.simps q_def [symmetric] q1 Let_def
        by (auto simp: q2_def [symmetric] split: option.splits)
    qed
  next
    case False
    then show ?thesis unfolding json_members.simps q_def [symmetric] q1 by simp
  qed
qed

lemma json_value_fuel_step:
  assumes W: "\<And>k d obj p. 2 * (length s - jp_pos p) + 2 \<le> f \<Longrightarrow> jp_pos p \<le> length s \<Longrightarrow> json_members f s mx k d obj p \<noteq> None"
    and f: "2 * (length s - jp_pos p) + 1 \<le> Suc f" and le: "jp_pos p \<le> length s"
  shows "json_value (Suc f) s mx par d p \<noteq> None"
proof -
  define q where "q = ws s p"
  have q: "jp_pos p \<le> jp_pos q" by (simp add: q_def)
  have M: "json_members f s mx k d obj p1 \<noteq> None"
    if "json_open s mx par d obj q = (p1, Inr k)" "char_at s (jp_pos q) (open_of obj)" for obj p1 k
    using W [of p1] json_open_post [OF that] q f by auto
  show ?thesis
  proof (cases "cur s q")
    case (Some c)
    obtain p1 r where o: "json_open s mx par d (c = CHR ''{'') q = (p1, r)" by fastforce
    show ?thesis
    proof (cases "c = CHR ''{'' \<or> c = CHR ''[''")
      case True
      then have "char_at s (jp_pos q) (open_of (c = CHR ''{''))" using cur_at [OF Some] by (auto simp: open_of_def)
      then have "json_members f s mx k d (c = CHR ''{'') p1 \<noteq> None" if "r = Inr k" for k using M o that by blast
      then show ?thesis using o Some True by (cases r) (auto simp: q_def [symmetric] split: option.splits)
    qed (use Some in \<open>simp add: q_def [symmetric]\<close>)
  qed (simp add: q_def [symmetric])
qed

lemma json_fuel:
  "2 * (length s - jp_pos p) + 1 \<le> f \<Longrightarrow> jp_pos p \<le> length s \<Longrightarrow> json_value f s mx par d p \<noteq> None"
  "2 * (length s - jp_pos p) + 2 \<le> f \<Longrightarrow> jp_pos p \<le> length s \<Longrightarrow> json_members f s mx k d obj p \<noteq> None"
proof (induction f arbitrary: par d p k obj)
  case (Suc f)
  {
    case 1
    show ?case by (rule json_value_fuel_step [OF Suc.IH(2) 1])
  next
    case 2
    show ?case by (rule json_members_fuel_step [OF Suc.IH 2])
  }
qed simp_all

section \<open>Subtrees\<close>

lemma flatten_hd: "\<exists>x xs. flatten k par c = x # xs \<and> jt_parent x = par"
  by (cases c) simp

lemma flatten_parents:
  "j < nnodes v \<Longrightarrow> par < int k \<Longrightarrow> jt_parent (flatten k par v ! j) < int (k + j) \<and> (0 < j \<longrightarrow> int k \<le> jt_parent (flatten k par v ! j))"
  "j < nnodes_list cs \<Longrightarrow> par < int k \<Longrightarrow> jt_parent (flatten_list k par cs ! j) < int (k + j) \<and>
     (jt_parent (flatten_list k par cs ! j) = par \<or> int k \<le> jt_parent (flatten_list k par cs ! j))"
proof (induction k par v and k par cs arbitrary: j and j rule: flatten_flatten_list.induct)
  case (1 k par ty a b cs)
  then show ?case by (cases j) fastforce+
next
  case (3 k par c cs)
  show ?case
  proof (cases "j < nnodes c")
    case True
    then show ?thesis using 3(1) [OF True 3(4)] 3(4) flatten_hd [of k par c] by (cases j) (auto simp: nth_append)
  next
    case False
    then show ?thesis using 3(2) [of "j - nnodes c"] 3(3,4) by (auto simp: nth_append)
  qed
qed simp

lemma nnodes_pos: "0 < nnodes v"
  by (cases v) simp

definition parents_below :: "ecm_jtok list \<Rightarrow> bool" where
  "parents_below t \<longleftrightarrow> (\<forall>j < length t. jt_parent (t ! j) < int j)"

lemma parents_below_flatten: "parents_below (flatten 0 (- 1) v)"
  using flatten_parents(1) [of _ v "- 1" 0] by (simp add: parents_below_def)

lemma climb_out:
  assumes "parents_below t" "a < int i" "i \<le> length t" "0 < f" "a + 2 \<le> int f"
  shows "\<exists>b < 0. climb f t (int i) a = Some b"
  using assms
proof (induction f arbitrary: a)
  case (Suc f)
  show ?case
  proof (cases "a \<ge> 0")
    case True
    then have "jt_parent (t ! nat a) < a" 
      using Suc.prems spec [of "\<lambda>j. j < length t \<longrightarrow> jt_parent (t ! j) < int j" "nat a"] by (simp add: parents_below_def)
    then show ?thesis using Suc.IH [of "jt_parent (t ! nat a)"] Suc.prems True by auto
  qed (use Suc in auto)
qed simp

lemma climb_in:
  assumes "\<And>j. i < j \<Longrightarrow> j < i + m \<Longrightarrow> int i \<le> jt_parent (t ! j) \<and> jt_parent (t ! j) < int j"
    and "int i \<le> a" "a < int (i + m)" "a < int f"
  shows "climb f t (int i) a = Some (int i)"
  using assms(2-)
proof (induction f arbitrary: a)
  case (Suc f)
  show ?case
  proof (cases "a = int i")
    case False
    then have "int i \<le> jt_parent (t ! nat a) \<and> jt_parent (t ! nat a) < a"
      using assms(1) [of "nat a"] Suc.prems by simp
    then show ?thesis using Suc.IH [of "jt_parent (t ! nat a)"] Suc.prems False by simp
  qed simp
qed simp

lemma skip_from_subtree:
  assumes "parents_below t" "i + m \<le> length t" "i + m < length t \<longrightarrow> jt_parent (t ! (i + m)) < int i"
    and inside: "\<And>j. i < j \<Longrightarrow> j < i + m \<Longrightarrow> int i \<le> jt_parent (t ! j) \<and> jt_parent (t ! j) < int j"
    and "i < j" "j \<le> i + m" "f = length t - j"
  shows "skip_from f t i j = Some (i + m)"
  using assms(5-)
proof (induction f arbitrary: j)
  case 0
  then show ?case using assms(2) by simp
next
  case (Suc f)
  show ?case
  proof (cases "j = i + m")
    case True
    then have "jt_parent (t ! j) < int i" using assms(3) Suc.prems by simp
    then obtain b where "b < 0" "climb (length t + 1) t (int i) (jt_parent (t ! j)) = Some b"
      using climb_out [OF assms(1), of "jt_parent (t ! j)" i "length t + 1"] assms(2) by (auto simp del: climb.simps)
    then show ?thesis using True by (simp del: climb.simps)
  next
    case False
    then have "climb (length t + 1) t (int i) (jt_parent (t ! j)) = Some (int i)"
      using inside [of j] Suc.prems assms(2) by (intro climb_in [OF inside]) auto
    moreover have "skip_from f t i (j + 1) = Some (i + m)" 
      by (rule Suc.IH) (use Suc.prems False in auto)
    ultimately show ?thesis by (simp del: climb.simps)
  qed
qed

text \<open>A subtree at index \<open>i\<close>: what comes after it hangs higher up.\<close>

definition at_subtree :: "ecm_jtok list \<Rightarrow> nat \<Rightarrow> jtree \<Rightarrow> bool" where
  "at_subtree t i c \<longleftrightarrow>
     (\<exists>pre post par. t = pre @ flatten i par c @ post \<and> length pre = i \<and> par < int i \<and>
        (post \<noteq> [] \<longrightarrow> jt_parent (hd post) < int i))"

lemma skip_subtree:
  assumes "parents_below t" "at_subtree t i c"
  shows "ecm_json_skip t i = Some (i + nnodes c)"
proof -
  obtain pre post par where t: "t = pre @ flatten i par c @ post" "length pre = i" "par < int i"
    and post: "post \<noteq> [] \<longrightarrow> jt_parent (hd post) < int i"
    using assms(2) by (auto simp: at_subtree_def)
  have inside: "int i \<le> jt_parent (t ! j) \<and> jt_parent (t ! j) < int j" if "i < j" "j < i + nnodes c" for j
    using flatten_parents(1) [of "j - i" c par i] t that by (auto simp: nth_append)
  show ?thesis unfolding ecm_json_skip_def
    by (intro skip_from_subtree [OF assms(1) _ _ inside]) (use t post nnodes_pos [of c] in \<open>auto simp: nth_append hd_conv_nth\<close>)
qed

text \<open>The member of an object: the value after the first key whose text is the one asked for.\<close>

fun member_index :: "string \<Rightarrow> string \<Rightarrow> nat \<Rightarrow> jtree list \<Rightarrow> nat option" where
  "member_index s key i (JNode ty a b xs # v # cs) =
     (if take (b - a) (drop a s) = key then Some (i + 1) else member_index s key (i + 1 + nnodes v) cs)"
| "member_index s key i _ = None"

lemma get_loop_member:
  assumes "parents_below t" "t = pre @ flatten_list i par cs @ post" "length pre = i" "par < int i" "keyed cs"
  shows "get_loop (length cs div 2) s t i key = member_index s key i cs"
  using assms(2-)
proof (induction s key i cs arbitrary: pre rule: member_index.induct)
  case (1 s key i ty a b xs v cs)
  then have k: "ty = ECM_J_STR" "xs = []" "keyed cs" by auto
  note t = 1(2)
  have ti: "t ! i = \<lparr>jt_type = ECM_J_STR, jt_start = a, jt_end = b, jt_size = 0, jt_parent = par\<rparr>"
    using t k 1(3) by (simp add: nth_append)
  have len: "i + 1 < length t" using t k 1(3) nnodes_pos [of v] by simp
  show ?case
  proof (cases "take (b - a) (drop a s) = key")
    case True
    then show ?thesis using ti len by (simp add: tok_text_def)
  next
    case False
    have e: "t = (pre @ [t ! i]) @ flatten (Suc i) par v @ flatten_list (Suc i + nnodes v) par cs @ post"
      using t k ti by simp
    show ?thesis
    proof (cases "cs = []")
      case True
      then show ?thesis using False ti len by (simp add: tok_text_def split: option.splits)
    next
      case cs: False
      then obtain c cs' where c: "cs = c # cs'" by (cases cs) auto
      obtain x r where x: "flatten (Suc i + nnodes v) par c = x # r" "jt_parent x = par" using flatten_hd by blast
      have "at_subtree t (Suc i) v" unfolding at_subtree_def
        by (rule exI [of _ "pre @ [t ! i]"], rule exI [of _ "flatten_list (Suc i + nnodes v) par cs @ post"], rule exI [of _ par])
          (use e 1(3,4) c x in auto)
      then have "ecm_json_skip t (i + 1) = Some (i + 1 + nnodes v)" using skip_subtree [OF assms(1)] by simp
      moreover have "get_loop (length cs div 2) s t (i + 1 + nnodes v) key = member_index s key (i + 1 + nnodes v) cs"
        using 1(1) [OF False, of "(pre @ [t ! i]) @ flatten (Suc i) par v"] e 1(3,4) k by simp
      ultimately show ?thesis using False ti len by (simp add: tok_text_def)
    qed
  qed
qed auto

lemma at_subtree_shift:
  assumes "t = pre @ u @ post" "at_subtree (pre @ u) i c" "length pre \<le> i" "post \<noteq> [] \<longrightarrow> jt_parent (hd post) < int (length pre)"
  shows "at_subtree t i c"
proof -
  obtain p q par where d: "pre @ u = p @ flatten i par c @ q" "length p = i" "par < int i"
    and q: "q \<noteq> [] \<longrightarrow> jt_parent (hd q) < int i"
    using assms(2) by (auto simp: at_subtree_def)
  have "t = p @ flatten i par c @ (q @ post)" using assms(1) d(1) by (metis append.assoc)
  moreover have "q @ post \<noteq> [] \<longrightarrow> jt_parent (hd (q @ post)) < int i"
    using q assms(3,4) by (cases q) auto
  ultimately show ?thesis using d(2,3) unfolding at_subtree_def by blast
qed

lemma subtree_exists:
  "j < nnodes v \<Longrightarrow> length pre = k \<Longrightarrow> par < int k \<Longrightarrow> tree_ok d lo hi v \<Longrightarrow>
     \<exists>c d lo hi. at_subtree (pre @ flatten k par v) (k + j) c \<and> tree_ok d lo hi c"
  "j < nnodes_list cs \<Longrightarrow> length pre = k \<Longrightarrow> par < int k \<Longrightarrow> trees_ok d lo hi cs \<Longrightarrow>
     \<exists>c d lo hi. at_subtree (pre @ flatten_list k par cs) (k + j) c \<and> tree_ok d lo hi c"
proof (induction k par v and k par cs arbitrary: j pre d lo hi and j pre d lo hi rule: flatten_flatten_list.induct)
  case (1 k par ty a b cs)
  show ?case
  proof (cases j)
    case 0
    have "at_subtree (pre @ flatten k par (JNode ty a b cs)) k (JNode ty a b cs)"
      unfolding at_subtree_def using 1(3,4) by (intro exI [of _ pre] exI [of _ "[]"] exI [of _ par]) simp
    then show ?thesis using 0 1(5) by (metis add_0_right)
  next
    case (Suc j')
    define x where "x = hd (flatten k par (JNode ty a b cs))"
    have "trees_ok (Suc d) (Suc a) (b - 1) cs" using 1(2,5) Suc by (auto split: if_splits)
    then show ?thesis using 1(1) [of j' "pre @ [x]"] 1(2,3) Suc by (auto simp: x_def)
  qed
next
  case (3 k par c cs)
  have c: "tree_ok d lo hi c" "\<exists>lo. trees_ok d lo hi cs" using 3(6) by (cases c; auto)+
  show ?case
  proof (cases "j < nnodes c")
    case True
    obtain c' d' lo' hi' where s: "at_subtree (pre @ flatten k par c) (k + j) c'" "tree_ok d' lo' hi' c'"
      using 3(1) [OF True 3(4,5) c(1)] by blast
    have "post \<noteq> [] \<longrightarrow> jt_parent (hd post) < int (length pre)" if "post = flatten_list (k + nnodes c) par cs" for post
      using that 3(4,5) flatten_hd [of "k + nnodes c" par "hd cs"] by (cases cs) auto
    then show ?thesis using at_subtree_shift [OF _ s(1)] s(2) 3(4) by fastforce
  next
    case False
    obtain lo2 where lo2: "trees_ok d lo2 hi cs" using c(2) by blast
    have "\<exists>c' d lo hi. at_subtree ((pre @ flatten k par c) @ flatten_list (k + nnodes c) par cs) (k + nnodes c + (j - nnodes c)) c'
        \<and> tree_ok d lo hi c'"
      by (rule 3(2) [OF _ _ _ lo2]) (use False 3(3-5) in auto)
    then show ?thesis using False by simp
  qed
qed simp

text \<open>The error code is zero or negative throughout, so a count is never mistaken for one.\<close>

lemma err_simps [simp]: "jp_err (ws s p) = jp_err p" "jp_err (adv n p) = jp_err p"
  "jp_err (set_end k e p) = jp_err p" "jp_err (inc_size k p) = jp_err p"
  by (simp_all add: ws_def adv_def set_end_def inc_size_def)

lemma tok_err: "tok mx ty st par p = (p', r) \<Longrightarrow> jp_err p \<le> 0 \<Longrightarrow> jp_err p' \<le> 0"
  by (auto simp: tok_def split: if_splits)

lemma scalar_err:
  "json_string s mx par p = (p', r) \<Longrightarrow> jp_err p \<le> 0 \<Longrightarrow> jp_err p' \<le> 0"
  "json_number s mx par p = (p', r) \<Longrightarrow> jp_err p \<le> 0 \<Longrightarrow> jp_err p' \<le> 0"
  "json_literal s mx par w ty p = (p', r) \<Longrightarrow> jp_err p \<le> 0 \<Longrightarrow> jp_err p' \<le> 0"
  by (auto simp: json_string_def json_number_def json_literal_def
    split: prod.splits option.splits bool.splits if_splits dest: tok_err)

lemma open_err: "json_open s mx par d obj p = (p', r') \<Longrightarrow> jp_err p \<le> 0 \<Longrightarrow> jp_err p' \<le> 0"
  by (auto simp: json_open_def Let_def split: prod.splits option.splits if_splits dest: tok_err)

lemma key_err: "json_key s mx k p = (p', b) \<Longrightarrow> jp_err p \<le> 0 \<Longrightarrow> jp_err p' \<le> 0"
  by (auto simp: json_key_def Let_def split: prod.splits option.splits if_splits dest: scalar_err)

lemma json_err:
  "json_value f s mx par d p = Some (p', r) \<Longrightarrow> jp_err p \<le> 0 \<Longrightarrow> jp_err p' \<le> 0"
  "json_members f s mx k d obj p = Some (p', b) \<Longrightarrow> jp_err p \<le> 0 \<Longrightarrow> jp_err p' \<le> 0"
proof (induction f arbitrary: par d p p' r k obj b)
  case (Suc f)
  {
    case 1
    then show ?case
      by (auto simp: Let_def split: option.splits prod.splits sum.splits if_splits
        dest: scalar_err open_err dest!: Suc.IH(2))
  next
    case 2
    then show ?case
      by (auto simp: Let_def split: option.splits prod.splits if_splits
        dest: key_err dest!: Suc.IH)
  }
qed simp_all

lemma parse_Some:
  assumes "ecm_json_parse s mx = Some (n, e, t)" "0 \<le> n"
  shows "\<exists>v i j. t = flatten 0 (- 1) v \<and> blank s 0 i \<and> jval s i v j \<and> blank s j (length s) \<and>
    tree_ok 0 0 (length s) v \<and> n = int (nnodes v) \<and> nnodes v \<le> mx \<and> e = length s"
proof -
  obtain p r where v: "json_value (2 * length s + 1) s mx (- 1) 0 jp_init = Some (p, r)"
    using assms(1) by (auto simp: ecm_json_parse_def simp del: json_value.simps split: option.splits)
  have err: "jp_err p \<le> 0" by (rule json_err(1) [OF v]) (simp add: jp_init_def)
  define p1 where "p1 = (if r \<noteq> None then ws s p else p)"
  have res: "(if r = None \<or> jp_pos p1 \<noteq> length s
      then Some (if jp_err p1 \<noteq> 0 then jp_err p1 else - 1, jp_pos p1, jp_t p1)
      else Some (int (length (jp_t p1)), jp_pos p1, jp_t p1)) = Some (n, e, t)"
    using assms(1) unfolding ecm_json_parse_def v p1_def Let_def by simp
  have "jp_err p1 \<le> 0" using err by (simp add: p1_def)
  then have ok: "r \<noteq> None" "jp_pos p1 = length s" using res assms(2) by (auto split: if_splits)
  have p1: "jp_t p1 = jp_t p" by (simp add: p1_def)
  obtain k where k: "r = Some k" using ok(1) by blast
  have r: "n = int (length (jp_t p))" "t = jp_t p" "e = length s"
    using res ok p1 by auto
  obtain w where "value_post s mx (- 1) 0 jp_init p w"
    using json_post(1) [OF v [unfolded k]] by (auto simp: jp_init_def simp del: json_value.simps)
  then have w: "t = flatten 0 (- 1) w" "tree_ok 0 0 (jp_pos p) w" "jp_pos p \<le> length s" "length t \<le> mx"
    and i: "\<exists>i. blank s 0 i \<and> jval s i w (jp_pos p)"
    using r(2) by (auto simp: value_post_def jp_init_def)
  have "blank s (jp_pos p) (length s)" using ws_blank [OF w(3)] ok(2) k by (simp add: p1_def)
  moreover obtain i where "blank s 0 i" "jval s i w (jp_pos p)" using i by blast
  moreover have "length t = nnodes w" using w(1) by simp
  ultimately show ?thesis using r w(1,4) tree_ok_mono [OF w(2) _ w(3), of 0]
    by (intro exI [of _ w] exI [of _ i] exI [of _ "jp_pos p"]) simp
qed

section \<open>Properties\<close>

text \<open>C34. Parsing ends on every text and every capacity of the token array: the fuel given to
  the recursion between values and containers is always enough. The accessors end too: on the
  tokens of a successful parse the walk up the parents reaches the container or leaves the
  root, so that skipping over a token returns.\<close>

theorem json_terminates:
  "\<exists>n e t. ecm_json_parse s mx = Some (n, e, t) \<and> (0 \<le> n \<longrightarrow> (\<forall>i < length t. ecm_json_skip t i \<noteq> None))"
proof -
  obtain p r where v: "json_value (2 * length s + 1) s mx (- 1) 0 jp_init = Some (p, r)"
    using json_fuel(1) [of s jp_init "2 * length s + 1" mx "- 1" 0] by (auto simp: jp_init_def simp del: json_value.simps)
  obtain n e t where res: "ecm_json_parse s mx = Some (n, e, t)"
    unfolding ecm_json_parse_def v Let_def option.case prod.case by (metis (no_types))
  have "ecm_json_skip t i \<noteq> None" if n: "0 \<le> n" and i: "i < length t" for i
  proof -
    obtain v where v: "t = flatten 0 (- 1) v" "tree_ok 0 0 (length s) v" using parse_Some [OF res n] by blast
    obtain c where "at_subtree t i c" using subtree_exists(1) [OF _ _ _ v(2), of i "[]" 0 "- 1"] v i by auto
    then show ?thesis using skip_subtree parents_below_flatten v(1) by fastforce
  qed
  then show ?thesis using res by blast
qed

text \<open>C35. A successful parse has consumed the whole text, and its tokens are the parse of that text
  in the grammar \<open>jval\<close>, apart from white space around it: a tree in document order whose spans are
  exact, a string's the bytes between its quotes, a container's from bracket to bracket, a
  number's or a literal's the whole word, with nothing between the tokens but white space and the
  separators of the grammar. There are as many tokens as reported and no more than fit, every
  child count is exact, every parent the enclosing container, the members of an object are
  pairs that begin with a string, and it is at most 16 levels deep.\<close>

theorem json_parse_tree:
  assumes "ecm_json_parse s mx = Some (n, e, t)" "0 \<le> n"
  shows "\<exists>v i j. t = flatten 0 (- 1) v \<and> blank s 0 i \<and> jval s i v j \<and> blank s j (length s) \<and>
    tree_ok 0 0 (length s) v \<and> n = int (nnodes v) \<and> nnodes v \<le> mx \<and> e = length s"
  by (rule parse_Some [OF assms])

text \<open>Every token of a parsed text is the root of a subtree; skipping it returns the index
  right after that subtree, and looking a key up in it returns the value of the first member
  with that key text, and nothing when the token is no object or has no such member.\<close>

theorem json_get_exact:
  assumes "ecm_json_parse s mx = Some (n, e, t)" "0 \<le> n" "i < length t"
  shows "\<exists>ty a b cs. at_subtree t i (JNode ty a b cs) \<and> ecm_json_skip t i = Some (i + 1 + nnodes_list cs) \<and>
    ecm_json_get s t i key = (if ty = ECM_J_OBJ then member_index s key (i + 1) cs else None)"
proof -
  obtain v where v: "t = flatten 0 (- 1) v" "tree_ok 0 0 (length s) v" using parse_Some [OF assms(1,2)] by blast
  then have below: "parents_below t" using parents_below_flatten by simp
  obtain c d lo hi where c: "at_subtree t i c" "tree_ok d lo hi c"
    using subtree_exists(1) [OF _ _ _ v(2), of i "[]" 0 "- 1"] v(1) assms(3) by auto
  obtain ty a b cs where n: "c = JNode ty a b cs" by (cases c)
  obtain pre post par where t: "t = pre @ flatten i par c @ post" "length pre = i" "par < int i"
    using c(1) by (auto simp: at_subtree_def)
  have ti: "t ! i = \<lparr>jt_type = ty, jt_start = a, jt_end = b, jt_size = length cs, jt_parent = par\<rparr>"
    using t n by (simp add: nth_append)
  have "get_loop (length cs div 2) s t (i + 1) key = member_index s key (i + 1) cs" if "ty = ECM_J_OBJ"
    by (rule get_loop_member [OF below, of "pre @ [t ! i]" _ "int i" _ post]) (use t n ti c(2) that in auto)
  then have "ecm_json_get s t i key = (if ty = ECM_J_OBJ then member_index s key (i + 1) cs else None)"
    using ti assms(3) by (simp add: ecm_json_get_def)
  then show ?thesis using c(1) n skip_subtree [OF below c(1)] by auto
qed

section \<open>Witnesses\<close>

text \<open>The request \<open>{"id":7,"p":[1]}\<close>.\<close>

definition demo_json :: string where
  "demo_json = ''{'' @ [c_quote] @ ''id'' @ [c_quote] @ '':7,'' @ [c_quote] @ ''p'' @ [c_quote] @ '':[1]}''"

lemmas json_eval = demo_json_def ecm_json_parse_def jp_init_def Let_def ws_def cur_def adv_def tok_def json_string_def
  json_number_def json_open_def json_key_def set_end_def inc_size_def is_ws_def is_dec_def char_code_def num_len_def num_int_def
  num_frac_def num_exp_def close_of_def numeral_2_eq_2

lemma demo_json_parse: "\<exists>t. ecm_json_parse demo_json 8 = Some (6, 16, t) \<and> length t = 6"
  by (simp add: json_eval eval_nat_numeral)

theorem json_parse_tree_witness:
  "\<exists>t v i j. ecm_json_parse demo_json 8 = Some (6, 16, t) \<and> t = flatten 0 (- 1) v \<and> nnodes v = 6 \<and>
     blank demo_json 0 i \<and> jval demo_json i v j \<and> blank demo_json j (length demo_json)"
proof -
  obtain t where t: "ecm_json_parse demo_json 8 = Some (6, 16, t)" using demo_json_parse by blast
  show ?thesis using json_parse_tree [OF t] t by auto
qed

theorem json_terminates_witness:
  "\<exists>t. ecm_json_parse demo_json 8 = Some (6, 16, t) \<and> ecm_json_skip t 0 \<noteq> None"
proof -
  obtain t where t: "ecm_json_parse demo_json 8 = Some (6, 16, t)" "length t = 6" using demo_json_parse by blast
  show ?thesis using json_terminates [of demo_json 8] t by auto
qed

end
