(* ===== verification/Ctl.thy ===== *)
theory Ctl
  imports Json
begin

text \<open>
  The command side of the remote interface (\<open>libecmaster/api/ecm_ctl.c\<close>): typed values,
  the reply writer, the allow list and the handler that turns one request line into one
  reply line. The application supplies a backend of callbacks; they are an argument, as is
  the world \<open>'w\<close> they act on, so that an SDO transfer may change what a later call returns.
  Every SDO transfer the handler asks for is also written to a log. Floating point is an
  argument too: a record of the operations on \<open>double\<close> the code uses, with their texts.
\<close>

section \<open>Floating point\<close>

record 'd fp =
  fp_of_i :: "int \<Rightarrow> 'd"
  fp_of_u :: "u64 \<Rightarrow> 'd"
  fp_strtod :: "string \<Rightarrow> 'd \<times> bool \<times> string" \<comment> \<open>the value, \<open>errno\<close> set, the rest\<close>
  fp_finite :: "'d \<Rightarrow> bool"
  fp_f32_range :: "'d \<Rightarrow> bool" \<comment> \<open>\<open>fabs(d) <= FLT_MAX\<close>\<close>
  fp_less :: "'d \<Rightarrow> 'd \<Rightarrow> bool"
  fp_f32 :: "'d \<Rightarrow> u32" \<comment> \<open>the bits of \<open>(float)d\<close>\<close>
  fp_9g :: "'d \<Rightarrow> string"
  fp_f32_9g :: "u32 \<Rightarrow> string option" \<comment> \<open>\<open>None\<close> when not finite\<close>
  fp_ms :: "u64 \<Rightarrow> string" \<comment> \<open>\<open>%.1f\<close> of nanoseconds as milliseconds\<close>
  fp_add :: "'d \<Rightarrow> 'd \<Rightarrow> 'd"
  fp_sub :: "'d \<Rightarrow> 'd \<Rightarrow> 'd"
  fp_mul :: "'d \<Rightarrow> 'd \<Rightarrow> 'd"
  fp_nano :: 'd \<comment> \<open>\<open>1e-9\<close>\<close>

section \<open>Types and values\<close>

datatype ecm_ctype = ECM_CT_U8 | ECM_CT_I8 | ECM_CT_U16 | ECM_CT_I16 | ECM_CT_U32 | ECM_CT_I32
  | ECM_CT_U64 | ECM_CT_I64 | ECM_CT_F32 | ECM_CT_RAW

definition TYPES :: "(ecm_ctype \<times> string \<times> nat) list" where
  "TYPES = [(ECM_CT_U8, ''u8'', 1), (ECM_CT_I8, ''i8'', 1), (ECM_CT_U16, ''u16'', 2), (ECM_CT_I16, ''i16'', 2),
    (ECM_CT_U32, ''u32'', 4), (ECM_CT_I32, ''i32'', 4), (ECM_CT_U64, ''u64'', 8), (ECM_CT_I64, ''i64'', 8),
    (ECM_CT_F32, ''f32'', 4), (ECM_CT_RAW, ''raw'', 0)]"

definition ecm_ctl_type_parse :: "string \<Rightarrow> ecm_ctype option" where
  "ecm_ctl_type_parse name = map_option fst (find (\<lambda>(t, n, k). n = name) TYPES)"

definition ecm_ctl_type_name :: "ecm_ctype \<Rightarrow> string" where
  "ecm_ctl_type_name t = (case map_of TYPES t of Some (n, k) \<Rightarrow> n | None \<Rightarrow> ''?'')"

definition ecm_ctl_type_size :: "ecm_ctype \<Rightarrow> nat" where
  "ecm_ctl_type_size t = (case map_of TYPES t of Some (n, k) \<Rightarrow> k | None \<Rightarrow> 0)"

definition is_signed :: "ecm_ctype \<Rightarrow> bool" where
  "is_signed t \<longleftrightarrow> t = ECM_CT_I8 \<or> t = ECM_CT_I16 \<or> t = ECM_CT_I32 \<or> t = ECM_CT_I64"

definition is_unsigned :: "ecm_ctype \<Rightarrow> bool" where
  "is_unsigned t \<longleftrightarrow> t = ECM_CT_U8 \<or> t = ECM_CT_U16 \<or> t = ECM_CT_U32 \<or> t = ECM_CT_U64"

text \<open>The value of a token: the kind says which member was written, the others are zero.\<close>

datatype 'd ecm_ctl_val = VI int | VU u64 | VD 'd

definition as_i :: "'d ecm_ctl_val \<Rightarrow> int" where
  "as_i v = (case v of VI i \<Rightarrow> i | VU u \<Rightarrow> to_i64 (uint u) | VD d \<Rightarrow> 0)"

definition as_u :: "'d ecm_ctl_val \<Rightarrow> u64" where
  "as_u v = (case v of VI i \<Rightarrow> of_int i | VU u \<Rightarrow> u | VD d \<Rightarrow> 0)"

definition as_d :: "'d fp \<Rightarrow> 'd ecm_ctl_val \<Rightarrow> 'd" where
  "as_d fp v = (case v of VI i \<Rightarrow> fp_of_i fp i | VU u \<Rightarrow> fp_of_u fp u | VD d \<Rightarrow> d)"

definition ecm_ctl_val_fits :: "'d fp \<Rightarrow> ecm_ctype \<Rightarrow> 'd ecm_ctl_val \<Rightarrow> bool" where
  "ecm_ctl_val_fits fp t v =
    (let bits = 8 * ecm_ctl_type_size t in
     if is_signed t then
       (case (case v of VI i \<Rightarrow> Some i | VU u \<Rightarrow> if u \<le> 0x7FFFFFFFFFFFFFFF then Some (uint u) else None | VD d \<Rightarrow> None) of
          None \<Rightarrow> False
        | Some x \<Rightarrow> bits = 64 \<or> - (2 ^ (bits - 1)) \<le> x \<and> x \<le> 2 ^ (bits - 1) - 1)
     else if is_unsigned t then
       (case (case v of VU u \<Rightarrow> Some u | VI i \<Rightarrow> if i \<ge> 0 then Some (of_int i) else None | VD d \<Rightarrow> None) of
          None \<Rightarrow> False
        | Some x \<Rightarrow> bits = 64 \<or> x \<le> push_bit bits 1 - 1)
     else if t = ECM_CT_F32 then fp_finite fp (as_d fp v) \<and> fp_f32_range fp (as_d fp v)
     else False)"

definition le_bytes :: "nat \<Rightarrow> u64 \<Rightarrow> u8 list" where
  "le_bytes n raw = map (\<lambda>i. ucast (drop_bit (8 * i) raw)) [0..<n]"

definition ecm_ctl_encode :: "'d fp \<Rightarrow> ecm_ctype \<Rightarrow> 'd ecm_ctl_val \<Rightarrow> u8 list option" where
  "ecm_ctl_encode fp t v =
    (if \<not> ecm_ctl_val_fits fp t v then None
     else
      let raw = (if t = ECM_CT_F32 then ucast (fp_f32 fp (as_d fp v))
                 else if is_signed t then of_int (as_i v) else as_u v)
      in Some (le_bytes (ecm_ctl_type_size t) raw))"

definition cmp3 :: "('a \<Rightarrow> 'a \<Rightarrow> bool) \<Rightarrow> 'a \<Rightarrow> 'a \<Rightarrow> int" where
  "cmp3 lt a b = (if lt a b then - 1 else if lt b a then 1 else 0)"

definition ecm_ctl_val_cmp :: "'d fp \<Rightarrow> ecm_ctype \<Rightarrow> 'd ecm_ctl_val \<Rightarrow> 'd ecm_ctl_val \<Rightarrow> int" where
  "ecm_ctl_val_cmp fp t v lim =
    (if is_signed t then cmp3 (<) (as_i v) (as_i lim)
     else if is_unsigned t then cmp3 (<) (as_u v) (as_u lim)
     else cmp3 (fp_less fp) (as_d fp v) (as_d fp lim))"

definition le_value :: "u8 list \<Rightarrow> u64" where
  "le_value b = fold (\<lambda>i r. r OR push_bit (8 * i) (ucast (b ! i))) [0..<length b] 0"

text \<open>The text of a value, empty for the length 0 of the code.\<close>

definition ecm_ctl_decode_json :: "'d fp \<Rightarrow> ecm_ctype \<Rightarrow> u8 list \<Rightarrow> nat \<Rightarrow> string" where
  "ecm_ctl_decode_json fp t b cap =
    (if t = ECM_CT_RAW \<or> length b \<noteq> ecm_ctl_type_size t then []
     else
      let raw = le_value b;
          s = (if t = ECM_CT_I8 then dec_int (to_i8 (uint raw))
               else if t = ECM_CT_I16 then dec_int (to_i16 (uint raw))
               else if t = ECM_CT_I32 then dec_int (to_i32 (uint raw))
               else if t = ECM_CT_I64 then dec_int (to_i64 (uint raw))
               else if t = ECM_CT_F32 then (case fp_f32_9g fp (ucast raw) of Some x \<Rightarrow> x | None \<Rightarrow> ''null'')
               else dec (unat raw))
      in if length s < cap then s else [])"

section \<open>The reply writer\<close>

record rw =
  rw_b :: string
  rw_cap :: nat
  rw_ovf :: bool

definition rw_init :: "nat \<Rightarrow> rw" where "rw_init cap = \<lparr>rw_b = [], rw_cap = cap, rw_ovf = False\<rparr>"

definition rput :: "string \<Rightarrow> rw \<Rightarrow> rw" where
  "rput s w =
    (if rw_ovf w then w
     else if length (rw_b w) + length s + 2 > rw_cap w then w\<lparr>rw_ovf := True\<rparr>
     else w\<lparr>rw_b := rw_b w @ s\<rparr>)"

definition rs :: "string \<Rightarrow> rw \<Rightarrow> rw" where "rs s w = rput s w"

text \<open>A formatted text: it must fit into the 512 bytes of the scratch array.\<close>

definition rf :: "string \<Rightarrow> rw \<Rightarrow> rw" where
  "rf txt w = (if length txt \<ge> 512 then w\<lparr>rw_ovf := True\<rparr> else rput txt w)"

definition rstr :: "string \<Rightarrow> rw \<Rightarrow> rw" where
  "rstr s w =
    rput ''\"'' (fold (\<lambda>c w. if c = c_quote \<or> c = c_bsl then rput [c_bsl, c] w
                             else if char_code c < 0x20 then rf ([c_bsl] @ ''u'' @ map tolower (hexw 4 (char_code c))) w
                             else rput [c] w) s (rput ''\"'' w))"

definition rhex :: "u8 list \<Rightarrow> rw \<Rightarrow> rw" where
  "rhex b w = rput ''\"'' (fold (\<lambda>x w. rf (hexw 2 (unat x)) w) b (rput ''\"'' w))"

definition rval :: "'d fp \<Rightarrow> ecm_ctype \<Rightarrow> 'd ecm_ctl_val \<Rightarrow> rw \<Rightarrow> rw" where
  "rval fp t v w =
    (if t = ECM_CT_F32 then rf (fp_9g fp (as_d fp v)) w
     else if is_signed t then rf (dec_int (as_i v)) w
     else rf (dec (unat (as_u v))) w)"

text \<open>The reply line; the empty list is the length 0.\<close>

definition rend :: "rw \<Rightarrow> string" where
  "rend w = (if rw_ovf w then [] else rw_b w @ [CHR 0x0A])"

section \<open>The backend\<close>

record 'w ecm_ctl_backend =
  be_identity :: "'w \<Rightarrow> nat \<Rightarrow> (u32 \<times> u32) option"
  be_deny :: "('w \<Rightarrow> nat \<Rightarrow> u16 \<Rightarrow> u8 \<Rightarrow> string option) option" \<comment> \<open>the reason\<close>
  be_rxpdo :: "'w \<Rightarrow> nat \<Rightarrow> u16 \<Rightarrow> u8 \<Rightarrow> int"
  be_initcmd :: "('w \<Rightarrow> nat \<Rightarrow> u16 \<Rightarrow> u8 \<Rightarrow> int) option"
  be_ready :: "'w \<Rightarrow> nat \<Rightarrow> string option" \<comment> \<open>why not\<close>
  be_sdo_read :: "'w \<Rightarrow> nat \<Rightarrow> u16 \<Rightarrow> u8 \<Rightarrow> 'w \<times> int \<times> u8 list \<times> u32"
  be_sdo_write :: "'w \<Rightarrow> nat \<Rightarrow> u16 \<Rightarrow> u8 \<Rightarrow> u8 list \<Rightarrow> 'w \<times> int \<times> u32"
  be_abort_text :: "(u32 \<Rightarrow> string) option"
  be_info :: "('w \<Rightarrow> nat \<Rightarrow> string) option"
  be_dump :: "('w \<Rightarrow> 'w \<times> int \<times> string) option"
  be_mono_ns :: "'w \<Rightarrow> u64" \<comment> \<open>the monotonic clock\<close>

definition ECM_CTL_SDO_BUSY :: int where "ECM_CTL_SDO_BUSY = - 1"
definition ECM_CTL_SDO_TIMEOUT :: int where "ECM_CTL_SDO_TIMEOUT = - 2"
definition ECM_CTL_SDO_TOO_LARGE :: int where "ECM_CTL_SDO_TOO_LARGE = - 3"
definition ECM_CTL_SDO_FAILED :: int where "ECM_CTL_SDO_FAILED = - 4"
definition ECM_CTL_SDO_NO_MBX :: int where "ECM_CTL_SDO_NO_MBX = - 5"

abbreviation (input) ECM_CTL_ALLOW_MAX :: nat where "ECM_CTL_ALLOW_MAX \<equiv> 64"
abbreviation (input) ECM_CTL_DATA_MAX :: nat where "ECM_CTL_DATA_MAX \<equiv> 256"
abbreviation (input) ECM_CTL_RATE :: nat where "ECM_CTL_RATE \<equiv> 20"

section \<open>The allow list\<close>

record 'd ecm_ctl_allow =
  ca_vendor :: u32
  ca_product :: u32
  ca_index :: u16
  ca_sub :: u8
  ca_type :: ecm_ctype
  ca_min :: "'d ecm_ctl_val"
  ca_max :: "'d ecm_ctl_val"
  ca_note :: string

record 'd ecm_ctl_allowlist =
  al_path :: string
  al_e :: "'d ecm_ctl_allow list"

definition comm_area :: "u16 \<Rightarrow> bool" where
  "comm_area index \<longleftrightarrow> 0x1000 \<le> index \<and> index \<le> 0x1FFF"

definition ecm_json_f64 :: "'d fp \<Rightarrow> string \<Rightarrow> ecm_jtok \<Rightarrow> 'd option" where
  "ecm_json_f64 fp s k =
    (if jt_type k = ECM_J_STR then map_option (fp_of_i fp) (ecm_json_i64 s k)
     else if jt_type k \<noteq> ECM_J_NUM then None
     else
      let b = tok_text s k in
      if b = [] \<or> length b \<ge> 64 then None
      else
       let (x, err, rest) = fp_strtod fp (cstr b) in
       if err \<or> rest \<noteq> [] \<or> \<not> fp_finite fp x then None else Some x)"

definition tok_val :: "'d fp \<Rightarrow> string \<Rightarrow> ecm_jtok \<Rightarrow> ecm_ctype \<Rightarrow> 'd ecm_ctl_val option" where
  "tok_val fp s k t =
    (if t = ECM_CT_F32 then map_option VD (ecm_json_f64 fp s k)
     else if is_signed t then map_option VI (ecm_json_i64 s k)
     else map_option VU (ecm_json_u64 s k))"

text \<open>A member that is an unsigned number up to \<open>mx\<close>.\<close>

definition get_u64 :: "string \<Rightarrow> ecm_jtok list \<Rightarrow> nat \<Rightarrow> string \<Rightarrow> u64 option" where
  "get_u64 s t obj k = Option.bind (ecm_json_get s t obj k) (\<lambda>v. ecm_json_u64 s (t ! v))"

definition get_u32 :: "string \<Rightarrow> ecm_jtok list \<Rightarrow> nat \<Rightarrow> string \<Rightarrow> u64 \<Rightarrow> u32 option" where
  "get_u32 s t obj k mx =
    (case get_u64 s t obj k of None \<Rightarrow> None | Some x \<Rightarrow> if x > mx then None else Some (ucast x))"

definition get_str :: "string \<Rightarrow> ecm_jtok list \<Rightarrow> nat \<Rightarrow> string \<Rightarrow> nat \<Rightarrow> string option" where
  "get_str s t obj k cap = Option.bind (ecm_json_get s t obj k) (\<lambda>v. map_option cstr (ecm_json_str s (t ! v) cap))"

datatype allow_err = AErrOpen | AErrBig | AErrJson nat | AErrSchema | AErrAllow | AErrMany | AErrNotObj nat
  | AErrIdent nat | AErrIndex nat | AErrType nat | AErrRange nat | AErrComm nat | AErrDeny nat | AErrTwice nat
  | AErrLoop

definition same_object :: "'d ecm_ctl_allow \<Rightarrow> u32 \<Rightarrow> u32 \<Rightarrow> u16 \<Rightarrow> u8 \<Rightarrow> bool" where
  "same_object e vendor product index sub \<longleftrightarrow>
     ca_vendor e = vendor \<and> ca_product e = product \<and> ca_index e = index \<and> ca_sub e = sub"

text \<open>One element of the array, the checks in the order of the code.\<close>

definition allow_entry :: "'d fp \<Rightarrow> (nat \<Rightarrow> u16 \<Rightarrow> u8 \<Rightarrow> string option) option \<Rightarrow> string \<Rightarrow> ecm_jtok list \<Rightarrow> nat \<Rightarrow> nat \<Rightarrow>
    'd ecm_ctl_allow list \<Rightarrow> allow_err + 'd ecm_ctl_allow" where
  "allow_entry fp deny text t k i es =
    (if length es \<ge> ECM_CTL_ALLOW_MAX then Inl AErrMany
     else if jt_type (t ! i) \<noteq> ECM_J_OBJ then Inl (AErrNotObj k)
     else
      (case (get_u32 text t i ''vendor'' 0xFFFFFFFF, get_u32 text t i ''product'' 0xFFFFFFFF) of
         (Some vendor, Some product) \<Rightarrow>
           (case (get_u32 text t i ''index'' 0xFFFF, get_u32 text t i ''sub'' 0xFF) of
              (Some idx, Some sub) \<Rightarrow>
                (case Option.bind (get_str text t i ''type'' 16) ecm_ctl_type_parse of
                   None \<Rightarrow> Inl (AErrType k)
                 | Some ty \<Rightarrow>
                     if ty = ECM_CT_RAW then Inl (AErrType k)
                     else
                      (case (Option.bind (ecm_json_get text t i ''min'') (\<lambda>v. tok_val fp text (t ! v) ty),
                             Option.bind (ecm_json_get text t i ''max'') (\<lambda>v. tok_val fp text (t ! v) ty)) of
                         (Some mn, Some mx) \<Rightarrow>
                           if \<not> ecm_ctl_val_fits fp ty mn \<or> \<not> ecm_ctl_val_fits fp ty mx \<or> ecm_ctl_val_cmp fp ty mn mx > 0
                           then Inl (AErrRange k)
                           else
                            let e = \<lparr>ca_vendor = vendor, ca_product = product, ca_index = ucast idx, ca_sub = ucast sub, ca_type = ty,
                                     ca_min = mn, ca_max = mx, ca_note = (case get_str text t i ''note'' 80 of Some x \<Rightarrow> x | None \<Rightarrow> [])\<rparr>
                            in if comm_area (ca_index e) then Inl (AErrComm k)
                               else if (case deny of None \<Rightarrow> False | Some d \<Rightarrow> d 0 (ca_index e) (ca_sub e) \<noteq> None) then Inl (AErrDeny k)
                               else if list_ex (\<lambda>x. same_object x vendor product (ca_index e) (ca_sub e)) es then Inl (AErrTwice k)
                               else Inr e
                       | _ \<Rightarrow> Inl (AErrRange k)))
            | _ \<Rightarrow> Inl (AErrIndex k))
       | _ \<Rightarrow> Inl (AErrIdent k)))"

text \<open>The loop over the elements: \<open>m\<close> of them are left, the next is number \<open>k\<close> at token \<open>i\<close>.\<close>

primrec allow_loop :: "nat \<Rightarrow> 'd fp \<Rightarrow> (nat \<Rightarrow> u16 \<Rightarrow> u8 \<Rightarrow> string option) option \<Rightarrow> string \<Rightarrow> ecm_jtok list \<Rightarrow> nat \<Rightarrow> nat \<Rightarrow>
    'd ecm_ctl_allow list \<Rightarrow> allow_err option \<times> 'd ecm_ctl_allow list" where
  "allow_loop 0 fp deny text t k i es = (None, es)"
| "allow_loop (Suc m) fp deny text t k i es =
    (case allow_entry fp deny text t k i es of
       Inl e \<Rightarrow> (Some e, es)
     | Inr e \<Rightarrow> (case ecm_json_skip t i of
                    None \<Rightarrow> (Some AErrLoop, es @ [e])
                  | Some j \<Rightarrow> allow_loop m fp deny text t (k + 1) j (es @ [e])))"

text \<open>
  The file is \<open>None\<close> when it cannot be opened. A read that fills the array has not seen the
  end of the file, so a file of exactly 65535 bytes is refused with the larger ones.
\<close>

definition ecm_ctl_allow_load :: "'d fp \<Rightarrow> (nat \<Rightarrow> u16 \<Rightarrow> u8 \<Rightarrow> string option) option \<Rightarrow> string option \<Rightarrow> (string \<Rightarrow> string option) \<Rightarrow>
    allow_err option \<times> 'd ecm_ctl_allowlist" where
  "ecm_ctl_allow_load fp deny path fopen =
    (case path of
       None \<Rightarrow> (None, \<lparr>al_path = [], al_e = []\<rparr>)
     | Some pth \<Rightarrow>
         let al = \<lparr>al_path = fit 256 pth, al_e = []\<rparr> in
         (case fopen pth of
            None \<Rightarrow> (Some AErrOpen, al)
          | Some text \<Rightarrow>
              if length text \<ge> 65535 then (Some AErrBig, al)
              else
               (case ecm_json_parse text 4096 of
                  None \<Rightarrow> (Some AErrLoop, al)
                | Some (n, pos, t) \<Rightarrow>
                    if n < 0 then (Some (AErrJson pos), al)
                    else if get_u64 text t 0 ''schema'' \<noteq> Some 1 then (Some AErrSchema, al)
                    else
                     (case ecm_json_get text t 0 ''allow'' of
                        None \<Rightarrow> (Some AErrAllow, al)
                      | Some a \<Rightarrow>
                          if jt_type (t ! a) \<noteq> ECM_J_ARR then (Some AErrAllow, al)
                          else let (err, es) = allow_loop (jt_size (t ! a)) fp deny text t 0 (a + 1) []
                               in (err, al\<lparr>al_e := es\<rparr>)))))"

definition allow_find :: "'d ecm_ctl_allowlist option \<Rightarrow> u32 \<Rightarrow> u32 \<Rightarrow> u16 \<Rightarrow> u8 \<Rightarrow> 'd ecm_ctl_allow option" where
  "allow_find al vendor product index sub =
    (case al of None \<Rightarrow> None | Some l \<Rightarrow> find (\<lambda>e. same_object e vendor product index sub) (al_e l))"

section \<open>Requests\<close>

record 'd ecm_ctl_state =
  st_tokens :: 'd
  st_last_ns :: u64
  st_cmds :: u64
  st_ok :: u64
  st_errors :: u64
  st_rate_limited :: u64
  st_refused_writes :: u64
  st_sdo_reads :: u64
  st_sdo_writes :: u64
  st_sdo_ns_max :: u64

definition ecm_ctl_state_init :: "'d fp \<Rightarrow> 'd ecm_ctl_state" where
  "ecm_ctl_state_init fp = \<lparr>st_tokens = fp_of_i fp 20, st_last_ns = 0, st_cmds = 0, st_ok = 0, st_errors = 0, st_rate_limited = 0,
    st_refused_writes = 0, st_sdo_reads = 0, st_sdo_writes = 0, st_sdo_ns_max = 0\<rparr>"

record req =
  rq_s :: string
  rq_t :: "ecm_jtok list"
  rq_id :: string \<comment> \<open>raw JSON of "id", or "null"\<close>
  rq_cap :: nat \<comment> \<open>the size of the reply buffer\<close>

text \<open>The SDO transfers a request asks for.\<close>

datatype ctl_call = CallRead nat u16 u8 | CallWrite nat u16 u8 "u8 list"

type_synonym ('d, 'w) ctl_res = "'d ecm_ctl_state \<times> 'w \<times> ctl_call list \<times> string"

text \<open>A reply without any transfer.\<close>

definition reply_only :: "'w \<Rightarrow> 'd ecm_ctl_state \<times> string \<Rightarrow> ('d, 'w) ctl_res" where
  "reply_only w res = (fst res, w, [], snd res)"

text \<open>Writer calls one after the other.\<close>

definition put :: "(rw \<Rightarrow> rw) list \<Rightarrow> rw \<Rightarrow> rw" where
  "put fs w = fold (\<lambda>f. f) fs w"

definition head :: "req \<Rightarrow> bool \<Rightarrow> rw \<Rightarrow> rw" where
  "head r ok = rf (''{\"id\":'' @ rq_id r @ '',\"ok\":'' @ (if ok then ''true'' else ''false''))"

definition fail :: "'d ecm_ctl_state \<Rightarrow> req \<Rightarrow> string \<Rightarrow> string \<Rightarrow> 'd ecm_ctl_state \<times> string" where
  "fail st r code msg =
    (st\<lparr>st_errors := st_errors st + 1\<rparr>,
     rend (put [head r False, rs '',\"error\":'', rstr code, rs '',\"msg\":'', rstr (fit 256 msg), rs ''}''] (rw_init (rq_cap r))))"

definition addr :: "u16 \<Rightarrow> u8 \<Rightarrow> string" where
  "addr index sub = ''0x'' @ hexw 4 (unat index) @ '':'' @ dec (unat sub)"

text \<open>Slave, index, sub and type of an SDO request, or an error message.\<close>

definition sdo_args :: "req \<Rightarrow> bool \<Rightarrow> string + nat \<times> u16 \<times> u8 \<times> ecm_ctype" where
  "sdo_args r need_type =
    (let s = rq_s r; t = rq_t r in
     case get_u64 s t 0 ''slave'' of
       None \<Rightarrow> Inl ''\"slave\": 1..65535 required''
     | Some x \<Rightarrow>
         if x < 1 \<or> x > 0xFFFF then Inl ''\"slave\": 1..65535 required''
         else
          (case get_u64 s t 0 ''index'' of
             None \<Rightarrow> Inl ''\"index\": 0..0xFFFF required (\"0x6061\" or a number)''
           | Some i \<Rightarrow>
               if i > 0xFFFF then Inl ''\"index\": 0..0xFFFF required (\"0x6061\" or a number)''
               else
                (case get_u64 s t 0 ''sub'' of
                   None \<Rightarrow> Inl ''\"sub\": 0..255 required''
                 | Some b \<Rightarrow>
                     if b > 0xFF then Inl ''\"sub\": 0..255 required''
                     else if ecm_json_get s t 0 ''type'' \<noteq> None \<and> get_str s t 0 ''type'' 16 = None then Inl ''\"type\": a string''
                     else if ecm_json_get s t 0 ''type'' = None \<and> need_type then Inl ''\"type\" required''
                     else
                      (case ecm_ctl_type_parse (case get_str s t 0 ''type'' 16 of None \<Rightarrow> ''raw'' | Some n \<Rightarrow> n) of
                         None \<Rightarrow> Inl ''\"type\": u8 i8 u16 i16 u32 i32 u64 i64 f32 raw''
                       | Some ty \<Rightarrow>
                           if ecm_json_get s t 0 ''ca'' \<noteq> None then Inl ''Complete Access is not offered through the API''
                           else Inr (unat x, ucast i, ucast b, ty)))))"

definition sdo_head :: "req \<Rightarrow> nat \<Rightarrow> u16 \<Rightarrow> u8 \<Rightarrow> ecm_ctype \<Rightarrow> rw \<Rightarrow> rw" where
  "sdo_head r slave index sub ty w =
    rf ('',\"slave\":'' @ dec slave @ '',\"index\":\"0x'' @ hexw 4 (unat index) @ ''\",\"sub\":'' @ dec (unat sub) @
        '',\"type\":\"'' @ ecm_ctl_type_name ty @ ''\"'') (head r True w)"

definition sdo_fail :: "'w ecm_ctl_backend \<Rightarrow> 'd ecm_ctl_state \<Rightarrow> req \<Rightarrow> int \<Rightarrow> u32 \<Rightarrow> nat \<Rightarrow> u16 \<Rightarrow> u8 \<Rightarrow> 'd ecm_ctl_state \<times> string" where
  "sdo_fail be st r rc abort slave index sub =
    (if rc = ECM_CTL_SDO_BUSY then fail st r ''busy'' ''mailbox queue full, retry''
     else if rc = ECM_CTL_SDO_TIMEOUT
     then fail st r ''timeout'' (''slave '' @ dec slave @ '' '' @ addr index sub @ '': no completion in time'')
     else if rc = ECM_CTL_SDO_TOO_LARGE then fail st r ''too_large'' (''more than '' @ dec ECM_CTL_DATA_MAX @ '' bytes'')
     else if rc = ECM_CTL_SDO_NO_MBX
     then fail st r ''no_mailbox'' (''slave '' @ dec slave @ '': no mailbox access in SAFE-OP/OP (see the ecm_run start-up log)'')
     else
      (st\<lparr>st_errors := st_errors st + 1\<rparr>,
       rend (put (
         [head r False, rs '',\"error\":\"sdo_failed\"''] @
         (if abort \<noteq> 0
          then [rf ('',\"abort\":\"0x'' @ hexw 8 (unat abort) @ ''\",\"msg\":''),
                rstr (case be_abort_text be of Some f \<Rightarrow> f abort | None \<Rightarrow> [])]
          else [rf ('',\"abort\":null,\"msg\":\"slave '' @ dec slave @ '' '' @ addr index sub @ '': no answer, or no abort code seen\"'')]) @
         [rs ''}'']) (rw_init (rq_cap r)))))"

definition time_max :: "u64 \<Rightarrow> 'd ecm_ctl_state \<Rightarrow> 'd ecm_ctl_state" where
  "time_max dt st = (if dt > st_sdo_ns_max st then st\<lparr>st_sdo_ns_max := dt\<rparr> else st)"

definition cmd_sdo_read :: "'d fp \<Rightarrow> 'w ecm_ctl_backend \<Rightarrow> 'd ecm_ctl_state \<Rightarrow> 'w \<Rightarrow> req \<Rightarrow> ('d, 'w) ctl_res" where
  "cmd_sdo_read fp be st w r =
    (case sdo_args r False of
       Inl e \<Rightarrow> reply_only w (fail st r ''bad_request'' e)
     | Inr (slave, index, sub, ty) \<Rightarrow>
         if be_identity be w slave = None
         then reply_only w (fail st r ''no_slave'' (''no slave '' @ dec slave))
         else
          (case be_ready be w slave of
             Some why \<Rightarrow> reply_only w (fail st r ''not_ready'' why)
           | None \<Rightarrow>
               let (w1, rc, b, abort) = be_sdo_read be w slave index sub;
                   dt = be_mono_ns be w1 - be_mono_ns be w;
                   st1 = (time_max dt st)\<lparr>st_sdo_reads := st_sdo_reads st + 1\<rparr>;
                   size = length b;
                   calls = [CallRead slave index sub]
               in if rc \<noteq> 0 then (case sdo_fail be st1 r rc abort slave index sub of (st2, o1) \<Rightarrow> (st2, w1, calls, o1))
                  else if ty \<noteq> ECM_CT_RAW \<and> size \<noteq> ecm_ctl_type_size ty
                  then (st1\<lparr>st_errors := st_errors st1 + 1\<rparr>, w1, calls,
                        rend (put [head r False,
                          rf ('',\"error\":\"size_mismatch\",\"msg\":\"'' @ ecm_ctl_type_name ty @ '' is '' @ dec (ecm_ctl_type_size ty) @
                              '' bytes, the object has '' @ dec size @ ''\",\"size\":'' @ dec size @ '',\"raw\":''),
                          rhex b, rs ''}''] (rw_init (rq_cap r))))
                  else (st1\<lparr>st_ok := st_ok st1 + 1\<rparr>, w1, calls,
                        rend (put (
                          [sdo_head r slave index sub ty, rf ('',\"size\":'' @ dec size @ '',\"raw\":''), rhex b] @
                          (if ty \<noteq> ECM_CT_RAW \<and> ecm_ctl_decode_json fp ty b 64 \<noteq> []
                           then [rs '',\"value\":'', rs (ecm_ctl_decode_json fp ty b 64)] else []) @
                          [rf ('',\"ms\":'' @ fp_ms fp dt @ ''}'')]) (rw_init (rq_cap r))))))"

definition refuse :: "'d ecm_ctl_state \<Rightarrow> req \<Rightarrow> string \<Rightarrow> string \<Rightarrow> 'd ecm_ctl_state \<times> string" where
  "refuse st r code msg = fail (st\<lparr>st_refused_writes := st_refused_writes st + 1\<rparr>) r code (fit 256 msg)"

text \<open>
  Everything before an SDO write: the first check that fails gives whether it counts as a
  refusal, the error code and the message; otherwise the object, its type and the value.
\<close>

definition write_gate :: "'d fp \<Rightarrow> 'w ecm_ctl_backend \<Rightarrow> 'd ecm_ctl_allowlist option \<Rightarrow> 'w \<Rightarrow> req \<Rightarrow>
    (bool \<times> string \<times> string) + nat \<times> u16 \<times> u8 \<times> ecm_ctype \<times> 'd ecm_ctl_val" where
  "write_gate fp be al w r =
    (case sdo_args r True of
       Inl e \<Rightarrow> Inl (False, ''bad_request'', e)
     | Inr (slave, index, sub, ty) \<Rightarrow>
         if ty = ECM_CT_RAW then Inl (False, ''bad_request'', ''sdo_write needs a numeric type, not raw'')
         else
          (case Option.bind (ecm_json_get (rq_s r) (rq_t r) 0 ''value'') (\<lambda>v. tok_val fp (rq_s r) (rq_t r ! v) ty) of
             None \<Rightarrow> Inl (False, ''bad_request'', ''\"value\": a '' @ ecm_ctl_type_name ty @ '' number required'')
           | Some val \<Rightarrow>
          (case be_identity be w slave of
             None \<Rightarrow> Inl (False, ''no_slave'', ''no slave '' @ dec slave)
           | Some (vendor, product) \<Rightarrow>
          if comm_area index
          then Inl (True, ''denied_comm_area'', ''0x'' @ hexw 4 (unat index) @ '': the communication area 0x1000..0x1FFF is never written '' @
                      ''through the API (PDO mapping/assignment, sync manager, sync)'')
          else
          (case (case be_deny be of None \<Rightarrow> None | Some d \<Rightarrow> d w slave index sub) of
             Some why \<Rightarrow> Inl (True, ''denied_hard'', ''slave '' @ dec slave @ '' '' @ addr index sub @ '': '' @ why)
           | None \<Rightarrow>
          if be_rxpdo be w slave index sub < 0
          then Inl (True, ''denied_no_pdo_table'', ''the PDO table is not known (no --eni / --pdo-scan): '' @
                      ''no write can be shown not to be in an RxPDO'')
          else if be_rxpdo be w slave index sub > 0
          then Inl (True, ''denied_rxpdo'', ''slave '' @ dec slave @ '' '' @ addr index sub @ '' is mapped in its RxPDO: the master '' @
                      ''writes it every cycle'')
          else if (case be_initcmd be of None \<Rightarrow> False | Some f \<Rightarrow> f w slave index sub > 0)
          then Inl (True, ''denied_initcmd'', ''slave '' @ dec slave @ '' '' @ addr index sub @
                      '' is written by the ENI (CoE InitCmd): its value '' @ ''is part of the configuration'')
          else
          (case allow_find al vendor product index sub of
             None \<Rightarrow> Inl (True, ''not_allowed'', ''slave '' @ dec slave @ '' (vendor 0x'' @ hexw 8 (unat vendor) @ '' product 0x'' @
                       hexw 8 (unat product) @ '') '' @ addr index sub @ '' is not in the allowlist'' @
                       (case al of None \<Rightarrow> '' (none loaded)''
                        | Some l \<Rightarrow> if al_path l \<noteq> [] then '' '' @ al_path l else '' (none loaded)''))
           | Some a \<Rightarrow>
          if ca_type a \<noteq> ty
          then Inl (True, ''type_mismatch'', ''the allowlist gives '' @ ecm_ctl_type_name (ca_type a) @ '' for '' @ addr index sub)
          else if \<not> ecm_ctl_val_fits fp ty val \<or> ecm_ctl_val_cmp fp ty val (ca_min a) < 0 \<or> ecm_ctl_val_cmp fp ty val (ca_max a) > 0
          then Inl (True, ''out_of_range'', addr index sub @ '': value outside '' @
                      rw_b (put [rs ''['', rval fp ty (ca_min a), rs '', '', rval fp ty (ca_max a), rs '']''] (rw_init 160)))
          else
          (case be_ready be w slave of
             Some why \<Rightarrow> Inl (False, ''not_ready'', why)
           | None \<Rightarrow> Inr (slave, index, sub, ty, val)))))))"

definition readback :: "'d fp \<Rightarrow> ecm_ctype \<Rightarrow> u8 list \<Rightarrow> int \<Rightarrow> u8 list \<Rightarrow> (rw \<Rightarrow> rw) list" where
  "readback fp ty b rrc rb =
    (if rrc \<noteq> 0
     then [rf ('',\"readback\":null,\"readback_ok\":false,\"readback_error\":\"'' @
               (if rrc = ECM_CTL_SDO_FAILED then ''sdo_failed'' else if rrc = ECM_CTL_SDO_TIMEOUT then ''timeout''
                else if rrc = ECM_CTL_SDO_NO_MBX then ''no_mailbox'' else ''busy'') @ ''\"'')]
     else [rs '',\"readback\":'', rs (case ecm_ctl_decode_json fp ty rb 64 of [] \<Rightarrow> ''null'' | x # xs \<Rightarrow> x # xs),
           rf ('',\"readback_ok\":'' @ (if rb = b then ''true'' else ''false''))])"

definition cmd_sdo_write :: "'d fp \<Rightarrow> 'w ecm_ctl_backend \<Rightarrow> 'd ecm_ctl_allowlist option \<Rightarrow> 'd ecm_ctl_state \<Rightarrow> 'w \<Rightarrow> req \<Rightarrow> ('d, 'w) ctl_res" where
  "cmd_sdo_write fp be al st w r =
    (case write_gate fp be al w r of
       Inl (refused, code, msg) \<Rightarrow>
         reply_only w (if refused then refuse st r code msg else fail st r code msg)
     | Inr (slave, index, sub, ty, val) \<Rightarrow>
         let b = (case ecm_ctl_encode fp ty val of Some x \<Rightarrow> x | None \<Rightarrow> []);
             (w1, rc, abort) = be_sdo_write be w slave index sub b;
             st1 = st\<lparr>st_sdo_writes := st_sdo_writes st + 1\<rparr>
         in if rc \<noteq> 0
            then (case sdo_fail be (time_max (be_mono_ns be w1 - be_mono_ns be w) st1) r rc abort slave index sub of
                    (st2, o1) \<Rightarrow> (st2, w1, [CallWrite slave index sub b], o1))
            else
             let (w2, rrc, rb, rabort) = be_sdo_read be w1 slave index sub;
                 dt = be_mono_ns be w2 - be_mono_ns be w;
                 st2 = (time_max dt st1)\<lparr>st_sdo_reads := st_sdo_reads st1 + 1, st_ok := st_ok st1 + 1\<rparr>
             in (st2, w2, [CallWrite slave index sub b, CallRead slave index sub],
                 rend (put (
                   [sdo_head r slave index sub ty, rs '',\"written\":'', rval fp ty val, rs '',\"raw\":'', rhex b] @
                   readback fp ty b rrc rb @ [rf ('',\"ms\":'' @ fp_ms fp dt @ ''}'')]) (rw_init (rq_cap r)))))"

definition info_entry :: "'d fp \<Rightarrow> bool \<Rightarrow> 'd ecm_ctl_allow \<Rightarrow> (rw \<Rightarrow> rw) list" where
  "info_entry fp first e =
    [rf ((if first then [] else '','') @ ''{\"vendor\":\"0x'' @ hexw 8 (unat (ca_vendor e)) @ ''\",\"product\":\"0x'' @
         hexw 8 (unat (ca_product e)) @ ''\",\"index\":\"0x'' @ hexw 4 (unat (ca_index e)) @ ''\",\"sub\":'' @ dec (unat (ca_sub e)) @
         '',\"type\":\"'' @ ecm_ctl_type_name (ca_type e) @ ''\",\"min\":''),
     rval fp (ca_type e) (ca_min e), rs '',\"max\":'', rval fp (ca_type e) (ca_max e),
     rs '',\"note\":'', rstr (ca_note e), rs ''}'']"

definition info_put :: "'w ecm_ctl_backend \<Rightarrow> 'w \<Rightarrow> rw \<Rightarrow> rw" where
  "info_put be w o1 =
    (case be_info be of
       None \<Rightarrow> o1
     | Some f \<Rightarrow>
         if length (rw_b o1) < rw_cap o1
         then let room = rw_cap o1 - length (rw_b o1) - 2; x = f w room in
              if length x \<ge> room then o1\<lparr>rw_ovf := True\<rparr> else rs '','' (o1\<lparr>rw_b := rw_b o1 @ x\<rparr>)
         else o1)"

definition cmd_info :: "'d fp \<Rightarrow> 'w ecm_ctl_backend \<Rightarrow> 'd ecm_ctl_allowlist option \<Rightarrow> 'd ecm_ctl_state \<Rightarrow> 'w \<Rightarrow> req \<Rightarrow> ('d, 'w) ctl_res" where
  "cmd_info fp be al st w r =
    (let es = (case al of None \<Rightarrow> [] | Some l \<Rightarrow> al_e l);
         o1 = put (
           [head r True, rs '',\"info\":{'', info_put be w,
            rf (''\"ctl\":{\"version\":1,\"max_clients\":4,\"rate_per_s\":20,\"line_max\":1024,'' @
                ''\"cmds\":'' @ dec (unat (st_cmds st)) @ '',\"errors\":'' @ dec (unat (st_errors st)) @
                '',\"rate_limited\":'' @ dec (unat (st_rate_limited st)) @ '',\"refused_writes\":'' @ dec (unat (st_refused_writes st)) @
                '',\"sdo_reads\":'' @ dec (unat (st_sdo_reads st)) @ '',\"sdo_writes\":'' @ dec (unat (st_sdo_writes st)) @
                '',\"sdo_ms_max\":'' @ fp_ms fp (st_sdo_ns_max st) @ ''}''),
            rs '',\"allow\":{\"path\":'',
            (case al of None \<Rightarrow> rs ''null'' | Some l \<Rightarrow> if al_path l \<noteq> [] then rstr (al_path l) else rs ''null''),
            rs '',\"entries\":[''] @
           concat (map (\<lambda>i. info_entry fp (i = 0) (es ! i)) [0..<length es]) @
           [rs '']}}}'']) (rw_init (rq_cap r))
     in if rw_ovf o1
        then reply_only w (fail st r ''too_large'' (''info does not fit in '' @ dec (rq_cap r) @ '' bytes''))
        else (st\<lparr>st_ok := st_ok st + 1\<rparr>, w, [], rend o1))"

definition cmd_dump :: "'w ecm_ctl_backend \<Rightarrow> 'd ecm_ctl_state \<Rightarrow> 'w \<Rightarrow> req \<Rightarrow> ('d, 'w) ctl_res" where
  "cmd_dump be st w r =
    (case be_dump be of
       None \<Rightarrow> reply_only w (fail st r ''dump_failed'' ''not available'')
     | Some f \<Rightarrow>
         let (w1, rc, m) = f w in
         if rc < 0 then reply_only w1 (fail st r ''dump_failed'' m)
         else (st\<lparr>st_ok := st_ok st + 1\<rparr>, w1, [], rend (put [head r True, rs '','', rs m, rs ''}''] (rw_init (rq_cap r)))))"

text \<open>The token bucket: what has passed since the last line is added, up to the rate.\<close>

definition refill :: "'d fp \<Rightarrow> u64 \<Rightarrow> 'd ecm_ctl_state \<Rightarrow> 'd ecm_ctl_state" where
  "refill fp now st =
    (let rate = fp_of_i fp (int ECM_CTL_RATE);
         st1 = (if st_last_ns st \<noteq> 0
                then let dt = fp_mul fp (fp_of_u fp (now - st_last_ns st)) (fp_nano fp);
                         x = fp_add fp (st_tokens st) (fp_mul fp dt rate)
                     in st\<lparr>st_tokens := if fp_less fp rate x then rate else x\<rparr>
                else st)
     in st1\<lparr>st_last_ns := now\<rparr>)"

text \<open>The raw text of "id": \<open>Some\<close> of it when usable, "null" without one, \<open>None\<close> when bad.\<close>

definition req_id :: "string \<Rightarrow> ecm_jtok list \<Rightarrow> string option" where
  "req_id line t =
    (case ecm_json_get line t 0 ''id'' of
       None \<Rightarrow> Some ''null''
     | Some iv \<Rightarrow>
         let k = t ! iv; str = (jt_type k = ECM_J_STR);
             a = (if str then jt_start k - 1 else jt_start k); b = (if str then jt_end k + 1 else jt_end k)
         in if (jt_type k = ECM_J_NUM \<or> str \<or> jt_type k = ECM_J_NULL) \<and> b - a < 72
            then Some (cstr (take (b - a) (drop a line))) else None)"

definition ecm_ctl_handle :: "'d fp \<Rightarrow> 'w ecm_ctl_backend \<Rightarrow> 'd ecm_ctl_allowlist option \<Rightarrow> 'd ecm_ctl_state \<Rightarrow> 'w \<Rightarrow> string \<Rightarrow> u64 \<Rightarrow>
    nat \<Rightarrow> ('d, 'w) ctl_res option" where
  "ecm_ctl_handle fp be al st0 w line now cap =
    (case ecm_json_parse line 64 of
       None \<Rightarrow> None
     | Some (n, pos, t) \<Rightarrow>
         let st1 = refill fp now (st0\<lparr>st_cmds := st_cmds st0 + 1\<rparr>);
             id = (if n > 0 \<and> jt_type (t ! 0) = ECM_J_OBJ then req_id line t else Some ''null'');
             r = \<lparr>rq_s = line, rq_t = t, rq_id = (case id of Some x \<Rightarrow> x | None \<Rightarrow> ''null''), rq_cap = cap\<rparr>;
             bad = (\<lambda>st code msg. reply_only w (fail st r code msg)) in
         Some (
          if fp_less fp (st_tokens st1) (fp_of_i fp 1)
          then bad (st1\<lparr>st_rate_limited := st_rate_limited st1 + 1\<rparr>) ''rate_limited'' (''more than '' @ dec ECM_CTL_RATE @ '' commands per second'')
          else
           let st = st1\<lparr>st_tokens := fp_sub fp (st_tokens st1) (fp_of_i fp 1)\<rparr> in
           if id = None then bad st ''bad_request'' (''\"id\": a number or a string of at most '' @ dec 69 @ '' characters'')
           else if n < 0
           then bad st ''bad_request'' ((if n = - 2 then ''too many JSON tokens'' else if n = - 3 then ''nested too deep'' else ''not JSON'') @
                  '' at byte '' @ dec pos)
           else if jt_type (t ! 0) \<noteq> ECM_J_OBJ then bad st ''bad_request'' ''one JSON object per line''
           else
            (case get_str line t 0 ''cmd'' 24 of
               None \<Rightarrow> bad st ''bad_request'' ''\"cmd\" required''
             | Some cmd \<Rightarrow>
                 if cmd = ''info'' then cmd_info fp be al st w r
                 else if cmd = ''sdo_read'' then cmd_sdo_read fp be st w r
                 else if cmd = ''sdo_write'' then cmd_sdo_write fp be al st w r
                 else if cmd = ''diag_dump'' then cmd_dump be st w r
                 else bad st ''unknown_cmd'' (cmd @ '': info | sdo_read | sdo_write | diag_dump''))))"

section \<open>Values\<close>

text \<open>The number a byte sequence stands for in an integer type.\<close>

definition int_value :: "ecm_ctype \<Rightarrow> u8 list \<Rightarrow> int" where
  "int_value t b = (let raw = uint (le_value b) in
     if is_signed t then signed_take_bit (8 * ecm_ctl_type_size t - 1) raw else raw)"

definition val_int :: "ecm_ctype \<Rightarrow> 'd ecm_ctl_val \<Rightarrow> int" where
  "val_int t v = (if is_signed t then as_i v else uint (as_u v))"

lemma type_sizes [simp]:
  "ecm_ctl_type_size ECM_CT_U8 = 1" "ecm_ctl_type_size ECM_CT_I8 = 1" "ecm_ctl_type_size ECM_CT_U16 = 2"
  "ecm_ctl_type_size ECM_CT_I16 = 2" "ecm_ctl_type_size ECM_CT_U32 = 4" "ecm_ctl_type_size ECM_CT_I32 = 4"
  "ecm_ctl_type_size ECM_CT_U64 = 8" "ecm_ctl_type_size ECM_CT_I64 = 8" "ecm_ctl_type_size ECM_CT_F32 = 4"
  by (simp_all add: ecm_ctl_type_size_def TYPES_def)

lemma le_value_aux:
  "m \<le> n \<Longrightarrow> n \<le> 8 \<Longrightarrow>
   fold (\<lambda>i r. r OR push_bit (8 * i) (ucast (le_bytes n raw ! i))) [0..<m] 0 = take_bit (8 * m) raw"
proof (induction m)
  case (Suc m)
  have b: "bit (le_bytes n raw ! m) j \<longleftrightarrow> j < 8 \<and> bit raw (8 * m + j)" for j
    using Suc.prems by (auto simp: le_bytes_def bit_simps)
  show ?case
    using Suc by (auto simp: bit_eq_iff bit_simps b)
qed simp

lemma le_value_bytes: "n \<le> 8 \<Longrightarrow> le_value (le_bytes n raw) = take_bit (8 * n) raw"
  using le_value_aux [of n n raw] by (simp add: le_value_def le_bytes_def)

lemma signed_value:
  assumes "0 < n" "n \<le> 8" "- (2 ^ (8 * n - 1)) \<le> x" "x < 2 ^ (8 * n - 1)"
  shows "signed_take_bit (8 * n - 1) (uint (le_value (le_bytes n (of_int x)))) = x"
proof -
  have "uint (le_value (le_bytes n (of_int x))) = take_bit (8 * n) x"
    using assms(2) by (simp add: le_value_bytes unsigned_take_bit_eq unsigned_of_int min_def)
  moreover have "\<not> 8 * n \<le> 8 * n - 1" using assms(1) by linarith
  ultimately show ?thesis using assms by (simp add: signed_take_bit_take_bit signed_take_bit_int_eq_self)
qed

lemma unsigned_value:
  assumes "n \<le> 8" "unat x < 2 ^ (8 * n)"
  shows "uint (le_value (le_bytes n x)) = uint x"
proof -
  have "take_bit (8 * n) (unat x) = unat x" using assms(2) by (simp add: take_bit_nat_eq_self)
  then have "unat (le_value (le_bytes n x)) = unat x" using assms(1) by (simp add: le_value_bytes unsigned_take_bit_eq)
  then show ?thesis by (simp add: word_unat_eq_iff [symmetric])
qed

text \<open>The 64-bit members hold 64-bit numbers.\<close>

definition val_ok :: "'d ecm_ctl_val \<Rightarrow> bool" where
  "val_ok v = (case v of VI i \<Rightarrow> - (2 ^ 63) \<le> i \<and> i < 2 ^ 63 | _ \<Rightarrow> True)"

lemma as_i_range: "val_ok v \<Longrightarrow> - (2 ^ 63) \<le> as_i v \<and> as_i v < 2 ^ 63"
  using signed_take_bit_int_less_exp [of 63] signed_take_bit_int_greater_eq_minus_exp [of 63]
  by (auto simp: val_ok_def as_i_def split: ecm_ctl_val.splits)

lemma fits_signed:
  assumes "ecm_ctl_val_fits fp t v" "is_signed t" "val_ok v" "n = 8 * ecm_ctl_type_size t - 1"
  shows "- (2 ^ n) \<le> as_i v \<and> as_i v < 2 ^ n"
proof (cases "t = ECM_CT_I64")
  case True
  then show ?thesis using as_i_range [OF assms(3)] assms(4) by simp
next
  case False
  have u: "as_i (VU u) = uint u" if "u \<le> 0x7FFFFFFFFFFFFFFF" for u
    using that signed_take_bit_int_eq_self [of 63 "uint u"] uint_ge_0 [of u] by (simp add: as_i_def word_le_def)
  show ?thesis using assms False u
    by (auto simp: ecm_ctl_val_fits_def is_signed_def as_i_def Let_def split: ecm_ctl_val.splits option.splits if_splits)
qed

lemma fits_unsigned:
  assumes "ecm_ctl_val_fits fp t v" "is_unsigned t"
  shows "unat (as_u v) < 2 ^ (8 * ecm_ctl_type_size t)"
proof -
  have b: "unat (as_u v) < 2 ^ 64" using unat_bound [of "as_u v"] by simp
  then show ?thesis using assms
    by (auto simp: ecm_ctl_val_fits_def is_unsigned_def is_signed_def as_u_def Let_def word_le_nat_alt
      split: ecm_ctl_val.splits option.splits if_splits)
qed

lemma encode_int:
  assumes "ecm_ctl_encode fp t v = Some b" "is_signed t \<or> is_unsigned t" "val_ok v"
  shows "length b = ecm_ctl_type_size t \<and> int_value t b = val_int t v"
proof -
  have f: "ecm_ctl_val_fits fp t v" using assms(1) by (simp add: ecm_ctl_encode_def split: if_splits)
  have t: "t \<noteq> ECM_CT_F32" "0 < ecm_ctl_type_size t" "ecm_ctl_type_size t \<le> 8"
    using assms(2) by (auto simp: is_signed_def is_unsigned_def)
  show ?thesis
  proof (cases "is_signed t")
    case True
    then have b: "b = le_bytes (ecm_ctl_type_size t) (of_int (as_i v))" using assms(1) f t by (simp add: ecm_ctl_encode_def)
    then show ?thesis using fits_signed [OF f True assms(3) refl] signed_value [OF t(2,3)] True
      by (simp add: int_value_def val_int_def le_bytes_def)
  next
    case False
    then have u: "is_unsigned t" and b: "b = le_bytes (ecm_ctl_type_size t) (as_u v)"
      using assms(1,2) f t by (auto simp: ecm_ctl_encode_def)
    then show ?thesis using unsigned_value [OF t(3) fits_unsigned [OF f u]] False
      by (simp add: int_value_def val_int_def le_bytes_def)
  qed
qed


section \<open>What a write needs\<close>

lemma cmp3_le [simp]: "0 \<le> cmp3 (<) a b \<longleftrightarrow> b \<le> a" "cmp3 (<) a b \<le> 0 \<longleftrightarrow> a \<le> b" for a b :: "'a::linorder"
  by (auto simp: cmp3_def)

lemma tok_val_ok: "tok_val fp s k t = Some v \<Longrightarrow> val_ok v"
  using strtol_range
  by (auto simp: tok_val_def val_ok_def ecm_json_i64_def Let_def split: if_splits option.splits)

text \<open>
  What must hold of an SDO write in world \<open>w\<close>: a slave that exists, an object outside the
  communication area that is neither on the application's list, nor mapped in an RxPDO, nor
  written by the ENI; an entry of the allow list for exactly this object of this device; bytes
  that encode a value of the entry's type, for an integer type a number within its limits; and
  a slave that may be accessed now.
\<close>

definition write_authorized :: "'d fp \<Rightarrow> 'w ecm_ctl_backend \<Rightarrow> 'd ecm_ctl_allowlist option \<Rightarrow> 'w \<Rightarrow> nat \<Rightarrow> u16 \<Rightarrow> u8 \<Rightarrow> u8 list \<Rightarrow> bool" where
  "write_authorized fp be al w slave index sub b \<longleftrightarrow>
     (\<exists>vendor product l a val.
        be_identity be w slave = Some (vendor, product) \<and> \<not> (0x1000 \<le> index \<and> index \<le> 0x1FFF) \<and>
        (\<forall>d. be_deny be = Some d \<longrightarrow> d w slave index sub = None) \<and>
        be_rxpdo be w slave index sub = 0 \<and>
        (\<forall>f. be_initcmd be = Some f \<longrightarrow> f w slave index sub \<le> 0) \<and>
        al = Some l \<and> a \<in> set (al_e l) \<and>
        ca_vendor a = vendor \<and> ca_product a = product \<and> ca_index a = index \<and> ca_sub a = sub \<and>
        ecm_ctl_encode fp (ca_type a) val = Some b \<and>
        (is_signed (ca_type a) \<or> is_unsigned (ca_type a) \<longrightarrow>
           length b = ecm_ctl_type_size (ca_type a) \<and>
           val_int (ca_type a) (ca_min a) \<le> int_value (ca_type a) b \<and> int_value (ca_type a) b \<le> val_int (ca_type a) (ca_max a)) \<and>
        (ca_type a = ECM_CT_F32 \<longrightarrow>
           \<not> fp_less fp (as_d fp val) (as_d fp (ca_min a)) \<and> \<not> (0 < cmp3 (fp_less fp) (as_d fp val) (as_d fp (ca_max a)))) \<and>
        be_ready be w slave = None)"

lemma write_gate_Inr:
  assumes "write_gate fp be al w r = Inr (slave, index, sub, ty, val)"
  shows "\<exists>vendor product a. be_identity be w slave = Some (vendor, product) \<and> \<not> comm_area index \<and>
    (\<forall>d. be_deny be = Some d \<longrightarrow> d w slave index sub = None) \<and> be_rxpdo be w slave index sub = 0 \<and>
    (\<forall>f. be_initcmd be = Some f \<longrightarrow> f w slave index sub \<le> 0) \<and> allow_find al vendor product index sub = Some a \<and>
    ca_type a = ty \<and> ecm_ctl_val_fits fp ty val \<and> \<not> ecm_ctl_val_cmp fp ty val (ca_min a) < 0 \<and>
    \<not> 0 < ecm_ctl_val_cmp fp ty val (ca_max a) \<and> be_ready be w slave = None \<and> val_ok val"
  using assms unfolding write_gate_def
  by (auto split: sum.splits prod.splits option.splits if_splits simp: bind_eq_Some_conv tok_val_ok)

lemma fits_encode: "ecm_ctl_val_fits fp t v \<Longrightarrow> \<exists>b. ecm_ctl_encode fp t v = Some b"
  by (simp add: ecm_ctl_encode_def)

lemma allow_find_Some:
  assumes "allow_find al vendor product index sub = Some a"
  shows "\<exists>l. al = Some l \<and> a \<in> set (al_e l) \<and> same_object a vendor product index sub"
  using assms by (auto simp: allow_find_def find_Some_iff split: option.splits)

lemma gate_authorized:
  assumes "write_gate fp be al w r = Inr (slave, index, sub, ty, val)" "ecm_ctl_encode fp ty val = Some b"
  shows "write_authorized fp be al w slave index sub b"
proof -
  obtain vendor product a where g: "be_identity be w slave = Some (vendor, product)" "\<not> comm_area index"
    "\<forall>d. be_deny be = Some d \<longrightarrow> d w slave index sub = None" "be_rxpdo be w slave index sub = 0"
    "\<forall>f. be_initcmd be = Some f \<longrightarrow> f w slave index sub \<le> 0" "allow_find al vendor product index sub = Some a"
    "ca_type a = ty" "be_ready be w slave = None" "val_ok val"
    and c: "\<not> ecm_ctl_val_cmp fp ty val (ca_min a) < 0" "\<not> 0 < ecm_ctl_val_cmp fp ty val (ca_max a)"
    using write_gate_Inr [OF assms(1)] by blast
  obtain l where l: "al = Some l" "a \<in> set (al_e l)" "same_object a vendor product index sub"
    using allow_find_Some [OF g(6)] by blast
  have i: "length b = ecm_ctl_type_size ty \<and> val_int ty (ca_min a) \<le> int_value ty b \<and> int_value ty b \<le> val_int ty (ca_max a)"
    if "is_signed ty \<or> is_unsigned ty"
    using encode_int [OF assms(2) that g(9)] c that
    by (auto simp: ecm_ctl_val_cmp_def val_int_def word_le_def not_less is_signed_def is_unsigned_def)
  have f: "\<not> fp_less fp (as_d fp val) (as_d fp (ca_min a)) \<and> \<not> 0 < cmp3 (fp_less fp) (as_d fp val) (as_d fp (ca_max a))"
    if "ty = ECM_CT_F32"
    using c that by (auto simp: ecm_ctl_val_cmp_def is_signed_def is_unsigned_def cmp3_def split: if_splits)
  show ?thesis unfolding write_authorized_def
    by (rule exI [of _ vendor], rule exI [of _ product], rule exI [of _ l], rule exI [of _ a], rule exI [of _ val])
      (use g l i f assms(2) in \<open>auto simp: same_object_def comm_area_def\<close>)
qed

lemma cmd_sdo_write_calls:
  assumes "cmd_sdo_write fp be al st w r = (st', w', calls, x)"
  shows "calls = [] \<or> (\<exists>slave index sub b. write_authorized fp be al w slave index sub b \<and>
    (calls = [CallWrite slave index sub b] \<or> calls = [CallWrite slave index sub b, CallRead slave index sub]))"
proof (cases "write_gate fp be al w r")
  case (Inl e)
  then show ?thesis using assms by (auto simp: cmd_sdo_write_def reply_only_def split: prod.splits)
next
  case (Inr z)
  obtain slave index sub ty val where z: "z = (slave, index, sub, ty, val)" by (cases z)
  obtain b where b: "ecm_ctl_encode fp ty val = Some b"
    using write_gate_Inr [OF Inr [unfolded z]] fits_encode by blast
  show ?thesis using assms gate_authorized [OF Inr [unfolded z] b] unfolding cmd_sdo_write_def Inr z
    by (auto simp: b Let_def split: prod.splits if_splits)
qed

lemma cmd_read_calls:
  "cmd_sdo_read fp be st w r = (st', w', calls, x) \<Longrightarrow> CallWrite a i s b \<notin> set calls"
  by (auto simp: cmd_sdo_read_def reply_only_def Let_def split: sum.splits prod.splits option.splits if_splits)

lemma cmd_info_calls: "cmd_info fp be al st w r = (st', w', calls, x) \<Longrightarrow> calls = []"
  unfolding cmd_info_def reply_only_def Let_def by (auto split: prod.splits if_splits)

lemma cmd_dump_calls: "cmd_dump be st w r = (st', w', calls, x) \<Longrightarrow> calls = []"
  by (auto simp: cmd_dump_def reply_only_def Let_def split: prod.splits option.splits if_splits)

text \<open>The commands a line can lead to: one of the four handlers, or an error reply and nothing else.\<close>

lemma handle_cases:
  fixes st :: "'d ecm_ctl_state"
  assumes "ecm_ctl_handle fp be al st w line now cap = Some (st', w', calls, x)"
  shows "\<exists>st1 r. rq_s r = line \<and> rq_cap r = cap \<and> (\<exists>n pos. ecm_json_parse line 64 = Some (n, pos, rq_t r)) \<and>
    ((\<exists>code msg. fail st1 r code msg = (st', x) \<and> w' = w \<and> calls = []) \<or>
     cmd_info fp be al st1 w r = (st', w', calls, x) \<or> cmd_sdo_read fp be st1 w r = (st', w', calls, x) \<or>
     cmd_sdo_write fp be al st1 w r = (st', w', calls, x) \<or> cmd_dump be st1 w r = (st', w', calls, x))"
proof -
  obtain n pos t where p: "ecm_json_parse line 64 = Some (n, pos, t)"
    using assms by (auto simp: ecm_ctl_handle_def split: option.splits)
  define r where "r = \<lparr>rq_s = line, rq_t = t, rq_id = (case (if n > 0 \<and> jt_type (t ! 0) = ECM_J_OBJ then req_id line t else Some ''null'') of
    Some x \<Rightarrow> x | None \<Rightarrow> ''null''), rq_cap = cap\<rparr>"
  have r: "rq_s r = line" "rq_cap r = cap" "rq_t r = t" by (simp_all add: r_def)
  have b: "reply_only w (fail st r code msg) = (st', w', calls, x) \<longleftrightarrow> fail st r code msg = (st', x) \<and> w' = w \<and> calls = []"
    for st :: "'d ecm_ctl_state" and code msg by (auto simp: reply_only_def)
  define P where "P res \<longleftrightarrow> (\<exists>st1. (\<exists>code msg. res = reply_only w (fail st1 r code msg)) \<or> res = cmd_info fp be al st1 w r \<or>
     res = cmd_sdo_read fp be st1 w r \<or> res = cmd_sdo_write fp be al st1 w r \<or> res = cmd_dump be st1 w r)" for res
  have P: "P (reply_only w (fail st1 r code msg))" "P (cmd_info fp be al st1 w r)" "P (cmd_sdo_read fp be st1 w r)"
    "P (cmd_sdo_write fp be al st1 w r)" "P (cmd_dump be st1 w r)" for st1 code msg unfolding P_def by blast+
  have "P (st', w', calls, x)"
    using assms unfolding ecm_ctl_handle_def p option.case prod.case Let_def r_def [symmetric]
    by (elim option.inject [THEN iffD1, elim_format]) (erule subst, simp only: split: if_split option.split, intro conjI impI allI P)
  then have "\<exists>st1. (\<exists>code msg. reply_only w (fail st1 r code msg) = (st', w', calls, x)) \<or>
     cmd_info fp be al st1 w r = (st', w', calls, x) \<or> cmd_sdo_read fp be st1 w r = (st', w', calls, x) \<or>
     cmd_sdo_write fp be al st1 w r = (st', w', calls, x) \<or> cmd_dump be st1 w r = (st', w', calls, x)"
    unfolding P_def by metis
  then show ?thesis unfolding b using p r by blast
qed


text \<open>C37. The only way to an SDO write: whatever the request line, the state and the backend,
  a write the handler asks for is authorised, it is the first transfer of the request and the
  only write, and at most the read-back of the same object follows. For an integer type the
  bytes sent stand for a number within the limits of the allow list entry.\<close>

theorem ctl_write_authorized:
  assumes "ecm_ctl_handle fp be al st w line now cap = Some (st', w', calls, x)"
    and "CallWrite slave index sub b \<in> set calls"
  shows "write_authorized fp be al w slave index sub b \<and>
    (calls = [CallWrite slave index sub b] \<or> calls = [CallWrite slave index sub b, CallRead slave index sub])"
proof -
  obtain st1 r where "cmd_sdo_write fp be al st1 w r = (st', w', calls, x)"
    using handle_cases [OF assms(1)] assms(2) cmd_info_calls cmd_read_calls cmd_dump_calls by fastforce
  then show ?thesis using cmd_sdo_write_calls assms(2) by fastforce
qed

section \<open>Witness of a write\<close>

definition demo_fp :: "int fp" where
  "demo_fp = \<lparr>fp_of_i = (\<lambda>i. i), fp_of_u = uint, fp_strtod = (\<lambda>s. (0, True, s)), fp_finite = (\<lambda>_. True),
    fp_f32_range = (\<lambda>d. \<bar>d\<bar> \<le> 2 ^ 127), fp_less = (<), fp_f32 = of_int, fp_9g = dec_int, fp_f32_9g = (\<lambda>u. Some (dec (unat u))),
    fp_ms = (\<lambda>u. dec (unat u div 1000000) @ ''.0''), fp_add = (+), fp_sub = (-), fp_mul = (*), fp_nano = 0\<rparr>"

text \<open>One slave whose object 0x2001:0 is stored in the world.\<close>

definition demo_be :: "u8 list ecm_ctl_backend" where
  "demo_be = \<lparr>be_identity = (\<lambda>w s. if s = 1 then Some (0x2E, 7) else None), be_deny = Some (\<lambda>w s i b. if i = 0x6040 then Some ''controlword'' else None),
    be_rxpdo = (\<lambda>w s i b. 0), be_initcmd = None, be_ready = (\<lambda>w s. None), be_sdo_read = (\<lambda>w s i b. (w, 0, w, 0)),
    be_sdo_write = (\<lambda>w s i b d. (d, 0, 0)), be_abort_text = None, be_info = None, be_dump = None, be_mono_ns = (\<lambda>w. 0)\<rparr>"

definition demo_al :: "int ecm_ctl_allowlist" where
  "demo_al = \<lparr>al_path = ''a'', al_e = [\<lparr>ca_vendor = 0x2E, ca_product = 7, ca_index = 0x2001, ca_sub = 0, ca_type = ECM_CT_U8,
    ca_min = VU 1, ca_max = VU 9, ca_note = []\<rparr>]\<rparr>"

definition demo_write :: string where
  "demo_write = ''{\"cmd\":\"sdo_write\",\"slave\":1,\"index\":8193,\"sub\":0,\"type\":\"u8\",\"value\":5}''"

lemma json_value_numeral: "json_value (numeral k) = json_value (Suc (pred_numeral k))"
  and json_members_numeral: "json_members (numeral k) = json_members (Suc (pred_numeral k))"
  by (simp_all add: numeral_eq_Suc)

abbreviation (input) jt :: "ecm_jtype \<Rightarrow> nat \<Rightarrow> nat \<Rightarrow> nat \<Rightarrow> int \<Rightarrow> ecm_jtok" where
  "jt ty a b n p \<equiv> \<lparr>jt_type = ty, jt_start = a, jt_end = b, jt_size = n, jt_parent = p\<rparr>"

definition demo_toks :: "ecm_jtok list" where
  "demo_toks = [
    jt ECM_J_OBJ 0 72 12 (- 1), jt ECM_J_STR 2 5 0 0, jt ECM_J_STR 8 17 0 0,
    jt ECM_J_STR 20 25 0 0, jt ECM_J_NUM 27 28 0 0, jt ECM_J_STR 30 35 0 0,
    jt ECM_J_NUM 37 41 0 0, jt ECM_J_STR 43 46 0 0, jt ECM_J_NUM 48 49 0 0,
    jt ECM_J_STR 51 55 0 0, jt ECM_J_STR 58 60 0 0, jt ECM_J_STR 63 68 0 0,
    jt ECM_J_NUM 70 71 0 0]"

lemma demo_write_parse: "ecm_json_parse demo_write 64 = Some (13, 72, demo_toks)"
  by (simp add: demo_write_def demo_toks_def json_eval json_value_numeral json_members_numeral)

lemma walk_numeral:
  "get_loop (numeral m) s t i key =
    (if i + 1 \<ge> length t then None
     else if jt_type (t ! i) = ECM_J_STR \<and> tok_text s (t ! i) = key then Some (i + 1)
     else (case ecm_json_skip t (i + 1) of None \<Rightarrow> None | Some j \<Rightarrow> get_loop (pred_numeral m) s t j key))"
  "skip_from (numeral f) t i j =
    (case climb (length t + 1) t (int i) (jt_parent (t ! j)) of
       None \<Rightarrow> None
     | Some a \<Rightarrow> if a \<noteq> int i then Some j else skip_from (pred_numeral f) t i (j + 1))"
  "climb (numeral f) t k a = (if a \<ge> 0 \<and> a \<noteq> k then climb (pred_numeral f) t k (jt_parent (t ! nat a)) else Some a)"
  by (simp_all add: numeral_eq_Suc)

lemma demo_nth: "length demo_toks = 13"
  "demo_toks ! 0 = jt ECM_J_OBJ 0 72 12 (- 1)"
  "demo_toks ! Suc 0 = jt ECM_J_STR 2 5 0 0"
  "demo_toks ! 2 = jt ECM_J_STR 8 17 0 0"
  "demo_toks ! 3 = jt ECM_J_STR 20 25 0 0"
  "demo_toks ! 4 = jt ECM_J_NUM 27 28 0 0"
  "demo_toks ! 5 = jt ECM_J_STR 30 35 0 0"
  "demo_toks ! 6 = jt ECM_J_NUM 37 41 0 0"
  "demo_toks ! 7 = jt ECM_J_STR 43 46 0 0"
  "demo_toks ! 8 = jt ECM_J_NUM 48 49 0 0"
  "demo_toks ! 9 = jt ECM_J_STR 51 55 0 0"
  "demo_toks ! 10 = jt ECM_J_STR 58 60 0 0"
  "demo_toks ! 11 = jt ECM_J_STR 63 68 0 0"
  "demo_toks ! 12 = jt ECM_J_NUM 70 71 0 0"
  by (simp_all add: demo_toks_def)

lemma demo_text [simplified]:
  "take (5 - 2) (drop 2 demo_write) = ''cmd''"
  "take (17 - 8) (drop 8 demo_write) = ''sdo_write''"
  "take (25 - 20) (drop 20 demo_write) = ''slave''"
  "take (28 - 27) (drop 27 demo_write) = ''1''"
  "take (35 - 30) (drop 30 demo_write) = ''index''"
  "take (41 - 37) (drop 37 demo_write) = ''8193''"
  "take (46 - 43) (drop 43 demo_write) = ''sub''"
  "take (49 - 48) (drop 48 demo_write) = ''0''"
  "take (55 - 51) (drop 51 demo_write) = ''type''"
  "take (60 - 58) (drop 58 demo_write) = ''u8''"
  "take (68 - 63) (drop 63 demo_write) = ''value''"
  "take (71 - 70) (drop 70 demo_write) = ''5''"
  by (simp_all add: demo_write_def)

lemma demo_skips:
  "ecm_json_skip demo_toks 2 = Some 3" "ecm_json_skip demo_toks 4 = Some 5" "ecm_json_skip demo_toks 6 = Some 7"
  "ecm_json_skip demo_toks 8 = Some 9" "ecm_json_skip demo_toks 10 = Some 11" "ecm_json_skip demo_toks 12 = Some 13"
  by (simp_all add: ecm_json_skip_def demo_nth walk_numeral)

lemma demo_gets:
  "ecm_json_get demo_write demo_toks 0 ''id'' = None" "ecm_json_get demo_write demo_toks 0 ''cmd'' = Some 2"
  "ecm_json_get demo_write demo_toks 0 ''slave'' = Some 4" "ecm_json_get demo_write demo_toks 0 ''index'' = Some 6"
  "ecm_json_get demo_write demo_toks 0 ''sub'' = Some 8" "ecm_json_get demo_write demo_toks 0 ''type'' = Some 10"
  "ecm_json_get demo_write demo_toks 0 ''value'' = Some 12" "ecm_json_get demo_write demo_toks 0 ''ca'' = None"
  by (simp_all add: ecm_json_get_def demo_nth demo_text demo_skips tok_text_def walk_numeral numeral_2_eq_2 [symmetric])

lemma demo_members:
  "get_u64 demo_write demo_toks 0 ''slave'' = Some 1" "get_u64 demo_write demo_toks 0 ''index'' = Some 8193"
  "get_u64 demo_write demo_toks 0 ''sub'' = Some 0" "get_str demo_write demo_toks 0 ''type'' 16 = Some ''u8''"
  "get_str demo_write demo_toks 0 ''cmd'' 24 = Some ''sdo_write''"
  "tok_val demo_fp demo_write (demo_toks ! 12) ECM_CT_U8 = Some (VU 5)"
  by (simp_all add: get_u64_def get_str_def demo_gets demo_nth demo_text tok_text_def ecm_json_u64_def int_text_def
    tok_val_def is_signed_def octal_like_def strtoul_def strto_core_def take_sign_def take_base_def isspace_def is_digit_def
    digit_val_def char_code_def Let_def ecm_json_str_def cstr_def unescape1_def)

lemma demo_handle:
  "\<exists>st' x. ecm_ctl_handle demo_fp demo_be (Some demo_al) (ecm_ctl_state_init demo_fp) [] demo_write 1 4096 =
     Some (st', [5], [CallWrite 1 0x2001 0 [5], CallRead 1 0x2001 0], x)"
proof -
  have i: "req_id demo_write demo_toks = Some ''null''" by (simp add: req_id_def demo_gets)
  have t0: "jt_type (demo_toks ! 0) = ECM_J_OBJ" by (simp add: demo_nth)
  have rate: "\<not> fp_less demo_fp (st_tokens (refill demo_fp 1 ((ecm_ctl_state_init demo_fp)\<lparr>st_cmds := k\<rparr>))) (fp_of_i demo_fp 1)" for k
    by (simp add: demo_fp_def refill_def ecm_ctl_state_init_def Let_def)
  define r where "r = \<lparr>rq_s = demo_write, rq_t = demo_toks, rq_id = ''null'', rq_cap = 4096\<rparr>"
  have a: "sdo_args r True = Inr (1, 0x2001, 0, ECM_CT_U8)"
    by (simp add: sdo_args_def r_def demo_members demo_gets Let_def ecm_ctl_type_parse_def TYPES_def)
  have g: "write_gate demo_fp demo_be (Some demo_al) [] r = Inr (1, 0x2001, 0, ECM_CT_U8, VU 5)"
    by (simp add: write_gate_def a) (simp add: r_def demo_members demo_gets demo_be_def demo_al_def comm_area_def allow_find_def same_object_def
      ecm_ctl_val_fits_def is_signed_def is_unsigned_def ecm_ctl_val_cmp_def cmp3_def as_u_def Let_def)
  have e: "ecm_ctl_encode demo_fp ECM_CT_U8 (VU 5) = Some [5]"
    by (simp add: ecm_ctl_encode_def ecm_ctl_val_fits_def is_signed_def is_unsigned_def as_u_def le_bytes_def)
  have "\<exists>st' x. cmd_sdo_write demo_fp demo_be (Some demo_al) st [] r =
     (st', [5], [CallWrite 1 0x2001 0 [5], CallRead 1 0x2001 0], x)" for st
    by (simp add: cmd_sdo_write_def g e) (simp add: demo_be_def Let_def)
  then show ?thesis
    by (simp add: ecm_ctl_handle_def demo_write_parse i t0 rate Let_def demo_members r_def)
qed

theorem ctl_write_authorized_witness:
  "write_authorized demo_fp demo_be (Some demo_al) [] 1 0x2001 0 [5]"
proof -
  obtain st' x where "ecm_ctl_handle demo_fp demo_be (Some demo_al) (ecm_ctl_state_init demo_fp) [] demo_write 1 4096 =
     Some (st', [5], [CallWrite 1 0x2001 0 [5], CallRead 1 0x2001 0], x)" using demo_handle by blast
  from ctl_write_authorized [OF this, where slave = 1 and index = "0x2001" and sub = 0 and b = "[5]"] show ?thesis by simp
qed

end
