(* ===== verification/Ctl_Srv.thy ===== *)
theory Ctl_Srv
  imports Ctl
begin

text \<open>
  The server of the control socket (\<open>ecm_ctl.c\<close> from line 613): the buffers of a client, reading from
  its stream socket, taking one request at a time, queueing and sending replies, and one round of
  service over the clients. The kernel is a list of results: what each \<open>recv\<close> and \<open>send\<close> on a socket
  returns; \<open>recv\<close> gives at most the bytes it was asked for and leaves the rest. Whether the
  server listens is a flag; the socket file and its permissions are left out.
\<close>

section \<open>State\<close>

abbreviation (input) ECM_CTL_LINE_MAX :: nat where "ECM_CTL_LINE_MAX \<equiv> 1024"
abbreviation (input) ECM_CTL_OUT_MAX :: nat where "ECM_CTL_OUT_MAX \<equiv> 163840"
abbreviation (input) ECM_CTL_REPLY_MAX :: nat where "ECM_CTL_REPLY_MAX \<equiv> 131072"
abbreviation (input) ECM_CTL_MAX_CLIENTS :: nat where "ECM_CTL_MAX_CLIENTS \<equiv> 4"
abbreviation (input) c_nl :: char where "c_nl \<equiv> CHR 0x0A"
abbreviation (input) c_cr :: char where "c_cr \<equiv> CHR 0x0D"

text \<open>The filled part of the two buffers; of the second, the first \<open>cl_outoff\<close> bytes are sent.\<close>

record ecm_ctl_client =
  cl_open :: bool
  cl_in :: string
  cl_discard :: bool
  cl_out :: string
  cl_outoff :: nat

record ('d, 'w) ecm_ctl_srv =
  sv_st :: "'d ecm_ctl_state"
  sv_w :: 'w
  sv_listen :: bool
  sv_accepted :: u64
  sv_refused_clients :: u64
  sv_dropped_slow :: u64
  sv_dropped_long :: u64
  sv_c :: "ecm_ctl_client list"

datatype recv_res = RData string | RAgain | RIntr | RErr
datatype send_res = SSent nat | SAgain | SIntr | SErr

definition client_close :: "ecm_ctl_client \<Rightarrow> ecm_ctl_client" where
  "client_close c = \<lparr>cl_open = False, cl_in = [], cl_discard = False, cl_out = [], cl_outoff = 0\<rparr>"

definition client_new :: ecm_ctl_client where
  "client_new = \<lparr>cl_open = True, cl_in = [], cl_discard = False, cl_out = [], cl_outoff = 0\<rparr>"

definition ecm_ctl_srv_clients :: "('d, 'w) ecm_ctl_srv \<Rightarrow> nat" where
  "ecm_ctl_srv_clients s = length (filter cl_open (sv_c s))"

text \<open>What is polled: the listening socket (\<^term>\<open>None\<close>) and the clients, each for input and for output.\<close>

definition ecm_ctl_srv_fds :: "('d, 'w) ecm_ctl_srv \<Rightarrow> nat \<Rightarrow> (nat option \<times> bool \<times> bool) list" where
  "ecm_ctl_srv_fds s mx =
    (if \<not> sv_listen s \<or> mx < 1 then []
     else (None, True, False) #
       take (mx - 1) (map (\<lambda>(i, c). (Some i, length (cl_in c) < ECM_CTL_LINE_MAX, cl_outoff c < length (cl_out c)))
         (filter (\<lambda>(i, c). cl_open c) (enumerate 0 (sv_c s)))))"

definition has_line :: "ecm_ctl_client \<Rightarrow> bool" where
  "has_line c \<longleftrightarrow> cl_open c \<and> (c_nl \<in> set (cl_in c) \<or> length (cl_in c) = ECM_CTL_LINE_MAX)"

definition ecm_ctl_srv_pending :: "('d, 'w) ecm_ctl_srv \<Rightarrow> bool" where
  "ecm_ctl_srv_pending s = list_ex has_line (sv_c s)"

section \<open>Sending\<close>

fun client_send :: "ecm_ctl_client \<Rightarrow> send_res list \<Rightarrow> ecm_ctl_client" where
  "client_send c q =
    (let done = (\<lambda>c. if cl_outoff c = length (cl_out c) then c\<lparr>cl_out := [], cl_outoff := 0\<rparr> else c) in
     if \<not> cl_open c \<or> length (cl_out c) \<le> cl_outoff c then done c
     else (case q of [] \<Rightarrow> done c
           | SAgain # _ \<Rightarrow> done c
           | SIntr # q \<Rightarrow> client_send c q
           | SErr # _ \<Rightarrow> client_close c
           | SSent n # q \<Rightarrow> client_send (c\<lparr>cl_outoff := cl_outoff c + min n (length (cl_out c) - cl_outoff c)\<rparr>) q))"

declare client_send.simps [simp del]

text \<open>The second result: the client did not read its replies and is dropped.\<close>

definition client_queue :: "string \<Rightarrow> ecm_ctl_client \<Rightarrow> ecm_ctl_client \<times> bool" where
  "client_queue b c =
    (let c = (if cl_outoff c \<noteq> 0 \<and> length (cl_out c) + length b > ECM_CTL_OUT_MAX
              then c\<lparr>cl_out := drop (cl_outoff c) (cl_out c), cl_outoff := 0\<rparr> else c)
     in if length (cl_out c) + length b > ECM_CTL_OUT_MAX then (client_close c, True)
        else (c\<lparr>cl_out := cl_out c @ b\<rparr>, False))"

section \<open>Reading\<close>

fun recv_weight :: "recv_res \<Rightarrow> nat" where
  "recv_weight (RData d) = Suc (length d)"
| "recv_weight _ = 1"

text \<open>The loop ends when the buffer is full or the socket has nothing; the socket afterwards is returned too.\<close>

function client_read :: "ecm_ctl_client \<Rightarrow> recv_res list \<Rightarrow> ecm_ctl_client \<times> recv_res list" where
  "client_read c q =
    (let space = ECM_CTL_LINE_MAX - length (cl_in c) in
     if space = 0 then (c, q)
     else (case q of [] \<Rightarrow> (c, [])
           | RAgain # q \<Rightarrow> (c, q)
           | RIntr # q \<Rightarrow> client_read c q
           | RErr # q \<Rightarrow> (client_close c, q)
           | RData d # q \<Rightarrow>
               if d = [] then (client_close c, q)
               else
                let got = take space d; q = (if length d \<le> space then q else RData (drop space d) # q) in
                if cl_discard c
                then (if c_nl \<notin> set got then client_read c q
                      else client_read (c\<lparr>cl_in := tl (dropWhile (\<lambda>x. x \<noteq> c_nl) got), cl_discard := False\<rparr>) q)
                else client_read (c\<lparr>cl_in := cl_in c @ got\<rparr>) q))"
  by pat_completeness auto
termination by (relation "measure (\<lambda>(c, q). sum_list (map recv_weight q))") (auto simp: Let_def split: if_splits)

declare client_read.simps [simp del]

section \<open>Requests\<close>

datatype ctl_item = Line string | Long

definition strip_cr :: "string \<Rightarrow> string" where
  "strip_cr l = (if l \<noteq> [] \<and> last l = c_cr then butlast l else l)"

text \<open>The next request in the buffer of a client, and the client without it.\<close>

definition client_take :: "ecm_ctl_client \<Rightarrow> (ctl_item \<times> ecm_ctl_client) option" where
  "client_take c =
    (if \<not> cl_open c \<or> cl_in c = [] then None
     else if c_nl \<notin> set (cl_in c)
     then (if length (cl_in c) < ECM_CTL_LINE_MAX then None else Some (Long, c\<lparr>cl_in := [], cl_discard := True\<rparr>))
     else Some (Line (strip_cr (takeWhile (\<lambda>x. x \<noteq> c_nl) (cl_in c))), c\<lparr>cl_in := tl (dropWhile (\<lambda>x. x \<noteq> c_nl) (cl_in c))\<rparr>))"

definition msg_long :: string where
  "msg_long = ''{\"id\":null,\"ok\":false,\"error\":\"line_too_long\",\"msg\":\"a request is one line of at most 1023 bytes\"}'' @ [c_nl]"

definition serve_client :: "'d fp \<Rightarrow> 'w ecm_ctl_backend \<Rightarrow> 'd ecm_ctl_allowlist option \<Rightarrow> u64 \<Rightarrow> nat \<Rightarrow>
    ('d, 'w) ecm_ctl_srv \<times> nat \<Rightarrow> ('d, 'w) ecm_ctl_srv \<times> nat" where
  "serve_client fp be al now i sr =
    (case sr of (s, run) \<Rightarrow>
      case client_take (sv_c s ! i) of
        None \<Rightarrow> (s, run)
      | Some (Long, c) \<Rightarrow>
          let st = sv_st s; (c, slow) = client_queue msg_long c
          in (s\<lparr>sv_st := st\<lparr>st_cmds := st_cmds st + 1, st_errors := st_errors st + 1\<rparr>, sv_dropped_long := sv_dropped_long s + 1,
                sv_dropped_slow := sv_dropped_slow s + (if slow then 1 else 0), sv_c := (sv_c s)[i := c]\<rparr>, run + 1)
      | Some (Line l, c) \<Rightarrow>
          case ecm_ctl_handle fp be al (sv_st s) (sv_w s) l now ECM_CTL_REPLY_MAX of
            None \<Rightarrow> (s, run)
          | Some (st, w, calls, reply) \<Rightarrow>
              let (c, slow) = (if reply = [] then (c, False) else client_queue reply c)
              in (s\<lparr>sv_st := st, sv_w := w, sv_dropped_slow := sv_dropped_slow s + (if slow then 1 else 0), sv_c := (sv_c s)[i := c]\<rparr>, run + 1))"

definition accept_one :: "('d, 'w) ecm_ctl_srv \<Rightarrow> ('d, 'w) ecm_ctl_srv" where
  "accept_one s =
    (case List.find (\<lambda>i. \<not> cl_open (sv_c s ! i)) [0..<length (sv_c s)] of
       None \<Rightarrow> s\<lparr>sv_refused_clients := sv_refused_clients s + 1\<rparr>
     | Some i \<Rightarrow> s\<lparr>sv_c := (sv_c s)[i := client_new], sv_accepted := sv_accepted s + 1\<rparr>)"

text \<open>
  One round: the connections waiting, what poll reported readable (per client the results of \<open>recv\<close>),
  then one request per client in order while fewer than \<open>max_cmds\<close> have run, then sending.
\<close>

definition ecm_ctl_srv_service :: "'d fp \<Rightarrow> 'w ecm_ctl_backend \<Rightarrow> 'd ecm_ctl_allowlist option \<Rightarrow> u64 \<Rightarrow> nat \<Rightarrow> nat \<Rightarrow>
    (nat \<Rightarrow> recv_res list option) \<Rightarrow> (nat \<Rightarrow> send_res list) \<Rightarrow> ('d, 'w) ecm_ctl_srv \<Rightarrow> ('d, 'w) ecm_ctl_srv \<times> nat" where
  "ecm_ctl_srv_service fp be al now max_cmds conns readable sends s =
    (if \<not> sv_listen s then (s, 0) else
     let s = (accept_one ^^ conns) s;
         s = s\<lparr>sv_c := map (\<lambda>(i, c). case readable i of None \<Rightarrow> c | Some q \<Rightarrow> if cl_open c then fst (client_read c q) else c)
           (enumerate 0 (sv_c s))\<rparr>;
         (s, run) = fold (\<lambda>i sr. if snd sr < max_cmds then serve_client fp be al now i sr else sr) [0..<length (sv_c s)] (s, 0)
     in (s\<lparr>sv_c := map (\<lambda>(i, c). if cl_open c \<and> length (cl_out c) > cl_outoff c then client_send c (sends i) else c)
           (enumerate 0 (sv_c s))\<rparr>, run))"

definition ecm_ctl_srv_close :: "('d, 'w) ecm_ctl_srv \<Rightarrow> ('d, 'w) ecm_ctl_srv" where
  "ecm_ctl_srv_close s = s\<lparr>sv_c := map client_close (sv_c s), sv_listen := False\<rparr>"

section \<open>The requests of a byte stream\<close>

text \<open>
  The specification: the stream is cut at line ends; a line of at most 1023 bytes is a request, a
  longer one is one error, and so is an unfinished line once it has 1024 bytes.
\<close>

abbreviation upto_nl :: "string \<Rightarrow> string" where "upto_nl s \<equiv> takeWhile (\<lambda>x. x \<noteq> c_nl) s"
abbreviation after_nl :: "string \<Rightarrow> string" where "after_nl s \<equiv> tl (dropWhile (\<lambda>x. x \<noteq> c_nl) s)"

lemma after_nl_shorter: "c_nl \<in> set s \<Longrightarrow> length (after_nl s) < length s"
  by (induction s) auto

function requests :: "string \<Rightarrow> ctl_item list" where
  "requests s =
    (if c_nl \<notin> set s then (if length s \<ge> 1024 then [Long] else [])
     else (if length (upto_nl s) \<le> 1023 then Line (strip_cr (upto_nl s)) else Long) # requests (after_nl s))"
  by pat_completeness auto
termination by (relation "measure length") (simp, metis after_nl_shorter in_measure)

declare requests.simps [simp del]

definition requests_from :: "bool \<Rightarrow> string \<Rightarrow> ctl_item list" where
  "requests_from discard s = (if discard then (if c_nl \<in> set s then requests (after_nl s) else []) else requests s)"

lemma nl_append [simp]:
  "c_nl \<in> set a \<Longrightarrow> upto_nl (a @ t) = upto_nl a" "c_nl \<notin> set a \<Longrightarrow> upto_nl (a @ t) = a @ upto_nl t"
  "c_nl \<in> set a \<Longrightarrow> after_nl (a @ t) = after_nl a @ t" "c_nl \<notin> set a \<Longrightarrow> after_nl (a @ t) = after_nl t"
  by (induction a) auto

lemma upto_nl_length: "c_nl \<in> set a \<Longrightarrow> length (upto_nl a) < length a"
  by (induction a) auto

lemma requests_long: "c_nl \<notin> set a \<Longrightarrow> length a = 1024 \<Longrightarrow> requests (a @ t) = Long # requests_from True t"
  by (subst requests.simps) (auto simp: requests_from_def)

lemma requests_line:
  "c_nl \<in> set a \<Longrightarrow> length a \<le> 1024 \<Longrightarrow> requests (a @ t) = Line (strip_cr (upto_nl a)) # requests (after_nl a @ t)"
  using upto_nl_length [of a] by (subst requests.simps) auto

lemma requests_discard:
  "c_nl \<notin> set g \<Longrightarrow> requests_from True (g @ t) = requests_from True t"
  "c_nl \<in> set g \<Longrightarrow> requests_from True (g @ t) = requests (after_nl g @ t)"
  by (auto simp: requests_from_def)

fun recv_bytes :: "recv_res list \<Rightarrow> string" where
  "recv_bytes [] = []"
| "recv_bytes (RData d # q) = d @ recv_bytes q"
| "recv_bytes (r # q) = recv_bytes q"

definition client_inv :: "ecm_ctl_client \<Rightarrow> bool" where
  "client_inv c \<longleftrightarrow> length (cl_in c) \<le> 1024 \<and> (cl_discard c \<longrightarrow> cl_in c = [])"

abbreviation to_serve :: "ecm_ctl_client \<Rightarrow> recv_res list \<Rightarrow> ctl_item list" where
  "to_serve c q \<equiv> requests_from (cl_discard c) (cl_in c @ recv_bytes q)"

lemma client_inv_close [simp]: "client_inv (client_close c)" "\<not> cl_open (client_close c)"
  by (simp_all add: client_inv_def client_close_def)

lemma client_read_ends:
  assumes "length (cl_in c) < 1024"
  shows "client_read c (RAgain # q) = (c, q)" "client_read c (RIntr # q) = client_read c q"
    "client_read c (RErr # q) = (client_close c, q)" "client_read c (RData [] # q) = (client_close c, q)"
  using assms by (simp_all add: client_read.simps [of c "_ # _"])

lemma client_read_keeps:
  assumes "client_inv c"
  shows "client_inv (fst (client_read c q)) \<and>
    (cl_open (fst (client_read c q)) \<longrightarrow> to_serve (fst (client_read c q)) (snd (client_read c q)) = to_serve c q)"
  using assms
proof (induction "sum_list (map recv_weight q)" arbitrary: c q rule: less_induct)
  case less
  show ?case
  proof (cases "length (cl_in c) = 1024")
    case True
    then show ?thesis using less.prems by (subst (1 2 3 4) client_read.simps) (simp add: Let_def)
  next
    case False
    define space where "space = 1024 - length (cl_in c)"
    have sp: "0 < space" "length (cl_in c) + space = 1024" using False less.prems by (auto simp: space_def client_inv_def)
    show ?thesis
    proof (cases q)
      case Nil
      then show ?thesis using less.prems by (subst (1 2 3 4) client_read.simps) (simp add: Let_def)
    next
      case (Cons r q')
      show ?thesis
      proof (cases "\<exists>d. r = RData d \<and> d \<noteq> []")
        case False
        then consider "client_read c q = (c, q')" "recv_bytes q = recv_bytes q'" | "client_read c q = client_read c q'" "r = RIntr"
          | "client_read c q = (client_close c, q')"
          using Cons client_read_ends [of c q'] sp by (cases r) auto
        then show ?thesis using less.hyps [of q' c] less.prems Cons by cases auto
      next
        case True
        then obtain d where d: "r = RData d" "d \<noteq> []" by blast
        define got where "got = take space d"
        define q2 where "q2 = (if length d \<le> space then q' else RData (drop space d) # q')"
        have b: "recv_bytes q = got @ recv_bytes q2" using Cons d by (simp add: got_def q2_def)
        have w: "sum_list (map recv_weight q2) < sum_list (map recv_weight q)" using Cons d sp by (auto simp: q2_def)
        define c2 where "c2 = (if cl_discard c then (if c_nl \<notin> set got then c else c\<lparr>cl_in := after_nl got, cl_discard := False\<rparr>)
          else c\<lparr>cl_in := cl_in c @ got\<rparr>)"
        have r: "client_read c q = client_read c2 q2"
          using Cons d sp by (subst client_read.simps) (simp add: Let_def space_def [symmetric] got_def [symmetric] q2_def [symmetric] c2_def)
        have lg: "length got \<le> space" by (simp add: got_def)
        have i2: "client_inv c2" using less.prems lg sp after_nl_shorter [of got] by (auto simp: client_inv_def c2_def)
        have "to_serve c2 q2 = to_serve c q"
          using less.prems requests_discard [of got "recv_bytes q2"] by (auto simp: c2_def b client_inv_def requests_from_def)
        then show ?thesis using less.hyps [OF w i2] r by simp
      qed
    qed
  qed
qed

lemma client_take_keeps:
  assumes "client_inv c" "client_take c = Some (x, c')"
  shows "client_inv c' \<and> to_serve c q = x # to_serve c' q \<and> cl_open c'"
  using assms after_nl_shorter [of "cl_in c"] requests_long [of "cl_in c" "recv_bytes q"] requests_line [of "cl_in c" "recv_bytes q"]
  by (auto simp: client_take_def client_inv_def requests_from_def split: if_splits)

lemma client_take_none:
  assumes "client_inv c" "cl_open c" "client_take c = None"
  shows "to_serve c [] = []" "\<not> has_line c"
  using assms by (auto simp: client_take_def client_inv_def requests_from_def has_line_def requests.simps split: if_splits)

text \<open>A client's life: reads and requests taken, in any order; the requests taken so far.\<close>

datatype cl_event = EvRead | EvServe

fun cl_step :: "cl_event \<Rightarrow> ecm_ctl_client \<times> recv_res list \<times> ctl_item list \<Rightarrow> ecm_ctl_client \<times> recv_res list \<times> ctl_item list" where
  "cl_step EvRead (c, q, log) = (if cl_open c then (let (c, q) = client_read c q in (c, q, log)) else (c, q, log))"
| "cl_step EvServe (c, q, log) = (case client_take c of None \<Rightarrow> (c, q, log) | Some (x, c) \<Rightarrow> (c, q, log @ [x]))"

text \<open>C38. Requests do not depend on how the bytes arrive: for every way the kernel cuts a client's bytes
  into reads and every order of reading and serving, the requests served are a prefix of the requests
  of the byte stream; while the client is connected, what is still to be served is exactly the rest;
  and once everything is read and no line is pending, all of them have been served.\<close>

theorem requests_of_stream:
  "case fold cl_step evs (client_new, q0, []) of (c, q, log) \<Rightarrow>
    (\<exists>rest. requests (recv_bytes q0) = log @ rest \<and> (if cl_open c then rest = to_serve c q else True)) \<and>
    (if cl_open c \<and> q = [] \<and> \<not> has_line c then log = requests (recv_bytes q0) else True)"
proof -
  define inv where "inv x \<longleftrightarrow> (case x of (c, q, log) \<Rightarrow> client_inv c \<and>
      (\<exists>rest. requests (recv_bytes q0) = log @ rest \<and> (cl_open c \<longrightarrow> rest = to_serve c q)))" for x
  have s: "inv (cl_step ev x)" if i: "inv x" for ev x
  proof (cases x)
    case (fields c q log)
    obtain rest where c: "client_inv c" "requests (recv_bytes q0) = log @ rest" "cl_open c \<Longrightarrow> rest = to_serve c q"
      using i fields by (auto simp: inv_def)
    show ?thesis
    proof (cases ev)
      case EvRead
      then show ?thesis using c client_read_keeps [OF c(1), of q] fields by (auto simp: inv_def case_prod_unfold Let_def)
    next
      case EvServe
      show ?thesis
      proof (cases "client_take c")
        case None
        then show ?thesis using EvServe i fields by simp
      next
        case (Some y)
        obtain x' c' where y: "y = (x', c')" by (cases y)
        have o: "cl_open c" using Some by (auto simp: client_take_def split: if_splits)
        show ?thesis using client_take_keeps [OF c(1) Some [unfolded y], of q] c o EvServe Some y fields by (auto simp: inv_def)
      qed
    qed
  qed
  have "inv (fold cl_step evs x)" if "inv x" for x using that by (induction evs arbitrary: x) (simp_all add: s)
  moreover have "inv (client_new, q0, [])" by (simp add: inv_def client_inv_def client_new_def requests_from_def)
  ultimately have f: "inv (fold cl_step evs (client_new, q0, []))" by blast
  obtain c q log where x: "fold cl_step evs (client_new, q0, []) = (c, q, log)" by (metis prod_cases3)
  have "log = requests (recv_bytes q0)" if "cl_open c" "q = []" "\<not> has_line c"
  proof -
    have "client_take c = None" using that f by (auto simp: client_take_def has_line_def inv_def x client_inv_def)
    then show ?thesis using f that client_take_none [of c] by (auto simp: inv_def x)
  qed
  then show ?thesis using f by (auto simp: inv_def x)
qed

text \<open>A client's unsent replies never outgrow its buffer.\<close>

lemma queue_bounded:
  assumes "length (cl_out c) \<le> ECM_CTL_OUT_MAX"
  shows "length (cl_out (fst (client_queue b c))) \<le> ECM_CTL_OUT_MAX"
  using assms by (auto simp: client_queue_def client_close_def Let_def)

text \<open>A round runs at most \<open>max_cmds\<close> requests, whatever the clients sent.\<close>

lemma service_bounded: "snd (ecm_ctl_srv_service fp be al now mx conns readable sends s) \<le> mx"
proof -
  have one: "snd (serve_client fp be al now i sr) \<le> snd sr + 1" for i and sr :: "('a, 'b) ecm_ctl_srv \<times> nat"
    by (auto simp: serve_client_def Let_def case_prod_unfold split: option.splits ctl_item.splits)
  define step where "step i sr = (if snd sr < mx then serve_client fp be al now i sr else sr)" for i and sr :: "('a, 'b) ecm_ctl_srv \<times> nat"
  have "snd (step i sr) \<le> mx" if "snd sr \<le> mx" for i sr using one [of i sr] that by (auto simp: step_def)
  then have "snd (fold step is sr) \<le> mx" if "snd sr \<le> mx" for "is" sr using that by (induction "is" arbitrary: sr) auto
  then show ?thesis by (auto simp: ecm_ctl_srv_service_def Let_def case_prod_unfold step_def [abs_def])
qed

end
