(* ===== verification/Esc_Dc.thy ===== *)
theory Esc_Dc
  imports Dc
begin

text \<open>
  The simulated slave controller of \<open>tools/soft_bus\<close>: its state (\<open>esc_types.h\<close>) and its
  distributed clock (\<open>esc_dc.c\<close>): the drifting local clock, the register views of the system
  time, the time control loop and SYNC0. A register image is a function from addresses to bytes,
  of which the code uses \<open>0 .. 0x1FFF\<close>. The state of the CoE server and of the drive profile is
  a type parameter. Times are the \<open>int64_t\<close> of the code as unbounded integers, as signed overflow
  is undefined there; conversions to unsigned are written out.
\<close>

section \<open>State\<close>

type_synonym regs = "nat \<Rightarrow> u8"

record esc_dc_cfg =
  cf_width :: nat
  cf_hop_ns :: int
  cf_ref_drift_ppb :: int
  cf_other_drift_ppb :: int
  cf_no_dc_mask :: u64

record esc_dc_state =
  k_clock_started :: bool
  k_last_host_ns :: u64
  k_local_ns :: int
  k_frac_e9 :: int
  k_drift_ppb :: int
  k_trim_ppb :: int
  k_tcl_i_x16 :: int
  k_frame_local_ns :: int
  k_last_dt_ns :: int
  k_dt_filt_x16 :: int
  k_dt_writes :: u64
  k_sync0_active :: bool
  k_sync0_start :: int
  k_sync0_cycle :: int
  k_sync0_k_last :: int
  k_pd_since_event :: bool
  k_start_in_past :: u64
  k_read_systime :: bool
  k_tot_events :: u64
  k_tot_no_frame :: u64
  k_tot_pd :: u64

text \<open>The parts of the fault injection and the watchdog that the core uses.\<close>

record esc_node_fault =
  ft_powered_off :: bool
  ft_skip_logical :: bool
  ft_sm1_consumed :: bool
  ft_mbx_repeats_served :: u64
  ft_op_delay_ms :: u32
  ft_reject_al_code :: u16
  ft_reject_al_state :: u8
  ft_reject_al_sticky :: bool

record esc_wd_state =
  wd_now_ns :: u64
  wd_last_trigger_ns :: u64
  wd_running :: bool
  wd_react :: bool
  wd_expire_events :: u64

record 'x esc =
  e_regs :: regs
  e_station_address :: u16
  e_station_alias :: u16
  e_alias_enabled :: bool
  e_position :: nat
  e_got_valid_outputs :: bool
  e_force_reject_al :: bool
  e_sii :: "u16 list"
  e_dc :: esc_dc_state
  e_fault :: esc_node_fault
  e_wd :: esc_wd_state
  e_sii_cmd_reads :: u32
  e_mbx_out :: u16
  e_mbx_out_len :: u16
  e_mbx_in :: u16
  e_mbx_in_len :: u16
  e_prof :: bool
  e_app :: 'x

text \<open>What is outside these two files: the CoE server and the profile's check of the process data sizes; the chain length.\<close>

record 'x esc_env =
  v_dc :: esc_dc_cfg
  v_n :: nat
  v_coe :: "'x esc \<Rightarrow> 'x esc"
  v_check_pd :: "'x esc \<Rightarrow> u16"

section \<open>Bytes\<close>

definition rd_bytes :: "nat \<Rightarrow> nat \<Rightarrow> regs \<Rightarrow> u8 list" where
  "rd_bytes p n r = map r [p..<p + n]"

definition wr_bytes :: "nat \<Rightarrow> u8 list \<Rightarrow> regs \<Rightarrow> regs" where
  "wr_bytes p bs r = (\<lambda>i. if p \<le> i \<and> i < p + length bs then bs ! (i - p) else r i)"

definition rd_le16 :: "regs \<Rightarrow> nat \<Rightarrow> u16" where
  "rd_le16 r p = (ucast (r p) OR push_bit 8 (ucast (r (p + 1))))"

definition wr_le16 :: "nat \<Rightarrow> u16 \<Rightarrow> regs \<Rightarrow> regs" where
  "wr_le16 p v r = r(p := ucast (v AND 0xFF), p + 1 := ucast (drop_bit 8 v AND 0xFF))"

definition rd_le32 :: "regs \<Rightarrow> nat \<Rightarrow> u32" where
  "rd_le32 r p = (ucast (r p) OR push_bit 8 (ucast (r (p + 1))) OR push_bit 16 (ucast (r (p + 2))) OR push_bit 24 (ucast (r (p + 3))))"

definition rd64 :: "regs \<Rightarrow> nat \<Rightarrow> u64" where
  "rd64 r p = (ucast (rd_le32 r p) OR push_bit 32 (ucast (rd_le32 r (p + 4))))"

definition wr32 :: "nat \<Rightarrow> u32 \<Rightarrow> regs \<Rightarrow> regs" where
  "wr32 p v r = r(p := ucast v, p + 1 := ucast (drop_bit 8 v), p + 2 := ucast (drop_bit 16 v), p + 3 := ucast (drop_bit 24 v))"

definition wr64 :: "nat \<Rightarrow> u64 \<Rightarrow> regs \<Rightarrow> regs" where
  "wr64 p v r = wr32 (p + 4) (ucast (drop_bit 32 v)) (wr32 p (ucast v) r)"

definition overlaps :: "nat \<Rightarrow> nat \<Rightarrow> nat \<Rightarrow> nat \<Rightarrow> bool" where
  "overlaps off len reg reg_len \<longleftrightarrow> off < reg + reg_len \<and> off + len > reg"

section \<open>The clock\<close>

definition offset_internal :: "esc_dc_cfg \<Rightarrow> regs \<Rightarrow> int" where
  "offset_internal c r = (if cf_width c = 64 then to_i64 (uint (rd64 r 0x0920)) else uint (rd_le32 r 0x0920))"

definition esc_dc_frame_sys :: "esc_dc_cfg \<Rightarrow> 'x esc \<Rightarrow> int" where
  "esc_dc_frame_sys c e = k_frame_local_ns (e_dc e) + offset_internal c (e_regs e)"

definition wr_time_view :: "esc_dc_cfg \<Rightarrow> nat \<Rightarrow> int \<Rightarrow> regs \<Rightarrow> regs" where
  "wr_time_view c p t r = (if cf_width c = 64 then wr64 p (of_int t) r else wr32 (p + 4) 0 (wr32 p (of_int t) r))"

definition dc_zero :: esc_dc_state where
  "dc_zero = \<lparr>k_clock_started = False, k_last_host_ns = 0, k_local_ns = 0, k_frac_e9 = 0, k_drift_ppb = 0, k_trim_ppb = 0,
     k_tcl_i_x16 = 0, k_frame_local_ns = 0, k_last_dt_ns = 0, k_dt_filt_x16 = 0, k_dt_writes = 0, k_sync0_active = False,
     k_sync0_start = 0, k_sync0_cycle = 0, k_sync0_k_last = 0, k_pd_since_event = False, k_start_in_past = 0,
     k_read_systime = False, k_tot_events = 0, k_tot_no_frame = 0, k_tot_pd = 0\<rparr>"

definition esc_dc_node_reset :: "esc_dc_cfg \<Rightarrow> nat \<Rightarrow> 'x esc \<Rightarrow> 'x esc" where
  "esc_dc_node_reset c i e =
    (if cf_width c = 0 then e
     else
      let feat = rd_le16 (e_regs e) 0x0008;
          feat = (if i < 64 \<and> bit (cf_no_dc_mask c) i then feat AND NOT (0x0004 OR 0x0008)
                  else if cf_width c = 64 then feat OR 0x0004 OR 0x0008 else feat OR 0x0004);
          drift = (if i = 0 then cf_ref_drift_ppb c else ((int (i mod 5) - 2) * cf_other_drift_ppb c) sdiv 2)
      in e\<lparr>e_regs := (e_regs e)(0x0008 := ucast feat, 0x0009 := ucast (drop_bit 8 feat)),
           e_dc := dc_zero\<lparr>k_drift_ppb := drift, k_local_ns := int (i + 1) * 987654321 + int i * 123457\<rparr>\<rparr>)"

definition esc_dc_setup :: "esc_dc_cfg \<Rightarrow> 'x esc list \<Rightarrow> esc_dc_cfg \<times> 'x esc list" where
  "esc_dc_setup c chain =
    (if cf_width c \<noteq> 32 \<and> cf_width c \<noteq> 64 then (c\<lparr>cf_width := 0\<rparr>, chain)
     else (c, map (\<lambda>(i, e). esc_dc_node_reset c i e) (enumerate 0 chain)))"

definition clock_advance :: "u64 \<Rightarrow> esc_dc_state \<Rightarrow> esc_dc_state" where
  "clock_advance host d =
    (if \<not> k_clock_started d then d\<lparr>k_clock_started := True, k_last_host_ns := host\<rparr>
     else if host \<le> k_last_host_ns d then d
     else
      let dt = host - k_last_host_ns d;
          num = uint dt * (1000000000 + k_drift_ppb d + k_trim_ppb d) + k_frac_e9 d
      in d\<lparr>k_local_ns := k_local_ns d + num sdiv 1000000000, k_frac_e9 := num smod 1000000000, k_last_host_ns := host\<rparr>)"

definition esc_dc_frame_begin :: "esc_dc_cfg \<Rightarrow> u64 \<Rightarrow> 'x esc list \<Rightarrow> 'x esc list" where
  "esc_dc_frame_begin c t chain =
    (if cf_width c = 0 then chain
     else map (\<lambda>(i, e). let d = clock_advance t (e_dc e) in e\<lparr>e_dc := d\<lparr>k_frame_local_ns := k_local_ns d + int i * cf_hop_ns c\<rparr>\<rparr>)
       (enumerate 0 chain))"

text \<open>The end of a frame, per node, with the counters of the whole run; the counters of the report window are left out.\<close>

definition sync0_account :: "esc_dc_cfg \<Rightarrow> bool \<Rightarrow> 'x esc \<Rightarrow> esc_dc_state" where
  "sync0_account c has_pd e =
    (let d = (e_dc e)\<lparr>k_read_systime := False\<rparr> in
     if \<not> k_sync0_active d \<or> k_sync0_cycle d \<le> 0 then d
     else
      let sys = esc_dc_frame_sys c e;
          k = (sys - k_sync0_start d) sdiv k_sync0_cycle d;
          new_ev = k - k_sync0_k_last d;
          d = (if sys \<ge> k_sync0_start d \<and> k > k_sync0_k_last d
               then d\<lparr>k_tot_events := k_tot_events d + of_int new_ev,
                      k_tot_no_frame := k_tot_no_frame d + of_int ((if k_pd_since_event d then 0 else 1) + (new_ev - 1)),
                      k_sync0_k_last := k, k_pd_since_event := False\<rparr>
               else d)
      in if has_pd then d\<lparr>k_pd_since_event := True, k_tot_pd := k_tot_pd d + 1\<rparr> else d)"

definition esc_dc_frame_end :: "esc_dc_cfg \<Rightarrow> bool \<Rightarrow> 'x esc list \<Rightarrow> 'x esc list" where
  "esc_dc_frame_end c has_pd chain =
    (if cf_width c = 0 then chain else map (\<lambda>e. e\<lparr>e_dc := sync0_account c has_pd e\<rparr>) chain)"

section \<open>Register accesses\<close>

definition read_systime :: "esc_dc_cfg \<Rightarrow> nat \<Rightarrow> nat \<Rightarrow> 'x esc \<Rightarrow> 'x esc" where
  "read_systime c off len e =
    (if overlaps off len 0x0910 8
     then e\<lparr>e_regs := wr_time_view c 0x0910 (esc_dc_frame_sys c e) (e_regs e), e_dc := (e_dc e)\<lparr>k_read_systime := True\<rparr>\<rparr>
     else e)"

definition read_sysdiff :: "nat \<Rightarrow> nat \<Rightarrow> 'x esc \<Rightarrow> 'x esc" where
  "read_sysdiff off len e =
    (if overlaps off len 0x092C 4
     then let f = k_dt_filt_x16 (e_dc e) sdiv 16; mag = of_int \<bar>f\<bar> AND 0x7FFFFFFF
          in e\<lparr>e_regs := wr32 0x092C (if f \<ge> 0 then mag OR 0x80000000 else mag) (e_regs e)\<rparr>
     else e)"

definition read_start0 :: "esc_dc_cfg \<Rightarrow> nat \<Rightarrow> nat \<Rightarrow> 'x esc \<Rightarrow> 'x esc" where
  "read_start0 c off len e =
    (let d = e_dc e in
     if k_sync0_active d \<and> k_sync0_cycle d > 0 \<and> overlaps off len 0x0990 8
     then let sys = esc_dc_frame_sys c e;
              next = (if sys \<ge> k_sync0_start d
                then k_sync0_start d + (floor_div (sys - k_sync0_start d) (k_sync0_cycle d) + 1) * k_sync0_cycle d
                else k_sync0_start d)
          in e\<lparr>e_regs := wr_time_view c 0x0990 next (e_regs e)\<rparr>
     else e)"

definition esc_dc_before_read :: "esc_dc_cfg \<Rightarrow> nat \<Rightarrow> nat \<Rightarrow> 'x esc \<Rightarrow> 'x esc" where
  "esc_dc_before_read c off len e =
    (if cf_width c = 0 then e else read_start0 c off len (read_sysdiff off len (read_systime c off len e)))"

definition latch_receive_times :: "esc_dc_cfg \<Rightarrow> nat \<Rightarrow> 'x esc \<Rightarrow> 'x esc" where
  "latch_receive_times c n e =
    (let t0 = k_frame_local_ns (e_dc e);
         t1 = (if int (e_position e) < int n - 1 then t0 + 2 * cf_hop_ns c * (int n - 1 - int (e_position e)) else 0)
     in e\<lparr>e_regs := wr_time_view c 0x0918 t0 (wr32 0x090C 0 (wr32 0x0908 0 (wr32 0x0904 (of_int t1) (wr32 0x0900 (of_int t0) (e_regs e)))))\<rparr>)"

definition clamp_i :: "int \<Rightarrow> int \<Rightarrow> int" where
  "clamp_i m x = (let x = (if x > m then m else x) in if x < - m then - m else x)"

definition time_control_loop :: "esc_dc_cfg \<Rightarrow> u32 \<Rightarrow> 'x esc \<Rightarrow> 'x esc" where
  "time_control_loop c received_lo e =
    (let d = e_dc e; delay = rd_le32 (e_regs e) 0x0928;
         dt = sint (of_int (esc_dc_frame_sys c e) - delay - received_lo);
         filt = k_dt_filt_x16 d + (dt - k_dt_filt_x16 d sdiv 16);
         er = filt sdiv 16;
         tcl = clamp_i (500000 * 16) (k_tcl_i_x16 d - filt sdiv 32);
         trim = clamp_i 500000 (tcl sdiv 16 - er * 5)
     in e\<lparr>e_dc := d\<lparr>k_last_dt_ns := dt, k_dt_writes := k_dt_writes d + 1, k_dt_filt_x16 := filt, k_tcl_i_x16 := tcl, k_trim_ppb := trim\<rparr>\<rparr>)"

definition sync0_activation :: "esc_dc_cfg \<Rightarrow> 'x esc \<Rightarrow> 'x esc" where
  "sync0_activation c e =
    (let d = e_dc e; r = e_regs e in
     if r 0x0981 AND 0x03 \<noteq> 0x03 then e\<lparr>e_dc := d\<lparr>k_sync0_active := False\<rparr>\<rparr>
     else
      let now = esc_dc_frame_sys c e; cycle = uint (rd_le32 r 0x09A0);
          start = (if cf_width c = 64 then to_i64 (uint (rd64 r 0x0990)) else now + sint (rd_le32 r 0x0990 - of_int now));
          past = (start \<le> now);
          d = (if past then d\<lparr>k_start_in_past := k_start_in_past d + 1\<rparr> else d)
      in if past \<and> cf_width c = 64 then e\<lparr>e_dc := d\<lparr>k_sync0_active := False\<rparr>\<rparr>
         else e\<lparr>e_dc := d\<lparr>k_sync0_start := (if past then start + 2 ^ 32 else start), k_sync0_cycle := cycle, k_sync0_k_last := - 1,
                k_pd_since_event := True, k_sync0_active := True\<rparr>\<rparr>)"

definition esc_dc_after_write :: "esc_dc_cfg \<Rightarrow> nat \<Rightarrow> nat \<Rightarrow> u8 list \<Rightarrow> 'x esc \<Rightarrow> 'x esc" where
  "esc_dc_after_write c n off data e =
    (if cf_width c = 0 then e
     else
      let len = length data;
          e = (if overlaps off len 0x0900 1 then latch_receive_times c n e else e);
          e = (if overlaps off len 0x0910 1 \<and> off \<le> 0x0910 \<and> off + len \<ge> 0x0914
               then time_control_loop c (rd_le32 ((!) data) (0x0910 - off)) e else e);
          e = (if overlaps off len 0x0910 8 then e\<lparr>e_regs := wr_time_view c 0x0910 (esc_dc_frame_sys c e) (e_regs e)\<rparr> else e);
          e = (if cf_width c = 32 \<and> overlaps off len 0x0924 4 then e\<lparr>e_regs := wr32 0x0924 0 (e_regs e)\<rparr> else e);
          e = (if overlaps off len 0x0930 2
               then e\<lparr>e_dc := (e_dc e)\<lparr>k_dt_filt_x16 := 0, k_trim_ppb := 0, k_tcl_i_x16 := 0, k_last_dt_ns := 0\<rparr>\<rparr> else e)
      in if overlaps off len 0x0981 1 then sync0_activation c e else e)"

text \<open>Does the frame carry a logical datagram? The offset grows in each round, so the walk ends.\<close>

function has_pd_loop :: "u8 list \<Rightarrow> nat \<Rightarrow> nat \<Rightarrow> bool" where
  "has_pd_loop buf end off =
    (if off + 12 \<le> end
     then buf ! off \<in> {0x0A, 0x0B, 0x0C} \<or>
       has_pd_loop buf end (off + 10 + unat (rd_le16 ((!) buf) (off + 6) AND 0x07FF) + 2)
     else False)"
  by pat_completeness auto
termination by (relation "measure (\<lambda>(buf, end, off). end - off)") auto

definition esc_dc_frame_has_pd :: "u8 list \<Rightarrow> bool" where
  "esc_dc_frame_has_pd buf =
    (if length buf < 16 then False
     else has_pd_loop buf (min (16 + unat (rd_le16 ((!) buf) 14 AND 0x07FF)) (length buf)) 16)"

end
