(* ===== verification/Esc.thy ===== *)
theory Esc
  imports Esc_Dc
begin

text \<open>
  The simulated slave controller, \<open>esc_core.c\<close> of \<open>tools/soft_bus\<close>: register accesses with their
  side effects, the process data watchdog, logical addressing, the EtherCAT state machine, and the
  way a datagram and a frame pass the chain. Offsets and lengths are the \<open>uint16_t\<close> of the code as
  naturals, because the sums the code forms with them are wider; the logical addresses, which wrap,
  are words. Allocation succeeds.
\<close>

abbreviation (input) ESC_REG_SPACE_SIZE :: nat where "ESC_REG_SPACE_SIZE \<equiv> 0x2000"
abbreviation (input) REG_AL_CONTROL :: nat where "REG_AL_CONTROL \<equiv> 0x0120"
abbreviation (input) REG_AL_STATUS :: nat where "REG_AL_STATUS \<equiv> 0x0130"
abbreviation (input) REG_AL_STATUS_CODE :: nat where "REG_AL_STATUS_CODE \<equiv> 0x0134"
abbreviation (input) REG_SM1_STATUS :: nat where "REG_SM1_STATUS \<equiv> 0x080D"
abbreviation (input) REG_WD_STATUS_PD :: nat where "REG_WD_STATUS_PD \<equiv> 0x0440"
abbreviation (input) REG_SM_COUNT :: nat where "REG_SM_COUNT \<equiv> 4"
abbreviation (input) REG_FMMU_COUNT :: nat where "REG_FMMU_COUNT \<equiv> 3"

abbreviation (input) ESM_INIT :: u8 where "ESM_INIT \<equiv> 0x01"
abbreviation (input) ESM_PREOP :: u8 where "ESM_PREOP \<equiv> 0x02"
abbreviation (input) ESM_SAFEOP :: u8 where "ESM_SAFEOP \<equiv> 0x04"
abbreviation (input) ESM_OP :: u8 where "ESM_OP \<equiv> 0x08"

abbreviation (input) CMD_APRD :: u8 where "CMD_APRD \<equiv> 0x01"
abbreviation (input) CMD_APWR :: u8 where "CMD_APWR \<equiv> 0x02"
abbreviation (input) CMD_APRW :: u8 where "CMD_APRW \<equiv> 0x03"
abbreviation (input) CMD_FPRD :: u8 where "CMD_FPRD \<equiv> 0x04"
abbreviation (input) CMD_FPWR :: u8 where "CMD_FPWR \<equiv> 0x05"
abbreviation (input) CMD_FPRW :: u8 where "CMD_FPRW \<equiv> 0x06"
abbreviation (input) CMD_BRD :: u8 where "CMD_BRD \<equiv> 0x07"
abbreviation (input) CMD_BWR :: u8 where "CMD_BWR \<equiv> 0x08"
abbreviation (input) CMD_BRW :: u8 where "CMD_BRW \<equiv> 0x09"
abbreviation (input) CMD_LRD :: u8 where "CMD_LRD \<equiv> 0x0A"
abbreviation (input) CMD_LWR :: u8 where "CMD_LWR \<equiv> 0x0B"
abbreviation (input) CMD_LRW :: u8 where "CMD_LRW \<equiv> 0x0C"
abbreviation (input) CMD_ARMW :: u8 where "CMD_ARMW \<equiv> 0x0D"
abbreviation (input) CMD_FRMW :: u8 where "CMD_FRMW \<equiv> 0x0E"

section \<open>Reading\<close>

definition esc_chain_wire :: "'x esc list \<Rightarrow> 'x esc list" where
  "esc_chain_wire chain =
    (let n = length chain; off = (\<lambda>i. ft_powered_off (e_fault (chain ! i))) in
     map (\<lambda>(i, e).
       let link0 = (i = 0 \<or> \<not> off (i - 1)); link1 = (i < n - 1 \<and> \<not> off (i + 1));
           dl = 0x0003 OR (if link0 then 0x0210 else 0x0100) OR (if link1 then 0x0820 else 0x0400) OR 0x5000
       in e\<lparr>e_regs := wr_le16 0x0110 dl (e_regs e)\<rparr>) (enumerate 0 chain))"

definition esc_sii_refresh_data :: "'x esc \<Rightarrow> 'x esc" where
  "esc_sii_refresh_data e =
    (let a = unat (rd_le16 (e_regs e) 0x0504); w = e_sii e;
         v0 = (if a < length w then w ! a else 0); v1 = (if a + 1 < length w then w ! (a + 1) else 0)
     in e\<lparr>e_regs := wr_le16 0x050A v1 (wr_le16 0x0508 v0 (e_regs e))\<rparr>)"

definition esc_sm1_sync_irq_write :: "'x esc \<Rightarrow> 'x esc" where
  "esc_sm1_sync_irq_write e =
    (let r = e_regs e; s = r REG_SM1_STATUS
     in e\<lparr>e_regs := r(REG_SM1_STATUS := (if s AND 0x08 \<noteq> 0 then s OR 0x01 else s AND NOT 0x01))\<rparr>)"

definition sm1_read :: "nat \<Rightarrow> nat \<Rightarrow> 'x esc \<Rightarrow> 'x esc" where
  "sm1_read off len e =
    (if off < unat (e_mbx_in e) + unat (e_mbx_in_len e) \<and> off + len > unat (e_mbx_in e)
     then let r = e_regs e; s = r REG_SM1_STATUS;
              e = (if s AND 0x08 \<noteq> 0 then e\<lparr>e_fault := (e_fault e)\<lparr>ft_sm1_consumed := True\<rparr>\<rparr> else e)
          in e\<lparr>e_regs := r(REG_SM1_STATUS := s AND NOT 0x08)\<rparr>
     else e)"

definition esc_phys_read :: "'x esc_env \<Rightarrow> nat \<Rightarrow> u8 list \<Rightarrow> 'x esc \<Rightarrow> 'x esc \<times> u8 list" where
  "esc_phys_read env off data e =
    (let len = length data in
     if off + len > ESC_REG_SPACE_SIZE then (e, data)
     else
      let e = esc_sm1_sync_irq_write (esc_dc_before_read (v_dc env) off len e)
      in (sm1_read off len e, rd_bytes off len (e_regs e)))"

definition esc_phys_read_or :: "'x esc_env \<Rightarrow> nat \<Rightarrow> u8 list \<Rightarrow> 'x esc \<Rightarrow> 'x esc \<times> u8 list" where
  "esc_phys_read_or env off data e =
    (let len = length data in
     if off + len > ESC_REG_SPACE_SIZE then (e, data)
     else
      let e = esc_sm1_sync_irq_write (esc_dc_before_read (v_dc env) off len e)
      in (sm1_read off len e, map2 (\<lambda>a b. a OR b) data (rd_bytes off len (e_regs e))))"

section \<open>Counters and the watchdog\<close>

definition range_hits :: "nat \<Rightarrow> nat \<Rightarrow> nat \<Rightarrow> nat \<Rightarrow> bool" where
  "range_hits off len lo hi \<longleftrightarrow> off \<le> hi \<and> off + len > lo"

definition esc_cnt_inc :: "nat \<Rightarrow> 'x esc \<Rightarrow> 'x esc" where
  "esc_cnt_inc reg e = (if e_regs e reg < 0xFF then e\<lparr>e_regs := (e_regs e)(reg := e_regs e reg + 1)\<rparr> else e)"

text \<open>A sync manager that triggers the watchdog: active, written by the master, trigger enabled, not empty.\<close>

definition sm_triggers :: "regs \<Rightarrow> nat \<Rightarrow> bool" where
  "sm_triggers r k \<longleftrightarrow>
    (let sm = 0x0800 + k * 8 in
     r (sm + 6) AND 0x01 \<noteq> 0 \<and> r (sm + 4) AND 0x40 \<noteq> 0 \<and> r (sm + 4) AND 0x0C = 0x04 \<and> rd_le16 r (sm + 2) > 0)"

definition esc_has_wd_trigger_sm :: "'x esc \<Rightarrow> bool" where
  "esc_has_wd_trigger_sm e = list_ex (sm_triggers (e_regs e)) [0..<REG_SM_COUNT]"

definition wd_trigger :: "nat \<Rightarrow> nat \<Rightarrow> nat \<Rightarrow> 'x esc \<Rightarrow> 'x esc" where
  "wd_trigger off len k e =
    (let r = e_regs e; sm = 0x0800 + k * 8; last = unat (rd_le16 r sm + rd_le16 r (sm + 2) - 1) in
     if sm_triggers r k \<and> range_hits off len last last
     then e\<lparr>e_wd := (e_wd e)\<lparr>wd_last_trigger_ns := wd_now_ns (e_wd e), wd_running := True\<rparr>,
            e_regs := r(REG_WD_STATUS_PD := r REG_WD_STATUS_PD OR 0x01)\<rparr>
     else e)"

definition esc_wd_on_write :: "nat \<Rightarrow> nat \<Rightarrow> 'x esc \<Rightarrow> 'x esc" where
  "esc_wd_on_write off len e = fold (wd_trigger off len) [0..<REG_SM_COUNT] e"

definition wd_timeout :: "regs \<Rightarrow> u64" where
  "wd_timeout r = (ucast (rd_le16 r 0x0400) + 2) * 40 * ucast (rd_le16 r 0x0420)"

definition wd_expire :: "u64 \<Rightarrow> 'x esc \<Rightarrow> 'x esc" where
  "wd_expire now e =
    (if wd_running (e_wd e) \<and> now - wd_last_trigger_ns (e_wd e) > wd_timeout (e_regs e)
     then esc_cnt_inc 0x0442 (e\<lparr>e_regs := (e_regs e)(REG_WD_STATUS_PD := e_regs e REG_WD_STATUS_PD AND NOT 0x01),
       e_wd := (e_wd e)\<lparr>wd_running := False, wd_expire_events := wd_expire_events (e_wd e) + 1\<rparr>\<rparr>)
     else e)"

definition esc_wd_check :: "u64 \<Rightarrow> 'x esc \<Rightarrow> 'x esc \<times> bool" where
  "esc_wd_check now e =
    (let e = e\<lparr>e_wd := (e_wd e)\<lparr>wd_now_ns := now\<rparr>\<rparr> in
     if rd_le16 (e_regs e) 0x0420 = 0 then (e\<lparr>e_regs := (e_regs e)(REG_WD_STATUS_PD := e_regs e REG_WD_STATUS_PD OR 0x01)\<rparr>, False)
     else
      let e = wd_expire now e in
      if wd_react (e_wd e) \<and> e_regs e REG_AL_STATUS AND 0x0F = ESM_OP \<and> e_regs e REG_WD_STATUS_PD AND 0x01 = 0 \<and>
         esc_has_wd_trigger_sm e
      then (e\<lparr>e_regs := wr_le16 REG_AL_STATUS_CODE 0x001B (wr_le16 REG_AL_STATUS (ucast (ESM_SAFEOP OR 0x10)) (e_regs e)),
              e_got_valid_outputs := False\<rparr>, True)
      else (e, False))"

section \<open>Writing\<close>

text \<open>Read-only for the master: status and PDI control of the sync managers, the watchdog status.\<close>

definition esc_ro :: "nat \<Rightarrow> bool" where
  "esc_ro i \<longleftrightarrow> (0x0800 \<le> i \<and> i < 0x0820 \<and> (i mod 8 = 5 \<or> i mod 8 = 7)) \<or> i = 0x0440 \<or> i = 0x0441"

definition zero_bytes :: "nat \<Rightarrow> nat \<Rightarrow> regs \<Rightarrow> regs" where
  "zero_bytes p n r = (\<lambda>i. if p \<le> i \<and> i < p + n then 0 else r i)"

definition clear_counters :: "nat \<Rightarrow> nat \<Rightarrow> regs \<Rightarrow> regs" where
  "clear_counters off len r =
    (let r = (if range_hits off len 0x0300 0x030B then zero_bytes 0x0320 8 (zero_bytes 0x0314 4 (zero_bytes 0x0300 12 r)) else r);
         r = (if range_hits off len 0x030C 0x030C then r(0x030C := 0) else r);
         r = (if range_hits off len 0x030D 0x030D then zero_bytes 0x030D 3 r else r);
         r = (if range_hits off len 0x0310 0x0313 then zero_bytes 0x0310 4 r else r)
     in if range_hits off len 0x0442 0x0444 then zero_bytes 0x0442 3 r else r)"

definition mbx_repeat :: "nat \<Rightarrow> nat \<Rightarrow> u8 \<Rightarrow> 'x esc \<Rightarrow> 'x esc" where
  "mbx_repeat off len act_old e =
    (let r = e_regs e in
     if range_hits off len 0x080E 0x080E \<and> (r 0x080E XOR act_old) AND 0x02 \<noteq> 0
     then e\<lparr>e_regs := r(REG_SM1_STATUS := r REG_SM1_STATUS OR 0x08, 0x080F := (r 0x080F AND NOT 0x02) OR (r 0x080E AND 0x02)),
            e_fault := (e_fault e)\<lparr>ft_mbx_repeats_served := ft_mbx_repeats_served (e_fault e) + 1\<rparr>\<rparr>
     else e)"

definition sii_command :: "nat \<Rightarrow> nat \<Rightarrow> 'x esc \<Rightarrow> 'x esc" where
  "sii_command off len e =
    (if range_hits off len 0x0503 0x0503
     then
      let r = e_regs e; hi = r 0x0503; cmd = hi AND 0x07;
          e = (if cmd = 0 then e\<lparr>e_regs := r(0x0503 := hi AND NOT 0x60)\<rparr>
               else if cmd = 1 \<or> cmd = 4
               then (let e = esc_sii_refresh_data (e\<lparr>e_regs := r(0x0503 := hi AND NOT 0x60)\<rparr>)
                     in e\<lparr>e_sii_cmd_reads := e_sii_cmd_reads e + 1\<rparr>)
               else e\<lparr>e_regs := r(0x0503 := hi OR 0x20)\<rparr>);
          r = e_regs e
      in e\<lparr>e_regs := r(0x0503 := r 0x0503 AND NOT (0x80 OR 0x07), 0x0502 := r 0x0502 AND NOT 0x01)\<rparr>
     else e)"

definition address_caches :: "nat \<Rightarrow> nat \<Rightarrow> 'x esc \<Rightarrow> 'x esc" where
  "address_caches off len e =
    (let r = e_regs e;
         e = (if off \<le> 0x0010 \<and> off + len \<ge> 0x0012 then e\<lparr>e_station_address := rd_le16 r 0x0010\<rparr> else e);
         e = (if off \<le> 0x0012 \<and> off + len \<ge> 0x0014 then e\<lparr>e_station_alias := rd_le16 r 0x0012\<rparr> else e)
     in if off \<le> 0x0103 \<and> off + len > 0x0103 then e\<lparr>e_alias_enabled := (r 0x0103 AND 0x01 \<noteq> 0)\<rparr> else e)"

definition esc_phys_write :: "'x esc_env \<Rightarrow> nat \<Rightarrow> u8 list \<Rightarrow> 'x esc \<Rightarrow> 'x esc" where
  "esc_phys_write env off data e =
    (let len = length data in
     if off + len > ESC_REG_SPACE_SIZE then e
     else
      let r0 = e_regs e;
          e = esc_dc_after_write (v_dc env) (v_n env) off data (e\<lparr>e_regs := wr_bytes off data r0\<rparr>);
          r = (\<lambda>i. if esc_ro i then r0 i else e_regs e i);
          e = e\<lparr>e_regs := clear_counters off len r\<rparr>;
          e = mbx_repeat off len (r0 0x080E) e;
          e = esc_wd_on_write off len e;
          e = address_caches off len (sii_command off len e)
      in if off < unat (e_mbx_out e) + unat (e_mbx_out_len e) \<and> off + len > unat (e_mbx_out e) then v_coe env e else e)"

definition esc_addr_match :: "'x esc \<Rightarrow> u16 \<Rightarrow> bool" where
  "esc_addr_match e adp \<longleftrightarrow> adp = e_station_address e \<or> (e_alias_enabled e \<and> adp = e_station_alias e)"

section \<open>Logical addressing\<close>

definition bit_get :: "u8 list \<Rightarrow> nat \<Rightarrow> bool" where
  "bit_get b i = bit (b ! (i div 8)) (i mod 8)"

definition bit_put :: "nat \<Rightarrow> bool \<Rightarrow> u8 list \<Rightarrow> u8 list" where
  "bit_put i v b = b[i div 8 := (if v then b ! (i div 8) OR push_bit (i mod 8) 1 else b ! (i div 8) AND NOT (push_bit (i mod 8) 1))]"

definition bits_copy :: "u8 list \<Rightarrow> nat \<Rightarrow> nat \<Rightarrow> nat \<Rightarrow> u8 list \<Rightarrow> u8 list" where
  "bits_copy src s n d dst = fold (\<lambda>k. bit_put (d + k) (bit_get src (s + k))) [0..<n] dst"

text \<open>The segment of the data an FMMU maps, replaced.\<close>

definition splice :: "nat \<Rightarrow> 'a list \<Rightarrow> 'a list \<Rightarrow> 'a list" where
  "splice p seg xs = take p xs @ seg @ drop (p + length seg) xs"

text \<open>The result tells whether the mapping was read and whether it was written.\<close>

definition fmmu_apply_bits :: "'x esc_env \<Rightarrow> u32 \<Rightarrow> nat \<Rightarrow> nat \<Rightarrow> nat \<Rightarrow> bool \<Rightarrow> bool \<Rightarrow> u8 list \<Rightarrow> 'x esc \<Rightarrow>
    'x esc \<times> u8 list \<times> bool \<times> bool" where
  "fmmu_apply_bits env log_addr lbit0 lbit_end pbit0 seg_read seg_write data e =
    (let d0 = unat log_addr * 8; d1 = d0 + length data * 8; o0 = max lbit0 d0; o1 = min lbit_end d1 in
     if o0 \<ge> o1 \<or> (\<not> seg_read \<and> \<not> seg_write) then (e, data, False, False)
     else
      let nbits = o1 - o0; dbit = o0 - d0; pb = pbit0 + (o0 - lbit0); pbyte = pb div 8;
          plen = (pb + nbits + 7) div 8 - pbyte; pbit_in = pb mod 8
      in if pbyte + plen > ESC_REG_SPACE_SIZE then (e, data, False, False)
         else
          let dbyte = dbit div 8; wsrc = take ((dbit + nbits + 7) div 8 - dbyte) (drop dbyte data);
              (e, data) = (if seg_read
                then (let (e, phys) = esc_phys_read env pbyte (replicate plen 0) e in (e, bits_copy phys pbit_in nbits dbit data))
                else (e, data));
              e = (if seg_write
                then esc_phys_write env pbyte (bits_copy wsrc (dbit - dbyte * 8) nbits pbit_in (rd_bytes pbyte plen (e_regs e))) e
                else e)
          in (e, data, seg_read, seg_write))"

definition fmmu_bytes :: "'x esc_env \<Rightarrow> u32 \<Rightarrow> u32 \<Rightarrow> u16 \<Rightarrow> u16 \<Rightarrow> bool \<Rightarrow> bool \<Rightarrow> u8 list \<Rightarrow> 'x esc \<Rightarrow>
    'x esc \<times> u8 list \<times> bool \<times> bool" where
  "fmmu_bytes env log_addr log_start len phys_start seg_read seg_write data e =
    (let dg_end = log_addr + of_nat (length data); fmmu_end = log_start + ucast len;
         ov_start = max log_addr log_start; ov_end = min dg_end fmmu_end
     in if ov_start \<ge> ov_end then (e, data, False, False)
        else
         let ov_len = unat (ucast (ov_end - ov_start) :: u16); data_offset = unat (ucast (ov_start - log_addr) :: u16);
             phys_offset = unat (phys_start + ucast (ov_start - log_start)); seg = take ov_len (drop data_offset data);
             (e1, seg1) = esc_phys_read env phys_offset seg e
         in if seg_read \<and> seg_write then (esc_phys_write env phys_offset seg e1, splice data_offset seg1 data, True, True)
            else if seg_read then (e1, splice data_offset seg1 data, True, False)
            else if seg_write then ((esc_phys_write env phys_offset seg e)\<lparr>e_got_valid_outputs := True\<rparr>, data, False, True)
            else (e, data, False, False))"

definition fmmu_bits :: "'x esc_env \<Rightarrow> u32 \<Rightarrow> u32 \<Rightarrow> u16 \<Rightarrow> u16 \<Rightarrow> nat \<Rightarrow> nat \<Rightarrow> nat \<Rightarrow> bool \<Rightarrow> bool \<Rightarrow> u8 list \<Rightarrow> 'x esc \<Rightarrow>
    'x esc \<times> u8 list \<times> bool \<times> bool" where
  "fmmu_bits env log_addr log_start len phys_start lstart_bit lstop_bit pstart_bit seg_read seg_write data e =
    (let lbit0 = unat log_start * 8 + lstart_bit; lbit_end = (unat log_start + unat len - 1) * 8 + lstop_bit + 1
     in if lbit_end \<le> lbit0 then (e, data, False, False)
        else let (e, data, rdone, wdone) =
               fmmu_apply_bits env log_addr lbit0 lbit_end (unat phys_start * 8 + pstart_bit) seg_read seg_write data e
             in (if wdone then e\<lparr>e_got_valid_outputs := True\<rparr> else e, data, rdone, wdone))"

definition fmmu_entry :: "'x esc_env \<Rightarrow> u32 \<Rightarrow> u8 \<Rightarrow> nat \<Rightarrow> 'x esc \<times> u8 list \<times> bool \<times> bool \<Rightarrow> 'x esc \<times> u8 list \<times> bool \<times> bool" where
  "fmmu_entry env log_addr cmd f st =
    (case st of (e, data, any_read, any_write) \<Rightarrow>
      let r = e_regs e; p = 0x0600 + f * 16;
          log_start = rd_le32 r p; len = rd_le16 r (p + 4); phys_start = rd_le16 r (p + 8); type_op = r (p + 11);
          lstart_bit = unat (r (p + 6) AND 7); lstop_bit = unat (r (p + 7) AND 7); pstart_bit = unat (r (p + 10) AND 7);
          rd = (type_op AND 0x01 \<noteq> 0 \<and> (cmd = CMD_LRD \<or> cmd = CMD_LRW));
          wr = (type_op AND 0x02 \<noteq> 0 \<and> (cmd = CMD_LWR \<or> cmd = CMD_LRW))
      in if r (p + 12) AND 0x01 = 0 \<or> len = 0 then st
         else
          let (e, data, rdone, wdone) = (if lstart_bit \<noteq> 0 \<or> lstop_bit \<noteq> 7 \<or> pstart_bit \<noteq> 0
                then fmmu_bits env log_addr log_start len phys_start lstart_bit lstop_bit pstart_bit rd wr data e
                else fmmu_bytes env log_addr log_start len phys_start rd wr data e)
          in (e, data, any_read \<or> rdone, any_write \<or> wdone))"

definition fmmu_apply :: "'x esc_env \<Rightarrow> u32 \<Rightarrow> u8 \<Rightarrow> u8 list \<Rightarrow> u16 \<Rightarrow> 'x esc \<Rightarrow> 'x esc \<times> u8 list \<times> u16" where
  "fmmu_apply env log_addr cmd data wkc e =
    (let nf = min (unat (e_regs e 0x0004)) REG_FMMU_COUNT;
         (e, data, any_read, any_write) = fold (fmmu_entry env log_addr cmd) [0..<nf] (e, data, False, False);
         wkc = (if cmd = CMD_LRD then (if any_read then wkc + 1 else wkc)
                else if cmd = CMD_LWR then (if any_write then wkc + 1 else wkc)
                else let wkc = (if any_read then wkc + 1 else wkc) in if any_write then wkc + 2 else wkc)
     in (e, data, wkc))"

section \<open>The state machine\<close>

definition al_set :: "u8 \<Rightarrow> u16 \<Rightarrow> 'x esc \<Rightarrow> 'x esc" where
  "al_set st code e = e\<lparr>e_regs := wr_le16 REG_AL_STATUS_CODE code (wr_le16 REG_AL_STATUS (ucast st) (e_regs e))\<rparr>"

definition valid_transition :: "u8 \<Rightarrow> u8 \<Rightarrow> bool" where
  "valid_transition current requested \<longleftrightarrow>
    (if current = ESM_INIT then requested = ESM_PREOP
     else if current = ESM_PREOP then requested = ESM_INIT \<or> requested = ESM_SAFEOP
     else if current = ESM_SAFEOP then requested = ESM_PREOP \<or> requested = ESM_INIT \<or> requested = ESM_OP
     else if current = ESM_OP then requested = ESM_SAFEOP \<or> requested = ESM_PREOP \<or> requested = ESM_INIT
     else False)"

definition al_force_reject :: "u8 \<Rightarrow> 'x esc \<Rightarrow> 'x esc" where
  "al_force_reject current e =
    (let f = e_fault e; code = (if ft_reject_al_code f \<noteq> 0 then ft_reject_al_code f else 0x0012);
         e = (if ft_reject_al_sticky f then e
              else e\<lparr>e_force_reject_al := False, e_fault := f\<lparr>ft_reject_al_code := 0, ft_reject_al_state := 0\<rparr>\<rparr>)
     in al_set (current OR 0x10) code e)"

definition esc_al_control_write :: "'x esc_env \<Rightarrow> 'x esc \<Rightarrow> 'x esc" where
  "esc_al_control_write env e =
    (let al_control = rd_le16 (e_regs e) REG_AL_CONTROL; requested = ucast (al_control AND 0x0F); error_ack = bit al_control 4;
         al_status = rd_le16 (e_regs e) REG_AL_STATUS; current = ucast (al_status AND 0x0F); had_error = bit al_status 4
     in if requested = current then (if error_ack \<and> had_error then al_set current 0 e else e)
        else if e_force_reject_al e \<and> (ft_reject_al_state (e_fault e) = 0 \<or> requested = ft_reject_al_state (e_fault e))
        then al_force_reject current e
        else if \<not> valid_transition current requested then al_set (current OR 0x10) 0x0011 e
        else if e_prof e \<and> current = ESM_PREOP \<and> requested = ESM_SAFEOP \<and> v_check_pd env e \<noteq> 0
        then al_set (current OR 0x10) (v_check_pd env e) e
        else if current = ESM_SAFEOP \<and> requested = ESM_OP \<and> \<not> e_got_valid_outputs e then al_set (current OR 0x10) 0x0019 e
        else if current = ESM_SAFEOP \<and> requested = ESM_OP \<and> ft_op_delay_ms (e_fault e) \<noteq> 0 \<and> \<not> ft_powered_off (e_fault e) then e
        else let e = al_set requested 0 e in if requested = ESM_SAFEOP then e\<lparr>e_got_valid_outputs := False\<rparr> else e)"

section \<open>Datagrams and frames\<close>

text \<open>How a node takes part in a physically addressed command: does it match, is it read, is it written.\<close>

definition dg_select :: "u8 \<Rightarrow> u16 \<Rightarrow> u16 \<Rightarrow> 'x esc \<Rightarrow> bool \<times> bool \<times> bool" where
  "dg_select cmd adp local_adp e =
    (if cmd = CMD_APRD then (local_adp = 0, True, False)
     else if cmd = CMD_APWR then (local_adp = 0, False, True)
     else if cmd = CMD_APRW then (local_adp = 0, True, True)
     else if cmd = CMD_FPRD then (esc_addr_match e adp, True, False)
     else if cmd = CMD_FPWR then (esc_addr_match e adp, False, True)
     else if cmd = CMD_FPRW then (esc_addr_match e adp, True, True)
     else if cmd = CMD_BRD then (True, True, False)
     else if cmd = CMD_BWR then (True, False, True)
     else if cmd = CMD_BRW then (True, True, True)
     else if cmd = CMD_ARMW then (True, local_adp = 0, local_adp \<noteq> 0)
     else if cmd = CMD_FRMW then (True, esc_addr_match e adp, \<not> esc_addr_match e adp)
     else (False, False, False))"

definition node_write :: "'x esc_env \<Rightarrow> nat \<Rightarrow> u8 list \<Rightarrow> 'x esc \<Rightarrow> 'x esc" where
  "node_write env off data e =
    (let e = esc_phys_write env off data e in if off = REG_AL_CONTROL then esc_al_control_write env e else e)"

definition node_access :: "'x esc_env \<Rightarrow> u8 \<Rightarrow> bool \<Rightarrow> bool \<Rightarrow> nat \<Rightarrow> u8 list \<Rightarrow> u16 \<Rightarrow> 'x esc \<Rightarrow> 'x esc \<times> u8 list \<times> u16" where
  "node_access env cmd do_read do_write off data wkc e =
    (if do_read \<and> do_write
     then let (e, d) = (if cmd = CMD_BRW then esc_phys_read_or env off data e else esc_phys_read env off data e)
          in (node_write env off data e, d, wkc + 1 + 2)
     else if do_read
     then let (e, d) = (if cmd = CMD_BRD then esc_phys_read_or env off data e else esc_phys_read env off data e) in (e, d, wkc + 1)
     else if do_write then (node_write env off data e, data, wkc + 1)
     else (e, data, wkc))"

definition dg_node :: "'x esc_env \<Rightarrow> u8 \<Rightarrow> u16 \<Rightarrow> u16 \<Rightarrow> u16 \<Rightarrow> u8 list \<Rightarrow> u16 \<Rightarrow> 'x esc \<Rightarrow> 'x esc \<times> u8 list \<times> u16" where
  "dg_node env cmd adp ado local_adp data wkc e =
    (if cmd = CMD_LRD \<or> cmd = CMD_LWR \<or> cmd = CMD_LRW
     then if ft_skip_logical (e_fault e) then (e, data, wkc)
          else fmmu_apply env (ucast adp OR push_bit 16 (ucast ado)) cmd data wkc e
     else case dg_select cmd adp local_adp e of (matched, do_read, do_write) \<Rightarrow>
       if matched then node_access env cmd do_read do_write (unat ado) data wkc e else (e, data, wkc))"

definition adp_next :: "u8 \<Rightarrow> u16 \<Rightarrow> u16" where
  "adp_next cmd local_adp =
    (if cmd = CMD_APRD \<or> cmd = CMD_APWR \<or> cmd = CMD_APRW \<or> cmd = CMD_ARMW then local_adp + 1 else local_adp)"

fun dg_chain :: "'x esc_env \<Rightarrow> u8 \<Rightarrow> u16 \<Rightarrow> u16 \<Rightarrow> u16 \<Rightarrow> 'x esc list \<Rightarrow> u8 list \<Rightarrow> u16 \<Rightarrow> 'x esc list \<times> u8 list \<times> u16" where
  "dg_chain env cmd adp ado local_adp [] data wkc = ([], data, wkc)"
| "dg_chain env cmd adp ado local_adp (e # es) data wkc =
    (let (e, data, wkc) = dg_node env cmd adp ado local_adp data wkc e;
         (es, data, wkc) = dg_chain env cmd adp ado (adp_next cmd local_adp) es data wkc
     in (e # es, data, wkc))"

definition process_datagram :: "'x esc_env \<Rightarrow> u8 \<Rightarrow> u16 \<Rightarrow> u16 \<Rightarrow> 'x esc list \<Rightarrow> u8 list \<Rightarrow> u16 \<Rightarrow> 'x esc list \<times> u8 list \<times> u16" where
  "process_datagram env cmd adp ado chain data wkc = dg_chain env cmd adp ado adp chain data wkc"

definition wr16_at :: "nat \<Rightarrow> u16 \<Rightarrow> u8 list \<Rightarrow> u8 list" where
  "wr16_at p v buf = buf[p := ucast (v AND 0xFF), p + 1 := ucast (drop_bit 8 v AND 0xFF)]"

function frame_loop :: "'x esc_env \<Rightarrow> nat \<Rightarrow> nat \<Rightarrow> 'x esc list \<Rightarrow> u8 list \<Rightarrow> 'x esc list \<times> u8 list" where
  "frame_loop env end off chain buf =
    (let dlen = unat (rd_le16 ((!) buf) (off + 6) AND 0x07FF) in
     if off + 12 \<le> end \<and> off + 10 + dlen + 2 \<le> end
     then
      let (chain, data, wkc) = process_datagram env (buf ! off) (rd_le16 ((!) buf) (off + 2)) (rd_le16 ((!) buf) (off + 4)) chain
             (take dlen (drop (off + 10) buf)) (rd_le16 ((!) buf) (off + 10 + dlen))
      in frame_loop env end (off + 10 + dlen + 2) chain (wr16_at (off + 10 + dlen) wkc (splice (off + 10) data buf))
     else (chain, buf))"
  by pat_completeness auto
termination by (relation "measure (\<lambda>(env, end, off, chain, buf). end - off)") auto

declare frame_loop.simps [simp del]

definition process_frame :: "'x esc_env \<Rightarrow> 'x esc list \<Rightarrow> u8 list \<Rightarrow> 'x esc list \<times> u8 list" where
  "process_frame env chain buf =
    (if length buf < 16 then (chain, buf)
     else if buf ! 12 \<noteq> 0x88 \<or> buf ! 13 \<noteq> 0xA4 then (chain, buf)
     else frame_loop env (min (16 + unat (rd_le16 ((!) buf) 14 AND 0x07FF)) (length buf)) 16 chain buf)"

end
