(* ===== verification/Esc_Bus.thy ===== *)
theory Esc_Bus
  imports Esc
begin

text \<open>
  What a frame does on its way through the chain of simulated slaves: it comes back with the same
  structure, auto-increment addresses reach one node, the working counter counts the nodes that took
  part, and a logical read-write exchanges the process data of every node.
\<close>

section \<open>Data keep their length\<close>

lemma length_splice [simp]: "p + length seg \<le> length xs \<Longrightarrow> length (splice p seg xs) = length xs"
  by (simp add: splice_def)

lemma length_bit_put [simp]: "length (bit_put i v b) = length b"
  by (simp add: bit_put_def)

lemma length_bits_copy [simp]: "length (bits_copy src s n d dst) = length dst"
proof -
  have "length (fold (\<lambda>k. bit_put (d + k) (bit_get src (s + k))) ks dst) = length dst" for ks
    by (induction ks arbitrary: dst) simp_all
  then show ?thesis by (simp add: bits_copy_def)
qed

lemma length_rd_bytes [simp]: "length (rd_bytes p n r) = n"
  by (simp add: rd_bytes_def)

lemma length_phys_read [simp]: "length (snd (esc_phys_read env off data e)) = length data"
  by (simp add: esc_phys_read_def Let_def)

lemma length_phys_read_or [simp]: "length (snd (esc_phys_read_or env off data e)) = length data"
  by (simp add: esc_phys_read_or_def Let_def)

lemma length_node_access: "length (fst (snd (node_access env cmd do_read do_write off data wkc e))) = length data"
  using length_phys_read [of env off data e] length_phys_read_or [of env off data e]
  by (auto simp: node_access_def split: prod.splits simp del: length_phys_read length_phys_read_or)

text \<open>The part of a logical datagram that an FMMU maps lies inside its data, also when the addresses wrap.\<close>

lemma overlap_in_data:
  fixes la dg_end s t :: u32
  assumes "n < 65536" "dg_end = la + of_nat n" "la \<le> s" "t \<le> dg_end" "s < t"
  shows "unat (ucast (s - la) :: u16) = unat s - unat la" "unat (ucast (t - s) :: u16) = unat t - unat s"
    "unat t \<le> unat la + n" "unat la + n < 2 ^ 32"
proof -
  have lt: "unat la \<le> unat s" "unat s < unat t" "unat t \<le> unat dg_end"
    using assms(3-5) by (simp_all add: word_le_nat_alt word_less_nat_alt)
  have d: "unat dg_end = (unat la + n) mod 2 ^ 32" using assms(1,2) by (simp add: unat_word_ariths unat_of_nat)
  show w: "unat la + n < 2 ^ 32"
  proof (rule ccontr)
    assume n: "\<not> unat la + n < 2 ^ 32"
    moreover have "unat la < 2 ^ 32" using unat_bound [of la] by simp
    ultimately have "unat dg_end = unat la + n - 2 ^ 32" using d assms(1) by (simp add: mod_if)
    then have "unat dg_end < unat la" using assms(1) n by simp
    then show False using lt by linarith
  qed
  then have e: "unat dg_end = unat la + n" using d by simp
  then show "unat t \<le> unat la + n" using lt by simp
  have "unat (s - la) = unat s - unat la" "unat (t - s) = unat t - unat s"
    using assms(3,5) by (simp_all add: unat_sub word_less_nat_alt word_le_nat_alt)
  moreover have "unat s - unat la < 2 ^ 16" "unat t - unat s < 2 ^ 16" using lt e assms(1) by simp_all
  ultimately show "unat (ucast (s - la) :: u16) = unat s - unat la" "unat (ucast (t - s) :: u16) = unat t - unat s"
    by (simp_all add: unsigned_ucast_eq take_bit_nat_eq_self)
qed

lemma length_apply_bits: "length (fst (snd (fmmu_apply_bits env la l0 l1 p rd wr data e))) = length data"
  unfolding fmmu_apply_bits_def Let_def case_prod_unfold
  by (simp only: if_distrib [of snd] if_distrib [of fst] if_distrib [of length] fst_conv snd_conv length_bits_copy if_cancel)

lemma length_fmmu_bytes:
  assumes "length data < 65536"
  shows "length (fst (snd (fmmu_bytes env la ls n ps rd wr data e))) = length data"
proof -
  define dg_end where "dg_end = la + of_nat (length data)"
  define S where "S = max la ls"
  define T where "T = min dg_end (ls + ucast n)"
  have b: "unat (ucast (S - la) :: u16) + unat (ucast (T - S) :: u16) \<le> length data" if "S < T"
  proof -
    have i: "la \<le> S" "T \<le> dg_end" by (simp_all add: S_def T_def)
    then have "unat la \<le> unat S" "unat S < unat T" using that by (simp_all add: word_le_nat_alt word_less_nat_alt)
    then show ?thesis using overlap_in_data(1-3) [OF assms dg_end_def i that] by linarith
  qed
  show ?thesis unfolding fmmu_bytes_def Let_def dg_end_def [symmetric] S_def [symmetric] T_def [symmetric]
    using b by (auto simp: case_prod_unfold not_le min_def)
qed

lemma length_fmmu_entry:
  assumes "length (fst (snd st)) < 65536"
  shows "length (fst (snd (fmmu_entry env la cmd f st))) = length (fst (snd st))"
  using assms by (cases st) (simp add: fmmu_entry_def fmmu_bits_def Let_def case_prod_unfold length_apply_bits length_fmmu_bytes)

lemma length_fmmu_entries:
  "length (fst (snd st)) < 65536 \<Longrightarrow> length (fst (snd (fold (fmmu_entry env la cmd) fs st))) = length (fst (snd st))"
  by (induction fs arbitrary: st) (simp_all add: length_fmmu_entry)

lemma length_fmmu_apply:
  assumes "length data < 65536"
  shows "length (fst (snd (fmmu_apply env la cmd data wkc e))) = length data"
  using length_fmmu_entries [of "(e, data, False, False)"] assms by (simp add: fmmu_apply_def Let_def case_prod_unfold)

lemma length_dg_node:
  "length data < 65536 \<Longrightarrow> length (fst (snd (dg_node env cmd adp ado la data wkc e))) = length data"
  by (simp add: dg_node_def length_fmmu_apply length_node_access case_prod_unfold)

lemma length_dg_chain:
  assumes "length data < 65536"
  shows "length (fst (snd (dg_chain env cmd adp ado la chain data wkc))) = length data \<and>
    length (fst (dg_chain env cmd adp ado la chain data wkc)) = length chain"
  using assms
proof (induction chain arbitrary: la data wkc)
  case (Cons e es)
  then show ?case by (simp add: Let_def case_prod_unfold length_dg_node)
qed simp

section \<open>Frames\<close>

text \<open>
  A frame as its datagrams: header, data and working counter, as far as the length field of the
  frame and the frame itself allow. Running the datagrams one after the other is the specification.
\<close>

function parse_dgs :: "nat \<Rightarrow> u8 list \<Rightarrow> (u8 list \<times> u8 list \<times> u16) list" where
  "parse_dgs n xs =
    (let dlen = unat (rd_le16 ((!) xs) 6 AND 0x07FF) in
     if 12 \<le> n \<and> 12 + dlen \<le> n
     then (take 10 xs, take dlen (drop 10 xs), rd_le16 ((!) xs) (10 + dlen)) # parse_dgs (n - (12 + dlen)) (drop (12 + dlen) xs)
     else [])"
  by pat_completeness auto
termination by (relation "measure fst") auto

declare parse_dgs.simps [simp del]

definition frame_dgs :: "u8 list \<Rightarrow> (u8 list \<times> u8 list \<times> u16) list" where
  "frame_dgs buf =
    (if length buf < 16 \<or> buf ! 12 \<noteq> 0x88 \<or> buf ! 13 \<noteq> 0xA4 then []
     else parse_dgs (min (unat (rd_le16 ((!) buf) 14 AND 0x07FF)) (length buf - 16)) (drop 16 buf))"

fun run_dgs :: "'x esc_env \<Rightarrow> 'x esc list \<Rightarrow> (u8 list \<times> u8 list \<times> u16) list \<Rightarrow> 'x esc list \<times> (u8 list \<times> u8 list \<times> u16) list" where
  "run_dgs env chain [] = (chain, [])"
| "run_dgs env chain ((h, d, w) # ds) =
    (let (chain, d, w) = process_datagram env (h ! 0) (rd_le16 ((!) h) 2) (rd_le16 ((!) h) 4) chain d w;
         (chain, ds) = run_dgs env chain ds
     in (chain, (h, d, w) # ds))"

lemma rd_le16_nth_drop: "rd_le16 ((!) (drop n xs)) p = rd_le16 ((!) xs) (n + p)" if "n + p + 1 < length xs" for xs :: "u8 list"
  using that by (simp add: rd_le16_def)

lemma rd_le16_bytes: "rd_le16 ((!) (xs @ [ucast (v AND 0xFF), ucast (drop_bit 8 v AND 0xFF)] @ ys)) (length xs) = v"
proof -
  have "ucast (ucast (v AND 0xFF) :: u8) OR push_bit 8 (ucast (ucast (drop_bit 8 v AND 0xFF) :: u8)) = v" for v :: u16
  proof (rule bit_word_eqI)
    fix i assume i: "i < LENGTH(16)"
    have m: "(0xFF :: u16) = mask 8" by (simp add: mask_eq_exp_minus_1)
    show "bit (ucast (ucast (v AND 0xFF) :: u8) OR push_bit 8 (ucast (ucast (drop_bit 8 v AND 0xFF) :: u8)) :: u16) i = bit v i"
      unfolding m using i by (auto simp: bit_simps)
  qed
  then show ?thesis by (simp add: rd_le16_def nth_append)
qed

lemma wr16_splice:
  assumes "length d = n" "length xs \<ge> 12 + n" "off \<le> length buf"
  shows "wr16_at (off + 10 + n) w (splice (off + 10) d (take off buf @ xs)) =
    take off buf @ take 10 xs @ d @ [ucast (w AND 0xFF), ucast (drop_bit 8 w AND 0xFF)] @ drop (12 + n) xs"
proof -
  obtain a b c e where xs: "xs = a @ b @ [c, e] @ drop (12 + n) xs" and l: "length a = 10" "length b = n"
  proof -
    have "xs = take 10 xs @ take n (drop 10 xs) @ [xs ! (10 + n), xs ! (11 + n)] @ drop (12 + n) xs"
    proof -
      have "drop (10 + n) xs = xs ! (10 + n) # xs ! (11 + n) # drop (12 + n) xs"
        using assms(2) by (simp add: Cons_nth_drop_Suc [symmetric] numeral_eq_Suc)
      then show ?thesis by (metis append_Cons append_Nil append_take_drop_id drop_drop add.commute)
    qed
    then show thesis using that assms(2) by fastforce
  qed
  define ys where "ys = drop (12 + n) xs"
  have xs: "xs = a @ b @ [c, e] @ ys" using xs by (simp add: ys_def)
  show ?thesis using assms(1,3) l unfolding ys_def [symmetric] unfolding xs wr16_at_def splice_def
    by (simp add: list_update_append)
qed

abbreviation le2 :: "u16 \<Rightarrow> u8 list" where "le2 v \<equiv> [ucast (v AND 0xFF), ucast (drop_bit 8 v AND 0xFF)]"

lemma rd_le16_cong: "xs ! p = ys ! q \<Longrightarrow> xs ! (p + 1) = ys ! (q + 1) \<Longrightarrow> rd_le16 ((!) xs) p = rd_le16 ((!) ys) q"
  by (simp add: rd_le16_def)

lemma parse_dgs_Cons:
  assumes "length h = 10" "length d = unat (rd_le16 ((!) h) 6 AND 0x07FF)" "12 + length d \<le> n"
  shows "parse_dgs n (h @ d @ le2 w @ ys) = (h, d, w) # parse_dgs (n - (12 + length d)) ys"
proof -
  have r: "rd_le16 ((!) (h @ d @ le2 w @ ys)) 6 = rd_le16 ((!) h) 6" using assms(1) by (intro rd_le16_cong) (simp_all add: nth_append)
  have w: "rd_le16 ((!) (h @ d @ le2 w @ ys)) (10 + length d) = w" using rd_le16_bytes [of "h @ d" w ys] assms(1) by simp
  have t: "take 10 (h @ d @ le2 w @ ys) = h" "take (length d) (drop 10 (h @ d @ le2 w @ ys)) = d" "drop (12 + length d) (h @ d @ le2 w @ ys) = ys"
    using assms(1) by simp_all
  show ?thesis by (subst parse_dgs.simps) (simp only: Let_def r assms(2) [symmetric] w t, use assms(3) in simp)
qed

lemma datagram_bound: "unat (v AND 0x07FF) < 65536" for v :: u16
  using unat_bound [of "v AND 0x07FF"] by simp

lemma frame_loop_spec:
  assumes "end \<le> length buf" "off \<le> end"
  shows "\<exists>ys. frame_loop env end off chain buf = (fst (run_dgs env chain (parse_dgs (end - off) (drop off buf))), take off buf @ ys) \<and>
    length ys = length (drop off buf) \<and> parse_dgs (end - off) ys = snd (run_dgs env chain (parse_dgs (end - off) (drop off buf)))"
  using assms
proof (induction "end - off" arbitrary: off chain buf rule: less_induct)
  case less
  define xs where "xs = drop off buf"
  define n where "n = unat (rd_le16 ((!) xs) 6 AND 0x07FF)"
  have bx: "take off buf @ xs = buf" "off \<le> length buf" "end - off \<le> length xs" using less.prems by (simp_all add: xs_def)
  have rx: "rd_le16 ((!) buf) (off + p) = rd_le16 ((!) xs) p" if "p + 1 < length xs" for p
    using rd_le16_nth_drop [of off p buf] that by (simp add: xs_def)
  show ?case
  proof (cases "12 \<le> end - off \<and> 12 + n \<le> end - off")
    case False
    then have "\<not> (off + 12 \<le> end \<and> off + 10 + unat (rd_le16 ((!) buf) (off + 6) AND 0x07FF) + 2 \<le> end)"
      using rx [of 6] bx(3) n_def by auto
    then have l: "frame_loop env end off chain buf = (chain, buf)" by (subst frame_loop.simps) (simp only: Let_def if_False)
    have "parse_dgs (end - off) xs = []" using False by (subst parse_dgs.simps) (simp add: n_def Let_def)
    then show ?thesis unfolding l xs_def [symmetric] using bx(1) by (intro exI [of _ xs]) simp
  next
    case True
    define h where "h = take 10 xs"
    define w where "w = rd_le16 ((!) xs) (10 + n)"
    have len: "12 + n \<le> length xs" using True bx(3) by simp
    have hx: "h ! 0 = xs ! 0" "rd_le16 ((!) h) p = rd_le16 ((!) xs) p" if "p < 9" for p
      using that len by (simp_all add: h_def rd_le16_def)
    obtain chain' d' w' where pd: "process_datagram env (xs ! 0) (rd_le16 ((!) xs) 2) (rd_le16 ((!) xs) 4) chain (take n (drop 10 xs)) w = (chain', d', w')"
      by (metis prod_cases3)
    have ld: "length d' = n"
      using length_dg_chain [of "take n (drop 10 xs)" env "xs ! 0" "rd_le16 ((!) xs) 2" "rd_le16 ((!) xs) 4" "rd_le16 ((!) xs) 2" chain w]
        pd len datagram_bound [of "rd_le16 ((!) xs) 6"] by (simp add: process_datagram_def n_def [symmetric])
    have nb: "unat (rd_le16 ((!) buf) (off + 6) AND 0x07FF) = n" using rx [of 6] len by (simp add: n_def)
    define buf1 where "buf1 = take off buf @ h @ d' @ le2 w' @ drop (12 + n) xs"
    have b1: "wr16_at (off + 10 + n) w' (splice (off + 10) d' buf) = buf1"
      using wr16_splice [OF ld len bx(2), of w'] unfolding bx(1) by (simp add: buf1_def h_def)
    have a: "buf ! off = xs ! 0" "take n (drop (off + 10) buf) = take n (drop 10 xs)" "rd_le16 ((!) buf) (off + 2) = rd_le16 ((!) xs) 2"
      "rd_le16 ((!) buf) (off + 4) = rd_le16 ((!) xs) 4" "rd_le16 ((!) buf) (off + 10 + n) = w"
      using len bx(2) rx [of 2] rx [of 4] rx [of "10 + n"] by (simp_all add: xs_def w_def add.commute add.left_commute)
    have c: "off + 12 \<le> end \<and> off + 10 + n + 2 \<le> end" using True by auto
    have step: "frame_loop env end off chain buf = frame_loop env end (off + 10 + n + 2) chain' buf1"
      by (subst frame_loop.simps) (simp only: Let_def nb c a pd b1 prod.case simp_thms if_True)
    have t: "drop (off + 10 + n + 2) buf1 = drop (12 + n) xs" "take (off + 10 + n + 2) buf1 = take off buf @ h @ d' @ le2 w'"
      "length buf1 = length buf" using bx ld len by (simp_all add: buf1_def h_def xs_def)
    have lt: "end - (off + 10 + n + 2) < end - off" and lx: "length xs = length buf - off" using c by (auto simp: xs_def)
    obtain ys where ys: "frame_loop env end (off + 10 + n + 2) chain' buf1 =
        (fst (run_dgs env chain' (parse_dgs (end - (off + 10 + n + 2)) (drop (12 + n) xs))), (take off buf @ h @ d' @ le2 w') @ ys)"
      "length ys = length (drop (12 + n) xs)"
      "parse_dgs (end - (off + 10 + n + 2)) ys = snd (run_dgs env chain' (parse_dgs (end - (off + 10 + n + 2)) (drop (12 + n) xs)))"
      using less.hyps [OF lt, of buf1 chain'] c less.prems t lx by auto
    have e: "end - (off + 10 + n + 2) = end - off - (12 + n)" by simp
    note ys = ys [unfolded e]
    have px: "parse_dgs (end - off) xs = (h, take n (drop 10 xs), w) # parse_dgs (end - off - (12 + n)) (drop (12 + n) xs)"
      using True by (subst parse_dgs.simps) (simp add: Let_def n_def [symmetric] h_def w_def)
    have py: "parse_dgs (end - off) (h @ d' @ le2 w' @ ys) = (h, d', w') # parse_dgs (end - off - (12 + n)) ys"
      using parse_dgs_Cons [of h d' "end - off" w' ys] ld hx(2) [of 6] len True by (simp add: h_def n_def)
    have r: "run_dgs env chain (parse_dgs (end - off) xs) =
        (fst (run_dgs env chain' (parse_dgs (end - off - (12 + n)) (drop (12 + n) xs))),
         (h, d', w') # snd (run_dgs env chain' (parse_dgs (end - off - (12 + n)) (drop (12 + n) xs))))"
      unfolding px using pd hx(1) [of 0] hx(2) [of 2] hx(2) [of 4] by (simp add: case_prod_unfold Let_def)
    show ?thesis unfolding xs_def [symmetric] r step
    proof (rule exI [of _ "h @ d' @ le2 w' @ ys"], intro conjI)
      show "length (h @ d' @ le2 w' @ ys) = length xs" using ys(2) ld len by (simp add: h_def)
    qed (use ys(1,3) py in \<open>simp_all\<close>)
  qed
qed

text \<open>C25. A frame comes back with its structure: whatever bytes it has, the returned frame has the same
  length and the same datagram headers, and the data and working counter of its datagrams, and the
  slaves, are those of passing the datagrams of the received frame through the chain one after the
  other.\<close>

theorem frame_runs_datagrams:
  "fst (process_frame env chain buf) = fst (run_dgs env chain (frame_dgs buf)) \<and>
   frame_dgs (snd (process_frame env chain buf)) = snd (run_dgs env chain (frame_dgs buf)) \<and>
   length (snd (process_frame env chain buf)) = length buf \<and> take 16 (snd (process_frame env chain buf)) = take 16 buf \<and>
   map fst (frame_dgs (snd (process_frame env chain buf))) = map fst (frame_dgs buf)"
proof -
  have hd: "map fst (snd (run_dgs env chain ds)) = map fst ds" for chain ds
    by (induction ds arbitrary: chain) (simp_all add: case_prod_unfold Let_def split_paired_all)
  show ?thesis
  proof (cases "length buf < 16 \<or> buf ! 12 \<noteq> 0x88 \<or> buf ! 13 \<noteq> 0xA4")
    case True
    then have "frame_dgs buf = []" "process_frame env chain buf = (chain, buf)" by (auto simp: frame_dgs_def process_frame_def)
    then show ?thesis by simp
  next
    case False
    define m where "m = unat (rd_le16 ((!) buf) 14 AND 0x07FF)"
    have p: "process_frame env chain buf = frame_loop env (min (16 + m) (length buf)) 16 chain buf" and l: "16 \<le> length buf"
      using False by (simp_all add: process_frame_def m_def)
    have e: "min (16 + m) (length buf) - 16 = min m (length buf - 16)" using l by simp
    have fd: "frame_dgs buf = parse_dgs (min m (length buf - 16)) (drop 16 buf)" using False by (simp add: frame_dgs_def m_def)
    obtain ys where ys: "process_frame env chain buf = (fst (run_dgs env chain (frame_dgs buf)), take 16 buf @ ys)"
      "length ys = length (drop 16 buf)" "parse_dgs (min m (length buf - 16)) ys = snd (run_dgs env chain (frame_dgs buf))"
      using frame_loop_spec [of "min (16 + m) (length buf)" buf 16 env chain] l unfolding p e fd by auto
    have k: "rd_le16 ((!) (take 16 buf @ ys)) 14 = rd_le16 ((!) buf) 14" using l by (intro rd_le16_cong) (simp_all add: nth_append)
    have "frame_dgs (take 16 buf @ ys) = parse_dgs (min m (length buf - 16)) ys"
      unfolding frame_dgs_def k m_def using False l ys(2) by (simp add: nth_append)
    then show ?thesis using ys l hd [of chain "frame_dgs buf"] by simp
  qed
qed

section \<open>Addressing and the working counter\<close>

text \<open>How much one node adds to the working counter of a physically addressed datagram.\<close>

definition node_wkc :: "u8 \<Rightarrow> u16 \<Rightarrow> u16 \<Rightarrow> 'x esc \<Rightarrow> nat" where
  "node_wkc cmd adp local_adp e =
    (case dg_select cmd adp local_adp e of (matched, do_read, do_write) \<Rightarrow>
       if matched then (if do_read \<and> do_write then 3 else if do_read \<or> do_write then 1 else 0) else 0)"

abbreviation is_logical :: "u8 \<Rightarrow> bool" where
  "is_logical cmd \<equiv> cmd \<in> {CMD_LRD, CMD_LWR, CMD_LRW}"

lemma wkc_dg_node:
  "\<not> is_logical cmd \<Longrightarrow> snd (snd (dg_node env cmd adp ado la data wkc e)) = wkc + of_nat (node_wkc cmd adp la e)"
  by (auto simp: dg_node_def node_wkc_def node_access_def case_prod_unfold Let_def)

text \<open>The address a node sees: auto-increment commands count it up on the way.\<close>

abbreviation adp_at :: "u8 \<Rightarrow> u16 \<Rightarrow> nat \<Rightarrow> u16" where
  "adp_at cmd la i \<equiv> (if cmd \<in> {CMD_APRD, CMD_APWR, CMD_APRW, CMD_ARMW} then la + of_nat i else la)"

lemma wkc_dg_chain:
  assumes "\<not> is_logical cmd"
  shows "snd (snd (dg_chain env cmd adp ado la chain data wkc)) =
    wkc + of_nat (\<Sum>i < length chain. node_wkc cmd adp (adp_at cmd la i) (chain ! i))"
proof (induction chain arbitrary: la data wkc)
  case (Cons e es)
  have s: "(\<Sum>i < length (e # es). node_wkc cmd adp (adp_at cmd la i) ((e # es) ! i)) =
      node_wkc cmd adp la e + (\<Sum>i < length es. node_wkc cmd adp (adp_at cmd (adp_next cmd la) i) (es ! i))"
    unfolding length_Cons sum.lessThan_Suc_shift by (simp add: adp_next_def add.assoc)
  show ?case unfolding s by (simp add: case_prod_unfold Let_def Cons.IH wkc_dg_node [OF assms])
qed simp

text \<open>A position address reaches only the node at that position, if there is one.\<close>

lemma dg_chain_none:
  assumes "cmd \<in> {CMD_APRD, CMD_APWR, CMD_APRW}" "\<forall>i < length chain. la + of_nat i \<noteq> 0"
  shows "dg_chain env cmd adp ado la chain data wkc = (chain, data, wkc)"
  using assms
proof (induction chain arbitrary: la)
  case (Cons e es)
  have z: "la \<noteq> 0" using Cons.prems(2) by force
  have "\<forall>i < length es. (la + 1) + of_nat i \<noteq> 0"
  proof (intro allI impI)
    fix i assume "i < length es"
    then have "la + of_nat (Suc i) \<noteq> 0" using Cons.prems(2) by (metis Suc_less_eq length_Cons)
    then show "(la + 1) + of_nat i \<noteq> 0" by (simp add: ac_simps)
  qed
  moreover have "dg_node env cmd adp ado la data wkc e = (e, data, wkc)" "adp_next cmd la = la + 1"
    using Cons.prems(1) z by (auto simp: dg_node_def dg_select_def adp_next_def)
  ultimately show ?case using Cons.IH Cons.prems(1) by simp
qed simp

text \<open>Auto-increment addressing: of a chain of at most 65536 slaves, a position command reads and
  writes exactly the slave at the position the two's complement of its address names, with the
  working counter of that access, and leaves all other slaves as they are; without such a slave it
  comes back unchanged.\<close>

theorem position_reaches_one:
  assumes "cmd \<in> {CMD_APRD, CMD_APWR, CMD_APRW}" "length chain \<le> 65536"
  shows "process_datagram env cmd adp ado chain data wkc =
    (let i = unat (- adp) in
     if i < length chain
     then (case node_access env cmd (cmd \<noteq> CMD_APWR) (cmd \<noteq> CMD_APRD) (unat ado) data wkc (chain ! i) of
             (e, d, w) \<Rightarrow> (chain[i := e], d, w))
     else (chain, data, wkc))"
proof -
  have "dg_chain env cmd adp ado la chain data wkc =
    (let i = unat (- la) in
     if i < length chain
     then (case node_access env cmd (cmd \<noteq> CMD_APWR) (cmd \<noteq> CMD_APRD) (unat ado) data wkc (chain ! i) of
             (e, d, w) \<Rightarrow> (chain[i := e], d, w))
     else (chain, data, wkc))" for la
    using assms(2)
  proof (induction chain arbitrary: la)
    case (Cons e es)
    have nx: "adp_next cmd la = la + 1" using assms(1) by (auto simp: adp_next_def)
    show ?case
    proof (cases "la = 0")
      case True
      have "\<forall>i < length es. (1 :: u16) + of_nat i \<noteq> 0"
      proof (intro allI impI notI)
        fix i assume "i < length es" "(1 :: u16) + of_nat i = 0"
        then have "(of_nat (Suc i) :: u16) = 0" by (simp add: ac_simps)
        then have "2 ^ LENGTH(16) dvd Suc i" by (simp only: word_of_nat_eq_0_iff)
        then show False using \<open>i < length es\<close> Cons.prems by (auto dest: dvd_imp_le)
      qed
      then have "\<And>d w. dg_chain env cmd adp ado (la + 1) es d w = (es, d, w)" using True assms(1) by (intro dg_chain_none) simp_all
      moreover have "dg_node env cmd adp ado la data wkc e = node_access env cmd (cmd \<noteq> CMD_APWR) (cmd \<noteq> CMD_APRD) (unat ado) data wkc e"
        using assms(1) True by (auto simp: dg_node_def dg_select_def)
      ultimately show ?thesis using True nx by (simp add: case_prod_unfold Let_def)
    next
      case False
      have n: "dg_node env cmd adp ado la data wkc e = (e, data, wkc)" using assms(1) False by (auto simp: dg_node_def dg_select_def)
      have u: "unat (- la) = Suc (unat (- (la + 1)))"
      proof -
        have z: "- la \<noteq> 0" using False by simp
        have "- la - 1 = - (la + 1)" by (rule minus_add_distrib [symmetric, of la 1, unfolded diff_conv_add_uminus [symmetric]])
        then have "unat (- (la + 1)) = unat (- la) - 1" using unat_minus_one [OF z] by (simp only:)
        moreover have "unat (- la) \<noteq> 0" using z by (simp only: unat_eq_zero not_False_eq_True)
        ultimately show ?thesis by linarith
      qed
      show ?thesis using Cons n by (simp add: nx u case_prod_unfold Let_def)
    qed
  qed simp
  then show ?thesis by (simp add: process_datagram_def)
qed

section \<open>Process data\<close>

text \<open>In the process data memory a read has no effect but the flag of the mailbox, a write only the watchdog's.\<close>

lemma before_read_ram: "0x1000 \<le> off \<Longrightarrow> esc_dc_before_read c off len e = e"
  by (simp add: esc_dc_before_read_def read_systime_def read_sysdiff_def read_start0_def overlaps_def Let_def)

lemma after_write_ram: "0x1000 \<le> off \<Longrightarrow> esc_dc_after_write c n off data e = e"
  by (simp add: esc_dc_after_write_def overlaps_def Let_def)

lemma esc_ro_low: "esc_ro i \<Longrightarrow> i < 0x1000"
  by (auto simp: esc_ro_def)

lemma phys_write_mem:
  assumes "0x1000 \<le> off" "off + length data \<le> 0x2000"
  shows "\<exists>w b. esc_phys_write env off data e =
    (let e1 = e\<lparr>e_regs := (wr_bytes off data (e_regs e))(0x0440 := b), e_wd := w\<rparr> in
     if off < unat (e_mbx_out e) + unat (e_mbx_out_len e) \<and> off + length data > unat (e_mbx_out e) then v_coe env e1 else e1)"
proof -
  define e1 where "e1 = e\<lparr>e_regs := wr_bytes off data (e_regs e)\<rparr>"
  have ro: "(\<lambda>i. if esc_ro i then e_regs e i else e_regs (e\<lparr>e_regs := wr_bytes off data (e_regs e)\<rparr>) i) = wr_bytes off data (e_regs e)"
    by (rule ext) (use assms(1) in \<open>auto simp: wr_bytes_def dest: esc_ro_low\<close>)
  have cl: "clear_counters off n r = r" "mbx_repeat off n a x = x" "sii_command off n x = x" "address_caches off n x = x" for n r a x
    using assms(1) by (simp_all add: clear_counters_def mbx_repeat_def sii_command_def address_caches_def range_hits_def Let_def)
  have wd: "\<exists>w b. fold (wd_trigger off n) ks x = x\<lparr>e_regs := (e_regs x)(0x0440 := b), e_wd := w\<rparr>" for n ks and x :: "'a esc"
  proof (induction ks arbitrary: x)
    case Nil
    show ?case by (intro exI [of _ "e_wd x"] exI [of _ "e_regs x 0x0440"]) simp
  next
    case (Cons k ks)
    have "\<exists>w b. wd_trigger off n k x = x\<lparr>e_regs := (e_regs x)(0x0440 := b), e_wd := w\<rparr>"
    proof (cases "wd_trigger off n k x = x")
      case True
      then show ?thesis by (intro exI [of _ "e_wd x"] exI [of _ "e_regs x 0x0440"]) simp
    next
      case False
      then have "wd_trigger off n k x = x\<lparr>e_regs := (e_regs x)(0x0440 := e_regs x 0x0440 OR 0x01),
          e_wd := (e_wd x)\<lparr>wd_last_trigger_ns := wd_now_ns (e_wd x), wd_running := True\<rparr>\<rparr>"
        by (simp add: wd_trigger_def Let_def split: if_splits)
      then show ?thesis by blast
    qed
    then obtain w b where wb: "wd_trigger off n k x = x\<lparr>e_regs := (e_regs x)(0x0440 := b), e_wd := w\<rparr>" by blast
    obtain w' b' where "fold (wd_trigger off n) ks (wd_trigger off n k x) =
        (wd_trigger off n k x)\<lparr>e_regs := (e_regs (wd_trigger off n k x))(0x0440 := b'), e_wd := w'\<rparr>" using Cons.IH by blast
    then show ?case unfolding fold.simps comp_apply by (intro exI [of _ w'] exI [of _ b']) (simp add: wb, simp add: fun_upd_def)
  qed
  obtain w b where w: "esc_wd_on_write off (length data) e1 = e1\<lparr>e_regs := (e_regs e1)(0x0440 := b), e_wd := w\<rparr>"
    using wd unfolding esc_wd_on_write_def by blast
  have "esc_phys_write env off data e = (let e1 = esc_wd_on_write off (length data) e1 in
     if off < unat (e_mbx_out e) + unat (e_mbx_out_len e) \<and> off + length data > unat (e_mbx_out e) then v_coe env e1 else e1)"
    using assms(2) w unfolding esc_phys_write_def Let_def after_write_ram [OF assms(1)] cl e1_def ro
    by auto
  then show ?thesis using w by (intro exI [of _ w] exI [of _ b]) (simp add: e1_def)
qed

lemma phys_write_ram:
  assumes "0x1000 \<le> off" "off + length data \<le> 0x2000"
    and "off + length data \<le> unat (e_mbx_out e) \<or> unat (e_mbx_out e) + unat (e_mbx_out_len e) \<le> off"
  shows "\<exists>w b. esc_phys_write env off data e = e\<lparr>e_regs := (wr_bytes off data (e_regs e))(0x0440 := b), e_wd := w\<rparr>"
proof -
  have h: "\<not> (off < unat (e_mbx_out e) + unat (e_mbx_out_len e) \<and> off + length data > unat (e_mbx_out e))" using assms(3) by linarith
  show ?thesis using phys_write_mem [OF assms(1,2), of env e] unfolding Let_def if_not_P [OF h] .
qed

lemma phys_read_ram:
  assumes "0x1000 \<le> off" "off + length data \<le> 0x2000"
    and "off + length data \<le> unat (e_mbx_in e) \<or> unat (e_mbx_in e) + unat (e_mbx_in_len e) \<le> off"
  shows "\<exists>b. esc_phys_read env off data e = (e\<lparr>e_regs := (e_regs e)(0x080D := b)\<rparr>, rd_bytes off (length data) (e_regs e))"
proof -
  obtain b where b: "esc_sm1_sync_irq_write e = e\<lparr>e_regs := (e_regs e)(0x080D := b)\<rparr>" by (simp add: esc_sm1_sync_irq_write_def Let_def)
  have "rd_bytes off n ((e_regs e)(0x080D := b)) = rd_bytes off n (e_regs e)" for n using assms(1) by (simp add: rd_bytes_def)
  then show ?thesis using assms(2,3) by (intro exI [of _ b]) (auto simp: esc_phys_read_def before_read_ram [OF assms(1)] b sm1_read_def Let_def)
qed

text \<open>An FMMU whose window lies inside the datagram moves exactly its window.\<close>

lemma fmmu_bytes_window:
  fixes la :: u32
  assumes "unat la + length data < 2 ^ 32" "lo + unat n \<le> length data" "n > 0" "length data < 65536"
  shows "fmmu_bytes env la (la + of_nat lo) n ps rd wr data e =
    (let seg = take (unat n) (drop lo data); (e1, seg1) = esc_phys_read env (unat ps) seg e in
     if rd \<and> wr then (esc_phys_write env (unat ps) seg e1, splice lo seg1 data, True, True)
     else if rd then (e1, splice lo seg1 data, True, False)
     else if wr then ((esc_phys_write env (unat ps) seg e)\<lparr>e_got_valid_outputs := True\<rparr>, data, False, True)
     else (e, data, False, False))"
proof -
  define S where "S = la + of_nat lo"
  define T where "T = S + ucast n"
  have n0: "unat n > 0" using assms(3) by (simp add: word_less_nat_alt)
  have uS: "unat S = unat la + lo" using assms(1,2) by (simp add: S_def unat_add_of_nat)
  have ucn: "ucast n = (of_nat (unat n) :: u32)" by simp
  have uT: "unat T = unat S + unat n" unfolding T_def ucn using assms(1,2) uS by (intro unat_add_of_nat) simp
  have uE: "unat (la + of_nat (length data)) = unat la + length data" using assms(1) by (intro unat_add_of_nat) simp
  have le: "la \<le> S" "T \<le> la + of_nat (length data)" "S < T"
    using uS uT uE n0 assms(2) by (simp_all add: word_le_nat_alt word_less_nat_alt)
  have m: "max la S = S" "min (la + of_nat (length data)) T = T" "\<not> T \<le> S" using le by simp_all
  have o: "unat (ucast (S - la) :: u16) = lo" "unat (ucast (T - S) :: u16) = unat n"
    using overlap_in_data(1,2) [OF assms(4) refl le] uS uT by simp_all
  have z: "ps + ucast (S - S) = ps" by simp
  show ?thesis unfolding fmmu_bytes_def Let_def S_def [symmetric] T_def [symmetric] m o z using m(3) by simp
qed

text \<open>
  A node set up for cyclic exchange: FMMU 0 writes its outputs, FMMU 1 reads its inputs, each a window
  of the logical image (offsets from the address \<open>la\<close>) onto process data memory outside the mailboxes.
\<close>

record pd_win =
  pw_lo :: nat
  pw_ll :: nat
  pw_po :: nat
  pw_li :: nat
  pw_il :: nat
  pw_pi :: nat

definition fmmu_maps :: "regs \<Rightarrow> nat \<Rightarrow> u32 \<Rightarrow> nat \<Rightarrow> nat \<Rightarrow> u8 \<Rightarrow> bool" where
  "fmmu_maps r p log n phys ty \<longleftrightarrow>
    r (p + 12) AND 0x01 \<noteq> 0 \<and> rd_le32 r p = log \<and> unat (rd_le16 r (p + 4)) = n \<and> 0 < n \<and> unat (rd_le16 r (p + 8)) = phys \<and>
    r (p + 11) = ty \<and> r (p + 6) AND 7 = 0 \<and> r (p + 7) AND 7 = 7 \<and> r (p + 10) AND 7 = 0"

definition win_apart :: "nat \<Rightarrow> nat \<Rightarrow> nat \<Rightarrow> nat \<Rightarrow> bool" where
  "win_apart a n b m \<longleftrightarrow> a + n \<le> b \<or> b + m \<le> a"

definition pd_node :: "u32 \<Rightarrow> pd_win \<Rightarrow> 'x esc \<Rightarrow> bool" where
  "pd_node la w e \<longleftrightarrow>
    (let r = e_regs e in
     2 \<le> r 0x0004 \<and> r 0x062C AND 0x01 = 0 \<and> \<not> ft_skip_logical (e_fault e) \<and>
     fmmu_maps r 0x0600 (la + of_nat (pw_lo w)) (pw_ll w) (pw_po w) 2 \<and>
     fmmu_maps r 0x0610 (la + of_nat (pw_li w)) (pw_il w) (pw_pi w) 1 \<and>
     0x1000 \<le> pw_po w \<and> pw_po w + pw_ll w \<le> 0x2000 \<and> 0x1000 \<le> pw_pi w \<and> pw_pi w + pw_il w \<le> 0x2000 \<and>
     win_apart (pw_po w) (pw_ll w) (pw_pi w) (pw_il w) \<and>
     win_apart (pw_po w) (pw_ll w) (unat (e_mbx_out e)) (unat (e_mbx_out_len e)) \<and>
     win_apart (pw_pi w) (pw_il w) (unat (e_mbx_in e)) (unat (e_mbx_in_len e)))"

lemma rd_bytes_wr: "length bs = n \<Longrightarrow> rd_bytes p n (wr_bytes p bs r) = bs"
  by (auto simp: rd_bytes_def wr_bytes_def intro: nth_equalityI)

lemma rd_bytes_apart: "win_apart p n q (length bs) \<Longrightarrow> rd_bytes p n (wr_bytes q bs r) = rd_bytes p n r"
  by (auto simp: rd_bytes_def wr_bytes_def win_apart_def)

lemma rd_bytes_reg: "i < p \<Longrightarrow> rd_bytes p n (r(i := b)) = rd_bytes p n r"
  by (simp add: rd_bytes_def)

lemma fmmu_entry_write:
  assumes "fmmu_maps (e_regs e) (0x0600 + f * 16) (la + of_nat lo) n po 2" "unat la + length data < 2 ^ 32"
    and "lo + n \<le> length data" "length data < 65536"
  shows "fmmu_entry env la CMD_LRW f (e, data, ar, aw) =
    ((esc_phys_write env po (take n (drop lo data)) e)\<lparr>e_got_valid_outputs := True\<rparr>, data, ar, True)"
proof -
  define len where "len = rd_le16 (e_regs e) (0x0600 + f * 16 + 4)"
  have l: "unat len = n" "len > 0" using assms(1) by (auto simp: fmmu_maps_def len_def word_less_nat_alt)
  show ?thesis using assms fmmu_bytes_window [of la data lo len env "rd_le16 (e_regs e) (0x0600 + f * 16 + 8)" False True e] l
    unfolding fmmu_entry_def fmmu_maps_def Let_def prod.case len_def [symmetric] by (auto simp: case_prod_unfold)
qed

lemma fmmu_entry_read:
  assumes "fmmu_maps (e_regs e) (0x0600 + f * 16) (la + of_nat li) n p 1" "unat la + length data < 2 ^ 32"
    and "li + n \<le> length data" "length data < 65536"
  shows "fmmu_entry env la CMD_LRW f (e, data, ar, aw) =
    (case esc_phys_read env p (take n (drop li data)) e of (e1, seg1) \<Rightarrow> (e1, splice li seg1 data, True, aw))"
proof -
  define len where "len = rd_le16 (e_regs e) (0x0600 + f * 16 + 4)"
  have l: "unat len = n" "len > 0" using assms(1) by (auto simp: fmmu_maps_def len_def word_less_nat_alt)
  show ?thesis using assms fmmu_bytes_window [of la data li len env "rd_le16 (e_regs e) (0x0600 + f * 16 + 8)" True False e] l
    unfolding fmmu_entry_def fmmu_maps_def Let_def prod.case len_def [symmetric] by (auto simp: case_prod_unfold)
qed

lemma fmmu_maps_cong:
  assumes "\<And>i. 0x0600 \<le> i \<Longrightarrow> i < 0x0700 \<Longrightarrow> r' i = r i" "0x0600 \<le> p" "p + 13 \<le> 0x0700"
  shows "fmmu_maps r' p = fmmu_maps r p"
  using assms by (intro ext) (simp add: fmmu_maps_def rd_le32_def rd_le16_def)

lemma pd_node_exchange:
  assumes "pd_node la w e" "unat la + length data < 2 ^ 32" "length data < 65536"
    and "pw_lo w + pw_ll w \<le> length data" "pw_li w + pw_il w \<le> length data"
    and la: "la = ucast adp OR push_bit 16 (ucast ado)"
  shows "\<exists>e'. dg_node env CMD_LRW adp ado lad data wkc e = (e', splice (pw_li w) (rd_bytes (pw_pi w) (pw_il w) (e_regs e)) data, wkc + 3) \<and>
    rd_bytes (pw_po w) (pw_ll w) (e_regs e') = take (pw_ll w) (drop (pw_lo w) data) \<and> e_got_valid_outputs e'"
proof -
  obtain lo ll po li il p where w: "w = \<lparr>pw_lo = lo, pw_ll = ll, pw_po = po, pw_li = li, pw_il = il, pw_pi = p\<rparr>" by (cases w)
  define seg where "seg = take ll (drop lo data)"
  note P = assms(1) [unfolded pd_node_def Let_def w pd_win.simps]
  have ls: "length seg = ll" using assms(4) by (simp add: seg_def w)
  obtain v b where pw: "esc_phys_write env po seg e = e\<lparr>e_regs := (wr_bytes po seg (e_regs e))(0x0440 := b), e_wd := v\<rparr>"
    using phys_write_ram [of po seg e env] P ls by (auto simp: win_apart_def)
  define e1 where "e1 = e\<lparr>e_regs := (wr_bytes po seg (e_regs e))(0x0440 := b), e_wd := v, e_got_valid_outputs := True\<rparr>"
  have r1: "e_regs e1 i = e_regs e i" if "0x0600 \<le> i" "i < 0x0700" for i using that P by (simp add: e1_def wr_bytes_def)
  have e0: "fmmu_entry env la CMD_LRW 0 (e, data, False, False) = (e1, data, False, True)"
    using fmmu_entry_write [of e 0 la lo ll po data env False False] P assms(2-4) pw by (simp add: w seg_def [symmetric] e1_def)
  have ri: "rd_bytes p il (e_regs e1) = rd_bytes p il (e_regs e)"
    using P ls rd_bytes_apart [of p il po seg "e_regs e"] by (auto simp: e1_def rd_bytes_reg win_apart_def)
  obtain b2 where pr: "esc_phys_read env p (take il (drop li data)) e1 = (e1\<lparr>e_regs := (e_regs e1)(0x080D := b2)\<rparr>, rd_bytes p il (e_regs e))"
    using phys_read_ram [of p "take il (drop li data)" e1 env] P assms(5) ri by (auto simp: win_apart_def w e1_def)
  define e2 where "e2 = e1\<lparr>e_regs := (e_regs e1)(0x080D := b2)\<rparr>"
  have e1': "fmmu_entry env la CMD_LRW 1 (e1, data, False, True) = (e2, splice li (rd_bytes p il (e_regs e)) data, True, True)"
    using fmmu_entry_read [of e1 1 la li il p data env False True] fmmu_maps_cong [where r' = "e_regs e1" and r = "e_regs e" and p = "0x0610", OF r1] P assms(2,3,5) pr
    by (simp add: w e2_def)
  have e2': "fmmu_entry env la CMD_LRW 2 (e2, d, x, y) = (e2, d, x, y)" for d x y
    using P r1 by (simp add: fmmu_entry_def e2_def Let_def)
  have "2 \<le> unat (e_regs e 0x0004)" using P by (simp add: word_le_nat_alt)
  then have nf: "[0..<min (unat (e_regs e 0x0004)) 3] = (if unat (e_regs e 0x0004) = 2 then [0, 1] else [0, 1, 2])"
    by (auto simp: min_def upt_rec)
  have f: "fmmu_apply env la CMD_LRW data wkc e = (e2, splice li (rd_bytes p il (e_regs e)) data, wkc + 3)"
    unfolding fmmu_apply_def Let_def nf using e0 e1' e2' by simp
  have "rd_bytes po ll (e_regs e2) = seg"
    using P ls rd_bytes_wr [of seg ll po] by (auto simp: e2_def e1_def rd_bytes_reg)
  then show ?thesis using f P by (auto simp: dg_node_def la [symmetric] w seg_def e2_def e1_def)
qed

lemma splice_here: "p + length seg \<le> length xs \<Longrightarrow> take (length seg) (drop p (splice p seg xs)) = seg"
  by (simp add: splice_def)

lemma splice_apart:
  assumes "win_apart a n p (length seg)" "p + length seg \<le> length xs"
  shows "take n (drop a (splice p seg xs)) = take n (drop a xs)"
  using assms(1) unfolding win_apart_def
proof
  assume "a + n \<le> p"
  then show ?thesis using assms(2) by (auto simp: splice_def take_drop min_def)
next
  assume b: "p + length seg \<le> a"
  have "drop a (splice p seg xs) = drop a xs" using b assms(2) by (simp add: splice_def)
  then show ?thesis by simp
qed

text \<open>The windows of a chain: inside the datagram, and no input window over the window of a later node.\<close>

definition win_ok :: "nat \<Rightarrow> pd_win list \<Rightarrow> bool" where
  "win_ok n ws \<longleftrightarrow> list_all (\<lambda>w. pw_lo w + pw_ll w \<le> n \<and> pw_li w + pw_il w \<le> n) ws \<and>
     sorted_wrt (\<lambda>v w. win_apart (pw_li v) (pw_il v) (pw_li w) (pw_il w) \<and> win_apart (pw_li v) (pw_il v) (pw_lo w) (pw_ll w)) ws"

lemma win_apart_sym: "win_apart a n b m = win_apart b m a n"
  by (auto simp: win_apart_def)

lemma lrw_chain:
  assumes "list_all2 (pd_node la) ws chain" "win_ok (length data) ws" "unat la + length data < 2 ^ 32" "length data < 65536"
    and "la = ucast adp OR push_bit 16 (ucast ado)" "dg_chain env CMD_LRW adp ado lad chain data wkc = (chain', data', wkc')"
  shows "wkc' = wkc + 3 * of_nat (length chain) \<and>
    list_all2 (\<lambda>w e. take (pw_il w) (drop (pw_li w) data') = rd_bytes (pw_pi w) (pw_il w) (e_regs e)) ws chain \<and>
    list_all2 (\<lambda>w e. rd_bytes (pw_po w) (pw_ll w) (e_regs e) = take (pw_ll w) (drop (pw_lo w) data) \<and> e_got_valid_outputs e) ws chain' \<and>
    (\<forall>a n. list_all (\<lambda>w. win_apart a n (pw_li w) (pw_il w)) ws \<longrightarrow> take n (drop a data') = take n (drop a data))"
  using assms
proof (induction ws chain arbitrary: lad data wkc chain' data' wkc' rule: list_all2_induct)
  case (Cons w ws e es)
  have b: "pw_lo w + pw_ll w \<le> length data" "pw_li w + pw_il w \<le> length data" using Cons.prems(1) by (auto simp: win_ok_def)
  define seg where "seg = rd_bytes (pw_pi w) (pw_il w) (e_regs e)"
  define d1 where "d1 = splice (pw_li w) seg data"
  have ls: "length seg = pw_il w" by (simp add: seg_def)
  have ld: "length d1 = length data" using b ls by (simp add: d1_def)
  obtain e' where e': "dg_node env CMD_LRW adp ado lad data wkc e = (e', d1, wkc + 3)"
    "rd_bytes (pw_po w) (pw_ll w) (e_regs e') = take (pw_ll w) (drop (pw_lo w) data)" "e_got_valid_outputs e'"
    using pd_node_exchange [OF Cons.hyps(1) Cons.prems(2,3) b Cons.prems(4), of env lad wkc] by (auto simp: d1_def seg_def)
  obtain es' where c: "chain' = e' # es'" "dg_chain env CMD_LRW adp ado (adp_next CMD_LRW lad) es d1 (wkc + 3) = (es', data', wkc')"
    using Cons.prems(5) e'(1) by (auto simp: Let_def split: prod.splits)
  have ok: "win_ok (length d1) ws" using Cons.prems(1) ld by (simp add: win_ok_def)
  note IH = Cons.IH [OF ok _ _ Cons.prems(4) c(2), unfolded ld, OF Cons.prems(2,3)]
  have ap: "win_apart (pw_li w) (pw_il w) (pw_li v) (pw_il v)" "win_apart (pw_lo v) (pw_ll v) (pw_li w) (pw_il w)" if "v \<in> set ws" for v
    using Cons.prems(1) that win_apart_sym by (auto simp: win_ok_def)
  have out: "take (pw_ll v) (drop (pw_lo v) d1) = take (pw_ll v) (drop (pw_lo v) data)" if "v \<in> set ws" for v
    unfolding d1_def using ap [OF that] b ls by (intro splice_apart) simp_all
  have keep: "take n (drop a d1) = take n (drop a data)" if "win_apart a n (pw_li w) (pw_il w)" for a n
    unfolding d1_def using that b ls by (intro splice_apart) simp_all
  have mine: "take (pw_il w) (drop (pw_li w) data') = seg"
    using IH ap(1) splice_here [of "pw_li w" seg data] b ls by (simp add: list_all_iff d1_def)
  have o: "list_all2 (\<lambda>w e. rd_bytes (pw_po w) (pw_ll w) (e_regs e) = take (pw_ll w) (drop (pw_lo w) data) \<and> e_got_valid_outputs e) ws es'"
    using IH out by (auto simp: list_all2_conv_all_nth)
  show ?case using IH mine o e'(2,3) keep by (auto simp: c(1) seg_def algebra_simps)
qed simp

text \<open>C24. Cyclic exchange: a logical read-write over a chain whose nodes each map an output and an input
  window brings to every node's output memory its window of the data the master sent, returns to the
  master in every input window the input memory of that node, and adds three per node to the working
  counter, which is the expected value the master compares with.\<close>

theorem lrw_exchange:
  assumes "la = ucast adp OR push_bit 16 (ucast ado)" "list_all2 (pd_node la) ws chain" "win_ok (length data) ws"
    and "unat la + length data < 2 ^ 32" "length data < 65536"
    and "process_datagram env CMD_LRW adp ado chain data wkc = (chain', data', wkc')"
  shows "wkc' = wkc + 3 * of_nat (length chain) \<and> length data' = length data \<and>
    list_all2 (\<lambda>w e. take (pw_il w) (drop (pw_li w) data') = rd_bytes (pw_pi w) (pw_il w) (e_regs e)) ws chain \<and>
    list_all2 (\<lambda>w e. rd_bytes (pw_po w) (pw_ll w) (e_regs e) = take (pw_ll w) (drop (pw_lo w) data) \<and> e_got_valid_outputs e) ws chain'"
  using lrw_chain [OF assms(2-5,1) assms(6) [unfolded process_datagram_def]] length_dg_chain [OF assms(5), of env CMD_LRW adp ado adp chain wkc]
    assms(6) by (simp add: process_datagram_def)

text \<open>A slave with two bytes of outputs at 0x1100 and two of inputs at 0x1200.\<close>

definition demo_regs :: regs where
  "demo_regs = (\<lambda>_. 0)(0x0004 := 3,
     0x0602 := 1, 0x0604 := 2, 0x0607 := 7, 0x0609 := 0x11, 0x060B := 2, 0x060C := 1,
     0x0610 := 2, 0x0612 := 1, 0x0614 := 2, 0x0617 := 7, 0x0619 := 0x12, 0x061B := 1, 0x061C := 1,
     0x1200 := 0xAA, 0x1201 := 0xBB)"

definition demo_esc :: "unit esc" where
  "demo_esc = \<lparr>e_regs = demo_regs, e_station_address = 0, e_station_alias = 0, e_alias_enabled = False, e_position = 0,
     e_got_valid_outputs = False, e_force_reject_al = False, e_sii = [], e_dc = dc_zero,
     e_fault = \<lparr>ft_powered_off = False, ft_skip_logical = False, ft_sm1_consumed = False, ft_mbx_repeats_served = 0,
       ft_op_delay_ms = 0, ft_reject_al_code = 0, ft_reject_al_state = 0, ft_reject_al_sticky = False\<rparr>,
     e_wd = \<lparr>wd_now_ns = 0, wd_last_trigger_ns = 0, wd_running = False, wd_react = True, wd_expire_events = 0\<rparr>,
     e_sii_cmd_reads = 0, e_mbx_out = 0x1000, e_mbx_out_len = 0x80, e_mbx_in = 0x1080, e_mbx_in_len = 0x80, e_prof = False, e_app = ()\<rparr>"

definition demo_env :: "unit esc_env" where
  "demo_env = \<lparr>v_dc = \<lparr>cf_width = 0, cf_hop_ns = 0, cf_ref_drift_ppb = 0, cf_other_drift_ppb = 0, cf_no_dc_mask = 0\<rparr>, v_n = 2,
     v_coe = id, v_check_pd = (\<lambda>_. 0)\<rparr>"

lemma demo_pd_node: "pd_node 0x10000 \<lparr>pw_lo = 0, pw_ll = 2, pw_po = 0x1100, pw_li = 2, pw_il = 2, pw_pi = 0x1200\<rparr> demo_esc"
  by (simp add: pd_node_def demo_esc_def demo_regs_def fmmu_maps_def rd_le32_def rd_le16_def win_apart_def Let_def)

theorem lrw_exchange_witness:
  "\<exists>e data'. process_datagram demo_env CMD_LRW 0 1 [demo_esc] [1, 2, 0, 0] 0 = ([e], data', 3) \<and>
    take 2 (drop 2 data') = [0xAA, 0xBB] \<and> rd_bytes 0x1100 2 (e_regs e) = [1, 2]"
proof -
  define ws where "ws = [\<lparr>pw_lo = 0, pw_ll = 2, pw_po = 0x1100, pw_li = 2, pw_il = 2, pw_pi = 0x1200\<rparr>]"
  obtain chain' data' wkc' where r: "process_datagram demo_env CMD_LRW 0 1 [demo_esc] [1, 2, 0, 0] 0 = (chain', data', wkc')"
    by (metis prod_cases3)
  have "wkc' = 0 + 3 * of_nat (length [demo_esc]) \<and> length data' = length [1, 2, 0, 0 :: u8] \<and>
    list_all2 (\<lambda>w e. take (pw_il w) (drop (pw_li w) data') = rd_bytes (pw_pi w) (pw_il w) (e_regs e)) ws [demo_esc] \<and>
    list_all2 (\<lambda>w e. rd_bytes (pw_po w) (pw_ll w) (e_regs e) = take (pw_ll w) (drop (pw_lo w) [1, 2, 0, 0]) \<and> e_got_valid_outputs e) ws chain'"
    by (rule lrw_exchange [OF _ _ _ _ _ r, of "0x10000" ws]) (use demo_pd_node in \<open>simp_all add: ws_def win_ok_def\<close>)
  then show ?thesis using r by (auto simp: ws_def list_all2_Cons1 rd_bytes_def demo_esc_def demo_regs_def upt_rec)
qed

end
