(* ===== verification/Esc_Coe.thy ===== *)
theory Esc_Coe
  imports Esc
begin

text \<open>
  The CoE server of the simulated slave (\<open>tools/soft_bus/esc_coe.c\<close>): the object dictionary of the
  built-in node, its checks, Complete Access, and the SDO server behind the mailbox with its segmented
  transfers. The state the server owns is the application part \<open>e_app\<close> of a node. Nodes with a
  profile loaded from a file, whose dictionary is in \<open>esc_profile.c\<close>, are left out: the branches of the
  code on \<open>esc->prof\<close> are not here. The loops over subindices count in a \<open>uint8_t\<close>; they end because
  the built-in node has at most 63 of them (\<open>soft_bus_main.c\<close> bounds the process data size).
\<close>

section \<open>State\<close>

record coe_od =
  od_kp :: u32
  od_ki :: u32
  od_kd :: u32
  od_segtest_blob :: "u8 list"
  od_octet_rw :: "u8 list"
  od_octet_rw_len :: nat
  od_pdo_assign_n :: "bool \<Rightarrow> u8"
  od_pdo_assign_idx :: "bool \<Rightarrow> u16"
  od_resp_cnt :: u8

record coe_session =
  cs_active :: bool
  cs_is_upload :: bool
  cs_index :: u16
  cs_subindex :: u8
  cs_total_size :: nat
  cs_done :: nat
  cs_expected_toggle :: u8
  cs_is_ca :: bool
  cs_xfer :: "u8 list"

record coe_app =
  ap_od :: coe_od
  ap_session :: coe_session
  ap_pdo_size_bytes :: nat
  ap_coe_pdo_od :: bool
  ap_coe_ca :: bool
  ap_coe_delay_ms :: u32
  ap_mbx_held :: bool
  ap_mbx_release_ns :: u64

type_synonym coe_esc = "coe_app esc"

abbreviation (input) ABORT_TOGGLE :: u32 where "ABORT_TOGGLE \<equiv> 0x05030000"
abbreviation (input) ABORT_CMD_SPECIFIER_INVALID :: u32 where "ABORT_CMD_SPECIFIER_INVALID \<equiv> 0x05040001"
abbreviation (input) ABORT_UNSUPPORTED_ACCESS :: u32 where "ABORT_UNSUPPORTED_ACCESS \<equiv> 0x06010000"
abbreviation (input) ABORT_READ_ONLY :: u32 where "ABORT_READ_ONLY \<equiv> 0x06010002"
abbreviation (input) ABORT_CA_UNSUPPORTED :: u32 where "ABORT_CA_UNSUPPORTED \<equiv> 0x06010004"
abbreviation (input) ABORT_OBJECT_DOES_NOT_EXIST :: u32 where "ABORT_OBJECT_DOES_NOT_EXIST \<equiv> 0x06020000"
abbreviation (input) ABORT_TYPE_MISMATCH :: u32 where "ABORT_TYPE_MISMATCH \<equiv> 0x06070010"
abbreviation (input) ABORT_LENGTH_TOO_HIGH :: u32 where "ABORT_LENGTH_TOO_HIGH \<equiv> 0x06070012"
abbreviation (input) ABORT_LENGTH_TOO_LOW :: u32 where "ABORT_LENGTH_TOO_LOW \<equiv> 0x06070013"
abbreviation (input) ABORT_SUBINDEX_DOES_NOT_EXIST :: u32 where "ABORT_SUBINDEX_DOES_NOT_EXIST \<equiv> 0x06090011"
abbreviation (input) ABORT_VALUE_RANGE :: u32 where "ABORT_VALUE_RANGE \<equiv> 0x06090030"
abbreviation (input) ABORT_WRONG_STATE :: u32 where "ABORT_WRONG_STATE \<equiv> 0x08000022"

abbreviation (input) COE_XFER_BUF_MAX :: nat where "COE_XFER_BUF_MAX \<equiv> 512"
abbreviation (input) COE_MAX_INIT_CHUNK :: nat where "COE_MAX_INIT_CHUNK \<equiv> 112"
abbreviation (input) COE_MAX_SEG_CHUNK :: nat where "COE_MAX_SEG_CHUNK \<equiv> 119"

section \<open>The object dictionary\<close>

datatype od_code = OBJ_VAR | OBJ_ARRAY | OBJ_RECORD
datatype od_dtype = DT_U8 | DT_U16 | DT_U32 | DT_OCTET_STRING
datatype od_access = ACC_RO | ACC_RW | ACC_RW_PREOP

record od_entry_t =
  oe_dtype :: od_dtype
  oe_bits :: nat
  oe_access :: od_access

definition coe_od_init :: "coe_od \<Rightarrow> coe_od" where
  "coe_od_init od = od\<lparr>od_kp := 0, od_ki := 0, od_kd := 0, od_segtest_blob := map of_nat [0..<200],
     od_octet_rw := replicate 400 0, od_octet_rw_len := 16, od_pdo_assign_n := (\<lambda>_. 1),
     od_pdo_assign_idx := (\<lambda>tx. if tx then 0x1A00 else 0x1600)\<rparr>"

definition le16 :: "u16 \<Rightarrow> u8 list" where
  "le16 v = [ucast (v AND 0xFF), ucast (drop_bit 8 v AND 0xFF)]"

definition le32 :: "u32 \<Rightarrow> u8 list" where
  "le32 v = [ucast (v AND 0xFF), ucast (drop_bit 8 v AND 0xFF), ucast (drop_bit 16 v AND 0xFF), ucast (drop_bit 24 v AND 0xFF)]"

definition pdo_entry_count :: "coe_app \<Rightarrow> nat" where
  "pdo_entry_count a = (ap_pdo_size_bytes a + 30) div 31 mod 256"

definition pdo_entry_value :: "coe_app \<Rightarrow> u16 \<Rightarrow> nat \<Rightarrow> u32" where
  "pdo_entry_value a entry_index sub =
    (let before = (sub - 1) * 31; chunk = min 31 (ap_pdo_size_bytes a - before)
     in push_bit 16 (ucast entry_index) OR push_bit 8 (of_nat sub) OR of_nat (chunk * 8))"

definition is_pdo_od_index :: "u16 \<Rightarrow> bool" where
  "is_pdo_od_index index \<longleftrightarrow> index \<in> {0x1C00, 0x1C12, 0x1C13, 0x1600, 0x1A00}"

definition od_object :: "coe_app \<Rightarrow> u16 \<Rightarrow> (od_code \<times> nat) option" where
  "od_object a index =
    (if is_pdo_od_index index \<and> \<not> ap_coe_pdo_od a then None
     else if index = 0x1000 then Some (OBJ_VAR, 0)
     else if index = 0x1018 then Some (OBJ_RECORD, 4)
     else if index = 0x1C00 then Some (OBJ_ARRAY, 4)
     else if index = 0x1C12 \<or> index = 0x1C13 then Some (OBJ_ARRAY, 1)
     else if index = 0x1600 \<or> index = 0x1A00 then Some (OBJ_RECORD, pdo_entry_count a)
     else if index = 0x8000 then Some (OBJ_RECORD, 3)
     else if index = 0x8001 \<or> index = 0x8002 then Some (OBJ_VAR, 0)
     else None)"

definition od_entry :: "coe_app \<Rightarrow> u16 \<Rightarrow> nat \<Rightarrow> od_entry_t option" where
  "od_entry a index sub =
    (case od_object a index of
       None \<Rightarrow> None
     | Some (objcode, max_sub) \<Rightarrow>
         let assign = (index = 0x1C12 \<or> index = 0x1C13) in
         if sub > max_sub then None
         else if objcode \<noteq> OBJ_VAR \<and> sub = 0
         then Some \<lparr>oe_dtype = DT_U8, oe_bits = 8, oe_access = (if assign then ACC_RW_PREOP else ACC_RO)\<rparr>
         else if index \<in> {0x1000, 0x1018, 0x1600, 0x1A00} then Some \<lparr>oe_dtype = DT_U32, oe_bits = 32, oe_access = ACC_RO\<rparr>
         else if index = 0x1C00 then Some \<lparr>oe_dtype = DT_U8, oe_bits = 8, oe_access = ACC_RO\<rparr>
         else if assign then Some \<lparr>oe_dtype = DT_U16, oe_bits = 16, oe_access = ACC_RW_PREOP\<rparr>
         else if index = 0x8000 then Some \<lparr>oe_dtype = DT_U32, oe_bits = 32, oe_access = ACC_RW\<rparr>
         else if index = 0x8001 then Some \<lparr>oe_dtype = DT_OCTET_STRING, oe_bits = 1600, oe_access = ACC_RO\<rparr>
         else if index = 0x8002
         then Some \<lparr>oe_dtype = DT_OCTET_STRING, oe_bits = od_octet_rw_len (ap_od a) * 8 mod 65536, oe_access = ACC_RW\<rparr>
         else None)"

definition od_read :: "coe_app \<Rightarrow> u16 \<Rightarrow> nat \<Rightarrow> u8 list" where
  "od_read a index sub =
    (let od = ap_od a in
     if index = 0x1000 then le32 0
     else if index = 0x1018
     then (if sub = 0 then [4] else le32 (if sub = 1 then 0x499 else if sub = 2 then 1 else if sub = 3 then 1 else 0))
     else if index = 0x1C00 then [if sub = 0 then 4 else of_nat sub]
     else if index = 0x1C12 \<or> index = 0x1C13
     then (if sub = 0 then [od_pdo_assign_n od (index = 0x1C13)] else le16 (od_pdo_assign_idx od (index = 0x1C13)))
     else if index = 0x1600 \<or> index = 0x1A00
     then (if sub = 0 then [of_nat (pdo_entry_count a)]
           else le32 (pdo_entry_value a (if index = 0x1A00 then 0x6000 else 0x7000) sub))
     else if index = 0x8000
     then (if sub = 0 then [3] else le32 (if sub = 1 then od_kp od else if sub = 2 then od_ki od else od_kd od))
     else if index = 0x8001 then take 200 (od_segtest_blob od)
     else if index = 0x8002 then take (od_octet_rw_len od) (od_octet_rw od)
     else [])"

text \<open>The result 0 allows the write; \<open>al\<close> is the AL status register; without data only the structure is checked.\<close>

definition od_check_write :: "u8 \<Rightarrow> coe_app \<Rightarrow> u16 \<Rightarrow> nat \<Rightarrow> u8 list option \<Rightarrow> nat \<Rightarrow> u32" where
  "od_check_write al a index sub data len =
    (if od_object a index = None then ABORT_OBJECT_DOES_NOT_EXIST
     else case od_entry a index sub of
       None \<Rightarrow> ABORT_SUBINDEX_DOES_NOT_EXIST
     | Some e \<Rightarrow>
         if oe_access e = ACC_RO then ABORT_READ_ONLY
         else if oe_access e = ACC_RW_PREOP \<and> al AND 0x0F \<noteq> 0x02 then ABORT_WRONG_STATE
         else if oe_dtype e = DT_OCTET_STRING \<and> len = 0 then ABORT_LENGTH_TOO_LOW
         else if oe_dtype e = DT_OCTET_STRING \<and> len > 400 then ABORT_LENGTH_TOO_HIGH
         else if oe_dtype e \<noteq> DT_OCTET_STRING \<and> len \<noteq> oe_bits e div 8 then ABORT_TYPE_MISMATCH
         else case data of
           None \<Rightarrow> 0
         | Some d \<Rightarrow>
             if (index = 0x1C12 \<or> index = 0x1C13) \<and>
                (sub = 0 \<and> d ! 0 > 1 \<or> sub = 1 \<and> rd_le16 ((!) d) 0 \<noteq> (if index = 0x1C12 then 0x1600 else 0x1A00))
             then ABORT_VALUE_RANGE else 0)"

definition od_commit :: "u16 \<Rightarrow> nat \<Rightarrow> u8 list \<Rightarrow> nat \<Rightarrow> coe_app \<Rightarrow> coe_app" where
  "od_commit index sub data len a =
    (let od = ap_od a; tx = (index = 0x1C13) in
     if index = 0x1C12 \<or> index = 0x1C13
     then a\<lparr>ap_od := (if sub = 0 then od\<lparr>od_pdo_assign_n := (od_pdo_assign_n od)(tx := data ! 0)\<rparr>
                      else od\<lparr>od_pdo_assign_idx := (od_pdo_assign_idx od)(tx := rd_le16 ((!) data) 0)\<rparr>)\<rparr>
     else if index = 0x8000
     then let v = rd_le32 ((!) data) 0
          in a\<lparr>ap_od := (if sub = 1 then od\<lparr>od_kp := v\<rparr> else if sub = 2 then od\<lparr>od_ki := v\<rparr> else od\<lparr>od_kd := v\<rparr>)\<rparr>
     else if index = 0x8002
     then a\<lparr>ap_od := od\<lparr>od_octet_rw := take len data @ drop len (od_octet_rw od), od_octet_rw_len := len\<rparr>\<rparr>
     else a)"

section \<open>Complete Access\<close>

fun ca_read_loop :: "coe_app \<Rightarrow> u16 \<Rightarrow> nat list \<Rightarrow> u8 list \<Rightarrow> u32 \<times> u8 list" where
  "ca_read_loop a index [] out = (0, out)"
| "ca_read_loop a index (s # ss) out =
    (case od_entry a index s of
       None \<Rightarrow> ca_read_loop a index ss out
     | Some e \<Rightarrow> if length out + (oe_bits e + 7) div 8 > COE_XFER_BUF_MAX then (ABORT_LENGTH_TOO_HIGH, out)
                 else ca_read_loop a index ss (out @ od_read a index s))"

definition od_ca_read :: "coe_app \<Rightarrow> u16 \<Rightarrow> nat \<Rightarrow> u32 \<times> u8 list" where
  "od_ca_read a index start =
    (case od_object a index of
       None \<Rightarrow> (ABORT_OBJECT_DOES_NOT_EXIST, [])
     | Some (objcode, max_sub) \<Rightarrow>
         if start > 1 then (ABORT_UNSUPPORTED_ACCESS, [])
         else if objcode = OBJ_VAR
         then (if start \<noteq> 0 then (ABORT_SUBINDEX_DOES_NOT_EXIST, [])
               else case od_entry a index 0 of
                 Some e \<Rightarrow> if oe_dtype e = DT_OCTET_STRING then (ABORT_CA_UNSUPPORTED, []) else (0, od_read a index 0)
               | None \<Rightarrow> (0, od_read a index 0))
         else let n = min (unat (od_read a index 0 ! 0)) max_sub
              in ca_read_loop a index [1..<Suc n] (if start = 0 then [of_nat n, 0] else []))"

text \<open>The rest of the entries of a Complete Access download from position \<open>pos\<close>: result, node, and whether an entry was writable.\<close>

fun ca_write_loop :: "u8 \<Rightarrow> u16 \<Rightarrow> u8 list \<Rightarrow> bool \<Rightarrow> nat list \<Rightarrow> nat \<Rightarrow> bool \<Rightarrow> coe_app \<Rightarrow> u32 \<times> coe_app" where
  "ca_write_loop al index data commit [] pos writable a = (if writable then 0 else ABORT_READ_ONLY, a)"
| "ca_write_loop al index data commit (s # ss) pos writable a =
    (if \<not> pos < length data then (if writable then 0 else ABORT_READ_ONLY, a)
     else case od_entry a index s of
       None \<Rightarrow> ca_write_loop al index data commit ss pos writable a
     | Some e \<Rightarrow>
         let b = (oe_bits e + 7) div 8; d = take b (drop pos data) in
         if pos + b > length data then (ABORT_TYPE_MISMATCH, a)
         else if oe_access e \<noteq> ACC_RO
         then let r = od_check_write al a index s (Some d) b in
              if r \<noteq> 0 then (r, a)
              else ca_write_loop al index data commit ss (pos + b) True (if commit then od_commit index s d b a else a)
         else ca_write_loop al index data commit ss (pos + b) writable a)"

definition od_ca_write :: "u8 \<Rightarrow> u16 \<Rightarrow> nat \<Rightarrow> u8 list \<Rightarrow> bool \<Rightarrow> coe_app \<Rightarrow> u32 \<times> coe_app" where
  "od_ca_write al index start data commit a =
    (case od_object a index of
       None \<Rightarrow> (ABORT_OBJECT_DOES_NOT_EXIST, a)
     | Some (objcode, max_sub) \<Rightarrow>
         if start > 1 then (ABORT_UNSUPPORTED_ACCESS, a)
         else if objcode = OBJ_VAR
         then (if start \<noteq> 0 then (ABORT_SUBINDEX_DOES_NOT_EXIST, a)
               else if (case od_entry a index 0 of Some e \<Rightarrow> oe_dtype e = DT_OCTET_STRING | None \<Rightarrow> False) then (ABORT_CA_UNSUPPORTED, a)
               else let r = od_check_write al a index 0 (Some data) (length data)
                    in (r, if r = 0 \<and> commit then od_commit index 0 data (length data) a else a))
         else
          let full = (if start = 0 then 2 else 0) +
                sum_list (map (\<lambda>s. case od_entry a index s of None \<Rightarrow> 0 | Some e \<Rightarrow> (oe_bits e + 7) div 8) [1..<Suc max_sub]) in
          if length data > full then (ABORT_LENGTH_TOO_HIGH, a)
          else if start = 0
          then (if length data < 2 then (ABORT_TYPE_MISMATCH, a)
                else if (case od_entry a index 0 of Some e \<Rightarrow> oe_access e \<noteq> ACC_RO | None \<Rightarrow> False)
                then let r = od_check_write al a index 0 (Some (take 1 data)) 1 in
                     if r \<noteq> 0 then (r, a)
                     else ca_write_loop al index data commit [1..<Suc max_sub] 2 True
                            (if commit then od_commit index 0 (take 1 data) 1 a else a)
                else ca_write_loop al index data commit [1..<Suc max_sub] 2 False a)
          else ca_write_loop al index data commit [1..<Suc max_sub] 0 False a)"

text \<open>A download, Complete Access or not: everything is checked, then applied.\<close>

definition od_download :: "u8 \<Rightarrow> u16 \<Rightarrow> nat \<Rightarrow> bool \<Rightarrow> u8 list \<Rightarrow> coe_app \<Rightarrow> u32 \<times> coe_app" where
  "od_download al index sub ca data a =
    (if ca
     then let r = fst (od_ca_write al index sub data False a)
          in (r, if r = 0 then snd (od_ca_write al index sub data True a) else a)
     else let r = od_check_write al a index sub (Some data) (length data)
          in (r, if r = 0 then od_commit index sub data (length data) a else a))"

definition od_upload_value :: "coe_app \<Rightarrow> u16 \<Rightarrow> nat \<Rightarrow> bool \<Rightarrow> u32 \<times> u8 list" where
  "od_upload_value a index sub ca =
    (if ca then od_ca_read a index sub
     else if od_object a index = None then (ABORT_OBJECT_DOES_NOT_EXIST, [])
     else if od_entry a index sub = None then (ABORT_SUBINDEX_DOES_NOT_EXIST, [])
     else (0, od_read a index sub))"

section \<open>Responses\<close>

text \<open>Each builder writes at the mailbox \<open>p\<close> of the register image.\<close>

definition resp_header :: "nat \<Rightarrow> u16 \<Rightarrow> u8 \<Rightarrow> regs \<Rightarrow> regs" where
  "resp_header p len service r = wr_bytes p (le16 len @ [0, 0, 0, 0x03] @ le16 (push_bit 12 (ucast service))) r"

definition coe_send_abort :: "nat \<Rightarrow> u16 \<Rightarrow> u8 \<Rightarrow> u32 \<Rightarrow> regs \<Rightarrow> regs" where
  "coe_send_abort p index sub code r = wr_bytes (p + 8) ([0x80] @ le16 index @ [sub] @ le32 code) (resp_header p 0x000a 0x02 r)"

definition coe_send_upload_expedited :: "nat \<Rightarrow> u16 \<Rightarrow> u8 \<Rightarrow> bool \<Rightarrow> u8 list \<Rightarrow> regs \<Rightarrow> regs" where
  "coe_send_upload_expedited p index sub ca data r =
    (let n = of_nat (4 - length data) in
     wr_bytes (p + 8) ([0x43 OR push_bit 2 n OR (if ca then 0x10 else 0)] @ le16 index @ [sub] @ data @ replicate (4 - length data) 0)
       (resp_header p 0x000a 0x03 r))"

definition cs_zero :: coe_session where
  "cs_zero = \<lparr>cs_active = False, cs_is_upload = False, cs_index = 0, cs_subindex = 0, cs_total_size = 0, cs_done = 0,
     cs_expected_toggle = 0, cs_is_ca = False, cs_xfer = replicate COE_XFER_BUF_MAX 0\<rparr>"

definition coe_start_upload_normal :: "u16 \<Rightarrow> u8 \<Rightarrow> bool \<Rightarrow> u8 list \<Rightarrow> coe_esc \<Rightarrow> coe_esc" where
  "coe_start_upload_normal index sub ca data e =
    (let p = unat (e_mbx_in e); total = length data; more = (total > COE_MAX_INIT_CHUNK); first_chunk = min total COE_MAX_INIT_CHUNK;
         r = wr_bytes (p + 8) ([0x41 OR (if ca then 0x10 else 0)] @ le16 index @ [sub] @ le32 (of_nat total) @ take first_chunk data)
               (resp_header p (0x000a + of_nat first_chunk) 0x03 (e_regs e));
         s = (if more then cs_zero\<lparr>cs_active := True, cs_is_upload := True, cs_is_ca := ca, cs_index := index, cs_subindex := sub,
                cs_total_size := total, cs_done := first_chunk, cs_expected_toggle := 0\<rparr> else cs_zero)
     in e\<lparr>e_regs := r, e_app := (e_app e)\<lparr>ap_session := s\<rparr>\<rparr>)"

definition cs_stop :: "coe_app \<Rightarrow> coe_app" where
  "cs_stop a = a\<lparr>ap_session := (ap_session a)\<lparr>cs_active := False\<rparr>\<rparr>"

definition reply_abort :: "u16 \<Rightarrow> u8 \<Rightarrow> u32 \<Rightarrow> coe_esc \<Rightarrow> coe_esc" where
  "reply_abort index sub code e = e\<lparr>e_regs := coe_send_abort (unat (e_mbx_in e)) index sub code (e_regs e), e_app := cs_stop (e_app e)\<rparr>"

definition coe_handle_upload_request :: "u16 \<Rightarrow> u8 \<Rightarrow> bool \<Rightarrow> coe_esc \<Rightarrow> coe_esc" where
  "coe_handle_upload_request index sub ca e =
    (let (a, v) = od_upload_value (e_app e) index (unat sub) ca in
     if a \<noteq> 0 then reply_abort index sub a e
     else if 1 \<le> length v \<and> length v \<le> 4
     then e\<lparr>e_regs := coe_send_upload_expedited (unat (e_mbx_in e)) index sub ca v (e_regs e), e_app := cs_stop (e_app e)\<rparr>
     else coe_start_upload_normal index sub ca v e)"

definition coe_handle_upload_segment :: "u8 \<Rightarrow> coe_esc \<Rightarrow> coe_esc" where
  "coe_handle_upload_segment command e =
    (let s = ap_session (e_app e); toggle = command AND 0x10; p = unat (e_mbx_in e) in
     if \<not> cs_active s \<or> \<not> cs_is_upload s then reply_abort (cs_index s) (cs_subindex s) ABORT_CMD_SPECIFIER_INVALID e
     else if toggle \<noteq> cs_expected_toggle s then reply_abort (cs_index s) (cs_subindex s) ABORT_TOGGLE e
     else
      let (a, v) = od_upload_value (e_app e) (cs_index s) (unat (cs_subindex s)) (cs_is_ca s) in
      if a \<noteq> 0 \<or> length v \<noteq> cs_total_size s \<or> cs_done s > length v
      then reply_abort (cs_index s) (cs_subindex s) ABORT_OBJECT_DOES_NOT_EXIST e
      else
       let remaining = length v - cs_done s; is_last = (remaining \<le> COE_MAX_SEG_CHUNK); chunk = min remaining COE_MAX_SEG_CHUNK;
           short = (is_last \<and> chunk < 7);
           frame_len = (if short then 0x000a else of_nat (chunk + 3));
           cmd_byte = (if short then 0x01 + push_bit 1 (of_nat (7 - chunk)) else if is_last then 0x01 else 0x00) + toggle;
           d = take chunk (drop (cs_done s) v) @ (if short then replicate (7 - chunk) 0 else []);
           r = wr_bytes (p + 8) (cmd_byte # d) (resp_header p frame_len 0x03 (e_regs e));
           s = s\<lparr>cs_done := cs_done s + chunk\<rparr>;
           s = (if is_last then s\<lparr>cs_active := False\<rparr> else s\<lparr>cs_expected_toggle := cs_expected_toggle s XOR 0x10\<rparr>)
       in e\<lparr>e_regs := r, e_app := (e_app e)\<lparr>ap_session := s\<rparr>\<rparr>)"

definition coe_send_download_response :: "nat \<Rightarrow> u16 \<Rightarrow> u8 \<Rightarrow> bool \<Rightarrow> regs \<Rightarrow> regs" where
  "coe_send_download_response p index sub ca r =
    wr_bytes (p + 8) ([0x60 OR (if ca then 0x10 else 0)] @ le16 index @ [sub, 0, 0, 0, 0]) (resp_header p 0x000a 0x03 r)"

text \<open>The dictionary is written; then the response or the abort.\<close>

definition finish_download :: "u16 \<Rightarrow> u8 \<Rightarrow> bool \<Rightarrow> u8 list \<Rightarrow> coe_esc \<Rightarrow> coe_esc" where
  "finish_download index sub ca data e =
    (let (a, app) = od_download (e_regs e 0x0130) index (unat sub) ca data (e_app e); p = unat (e_mbx_in e)
     in e\<lparr>e_app := app, e_regs := (if a \<noteq> 0 then coe_send_abort p index sub a (e_regs e)
                                   else coe_send_download_response p index sub ca (e_regs e))\<rparr>)"

definition coe_handle_download_init :: "u16 \<Rightarrow> u8 \<Rightarrow> u8 \<Rightarrow> coe_esc \<Rightarrow> coe_esc" where
  "coe_handle_download_init index sub command e0 =
    (let ca = (command AND 0x10 \<noteq> 0); e = e0\<lparr>e_app := cs_stop (e_app e0)\<rparr>; q = unat (e_mbx_out e); p = unat (e_mbx_in e); r = e_regs e;
         abort = (\<lambda>code. e\<lparr>e_regs := coe_send_abort p index sub code r\<rparr>) in
     if ca \<and> \<not> ap_coe_ca (e_app e) then abort ABORT_UNSUPPORTED_ACCESS
     else if command AND 0x02 \<noteq> 0
     then let len = (if command AND 0x01 \<noteq> 0 then 4 - unat (drop_bit 2 command AND 0x03) else 4)
          in finish_download index sub ca (rd_bytes (q + 12) len r) e
     else if command AND 0x01 = 0 then abort ABORT_CMD_SPECIFIER_INVALID
     else
      let total = unat (rd_le32 r (q + 12)); mbx_len = unat (rd_le16 r q);
          in_frame = min (min (if mbx_len > 10 then mbx_len - 10 else 0) COE_MAX_INIT_CHUNK) total in
      if total > COE_XFER_BUF_MAX then abort ABORT_LENGTH_TOO_HIGH
      else
       let a = (if \<not> ca then od_check_write (r 0x0130) (e_app e) index (unat sub) None total
                else if od_object (e_app e) index = None then ABORT_OBJECT_DOES_NOT_EXIST
                else if unat sub > 1 then ABORT_UNSUPPORTED_ACCESS else 0) in
       if a \<noteq> 0 then abort a
       else if in_frame = total then finish_download index sub ca (rd_bytes (q + 16) total r) e
       else e\<lparr>e_app := (e_app e)\<lparr>ap_session := cs_zero\<lparr>cs_active := True, cs_is_upload := False, cs_is_ca := ca, cs_index := index,
                 cs_subindex := sub, cs_total_size := total, cs_done := in_frame, cs_expected_toggle := 0,
                 cs_xfer := rd_bytes (q + 16) in_frame r @ drop in_frame (cs_xfer cs_zero)\<rparr>\<rparr>,
              e_regs := coe_send_download_response p index sub ca r\<rparr>)"

definition coe_handle_download_segment :: "u8 \<Rightarrow> coe_esc \<Rightarrow> coe_esc" where
  "coe_handle_download_segment command e =
    (let s = ap_session (e_app e); toggle = command AND 0x10; last = (command AND 0x01 \<noteq> 0);
         q = unat (e_mbx_out e); p = unat (e_mbx_in e); r = e_regs e in
     if \<not> cs_active s \<or> cs_is_upload s then reply_abort (cs_index s) (cs_subindex s) ABORT_CMD_SPECIFIER_INVALID e
     else if toggle \<noteq> cs_expected_toggle s then reply_abort (cs_index s) (cs_subindex s) ABORT_TOGGLE e
     else
      let mbx_len = unat (rd_le16 r q); seg = min (if mbx_len > 3 then mbx_len - 3 else 0) COE_MAX_SEG_CHUNK;
          seg = (if last \<and> seg = 7 then seg - unat (drop_bit 1 command AND 0x07) else seg) in
      if cs_done s + seg > cs_total_size s then reply_abort (cs_index s) (cs_subindex s) ABORT_LENGTH_TOO_HIGH e
      else
       let s = s\<lparr>cs_xfer := take (cs_done s) (cs_xfer s) @ rd_bytes (q + 9) seg r @ drop (cs_done s + seg) (cs_xfer s),
                 cs_done := cs_done s + seg\<rparr>;
           ok = wr_bytes (p + 8) ([0x20 OR toggle] @ replicate 7 0) (resp_header p 0x000a 0x03 r) in
       if last
       then let s = s\<lparr>cs_active := False\<rparr>; app = (e_app e)\<lparr>ap_session := s\<rparr>;
                (a, app) = (if cs_done s \<noteq> cs_total_size s then (ABORT_LENGTH_TOO_LOW, app)
                            else od_download (r 0x0130) (cs_index s) (unat (cs_subindex s)) (cs_is_ca s) (take (cs_total_size s) (cs_xfer s)) app)
            in e\<lparr>e_app := app, e_regs := (if a \<noteq> 0 then coe_send_abort p (cs_index s) (cs_subindex s) a r else ok)\<rparr>
       else e\<lparr>e_app := (e_app e)\<lparr>ap_session := s\<lparr>cs_expected_toggle := cs_expected_toggle s XOR 0x10\<rparr>\<rparr>, e_regs := ok\<rparr>)"

section \<open>The mailbox\<close>

text \<open>The counter of the response, 1 to 7 in turn.\<close>

definition resp_count :: "coe_esc \<Rightarrow> coe_esc" where
  "resp_count e =
    (let c = od_resp_cnt (ap_od (e_app e)) mod 7 + 1; p = unat (e_mbx_in e) + 5; r = e_regs e
     in e\<lparr>e_app := (e_app e)\<lparr>ap_od := (ap_od (e_app e))\<lparr>od_resp_cnt := c\<rparr>\<rparr>, e_regs := r(p := (r p AND 0x0F) OR push_bit 4 c)\<rparr>)"

definition set_full :: "coe_esc \<Rightarrow> coe_esc" where
  "set_full e = e\<lparr>e_regs := (e_regs e)(REG_SM1_STATUS := e_regs e REG_SM1_STATUS OR 0x08)\<rparr>"

definition coe_dispatch :: "u8 \<Rightarrow> u16 \<Rightarrow> u8 \<Rightarrow> coe_esc \<Rightarrow> coe_esc" where
  "coe_dispatch command index sub e =
    (let abort = (\<lambda>code. e\<lparr>e_regs := coe_send_abort (unat (e_mbx_in e)) index sub code (e_regs e)\<rparr>) in
     if command = 0x50
     then (if \<not> ap_coe_ca (e_app e) then abort ABORT_UNSUPPORTED_ACCESS else coe_handle_upload_request index sub True e)
     else if command = 0x40 then coe_handle_upload_request index sub False e
     else if command AND 0xEF = 0x60 then coe_handle_upload_segment command e
     else if command AND 0xE0 = 0x20 then coe_handle_download_init index sub command e
     else if command AND 0xE0 = 0x00 then coe_handle_download_segment command e
     else abort ABORT_CMD_SPECIFIER_INVALID)"

definition coe_on_mailbox_out_write :: "coe_esc \<Rightarrow> coe_esc" where
  "coe_on_mailbox_out_write e =
    (let q = unat (e_mbx_out e); r = e_regs e; command = r (q + 8) in
     if r (q + 5) AND 0x0F \<noteq> 0x03 then e
     else if drop_bit 12 (rd_le16 r (q + 6)) \<noteq> 0x02 then e
     else if command = 0x80 then e\<lparr>e_app := cs_stop (e_app e)\<rparr>
     else
      let e = resp_count (coe_dispatch command (rd_le16 r (q + 9)) (r (q + 11)) e) in
      if ap_coe_delay_ms (e_app e) \<noteq> 0 \<and> (command AND 0xE0 = 0x20 \<or> command AND 0xE0 = 0x00)
      then e\<lparr>e_app := (e_app e)\<lparr>ap_mbx_held := True,
             ap_mbx_release_ns := wd_now_ns (e_wd e) + ucast (ap_coe_delay_ms (e_app e)) * 1000000\<rparr>\<rparr>
      else set_full e)"

definition coe_post_emcy :: "u16 \<Rightarrow> u8 \<Rightarrow> u8 list \<Rightarrow> coe_esc \<Rightarrow> coe_esc \<times> bool" where
  "coe_post_emcy code reg data e =
    (if e_regs e REG_SM1_STATUS AND 0x08 \<noteq> 0 \<or> ap_mbx_held (e_app e) then (e, False)
     else
      let p = unat (e_mbx_in e);
          r = wr_bytes (p + 8) (le16 code @ [reg] @ take 5 data) (resp_header p 0x000a 0x01 (wr_bytes p (replicate 16 0) (e_regs e)))
      in (set_full (resp_count (e\<lparr>e_regs := r\<rparr>)), True))"

end
