(* ===== verification/Esc_Sdo_Down.thy ===== *)
theory Esc_Sdo_Down
  imports Esc_Sdo
begin

text \<open>
  SDO downloads over the mailbox of the simulated slave: whatever the length of the data and the number
  of segments, the dictionary is written once, with exactly the data, or not at all.
\<close>

section \<open>The server's steps\<close>

lemma dispatch_init: "c AND 0xE0 = 0x20 \<Longrightarrow> coe_dispatch c i b e = coe_handle_download_init i b c e"
proof -
  assume c: "c AND 0xE0 = 0x20"
  have "(c AND 0xEF) AND 0xE0 = c AND 0xE0" by (simp add: and.assoc)
  then have "c AND 0xEF \<noteq> 0x60" "c \<noteq> 0x50" "c \<noteq> 0x40" using c by auto
  then show ?thesis using c by (simp add: coe_dispatch_def)
qed

lemma dispatch_segment: "c AND 0xE0 = 0 \<Longrightarrow> coe_dispatch c i b e = coe_handle_download_segment c e"
proof -
  assume c: "c AND 0xE0 = 0"
  have "(c AND 0xEF) AND 0xE0 = c AND 0xE0" by (simp add: and.assoc)
  then have "c AND 0xEF \<noteq> 0x60" "c \<noteq> 0x50" "c \<noteq> 0x40" using c by auto
  then show ?thesis using c by (simp add: coe_dispatch_def)
qed

text \<open>The last frame of a download: the abort, or the confirmation that starts with \<open>k\<close>.\<close>

definition down_bytes :: "u16 \<Rightarrow> u8 \<Rightarrow> u32 \<Rightarrow> u8 list \<Rightarrow> u8 list" where
  "down_bytes i b c k = (if c \<noteq> 0 then 0x80 # le16 i @ [b] @ le32 c else k)"

definition down_svc :: "u32 \<Rightarrow> u8" where "down_svc c = (if c \<noteq> 0 then 0x02 else 0x03)"

abbreviation init_ok :: "u16 \<Rightarrow> u8 \<Rightarrow> bool \<Rightarrow> u8 list" where
  "init_ok i b ca \<equiv> (0x60 OR (if ca then 0x10 else 0)) # le16 i @ [b, 0, 0, 0, 0]"

lemma finish_answer:
  "finish_download i b ca d (e\<lparr>e_app := a\<rparr>) =
    (let R = od_download (e_regs e 0x0130) i (unat b) ca d a in answer 0x000a (down_svc (fst R)) (down_bytes i b (fst R) (init_ok i b ca)) (snd R) e)"
  by (simp add: finish_download_def answer_def down_svc_def down_bytes_def coe_send_abort_def coe_send_download_response_def Let_def
      case_prod_unfold)

text \<open>The check before the data are complete says nothing else than the final one.\<close>

definition pre_check :: "u8 \<Rightarrow> coe_app \<Rightarrow> u16 \<Rightarrow> nat \<Rightarrow> bool \<Rightarrow> nat \<Rightarrow> u32" where
  "pre_check al a i s ca n =
    (if \<not> ca then od_check_write al a i s None n
     else if od_object a i = None then ABORT_OBJECT_DOES_NOT_EXIST else if s > 1 then ABORT_UNSUPPORTED_ACCESS else 0)"

lemma if_chain:
  fixes z :: "'a::zero"
  assumes "(if p then a else if q then b else if r then c else if s then d else if t then e else 0) \<noteq> 0"
  shows "(if p then a else if q then b else if r then c else if s then d else if t then e else z) =
    (if p then a else if q then b else if r then c else if s then d else if t then e else 0)"
  using assms by (simp split: if_splits)

lemma pre_check_final:
  assumes "pre_check al a i s ca (length d) \<noteq> 0"
  shows "od_download al i s ca d a = (pre_check al a i s ca (length d), a)"
proof (cases ca)
  case True
  have "od_ca_write al i s d cm a = (pre_check al a i s ca (length d), a)" for cm
  proof (cases "od_object a i")
    case None
    then show ?thesis using True by (simp add: od_ca_write_def pre_check_def)
  next
    case (Some y)
    then have s1: "s > 1" using assms True by (simp add: pre_check_def split: if_splits)
    obtain oc ms where y: "y = (oc, ms)" by fastforce
    show ?thesis unfolding od_ca_write_def Some y option.case prod.case if_P [OF s1] using s1 Some True by (simp add: pre_check_def)
  qed
  then show ?thesis using True assms by (simp add: od_download_def Let_def)
next
  case False
  define F where "F k = (if od_object a i = None then ABORT_OBJECT_DOES_NOT_EXIST
     else case od_entry a i s of
       None \<Rightarrow> ABORT_SUBINDEX_DOES_NOT_EXIST
     | Some e \<Rightarrow>
         if oe_access e = ACC_RO then ABORT_READ_ONLY
         else if oe_access e = ACC_RW_PREOP \<and> al AND 0x0F \<noteq> 0x02 then ABORT_WRONG_STATE
         else if oe_dtype e = DT_OCTET_STRING \<and> length d = 0 then ABORT_LENGTH_TOO_LOW
         else if oe_dtype e = DT_OCTET_STRING \<and> length d > 400 then ABORT_LENGTH_TOO_HIGH
         else if oe_dtype e \<noteq> DT_OCTET_STRING \<and> length d \<noteq> oe_bits e div 8 then ABORT_TYPE_MISMATCH
         else k)" for k
  have "F k = F 0" if "F 0 \<noteq> 0" for k
  proof (cases "od_object a i = None \<or> od_entry a i s = None")
    case True
    then show ?thesis by (auto simp: F_def)
  next
    case False
    then obtain oe where o: "od_object a i \<noteq> None" "od_entry a i s = Some oe" by blast
    show ?thesis using that unfolding F_def if_not_P [OF o(1)] o(2) option.case by (rule if_chain)
  qed
  moreover have n: "od_check_write al a i s None (length d) = F 0" unfolding od_check_write_def F_def option.case ..
  moreover have "\<exists>k. od_check_write al a i s (Some d) (length d) = F k" unfolding od_check_write_def F_def option.case by blast
  moreover have nz: "F 0 \<noteq> 0" using assms False n by (simp add: pre_check_def)
  ultimately have "od_check_write al a i s (Some d) (length d) = F 0" by metis
  then show ?thesis using n nz False by (simp add: pre_check_def od_download_def Let_def)
qed

lemma cs_stop_ca [simp]: "ap_coe_ca (cs_stop a) = ap_coe_ca a"
  by (simp add: cs_stop_def)

lemma init_expedited:
  assumes "asked (sdo_frame 10 c (le16 i @ [b] @ d)) e e1" "c = 0x23 OR push_bit 2 (of_nat (4 - length d)) OR (if ca then 0x10 else 0)"
    "1 \<le> length d" "length d \<le> 4" "ca \<Longrightarrow> ap_coe_ca (e_app e)"
  shows "coe_dispatch c i b e1 =
    (let R = od_download (e_regs e 0x0130) i (unat b) ca d (cs_stop (e_app e))
     in answer 0x000a (down_svc (fst R)) (down_bytes i b (fst R) (init_ok i b ca)) (snd R) e1)"
proof -
  have "length d = 1 \<or> length d = 2 \<or> length d = 3 \<or> length d = 4" using assms(3,4) by linarith
  then have c: "c AND 0xE0 = 0x20" "(c AND 0x10 \<noteq> 0) = ca" "c AND 0x02 \<noteq> 0" "c AND 0x01 \<noteq> 0" "4 - unat (drop_bit 2 c AND 0x03) = length d"
    unfolding assms(2) by (auto split: if_splits)
  have "rd_bytes (unat (e_mbx_out e) + 12) (length d) (e_regs e1) = take (length d) (drop 12 (sdo_frame 10 c (le16 i @ [b] @ d)))"
    using assms(1,4) rd_bytes_sub [of 12 "length d" 128 "unat (e_mbx_out e)" "e_regs e1"] by (simp add: asked_def)
  also have "\<dots> = d" by (simp add: sdo_frame_def)
  finally have d: "rd_bytes (unat (e_mbx_out e1) + 12) (length d) (e_regs e1) = d" using assms(1) by (simp add: asked_def)
  have s: "e_app e1 = e_app e" "e_regs e1 0x0130 = e_regs e 0x0130" using assms(1) by (simp_all add: asked_def)
  have ng: "\<not> (ca \<and> \<not> ap_coe_ca (e_app (e1\<lparr>e_app := cs_stop (e_app e1)\<rparr>)))" using assms(5) s by simp
  show ?thesis unfolding dispatch_init [OF c(1)] coe_handle_download_init_def Let_def c(2) if_not_P [OF ng] if_P [OF c(3)] if_P [OF c(4)] c(5)
    by (simp add: d finish_answer s Let_def)
qed

lemma init_normal:
  assumes "asked (sdo_frame (of_nat (10 + min 112 (length d))) c (le16 i @ [b] @ le32 (of_nat (length d)) @ take 112 d)) e e1"
    "c = 0x21 OR (if ca then 0x10 else 0)" "length d \<le> 512" "ca \<Longrightarrow> ap_coe_ca (e_app e)"
  shows "coe_dispatch c i b e1 =
    (let p = pre_check (e_regs e 0x0130) (cs_stop (e_app e)) i (unat b) ca (length d);
         R = od_download (e_regs e 0x0130) i (unat b) ca d (cs_stop (e_app e)) in
     if p \<noteq> 0 then answer 0x000a 0x02 (0x80 # le16 i @ [b] @ le32 p) (cs_stop (e_app e)) e1
     else if length d \<le> 112 then answer 0x000a (down_svc (fst R)) (down_bytes i b (fst R) (init_ok i b ca)) (snd R) e1
     else answer 0x000a 0x03 (init_ok i b ca) ((e_app e)\<lparr>ap_session := cs_zero\<lparr>cs_active := True, cs_is_upload := False, cs_is_ca := ca,
            cs_index := i, cs_subindex := b, cs_total_size := length d, cs_done := 112, cs_expected_toggle := 0,
            cs_xfer := take 112 d @ replicate 400 0\<rparr>\<rparr>) e1)"
proof -
  define req where "req = sdo_frame (of_nat (10 + min 112 (length d))) c (le16 i @ [b] @ le32 (of_nat (length d)) @ take 112 d)"
  define q where "q = unat (e_mbx_out e1)"
  have rq: "rd_bytes q 128 (e_regs e1) = req" and s: "e_app e1 = e_app e" "e_regs e1 0x0130 = e_regs e 0x0130"
    using assms(1) by (simp_all add: asked_def req_def q_def)
  have at: "e_regs e1 (q + k) = req ! k" if "k < 128" for k using rd_bytes_nth [OF that, of q "e_regs e1"] rq by simp
  have c: "c AND 0xE0 = 0x20" "(c AND 0x10 \<noteq> 0) = ca" "\<not> c AND 0x02 \<noteq> 0" "\<not> c AND 0x01 = 0" unfolding assms(2) by auto
  have t: "unat (rd_le32 (e_regs e1) (q + 12)) = length d"
  proof -
    have "rd_le32 (e_regs e1) (q + 12) = of_nat (length d)"
      by (rule rd_le32_le) (use at in \<open>simp add: add.assoc req_def sdo_frame_def nth_append\<close>)
    then show ?thesis using assms(3) by (simp only: unat_of_nat) simp
  qed
  have l: "unat (rd_le16 (e_regs e1) q) = 10 + min 112 (length d)"
  proof -
    have "rd_le16 (e_regs e1) q = of_nat (10 + min 112 (length d))"
      by (rule rd_le16_le) (use at in \<open>simp add: req_def sdo_frame_def nth_append\<close>)
    then show ?thesis by (simp only: unat_of_nat) simp
  qed
  have d: "rd_bytes (q + 16) n (e_regs e1) = take n d" if "n \<le> 112" "n \<le> length d" for n
    using rd_bytes_sub [of 16 n 128 q "e_regs e1"] that by (simp add: rq req_def sdo_frame_def)
  have m: "min (min (if 10 + min 112 (length d) > 10 then 10 + min 112 (length d) - 10 else 0) 112) (length d) = min 112 (length d)" by auto
  have ng: "\<not> (ca \<and> \<not> ap_coe_ca (e_app (e1\<lparr>e_app := cs_stop (e_app e1)\<rparr>)))" using assms(4) s by simp
  have pc: "(if \<not> ca then od_check_write (e_regs e 0x0130) (cs_stop (e_app e)) i (unat b) None (length d)
      else if od_object (cs_stop (e_app e)) i = None then ABORT_OBJECT_DOES_NOT_EXIST
      else if unat b > 1 then ABORT_UNSUPPORTED_ACCESS else 0) = pre_check (e_regs e 0x0130) (cs_stop (e_app e)) i (unat b) ca (length d)"
    by (simp only: pre_check_def)
  have z: "drop 112 (cs_xfer cs_zero) = replicate 400 0" by (simp add: cs_zero_def)
  define p where "p = pre_check (e_regs e 0x0130) (cs_stop (e_app e)) i (unat b) ca (length d)"
  have fl: "e_regs (e1\<lparr>e_app := y\<rparr>) = e_regs e1" "e_mbx_out (e1\<lparr>e_app := y\<rparr>) = e_mbx_out e1" "e_mbx_in (e1\<lparr>e_app := y\<rparr>) = e_mbx_in e1"
    "e_app (e1\<lparr>e_app := y\<rparr>) = y" for y by simp_all
  have up: "(cs_stop y)\<lparr>ap_session := z\<rparr> = y\<lparr>ap_session := z\<rparr>" "e1\<lparr>e_app := y', e_app := y\<rparr> = e1\<lparr>e_app := y\<rparr>" for y y' z by (simp_all add: cs_stop_def)
  have big: "\<not> length d > 512" using assms(3) by simp
  have h: "coe_dispatch c i b e1 =
      (if p \<noteq> 0 then e1\<lparr>e_app := cs_stop (e_app e), e_regs := coe_send_abort (unat (e_mbx_in e1)) i b p (e_regs e1)\<rparr>
       else if min 112 (length d) = length d then finish_download i b ca (rd_bytes (q + 16) (length d) (e_regs e1)) (e1\<lparr>e_app := cs_stop (e_app e)\<rparr>)
       else e1\<lparr>e_app := (e_app e)\<lparr>ap_session := cs_zero\<lparr>cs_active := True, cs_is_upload := False, cs_is_ca := ca, cs_index := i, cs_subindex := b,
          cs_total_size := length d, cs_done := min 112 (length d), cs_expected_toggle := 0,
          cs_xfer := rd_bytes (q + 16) (min 112 (length d)) (e_regs e1) @ drop (min 112 (length d)) (cs_xfer cs_zero)\<rparr>\<rparr>,
          e_regs := coe_send_download_response (unat (e_mbx_in e1)) i b ca (e_regs e1)\<rparr>)"
    unfolding dispatch_init [OF c(1)] coe_handle_download_init_def Let_def c(2) if_not_P [OF ng] if_not_P [OF c(3)] if_not_P [OF c(4)]
    unfolding fl s q_def [symmetric] t l m if_not_P [OF big] pc p_def [symmetric] up ..
  show ?thesis unfolding h Let_def p_def [symmetric]
    by (auto simp: d z finish_answer s Let_def answer_def coe_send_abort_def coe_send_download_response_def)
qed

text \<open>A segment that is not the last, and the last one.\<close>

abbreviation seg_ok :: "u8 \<Rightarrow> u8 list" where "seg_ok t \<equiv> (0x20 OR t) # replicate 7 0"

lemma segment_more:
  assumes "asked (sdo_frame 122 t (take 119 (drop n d))) e e1" "t = 0 \<or> t = 0x10" "length d - n > 119"
    and s: "s = ap_session (e_app e)" "cs_active s" "\<not> cs_is_upload s" "cs_expected_toggle s = t" "cs_total_size s = length d" "cs_done s = n"
  shows "coe_dispatch t i b e1 = answer 0x000a 0x03 (seg_ok t) ((e_app e)\<lparr>ap_session := s\<lparr>
    cs_xfer := take n (cs_xfer s) @ take 119 (drop n d) @ drop (n + 119) (cs_xfer s), cs_done := n + 119, cs_expected_toggle := t XOR 0x10\<rparr>\<rparr>) e1"
proof -
  define q where "q = unat (e_mbx_out e1)"
  have rq: "rd_bytes q 128 (e_regs e1) = sdo_frame 122 t (take 119 (drop n d))" and ap: "e_app e1 = e_app e"
    using assms(1) by (simp_all add: asked_def q_def)
  have c: "t AND 0xE0 = 0" "t AND 0x10 = t" "\<not> (t AND 0x01 \<noteq> 0)" using assms(2) by auto
  have l: "rd_le16 (e_regs e1) q = 122"
  proof (rule rd_le16_le)
    fix k :: nat assume "k < 2"
    then show "e_regs e1 (q + k) = le16 122 ! k" using rd_bytes_nth [of k 128 q "e_regs e1"] by (simp add: rq sdo_frame_def nth_append)
  qed
  have d: "rd_bytes (q + 9) 119 (e_regs e1) = take 119 (drop n d)"
    using rd_bytes_sub [of 9 119 128 q "e_regs e1"] assms(3) by (simp add: rq sdo_frame_shape(7))
  show ?thesis
    unfolding dispatch_segment [OF c(1)] coe_handle_download_segment_def Let_def c(2) if_not_P [OF c(3)] q_def [symmetric] l ap s(1) [symmetric]
    using s(2-6) assms(3) c(3) by (simp add: d answer_def)
qed

lemma segment_last:
  fixes t :: u8 and d :: "u8 list" and n :: nat
  defines "c \<equiv> 0x01 + push_bit 1 (of_nat (7 - (length d - n))) + t"
  assumes "asked (sdo_frame (of_nat (max (length d - n) 7 + 3)) c (drop n d)) e e1" "t = 0 \<or> t = 0x10" "n < length d" "length d - n \<le> 119"
    and s: "s = ap_session (e_app e)" "cs_active s" "\<not> cs_is_upload s" "cs_expected_toggle s = t" "cs_total_size s = length d" "cs_done s = n"
    and x: "take n (cs_xfer s) = take n d" "length (cs_xfer s) = 512" "length d \<le> 512"
    and s': "s' = s\<lparr>cs_xfer := take n (cs_xfer s) @ drop n d @ drop (length d) (cs_xfer s), cs_done := length d, cs_active := False\<rparr>"
  shows "coe_dispatch c i b e1 =
    (let R = od_download (e_regs e 0x0130) (cs_index s) (unat (cs_subindex s)) (cs_is_ca s) d ((e_app e)\<lparr>ap_session := s'\<rparr>)
     in answer 0x000a (down_svc (fst R)) (down_bytes (cs_index s) (cs_subindex s) (fst R) (seg_ok t)) (snd R) e1)"
proof -
  define q where "q = unat (e_mbx_out e1)"
  define m where "m = length d - n"
  have rq: "rd_bytes q 128 (e_regs e1) = sdo_frame (of_nat (max m 7 + 3)) c (drop n d)" and ap: "e_app e1 = e_app e" "e_regs e1 0x0130 = e_regs e 0x0130"
    using assms(2) by (simp_all add: asked_def q_def m_def)
  have m: "0 < m" "m \<le> 119" "length (drop n d) = m" "n + m = length d" using assms(4,5) by (simp_all add: m_def)
  have c: "c AND 0xE0 = 0" "c AND 0x10 = t" "c AND 0x01 \<noteq> 0" "unat (drop_bit 1 c AND 0x07) = 7 - m"
    using seg_cmd [of "7 - m" t] m(1) assms(3) by (simp_all add: c_def m_def)
  have "rd_le16 (e_regs e1) q = of_nat (max m 7 + 3)"
  proof (rule rd_le16_le)
    fix k :: nat assume "k < 2"
    then show "e_regs e1 (q + k) = le16 (of_nat (max m 7 + 3)) ! k" using rd_bytes_nth [of k 128 q "e_regs e1"] by (simp add: rq sdo_frame_def nth_append)
  qed
  then have l: "unat (rd_le16 (e_regs e1) q) = max m 7 + 3" using m(2) by (simp only: unat_of_nat) simp
  define sg where "sg = min (if max m 7 + 3 > 3 then max m 7 + 3 - 3 else 0) 119"
  have sg: "sg = max m 7" using m(2) by (simp add: sg_def)
  have k: "(if c AND 0x01 \<noteq> 0 \<and> sg = 7 then sg - (7 - m) else sg) = m" using c(3) by (auto simp: sg)
  have d: "rd_bytes (q + 9) m (e_regs e1) = drop n d"
    using rd_bytes_sub [of 9 m 128 q "e_regs e1"] m(2,3) by (simp add: rq sdo_frame_shape(7))
  define X where "X = take n (cs_xfer s) @ drop n d @ drop (length d) (cs_xfer s)"
  have X: "take (length d) X = d" using x m(4) by (simp add: X_def)
  show ?thesis
    unfolding dispatch_segment [OF c(1)] coe_handle_download_segment_def Let_def c(2,4) q_def [symmetric] l ap sg_def [symmetric] k s(1) [symmetric] if_P [OF c(3)]
    using s(2-6) m(4) by (simp add: d X s' X_def [symmetric] answer_def down_svc_def down_bytes_def coe_send_abort_def case_prod_unfold)
qed

section \<open>Whole downloads\<close>

lemma commit_delay [simp]: "ap_coe_delay_ms (od_commit i s d n a) = ap_coe_delay_ms a"
  by (simp add: od_commit_def Let_def)

lemma ca_write_delay: "ap_coe_delay_ms (snd (ca_write_loop al i d cm ss pos w a)) = ap_coe_delay_ms a"
  by (induction ss arbitrary: pos w a) (simp_all add: Let_def split: option.split)

lemma download_delay: "ap_coe_delay_ms (snd (od_download al i s ca d a)) = ap_coe_delay_ms a"
proof -
  have "ap_coe_delay_ms (snd (od_ca_write al i s d cm a)) = ap_coe_delay_ms a" for cm
    by (cases "od_object a i") (simp_all add: od_ca_write_def case_prod_unfold ca_write_delay Let_def del: upt_Suc)
  then show ?thesis by (simp add: od_download_def Let_def)
qed

lemma confirm_fields:
  fixes x b :: u8 and rest :: "u8 list" and y i :: u16 and c :: u32
  assumes "k ! 0 \<noteq> 0x80" "k \<noteq> []"
  defines "r \<equiv> le16 0x000a @ [0, 0, 0, x] @ le16 y @ down_bytes i b c k @ rest"
  shows "(if r ! 8 = 0x80 then Some (e, resp_code r) else z) = (if c \<noteq> 0 then Some (e, c) else z)"
proof (cases "c = 0")
  case True
  then have "r ! 8 = k ! 0" using assms(2) by (simp add: r_def down_bytes_def nth_append)
  then show ?thesis using True assms(1) by simp
next
  case False
  note f = reply_fields [where u = "le16 i @ [b] @ le32 c @ []" and rest = rest and x = x and s = y and l = "0x000a" and c = "0x80"]
  have r: "r = le16 0x000a @ [0, 0, 0, x] @ le16 y @ (0x80 # le16 i @ [b] @ le32 c @ []) @ rest" using False by (simp add: r_def down_bytes_def)
  show ?thesis unfolding r f(1) using f(5) [OF refl] False by simp
qed

lemma write_segs_exact:
  assumes "mbx_node e" "v_coe env = coe_on_mailbox_out_write" "length d \<le> 512" "t = 0 \<or> t = 0x10" "n < length d" "length d - n \<le> k"
    and s: "s = ap_session (e_app e)" "cs_active s" "\<not> cs_is_upload s" "cs_expected_toggle s = t" "cs_total_size s = length d" "cs_done s = n"
    and x: "take n (cs_xfer s) = take n d" "length (cs_xfer s) = 512"
  shows "\<exists>e'. write_segs k env t (drop n d) e =
      Some (e', fst (od_download (e_regs e 0x0130) (cs_index s) (unat (cs_subindex s)) (cs_is_ca s) d (e_app e))) \<and>
    dict (e_app e') = dict (snd (od_download (e_regs e 0x0130) (cs_index s) (unat (cs_subindex s)) (cs_is_ca s) d (e_app e))) \<and> mbx_node e'"
  using assms
proof (induction k arbitrary: e t n s)
  case (Suc k)
  note a = Suc.prems
  define m where "m = length d - n"
  have dl: "ap_coe_delay_ms (e_app e) = 0" using a(1) by (simp add: mbx_node_def)
  show ?case
  proof (cases "m > 119")
    case True
    define s' where "s' = s\<lparr>cs_xfer := take n (cs_xfer s) @ take 119 (drop n d) @ drop (n + 119) (cs_xfer s), cs_done := n + 119,
      cs_expected_toggle := t XOR 0x10\<rparr>"
    have tt: "t \<noteq> 0x80" "0x20 OR t \<noteq> 0x80" "t XOR 0x10 = 0 \<or> t XOR 0x10 = 0x10" using a(4) by auto
    obtain e' y rest where r: "mbx_exchange env (sdo_frame 122 t (take 119 (drop n d))) e =
        Some (e', le16 0x000a @ [0, 0, 0, y] @ le16 (push_bit 12 (ucast (0x03 :: u8))) @ seg_ok t @ rest)"
      and e': "dict (e_app e') = dict (e_app e)" "ap_session (e_app e') = s'" "mbx_node e'" "e_regs e' 0x0130 = e_regs e 0x0130"
      using exchange [OF a(1,2) _ tt(1), of "take 119 (drop n d)" 122 "0x000a" "0x03" "seg_ok t" "(e_app e)\<lparr>ap_session := s'\<rparr>"]
        segment_more [OF _ a(4) True [unfolded m_def] a(7-12)] dl by (fastforce simp: s'_def)
    have r8: "(le16 0x000a @ [0, 0, 0, y] @ le16 (push_bit 12 (ucast (0x03 :: u8))) @ seg_ok t @ rest) ! 8 = 0x20 OR t" by (simp add: nth_append)
    have nl: "\<not> length (drop n d) \<le> 119" using True by (simp add: m_def)
    have rq: "(if length (drop n d) \<le> 119 \<and> min 119 (length (drop n d)) < 7
        then sdo_frame 10 (0x01 + push_bit 1 (of_nat (7 - min 119 (length (drop n d)))) + t) (drop n d)
        else sdo_frame (of_nat (min 119 (length (drop n d)) + 3)) ((if length (drop n d) \<le> 119 then 0x01 else 0x00) + t)
          (take (min 119 (length (drop n d))) (drop n d))) = sdo_frame 122 t (take 119 (drop n d))" using nl by simp
    have dd: "drop (min 119 (length (drop n d))) (drop n d) = drop (n + 119) d" using nl by (simp add: add.commute)
    have "write_segs (Suc k) env t (drop n d) e = write_segs k env (t XOR 0x10) (drop (n + 119) d) e'"
      unfolding write_segs.simps Let_def rq r option.case prod.case r8 dd using nl tt(2) by simp
    moreover have "\<exists>e''. write_segs k env (t XOR 0x10) (drop (n + 119) d) e' =
        Some (e'', fst (od_download (e_regs e' 0x0130) (cs_index s') (unat (cs_subindex s')) (cs_is_ca s') d (e_app e'))) \<and>
      dict (e_app e'') = dict (snd (od_download (e_regs e' 0x0130) (cs_index s') (unat (cs_subindex s')) (cs_is_ca s') d (e_app e'))) \<and> mbx_node e''"
    proof (rule Suc.IH)
      show "take (n + 119) (cs_xfer s') = take (n + 119) d" using a(13,14) True a(3) by (simp add: s'_def m_def take_add)
      show "length (cs_xfer s') = 512" using a(3,14) True by (simp add: s'_def m_def)
    qed (use a e' tt(3) True in \<open>simp_all add: s'_def m_def\<close>)
    ultimately show ?thesis
      using dict_eq_download [OF e'(1), of "e_regs e 0x0130" "cs_index s" "unat (cs_subindex s)" "cs_is_ca s" d] e'(4) by (simp add: s'_def)
  next
    case False
    define c where "c = 0x01 + push_bit 1 (of_nat (7 - m)) + t"
    define l :: u16 where "l = of_nat (max m 7 + 3)"
    have m: "0 < m" "length (drop n d) = m" "take m (drop n d) = drop n d" using a(5) by (simp_all add: m_def)
    have c8: "c \<noteq> 0x80" using seg_cmd(2) [of "7 - m" t] a(4) m(1) by (simp add: c_def)
    define s' where "s' = s\<lparr>cs_xfer := take n (cs_xfer s) @ drop n d @ drop (length d) (cs_xfer s), cs_done := length d, cs_active := False\<rparr>"
    define R where "R = od_download (e_regs e 0x0130) (cs_index s) (unat (cs_subindex s)) (cs_is_ca s) d ((e_app e)\<lparr>ap_session := s'\<rparr>)"
    define B where "B = down_bytes (cs_index s) (cs_subindex s) (fst R) (seg_ok t)"
    have ds: "coe_dispatch c i b e1 = answer 0x000a (down_svc (fst R)) B (snd R) e1" if "asked (sdo_frame l c (drop n d)) e e1" for e1 i b
      using segment_last [OF that [unfolded l_def c_def m_def] a(4,5) _ a(7-14) a(3) s'_def] False unfolding R_def B_def c_def m_def Let_def by simp
    have p: "length (drop n d) \<le> 119" "length B \<le> 120" "ap_coe_delay_ms (snd R) = 0" using False m dl
      by (simp_all add: B_def down_bytes_def R_def download_delay)
    obtain e' y rest where r: "mbx_exchange env (sdo_frame l c (drop n d)) e =
        Some (e', le16 0x000a @ [0, 0, 0, y] @ le16 (push_bit 12 (ucast (down_svc (fst R)))) @ B @ rest)"
      and e': "dict (e_app e') = dict (snd R)" "mbx_node e'"
      using exchange [OF a(1,2) p(1) c8 ds p(2,3)] by blast
    have rq: "(if length (drop n d) \<le> 119 \<and> min 119 (length (drop n d)) < 7
        then sdo_frame 10 (0x01 + push_bit 1 (of_nat (7 - min 119 (length (drop n d)))) + t) (drop n d)
        else sdo_frame (of_nat (min 119 (length (drop n d)) + 3)) ((if length (drop n d) \<le> 119 then 0x01 else 0x00) + t)
          (take (min 119 (length (drop n d))) (drop n d))) = sdo_frame l c (drop n d)"
      unfolding m(2) l_def c_def using False m(3) by (cases "m < 7") (simp_all add: max_def)
    have k8: "seg_ok t ! 0 \<noteq> 0x80" "seg_ok t \<noteq> []" using a(4) by auto
    have "write_segs (Suc k) env t (drop n d) e = Some (e', fst R)"
      unfolding write_segs.simps Let_def rq r option.case prod.case B_def confirm_fields [OF k8] using False m by simp
    moreover have "fst R = fst (od_download (e_regs e 0x0130) (cs_index s) (unat (cs_subindex s)) (cs_is_ca s) d (e_app e)) \<and>
        dict (snd R) = dict (snd (od_download (e_regs e 0x0130) (cs_index s) (unat (cs_subindex s)) (cs_is_ca s) d (e_app e)))"
      unfolding R_def by (rule dict_eq_download) simp
    ultimately show ?thesis using e' by simp
  qed
qed simp

text \<open>The first frame of a download.\<close>

definition down_len :: "u8 list \<Rightarrow> u16" where
  "down_len d = (if length d \<le> 4 then 10 else of_nat (10 + min 112 (length d)))"

definition down_cmd :: "bool \<Rightarrow> u8 list \<Rightarrow> u8" where
  "down_cmd ca d = (if length d \<le> 4 then 0x23 OR push_bit 2 (of_nat (4 - length d)) OR (if ca then 0x10 else 0) else 0x21 OR (if ca then 0x10 else 0))"

definition down_body :: "u16 \<Rightarrow> u8 \<Rightarrow> u8 list \<Rightarrow> u8 list" where
  "down_body i b d = le16 i @ [b] @ (if length d \<le> 4 then d else le32 (of_nat (length d)) @ take 112 d)"

abbreviation down_req :: "u16 \<Rightarrow> u8 \<Rightarrow> bool \<Rightarrow> u8 list \<Rightarrow> u8 list" where
  "down_req i b ca d \<equiv> sdo_frame (down_len d) (down_cmd ca d) (down_body i b d)"

lemma down_req_args:
  "rd_le16 ((!) (down_req i b ca d)) 9 = i" "down_req i b ca d ! 11 = b" "length (down_body i b d) \<le> 119" "down_cmd ca d \<noteq> 0x80"
proof -
  show "rd_le16 ((!) (down_req i b ca d)) 9 = i" by (rule rd_le16_le) (simp add: down_body_def sdo_frame_def nth_append)
  have "length d = 0 \<or> length d = 1 \<or> length d = 2 \<or> length d = 3 \<or> length d = 4 \<or> length d > 4" by linarith
  then show "down_cmd ca d \<noteq> 0x80" by (auto simp: down_cmd_def)
qed (simp_all add: down_body_def sdo_frame_def nth_append)

lemma sdo_write_first:
  "sdo_write env i b ca d e =
    (case mbx_exchange env (down_req i b ca d) e of
       None \<Rightarrow> None
     | Some (e, r) \<Rightarrow>
         if r ! 8 = 0x80 then Some (e, resp_code r)
         else if length d \<le> 4 \<or> min 112 (length d) = length d then Some (e, 0)
         else write_segs (length d) env 0 (drop (min 112 (length d)) d) e)"
proof -
  have "(if length d \<le> 4 then sdo_frame 10 (0x23 OR push_bit 2 (of_nat (4 - length d)) OR (if ca then 0x10 else 0)) (le16 i @ [b] @ d)
      else sdo_frame (of_nat (10 + min 112 (length d))) (0x21 OR (if ca then 0x10 else 0))
        (le16 i @ [b] @ le32 (of_nat (length d)) @ take (min 112 (length d)) d)) = down_req i b ca d"
    by (cases "length d \<le> 4") (simp_all add: down_len_def down_cmd_def down_body_def min_def)
  then show ?thesis unfolding sdo_write_def Let_def by simp
qed

text \<open>A download that is decided in its first frame.\<close>

lemma dispatch_decided:
  assumes "asked (down_req i b ca d) e e1" "ca \<Longrightarrow> ap_coe_ca (e_app e)" "1 \<le> length d" "length d \<le> 512"
    and "length d \<le> 112 \<or> pre_check (e_regs e 0x0130) (cs_stop (e_app e)) i (unat b) ca (length d) \<noteq> 0"
    and R: "R = od_download (e_regs e 0x0130) i (unat b) ca d (cs_stop (e_app e))"
  shows "coe_dispatch (down_cmd ca d) i b e1 = answer 0x000a (down_svc (fst R)) (down_bytes i b (fst R) (init_ok i b ca)) (snd R) e1"
proof (cases "length d \<le> 4")
  case True
  then have "asked (sdo_frame 10 (down_cmd ca d) (le16 i @ [b] @ d)) e e1" using assms(1) by (simp add: down_len_def down_body_def)
  from init_expedited [OF this _ assms(3) True assms(2)] show ?thesis using True by (simp add: down_cmd_def R Let_def)
next
  case False
  then have k: "asked (sdo_frame (of_nat (10 + min 112 (length d))) (down_cmd ca d) (le16 i @ [b] @ le32 (of_nat (length d)) @ take 112 d)) e e1"
    using assms(1) by (simp add: down_len_def down_body_def)
  have c: "down_cmd ca d = 0x21 OR (if ca then 0x10 else 0)" using False by (simp add: down_cmd_def)
  define p where "p = pre_check (e_regs e 0x0130) (cs_stop (e_app e)) i (unat b) ca (length d)"
  note n = init_normal [OF k c assms(4,2), unfolded Let_def p_def [symmetric] R [symmetric]]
  show ?thesis
  proof (cases "p = 0")
    case True
    then show ?thesis using n assms(5) by (simp add: p_def)
  next
    case pn: False
    then have "R = (p, cs_stop (e_app e))" using pre_check_final [of "e_regs e 0x0130" "cs_stop (e_app e)" i "unat b" ca d] by (simp add: R p_def)
    then show ?thesis using n pn by (simp add: down_svc_def down_bytes_def)
  qed
qed

lemma write_decided:
  assumes "mbx_node e" "v_coe env = coe_on_mailbox_out_write" "ca \<Longrightarrow> ap_coe_ca (e_app e)" "1 \<le> length d" "length d \<le> 512"
    and "length d \<le> 112 \<or> pre_check (e_regs e 0x0130) (cs_stop (e_app e)) i (unat b) ca (length d) \<noteq> 0"
    and R: "R = od_download (e_regs e 0x0130) i (unat b) ca d (cs_stop (e_app e))"
  shows "\<exists>e'. sdo_write env i b ca d e = Some (e', fst R) \<and> dict (e_app e') = dict (snd R) \<and> mbx_node e'"
proof -
  note args = down_req_args(1,2) [where i = i and b = b and ca = ca and d = d] down_req_args(3) [where i = i and b = b and d = d]
    down_req_args(4) [where ca = ca and d = d]
  have ds: "coe_dispatch (down_cmd ca d) (rd_le16 ((!) (down_req i b ca d)) 9) (down_req i b ca d ! 11) e1 =
      answer 0x000a (down_svc (fst R)) (down_bytes i b (fst R) (init_ok i b ca)) (snd R) e1" if "asked (down_req i b ca d) e e1" for e1
    unfolding args(1,2) by (rule dispatch_decided [OF that assms(3-7)])
  have p: "length (down_bytes i b (fst R) (init_ok i b ca)) \<le> 120" "ap_coe_delay_ms (snd R) = 0"
    using assms(1) by (simp_all add: down_bytes_def R download_delay cs_stop_def mbx_node_def)
  obtain e' y rest where r: "mbx_exchange env (down_req i b ca d) e =
      Some (e', le16 0x000a @ [0, 0, 0, y] @ le16 (push_bit 12 (ucast (down_svc (fst R)))) @ down_bytes i b (fst R) (init_ok i b ca) @ rest)"
    and e': "dict (e_app e') = dict (snd R)" "mbx_node e'"
    using exchange [OF assms(1,2) args(3,4) ds p] by blast
  have k8: "init_ok i b ca ! 0 \<noteq> 0x80" "init_ok i b ca \<noteq> []" by auto
  have "length d \<le> 112 \<or> fst R \<noteq> 0"
    using assms(6) pre_check_final [of "e_regs e 0x0130" "cs_stop (e_app e)" i "unat b" ca d] by (auto simp: R)
  then have "sdo_write env i b ca d e = Some (e', fst R)"
    unfolding sdo_write_first r option.case prod.case confirm_fields [OF k8] by auto
  then show ?thesis using e' by blast
qed

text \<open>A download that goes on in segments.\<close>

lemma write_segmented:
  assumes "mbx_node e" "v_coe env = coe_on_mailbox_out_write" "ca \<Longrightarrow> ap_coe_ca (e_app e)" "112 < length d" "length d \<le> 512"
    and pc: "pre_check (e_regs e 0x0130) (cs_stop (e_app e)) i (unat b) ca (length d) = 0"
    and R: "R = od_download (e_regs e 0x0130) i (unat b) ca d (e_app e)"
  shows "\<exists>e'. sdo_write env i b ca d e = Some (e', fst R) \<and> dict (e_app e') = dict (snd R) \<and> mbx_node e'"
proof -
  note args = down_req_args(1,2) [where i = i and b = b and ca = ca and d = d] down_req_args(3) [where i = i and b = b and d = d]
    down_req_args(4) [where ca = ca and d = d]
  define S where "S = cs_zero\<lparr>cs_active := True, cs_is_upload := False, cs_is_ca := ca, cs_index := i, cs_subindex := b, cs_total_size := length d,
    cs_done := 112, cs_expected_toggle := 0, cs_xfer := take 112 d @ replicate 400 0\<rparr>"
  have ds: "coe_dispatch (down_cmd ca d) (rd_le16 ((!) (down_req i b ca d)) 9) (down_req i b ca d ! 11) e1 =
      answer 0x000a 0x03 (init_ok i b ca) ((e_app e)\<lparr>ap_session := S\<rparr>) e1" if "asked (down_req i b ca d) e e1" for e1
  proof -
    have k: "asked (sdo_frame (of_nat (10 + min 112 (length d))) (down_cmd ca d) (le16 i @ [b] @ le32 (of_nat (length d)) @ take 112 d)) e e1"
      using that assms(4) by (simp add: down_len_def down_body_def)
    have c: "down_cmd ca d = 0x21 OR (if ca then 0x10 else 0)" using assms(4) by (simp add: down_cmd_def)
    show ?thesis unfolding args(1,2) using init_normal [OF k c assms(5,3)] pc assms(4) by (simp add: Let_def S_def)
  qed
  have p: "length (init_ok i b ca) \<le> 120" "ap_coe_delay_ms ((e_app e)\<lparr>ap_session := S\<rparr>) = 0" using assms(1) by (simp_all add: mbx_node_def)
  obtain e' y rest where r: "mbx_exchange env (down_req i b ca d) e =
      Some (e', le16 0x000a @ [0, 0, 0, y] @ le16 (push_bit 12 (ucast (0x03 :: u8))) @ init_ok i b ca @ rest)"
    and e': "dict (e_app e') = dict (e_app e)" "ap_session (e_app e') = S" "mbx_node e'" "e_regs e' 0x0130 = e_regs e 0x0130"
    using exchange [OF assms(1,2) args(3,4) ds p] by auto
  have r8: "(le16 0x000a @ [0, 0, 0, y] @ le16 (push_bit 12 (ucast (0x03 :: u8))) @ init_ok i b ca @ rest) ! 8 \<noteq> 0x80" by (simp add: nth_append)
  have mn: "min 112 (length d) = 112" "\<not> (length d \<le> 4 \<or> 112 = length d)" using assms(4) by auto
  have w: "sdo_write env i b ca d e = write_segs (length d) env 0 (drop 112 d) e'"
    unfolding sdo_write_first r option.case prod.case if_not_P [OF r8] mn(1) if_not_P [OF mn(2)] ..
  have "\<exists>e''. write_segs (length d) env 0 (drop 112 d) e' =
      Some (e'', fst (od_download (e_regs e' 0x0130) (cs_index S) (unat (cs_subindex S)) (cs_is_ca S) d (e_app e'))) \<and>
    dict (e_app e'') = dict (snd (od_download (e_regs e' 0x0130) (cs_index S) (unat (cs_subindex S)) (cs_is_ca S) d (e_app e'))) \<and> mbx_node e''"
    by (rule write_segs_exact [OF e'(3) assms(2,5)]) (use assms(4) in \<open>simp_all add: e'(2) S_def\<close>)
  then show ?thesis using dict_eq_download [OF e'(1), of "e_regs e 0x0130" i "unat b" ca d] unfolding w e'(4) R by (simp add: S_def)
qed

text \<open>C40. Downloads are exact: for every object of a node without a profile, by subindex or by Complete Access, and for data of every
  length the server takes, the client gets the verdict of one check of the whole data, in whatever number
  of segments they were sent. If it is positive the dictionary is the old one with exactly this write;
  otherwise it is unchanged.\<close>

theorem sdo_write_exact:
  assumes "mbx_node e" "v_coe env = coe_on_mailbox_out_write" "ca \<Longrightarrow> ap_coe_ca (e_app e)" "1 \<le> length d" "length d \<le> 512"
    and R: "R = od_download (e_regs e 0x0130) i (unat b) ca d (e_app e)"
  shows "\<exists>e'. sdo_write env i b ca d e = Some (e', fst R) \<and> dict (e_app e') = dict (snd R) \<and> mbx_node e' \<and> (fst R \<noteq> 0 \<longrightarrow> snd R = e_app e)"
proof -
  have keep: "fst R \<noteq> 0 \<longrightarrow> snd R = e_app e" by (auto simp: R od_download_def Let_def)
  show ?thesis
  proof (cases "length d \<le> 112 \<or> pre_check (e_regs e 0x0130) (cs_stop (e_app e)) i (unat b) ca (length d) \<noteq> 0")
    case True
    define R' where "R' = od_download (e_regs e 0x0130) i (unat b) ca d (cs_stop (e_app e))"
    have "fst R' = fst R \<and> dict (snd R') = dict (snd R)" unfolding R R'_def by (rule dict_eq_download) simp
    then show ?thesis using write_decided [OF assms(1-5) True R'_def] keep by simp
  next
    case False
    then show ?thesis using write_segmented [OF assms(1-3) _ assms(5) _ R] keep by auto
  qed
qed

text \<open>Three hundred bytes into the writable string: one frame and two segments.\<close>

theorem sdo_write_exact_witness:
  "\<exists>e'. sdo_write coe_env 0x8002 0 False (replicate 300 7) coe_node = Some (e', 0) \<and>
    od_read (e_app e') 0x8002 0 = replicate 300 7"
proof -
  define R where "R = od_download (e_regs coe_node 0x0130) 0x8002 (unat (0 :: u8)) False (replicate 300 7) (e_app coe_node)"
  have w: "fst R = 0" "od_read (snd R) 0x8002 0 = replicate 300 7"
    by (simp_all add: R_def od_download_def od_check_write_def od_commit_def od_object_def od_entry_def od_read_def is_pdo_od_index_def
        coe_node_def coe_od_init_def)
  obtain e' where e': "sdo_write coe_env 0x8002 0 False (replicate 300 7) coe_node = Some (e', fst R)" "dict (e_app e') = dict (snd R)"
    using sdo_write_exact [OF coe_node_ok(1) _ _ _ _ R_def, of coe_env] by (auto simp: coe_env_def)
  have "od_read (e_app e') = od_read (snd R)" using e'(2) by (metis dict_reads(3))
  then show ?thesis using e'(1) w by simp
qed

text \<open>
  Complete Access is applied in a second pass that checks again while it writes; it never stops half way:
  what is written does not change the outcome of the checks.
\<close>

lemma commit_entry: "i \<noteq> 0x8002 \<Longrightarrow> od_object (od_commit i s d n a) = od_object a \<and> od_entry (od_commit i s d n a) = od_entry a"
proof -
  assume i: "i \<noteq> 0x8002"
  have f: "ap_coe_pdo_od (od_commit i s d n a) = ap_coe_pdo_od a" "pdo_entry_count (od_commit i s d n a) = pdo_entry_count a"
    "od_octet_rw_len (ap_od (od_commit i s d n a)) = od_octet_rw_len (ap_od a)"
    using i by (simp_all add: od_commit_def pdo_entry_count_def Let_def)
  have o: "od_object (od_commit i s d n a) = od_object a" unfolding od_object_def f ..
  show ?thesis using o unfolding od_entry_def o f by simp
qed

lemma ca_loop_commit:
  assumes "i \<noteq> 0x8002" "od_object a = od_object a'" "od_entry a = od_entry a'"
  shows "fst (ca_write_loop al i d True ss pos w a) = fst (ca_write_loop al i d False ss pos w a')"
  using assms(2,3)
proof (induction ss arbitrary: pos w a)
  case (Cons s ss)
  have c: "od_check_write al a = od_check_write al a'" unfolding od_check_write_def Cons.prems ..
  have "fst (ca_write_loop al i d True ss p' True (od_commit i s x n a)) = fst (ca_write_loop al i d False ss p' True a')" for p' x n
    by (rule Cons.IH) (use Cons.prems commit_entry [OF assms(1)] in simp_all)
  then show ?case using Cons.IH [OF Cons.prems] by (simp add: Cons.prems(2) c Let_def split: option.split)
qed simp

lemma ca_commit_complete: "fst (od_ca_write al i s d True a) = fst (od_ca_write al i s d False a)"
proof (cases "od_object a i")
  case (Some y)
  obtain oc ms where y: "y = (oc, ms)" by fastforce
  show ?thesis
  proof (cases "oc = OBJ_VAR")
    case True
    then show ?thesis unfolding od_ca_write_def Some y option.case prod.case by (simp add: Let_def)
  next
    case False
    then have i: "i \<noteq> 0x8002" using Some y by (auto simp: od_object_def is_pdo_od_index_def)
    note l = ca_loop_commit [OF i]
    have "fst (ca_write_loop al i d True ss pos w (od_commit i s' x n a)) = fst (ca_write_loop al i d False ss pos w a)" for ss pos w s' x n
      by (rule l) (use commit_entry [OF i] in simp_all)
    then show ?thesis unfolding od_ca_write_def Some y option.case prod.case using False l [of a a]
      by (simp add: Let_def del: upt_Suc)
  qed
qed (simp add: od_ca_write_def)

end
