(* ===== verification/Esc_Esm.thy ===== *)
theory Esc_Esm
  imports Esc
begin

text \<open>
  The slave's own behaviour in time: the EtherCAT state machine behind the AL control register, the
  process data watchdog, and the distributed clock of the simulated slave.
\<close>

section \<open>The state machine\<close>

abbreviation esm_state :: "'x esc \<Rightarrow> u8" where "esm_state e \<equiv> e_regs e 0x0130 AND 0x0F"
abbreviation esm_error :: "'x esc \<Rightarrow> bool" where "esm_error e \<equiv> bit (e_regs e 0x0130) 4"
abbreviation esm_code :: "'x esc \<Rightarrow> u16" where "esm_code e \<equiv> rd_le16 (e_regs e) 0x0134"
abbreviation esm_requested :: "'x esc \<Rightarrow> u8" where "esm_requested e \<equiv> e_regs e 0x0120 AND 0x0F"

lemma nibble_mask: "(0x0F :: u8) = mask 4" "(0x0F :: u16) = mask 4" "(0xFF :: u16) = mask 8"
  by (simp_all add: mask_eq_exp_minus_1)

lemma rd_le16_nibble: "ucast (rd_le16 r p AND 0x0F) = r p AND 0x0F"
  unfolding nibble_mask rd_le16_def by (rule bit_word_eqI) (auto simp: bit_simps)

lemma rd_le16_bit4: "bit (rd_le16 r p) 4 = bit (r p) 4"
  unfolding rd_le16_def by (auto simp: bit_simps)

lemma wr_le16_low: "wr_le16 p (ucast b) r p = b" for b :: u8
  unfolding wr_le16_def nibble_mask by (simp, rule bit_word_eqI) (auto simp: bit_simps)

lemma rd_wr_le16: "rd_le16 (wr_le16 p v r) p = v"
  unfolding wr_le16_def rd_le16_def nibble_mask by (simp, rule bit_word_eqI) (auto simp: bit_simps)

lemma al_set_read:
  "e_regs (al_set st code e) 0x0130 = st" "esm_code (al_set st code e) = code"
proof -
  show "esm_code (al_set st code e) = code" by (simp add: al_set_def rd_wr_le16)
  have "wr_le16 0x0134 code r 0x0130 = r 0x0130" for r by (simp add: wr_le16_def)
  then show "e_regs (al_set st code e) 0x0130 = st" by (simp add: al_set_def wr_le16_low)
qed

lemma refused_nibble: "((c AND 0x0F) OR 0x10) AND 0x0F = c AND 0x0F" "bit ((c AND 0x0F) OR 0x10) 4" "\<not> bit (c AND 0x0F) 4" for c :: u8
proof -
  have "bit (2 ^ 4 :: u8) n \<longleftrightarrow> n = 4" for n by (auto simp only: bit_exp_iff) (simp add: possible_bit_def)
  then have b: "bit (0x10 :: u8) n \<longleftrightarrow> n = 4" for n by simp
  show "((c AND 0x0F) OR 0x10) AND 0x0F = c AND 0x0F" unfolding nibble_mask
    by (rule bit_word_eqI) (simp only: bit_and_iff bit_or_iff bit_mask_iff b, auto)
  show "bit ((c AND 0x0F) OR 0x10) 4" "\<not> bit (c AND 0x0F) 4" unfolding nibble_mask
    by (simp_all only: bit_or_iff bit_and_iff bit_mask_iff b) simp_all
qed

text \<open>C27. State requests: a write to AL control changes the AL state only to the requested one along an
  edge of the state machine, then without error, and to OP only from SAFEOP with outputs received
  since SAFEOP was entered; a request for another state that is refused keeps the state and sets the
  error flag with a non-zero AL status code, unless the slave was told to enter OP late.\<close>

theorem al_control_safe:
  fixes e :: "'x esc"
  assumes "e' = esc_al_control_write env e"
  shows "(esm_state e' \<noteq> esm_state e \<longrightarrow>
      esm_state e' = esm_requested e \<and> valid_transition (esm_state e) (esm_requested e) \<and> \<not> esm_error e' \<and> esm_code e' = 0 \<and>
      (esm_state e' = ESM_OP \<longrightarrow> esm_state e = ESM_SAFEOP \<and> e_got_valid_outputs e)) \<and>
    (esm_state e' = esm_state e \<and> esm_requested e \<noteq> esm_state e \<longrightarrow>
      esm_error e' \<and> esm_code e' \<noteq> 0 \<or> esm_state e = ESM_SAFEOP \<and> esm_requested e = ESM_OP \<and> ft_op_delay_ms (e_fault e) \<noteq> 0)"
proof -
  define c q where "c = esm_state e" and "q = esm_requested e"
  have n: "(c OR 0x10) AND 0x0F = c" "bit (c OR 0x10) 4" "\<not> bit c 4" "\<not> bit q 4" "c AND 0x0F = c" "q AND 0x0F = q"
    using refused_nibble [of "e_regs e 0x0130"] refused_nibble [of "e_regs e 0x0120"] by (simp_all add: c_def q_def and.assoc)
  have w: "e' = (if q = c then (if bit (e_regs e 0x0120) 4 \<and> bit (e_regs e 0x0130) 4 then al_set c 0 e else e)
      else if e_force_reject_al e \<and> (ft_reject_al_state (e_fault e) = 0 \<or> q = ft_reject_al_state (e_fault e)) then al_force_reject c e
      else if \<not> valid_transition c q then al_set (c OR 0x10) 0x0011 e
      else if e_prof e \<and> c = ESM_PREOP \<and> q = ESM_SAFEOP \<and> v_check_pd env e \<noteq> 0 then al_set (c OR 0x10) (v_check_pd env e) e
      else if c = ESM_SAFEOP \<and> q = ESM_OP \<and> \<not> e_got_valid_outputs e then al_set (c OR 0x10) 0x0019 e
      else if c = ESM_SAFEOP \<and> q = ESM_OP \<and> ft_op_delay_ms (e_fault e) \<noteq> 0 \<and> \<not> ft_powered_off (e_fault e) then e
      else let e = al_set q 0 e in if q = ESM_SAFEOP then e\<lparr>e_got_valid_outputs := False\<rparr> else e)"
    unfolding assms esc_al_control_write_def Let_def rd_le16_nibble rd_le16_bit4 c_def q_def ..
  have rj: "esm_state (al_force_reject c e) = c" "esm_error (al_force_reject c e)" "esm_code (al_force_reject c e) \<noteq> 0"
    using n by (simp_all add: al_force_reject_def Let_def al_set_read)
  have op: "valid_transition c ESM_OP \<Longrightarrow> c = ESM_SAFEOP" by (auto simp: valid_transition_def split: if_splits)
  consider "q = c" "esm_state e' = c" | "q \<noteq> c" "esm_state e' = c" "esm_error e'" "esm_code e' \<noteq> 0"
    | "e' = e" "c = ESM_SAFEOP" "q = ESM_OP" "ft_op_delay_ms (e_fault e) \<noteq> 0"
    | "esm_state e' = q" "valid_transition c q" "\<not> esm_error e'" "esm_code e' = 0" "q = ESM_OP \<Longrightarrow> c = ESM_SAFEOP \<and> e_got_valid_outputs e"
  proof (cases "q = c")
    case True
    have "e_regs e' 0x0130 = c \<or> e' = e" using w [unfolded if_P [OF True]] by (metis al_set_read(1))
    then have "esm_state e' = c" using n(5) by (auto simp: c_def)
    then show ?thesis using True that(1) by blast
  next
    case q: False
    show ?thesis
    proof (cases "esm_error e' \<and> esm_code e' \<noteq> 0 \<and> esm_state e' = c \<or> e' = e \<and> c = ESM_SAFEOP \<and> q = ESM_OP \<and> ft_op_delay_ms (e_fault e) \<noteq> 0")
      case True
      then show ?thesis using q that(2,3) by blast
    next
      case F: False
      have rf: "e' \<noteq> al_set (c OR 0x10) code e" if "code \<noteq> 0" for code using F n(1,2) that by (auto simp: al_set_read)
      note w = w [unfolded if_not_P [OF q]]
      have "\<not> (e_force_reject_al e \<and> (ft_reject_al_state (e_fault e) = 0 \<or> q = ft_reject_al_state (e_fault e)))"
        using w [THEN trans, OF if_P] F rj by blast
      note w = w [unfolded if_not_P [OF this]]
      have vt: "\<not> \<not> valid_transition c q" using w [THEN trans, OF if_P] rf [of "0x0011"] by fastforce
      note w = w [unfolded if_not_P [OF vt]]
      have "\<not> (e_prof e \<and> c = ESM_PREOP \<and> q = ESM_SAFEOP \<and> v_check_pd env e \<noteq> 0)" using w [THEN trans, OF if_P] rf by blast
      note w = w [unfolded if_not_P [OF this]]
      have g: "\<not> (c = ESM_SAFEOP \<and> q = ESM_OP \<and> \<not> e_got_valid_outputs e)" using w [THEN trans, OF if_P] rf [of "0x0019"] by fastforce
      note w = w [unfolded if_not_P [OF g]]
      have "\<not> (c = ESM_SAFEOP \<and> q = ESM_OP \<and> ft_op_delay_ms (e_fault e) \<noteq> 0 \<and> \<not> ft_powered_off (e_fault e))"
        using w [THEN trans, OF if_P] F by blast
      note w = w [unfolded if_not_P [OF this] Let_def]
      have v: "valid_transition c q" "q = ESM_OP \<Longrightarrow> e_got_valid_outputs e"
          "e' = (if q = ESM_SAFEOP then (al_set q 0 e)\<lparr>e_got_valid_outputs := False\<rparr> else al_set q 0 e)"
        using w vt g op by blast+
      then have "esm_state e' = q" "\<not> esm_error e'" "esm_code e' = 0" using n by (simp_all add: al_set_read)
      then show ?thesis by (rule that(4) [OF _ v(1)]) (use v op in auto)
    qed
  qed
  then show ?thesis unfolding c_def [symmetric] q_def [symmetric] by cases (auto simp: c_def)
qed

text \<open>A slave in SAFEOP that has not seen outputs refuses OP, keeps SAFEOP and reports 0x0019.\<close>

definition safeop_esc :: "unit esc" where
  "safeop_esc = \<lparr>e_regs = (\<lambda>_. 0)(0x0120 := 0x08, 0x0130 := 0x04), e_station_address = 0, e_station_alias = 0, e_alias_enabled = False,
     e_position = 0, e_got_valid_outputs = False, e_force_reject_al = False, e_sii = [], e_dc = dc_zero,
     e_fault = \<lparr>ft_powered_off = False, ft_skip_logical = False, ft_sm1_consumed = False, ft_mbx_repeats_served = 0,
       ft_op_delay_ms = 0, ft_reject_al_code = 0, ft_reject_al_state = 0, ft_reject_al_sticky = False\<rparr>,
     e_wd = \<lparr>wd_now_ns = 0, wd_last_trigger_ns = 0, wd_running = False, wd_react = True, wd_expire_events = 0\<rparr>,
     e_sii_cmd_reads = 0, e_mbx_out = 0x1000, e_mbx_out_len = 0x80, e_mbx_in = 0x1080, e_mbx_in_len = 0x80, e_prof = False, e_app = ()\<rparr>"

definition safeop_env :: "unit esc_env" where
  "safeop_env = \<lparr>v_dc = \<lparr>cf_width = 0, cf_hop_ns = 0, cf_ref_drift_ppb = 0, cf_other_drift_ppb = 0, cf_no_dc_mask = 0\<rparr>, v_n = 1,
     v_coe = id, v_check_pd = (\<lambda>_. 0)\<rparr>"

theorem al_control_safe_witness:
  "let e' = esc_al_control_write safeop_env safeop_esc in esm_state e' = ESM_SAFEOP \<and> esm_error e' \<and> esm_code e' \<noteq> 0"
proof -
  define e' where "e' = esc_al_control_write safeop_env safeop_esc"
  have s: "esm_state safeop_esc = 4" "esm_requested safeop_esc = 8" "\<not> e_got_valid_outputs safeop_esc" "ft_op_delay_ms (e_fault safeop_esc) = 0"
    by (simp_all add: safeop_esc_def)
  note t = al_control_safe [OF e'_def]
  have st: "esm_state e' = 4" using t [THEN conjunct1] s by (auto simp: s)
  then have "esm_error e' \<and> esm_code e' \<noteq> 0" using t [THEN conjunct2] s by auto
  then show ?thesis using st by (simp add: e'_def Let_def)
qed

section \<open>The watchdog\<close>

text \<open>Watchdog: in a slave in OP that reacts to the watchdog and whose outputs trigger it, a check drops
  to SAFEOP with error code 0x001B, forgets the outputs and counts the expiry exactly when more time
  than the programmed timeout has passed since the last complete write of the outputs; until then it
  stays in OP.\<close>

theorem wd_drops_op_exactly:
  fixes e :: "'x esc"
  assumes "esm_state e = ESM_OP" "wd_react (e_wd e)" "wd_running (e_wd e)" "esc_has_wd_trigger_sm e"
    and "rd_le16 (e_regs e) 0x0420 \<noteq> 0" "e_regs e 0x0440 AND 0x01 \<noteq> 0" "esc_wd_check now e = (e', dropped)"
  shows "dropped = (now - wd_last_trigger_ns (e_wd e) > wd_timeout (e_regs e)) \<and>
    (if dropped then e_regs e' 0x0130 = (ESM_SAFEOP OR 0x10) \<and> esm_code e' = 0x001B \<and> \<not> e_got_valid_outputs e' \<and> \<not> wd_running (e_wd e') \<and>
       e_regs e' 0x0442 = (if e_regs e 0x0442 < 0xFF then e_regs e 0x0442 + 1 else e_regs e 0x0442)
     else esm_state e' = ESM_OP \<and> e_regs e' = e_regs e \<and> wd_running (e_wd e'))"
proof (cases "now - wd_last_trigger_ns (e_wd e) > wd_timeout (e_regs e)")
  case False
  then have "esc_wd_check now e = (e\<lparr>e_wd := (e_wd e)\<lparr>wd_now_ns := now\<rparr>\<rparr>, False)"
    using assms(1-6) by (simp add: esc_wd_check_def wd_expire_def Let_def)
  then show ?thesis using False assms(1,3,7) by auto
next
  case True
  define c where "c = (if e_regs e 0x0442 < 0xFF then e_regs e 0x0442 + 1 else e_regs e 0x0442)"
  define r where "r = (e_regs e)(0x0440 := e_regs e 0x0440 AND NOT 0x01, 0x0442 := c)"
  define w where "w = (e_wd e)\<lparr>wd_now_ns := now, wd_running := False, wd_expire_events := wd_expire_events (e_wd e) + 1\<rparr>"
  have id: "(e_regs e)(0x0440 := v, 0x0442 := e_regs e 0x0442) = (e_regs e)(0x0440 := v)" for v by (rule ext) simp
  have x: "wd_expire now (e\<lparr>e_wd := (e_wd e)\<lparr>wd_now_ns := now\<rparr>\<rparr>) = e\<lparr>e_regs := r, e_wd := w\<rparr>"
    using True assms(3) by (auto simp: wd_expire_def esc_cnt_inc_def r_def w_def c_def id)
  have t: "esc_has_wd_trigger_sm (e\<lparr>e_regs := r, e_wd := w\<rparr>)"
    using assms(4) by (simp add: esc_has_wd_trigger_sm_def sm_triggers_def rd_le16_def r_def Let_def upt_rec)
  have z: "r 0x0440 AND 0x01 = 0" by (simp add: r_def and.assoc)
  have "esc_wd_check now e = ((e\<lparr>e_regs := r, e_wd := w\<rparr>)\<lparr>e_regs := wr_le16 0x0134 0x001B (wr_le16 0x0130 (ucast (0x14 :: u8)) r),
      e_got_valid_outputs := False\<rparr>, True)"
    using assms(1,2,5) z t unfolding esc_wd_check_def Let_def by (simp add: x r_def w_def)
  then have e': "e' = (e\<lparr>e_regs := r, e_wd := w\<rparr>)\<lparr>e_regs := wr_le16 0x0134 0x001B (wr_le16 0x0130 (ucast (0x14 :: u8)) r),
      e_got_valid_outputs := False\<rparr>" "dropped" using assms(7) by auto
  have "wr_le16 0x0134 v q 0x0130 = q 0x0130" "wr_le16 0x0130 v q 0x0442 = q 0x0442" "wr_le16 0x0134 v q 0x0442 = q 0x0442" for v q
    by (simp_all add: wr_le16_def)
  moreover have "wr_le16 0x0130 0x14 q 0x0130 = 0x14" for q by (simp add: wr_le16_def)
  ultimately show ?thesis using True e' by (simp add: wr_le16_low rd_wr_le16 w_def) (simp add: r_def c_def)
qed

section \<open>The clock\<close>

lemma clamp_bound: "0 \<le> m \<Longrightarrow> \<bar>clamp_i m x\<bar> \<le> m"
  by (auto simp: clamp_i_def Let_def)

text \<open>The correction of the rate stays within 500 ppm whatever is written.\<close>

lemma trim_bounded:
  assumes "\<bar>k_trim_ppb (e_dc e)\<bar> \<le> 500000"
  shows "\<bar>k_trim_ppb (e_dc (esc_dc_after_write c n off data e))\<bar> \<le> 500000"
proof -
  define ok where "ok x \<longleftrightarrow> \<bar>k_trim_ppb (e_dc x)\<bar> \<le> 500000" for x :: "'a esc"
  have "ok (e\<lparr>e_regs := r\<rparr>) = ok e" "ok (latch_receive_times c n e) = ok e" "ok (sync0_activation c e) = ok e" "ok (time_control_loop c v e)"
    for e r v using clamp_bound [of 500000] by (simp_all add: ok_def latch_receive_times_def sync0_activation_def time_control_loop_def Let_def)
  moreover have "ok (e\<lparr>e_dc := (e_dc e)\<lparr>k_dt_filt_x16 := 0, k_trim_ppb := 0, k_tcl_i_x16 := 0, k_last_dt_ns := 0\<rparr>\<rparr>)" for e by (simp add: ok_def)
  moreover have "ok e" using assms by (simp add: ok_def)
  ultimately have "ok (esc_dc_after_write c n off data e)" by (simp add: esc_dc_after_write_def Let_def)
  then show ?thesis by (simp add: ok_def)
qed

text \<open>The local time in units of \<open>10\<^sup>-\<^sup>9\<close> ns.\<close>

abbreviation fine_ns :: "esc_dc_state \<Rightarrow> int" where
  "fine_ns d \<equiv> k_local_ns d * 1000000000 + k_frac_e9 d"

lemma clock_advance_fine:
  assumes "k_clock_started d" "0 \<le> k_frac_e9 d" "k_frac_e9 d < 1000000000" "0 \<le> 1000000000 + k_drift_ppb d + k_trim_ppb d"
    and "k_last_host_ns d \<le> t"
  defines "d' \<equiv> clock_advance t d"
  shows "fine_ns d' = fine_ns d + (uint t - uint (k_last_host_ns d)) * (1000000000 + k_drift_ppb d + k_trim_ppb d)"
    "0 \<le> k_frac_e9 d'" "k_frac_e9 d' < 1000000000" "k_last_host_ns d' = t" "k_clock_started d'"
    "k_drift_ppb d' = k_drift_ppb d" "k_trim_ppb d' = k_trim_ppb d"
proof -
  define rate where "rate = 1000000000 + k_drift_ppb d + k_trim_ppb d"
  define num where "num = uint (t - k_last_host_ns d) * rate + k_frac_e9 d"
  have u: "uint (t - k_last_host_ns d) = uint t - uint (k_last_host_ns d)" using assms(5) by (simp add: uint_sub_if' word_le_def)
  have n: "0 \<le> num" using assms(2,4) by (simp add: num_def rate_def)
  have q: "num sdiv 1000000000 = num div 1000000000" "num smod 1000000000 = num mod 1000000000"
    using n by (cases "num = 0"; simp add: signed_divide_int_def signed_modulo_int_def)+
  have m: "num div 1000000000 * 1000000000 + num mod 1000000000 = num" by simp
  have e: "t = k_last_host_ns d \<or> \<not> t \<le> k_last_host_ns d" using assms(5) by auto
  have c: "clock_advance t d = d\<lparr>k_local_ns := k_local_ns d + num div 1000000000, k_frac_e9 := num mod 1000000000, k_last_host_ns := t\<rparr>"
    using e
  proof
    assume t: "t = k_last_host_ns d"
    then have "num = k_frac_e9 d" by (simp add: num_def)
    then show ?thesis using t assms(1,2,3) by (simp add: clock_advance_def)
  next
    assume "\<not> t \<le> k_last_host_ns d"
    then show ?thesis using assms(1) q by (simp add: clock_advance_def Let_def num_def rate_def)
  qed
  have "fine_ns d' = k_local_ns d * 1000000000 + num" using m by (simp add: d'_def c algebra_simps)
  then show "fine_ns d' = fine_ns d + (uint t - uint (k_last_host_ns d)) * (1000000000 + k_drift_ppb d + k_trim_ppb d)"
    by (simp add: num_def u rate_def)
  show "0 \<le> k_frac_e9 d'" "k_frac_e9 d' < 1000000000" "k_last_host_ns d' = t" "k_clock_started d'"
    "k_drift_ppb d' = k_drift_ppb d" "k_trim_ppb d' = k_trim_ppb d" using assms(1) by (simp_all add: d'_def c)
qed

text \<open>C28. The slave's clock has no rounding drift: however the time between two instants is divided into
  frames, its local time grows by exactly the elapsed host time at the rate of the crystal error and
  the correction, rounded down once at the end.\<close>

theorem clock_exact:
  assumes "k_clock_started d" "0 \<le> k_frac_e9 d" "k_frac_e9 d < 1000000000" "0 \<le> 1000000000 + k_drift_ppb d + k_trim_ppb d"
    and "sorted (k_last_host_ns d # ts)"
  shows "k_local_ns (fold clock_advance ts d) =
    (fine_ns d + (uint (last (k_last_host_ns d # ts)) - uint (k_last_host_ns d)) * (1000000000 + k_drift_ppb d + k_trim_ppb d)) div 1000000000"
proof -
  have "fine_ns (fold clock_advance ts d) =
      fine_ns d + (uint (last (k_last_host_ns d # ts)) - uint (k_last_host_ns d)) * (1000000000 + k_drift_ppb d + k_trim_ppb d) \<and>
    0 \<le> k_frac_e9 (fold clock_advance ts d) \<and> k_frac_e9 (fold clock_advance ts d) < 1000000000"
    using assms
  proof (induction ts arbitrary: d)
    case (Cons t ts)
    have le: "k_last_host_ns d \<le> t" using Cons.prems(5) by simp
    note a = clock_advance_fine [OF Cons.prems(1-4) le]
    have "sorted (k_last_host_ns (clock_advance t d) # ts)" using Cons.prems(5) a(4) by simp
    then show ?case using Cons.IH [OF a(5,2,3)] Cons.prems(4) a by (auto simp: algebra_simps)
  qed simp
  moreover have "(l * 1000000000 + f) div 1000000000 = l" if "0 \<le> f" "f < 1000000000" for l f :: int using that by simp
  ultimately show ?thesis by metis
qed

theorem clock_exact_witness:
  "k_local_ns (fold clock_advance [1500, 2000, 1000000000] (dc_zero\<lparr>k_clock_started := True, k_drift_ppb := 70\<rparr>)) = 1000000070"
  using clock_exact [of "dc_zero\<lparr>k_clock_started := True, k_drift_ppb := 70\<rparr>" "[1500, 2000, 1000000000]"]
  by (simp add: dc_zero_def word_le_nat_alt)

text \<open>Every SYNC0 event is counted once: the count and the index of the last event move together.\<close>

lemma sync0_counted:
  "k_tot_events (sync0_account c has_pd e) - of_int (k_sync0_k_last (sync0_account c has_pd e)) =
   k_tot_events (e_dc e) - of_int (k_sync0_k_last (e_dc e))"
  by (simp add: sync0_account_def Let_def)

end
