(* ===== verification/Esc_Sii.thy ===== *)
theory Esc_Sii
  imports Esc
begin

text \<open>
  The EEPROM image of the simulated slave and its power-on state (\<open>esc_build_sii\<close> and \<open>esc_init\<close> of
  \<open>esc_core.c\<close>, \<open>esc_sii.h\<close>): what the master finds when it walks the categories, as SOEM does, by type
  and size. The image is the list of its words.
\<close>

abbreviation (input) ESC_SII_IMAGE_MAX_WORDS :: nat where "ESC_SII_IMAGE_MAX_WORDS \<equiv> 1024"
abbreviation (input) SII_CAT_GENERAL :: u16 where "SII_CAT_GENERAL \<equiv> 30"
abbreviation (input) SII_CAT_SYNCM :: u16 where "SII_CAT_SYNCM \<equiv> 41"
abbreviation (input) SII_CAT_TXPDO :: u16 where "SII_CAT_TXPDO \<equiv> 50"
abbreviation (input) SII_CAT_RXPDO :: u16 where "SII_CAT_RXPDO \<equiv> 51"
abbreviation (input) SII_CAT_END :: u16 where "SII_CAT_END \<equiv> 0xFFFF"

text \<open>The entries of a PDO: at most 64 of at most 31 bytes.\<close>

fun pdo_chunks :: "nat \<Rightarrow> nat \<Rightarrow> nat list" where
  "pdo_chunks 0 remaining = []"
| "pdo_chunks (Suc n) remaining =
    (if remaining = 0 then [] else let chunk = min remaining 31 in chunk # pdo_chunks n (remaining - chunk))"

fun le_words :: "u8 list \<Rightarrow> u16 list" where
  "le_words (a # b # bs) = (ucast a OR push_bit 8 (ucast b)) # le_words bs"
| "le_words bs = []"

definition pdo_entry :: "u16 \<Rightarrow> nat \<times> nat \<Rightarrow> u8 list" where
  "pdo_entry entry_index ic =
    [ucast (entry_index AND 0xFF), ucast (drop_bit 8 entry_index), of_nat (fst ic + 1), 0, 0x05, of_nat (snd ic * 8), 0, 0]"

definition append_pdo_category :: "nat \<Rightarrow> u16 \<Rightarrow> u16 \<Rightarrow> u8 \<Rightarrow> nat \<Rightarrow> u16 list \<Rightarrow> u16 list" where
  "append_pdo_category cap cat_type pdo_index sm_index total_bytes out =
    (if total_bytes = 0 then out
     else
      let chunks = pdo_chunks 64 total_bytes; n = length chunks; size_words = (8 + 8 * n) div 2;
          entry_index = (if cat_type = SII_CAT_TXPDO then 0x6000 else 0x7000);
          body = [ucast (pdo_index AND 0xFF), ucast (drop_bit 8 pdo_index), of_nat n, sm_index, 0, 0, 0, 0] @
            concat (map (pdo_entry entry_index) (enumerate 0 chunks))
      in if length out + (2 + size_words) > cap then out
         else out @ [cat_type, of_nat size_words] @ le_words body)"

definition append_sm_category :: "nat \<Rightarrow> nat \<Rightarrow> u16 list \<Rightarrow> u16 list" where
  "append_sm_category cap pdo_size out =
    (let sm3_start = of_nat (0x1100 + ((pdo_size + 8 - 1) div 8) * 8); act = (if pdo_size \<noteq> 0 then 1 else 0) in
     if length out + 2 + 16 > cap then out
     else out @ [SII_CAT_SYNCM, 16, 0x1000, 0x0080, 0x26, 1, 0x1080, 0x0080, 0x22, 1,
       0x1100, of_nat pdo_size, 0x64, act, sm3_start, of_nat pdo_size, 0x20, act])"

definition append_general_category :: "nat \<Rightarrow> u8 \<Rightarrow> u16 list \<Rightarrow> u16 list" where
  "append_general_category cap coe_details out =
    (if length out + 2 + 16 > cap then out
     else out @ [SII_CAT_GENERAL, 16] @ (replicate 16 0)[2 := push_bit 8 (ucast coe_details), 8 := 0x0011])"

definition crc8_byte :: "u8 \<Rightarrow> u8 \<Rightarrow> u8" where
  "crc8_byte byte crc = ((\<lambda>c. if c AND 0x80 \<noteq> 0 then push_bit 1 c XOR 0x07 else push_bit 1 c) ^^ 8) (crc XOR byte)"

definition sii_config_crc8 :: "u16 list \<Rightarrow> u8" where
  "sii_config_crc8 w =
    fold (\<lambda>i. crc8_byte (if odd i then ucast (drop_bit 8 (w ! (i div 2))) else ucast (w ! (i div 2) AND 0xFF))) [0..<14] 0xFF"

definition g_sii_image_default :: "u16 list" where
  "g_sii_image_default = [0x0080, 0, 0, 0, 0, 0, 0, 0, 0x0499, 0, 1, 0, 1, 0, 0, 0, 0, 0, 0, 0, 0, 0, 0, 0, 0x1000, 0x0080, 0x1080, 0x0080, 4, 0, 0, 0]"

definition esc_build_sii :: "bool \<Rightarrow> nat \<Rightarrow> u16 list" where
  "esc_build_sii coe_ca pdo_size =
    (let cap = ESC_SII_IMAGE_MAX_WORDS; w = g_sii_image_default; w = w[7 := ucast (sii_config_crc8 w)] @ replicate (64 - length w) 0;
         w = (if coe_ca then append_general_category cap (0x01 OR 0x04 OR 0x20) w else w);
         w = append_sm_category cap pdo_size w;
         w = append_pdo_category cap SII_CAT_TXPDO 0x1A00 3 pdo_size w;
         w = append_pdo_category cap SII_CAT_RXPDO 0x1600 2 pdo_size w
     in if length w < cap then w @ [SII_CAT_END] else w)"

text \<open>The power-on state; \<open>coe_init\<close> resets the CoE server's part.\<close>

definition esc_init :: "('x \<Rightarrow> 'x) \<Rightarrow> nat \<Rightarrow> nat \<Rightarrow> 'x esc \<Rightarrow> 'x esc" where
  "esc_init coe_init position pdo_size e =
    (let r = (\<lambda>_. 0)(0x0000 := 0x04, 0x0004 := 3, 0x0005 := 4, 0x0006 := 4, 0x0007 := 0x0F);
         r = wr_le16 0x0130 0x0001 (wr_le16 0x0120 0x0001 (wr_le16 0x0008 0 r));
         r = wr_le16 0x0420 0x03E8 (wr_le16 0x0410 0x03E8 (wr_le16 0x0400 0x09C2 r))
     in e\<lparr>e_regs := r, e_position := position, e_station_address := 0, e_station_alias := 0, e_alias_enabled := False,
          e_wd := \<lparr>wd_now_ns = 0, wd_last_trigger_ns = 0, wd_running = False, wd_react = True, wd_expire_events = 0\<rparr>,
          e_fault := \<lparr>ft_powered_off = False, ft_skip_logical = False, ft_sm1_consumed = False, ft_mbx_repeats_served = 0,
            ft_op_delay_ms = 0, ft_reject_al_code = 0, ft_reject_al_state = 0, ft_reject_al_sticky = False\<rparr>,
          e_mbx_out := 0x1000, e_mbx_out_len := 0x0080, e_mbx_in := 0x1080, e_mbx_in_len := 0x0080, e_prof := False,
          e_sii := esc_build_sii False pdo_size, e_app := coe_init (e_app e)\<rparr>)"

section \<open>Walking the image\<close>

text \<open>The categories as the master walks them: type, size in words, body; the end marker closes the list.\<close>

function sii_cats :: "u16 list \<Rightarrow> (u16 \<times> u16 list) list option" where
  "sii_cats ws =
    (case ws of [] \<Rightarrow> None
     | t # ws \<Rightarrow> if t = SII_CAT_END then Some []
         else (case ws of [] \<Rightarrow> None
               | n # ws \<Rightarrow> if length ws < unat n then None
                   else map_option (\<lambda>cs. (t, take (unat n) ws) # cs) (sii_cats (drop (unat n) ws))))"
  by pat_completeness auto
termination by (relation "measure length") auto

declare sii_cats.simps [simp del]

text \<open>The bits of a PDO category: the sum of the lengths of its entries, four words each after four of header.\<close>

fun entry_bits :: "u16 list \<Rightarrow> nat" where
  "entry_bits (a # b # c # d # ws) = unat (drop_bit 8 c) + entry_bits ws"
| "entry_bits ws = 0"

definition cat_bits :: "u16 list \<Rightarrow> nat" where
  "cat_bits body = entry_bits (drop 4 body)"

lemma sii_cats_end: "sii_cats [SII_CAT_END] = Some []"
  by (simp add: sii_cats.simps)

lemma sii_cats_Cons:
  assumes "t \<noteq> SII_CAT_END" "unat n = length body"
  shows "sii_cats (t # n # body @ ws) = map_option (\<lambda>cs. (t, body) # cs) (sii_cats ws)"
  using assms by (subst sii_cats.simps) simp

lemma chunks_sum:
  "r \<le> 31 * n \<Longrightarrow> sum_list (pdo_chunks n r) = r \<and> length (pdo_chunks n r) \<le> n \<and> list_all (\<lambda>c. c \<le> 31) (pdo_chunks n r)"
proof (induction n arbitrary: r)
  case (Suc n)
  then show ?case using Suc.IH [of "r - min r 31"] by (auto simp: Let_def min_def)
qed simp

lemma le_words_append: "even (length xs) \<Longrightarrow> le_words (xs @ ys) = le_words xs @ le_words ys"
  by (induction xs rule: le_words.induct) auto

lemma length_le_words: "length (le_words bs) = length bs div 2"
  by (induction bs rule: le_words.induct) auto

lemma high_byte: "drop_bit 8 (ucast a OR push_bit 8 (ucast b) :: u16) = ucast b" for a b :: u8
  by (rule bit_word_eqI) (auto simp: bit_simps dest: bit_imp_le_length)

lemma entries_bits:
  assumes "list_all (\<lambda>c. c \<le> 31) cs"
  shows "entry_bits (le_words (concat (map (pdo_entry ix) (enumerate k cs)))) = 8 * sum_list cs"
  using assms
proof (induction cs arbitrary: k)
  case (Cons c cs)
  have u: "unat (of_nat (c * 8) :: u8) = c * 8" using Cons.prems by (simp only: unat_of_nat) simp
  have "le_words (pdo_entry ix (k, c) @ bs) = (ucast (ucast (ix AND 0xFF) :: u8) OR push_bit 8 (ucast (ucast (drop_bit 8 ix) :: u8))) #
      (ucast (of_nat (k + 1) :: u8) OR push_bit 8 (ucast (0 :: u8))) # (ucast (0x05 :: u8) OR push_bit 8 (ucast (of_nat (c * 8) :: u8))) #
      (ucast (0 :: u8) OR push_bit 8 (ucast (0 :: u8))) # le_words bs" for bs
    by (simp add: pdo_entry_def)
  then show ?case using Cons u by (simp only: enumerate_simps list.map concat.simps entry_bits.simps high_byte sum_list.Cons) (simp add: unat_ucast_up)
qed simp

lemma length_entries: "length (concat (map (pdo_entry ix) (enumerate k cs))) = 8 * length cs"
  by (induction cs arbitrary: k) (simp_all add: pdo_entry_def)

lemma pdo_category:
  assumes "0 < bytes" "bytes \<le> 1984" "length out + 262 \<le> cap"
  shows "\<exists>body n. append_pdo_category cap t ix sm bytes out = out @ t # n # body \<and> unat n = length body \<and> length body \<le> 260 \<and> cat_bits body = 8 * bytes"
proof -
  define cs where "cs = pdo_chunks 64 bytes"
  define ei where "ei = (if t = SII_CAT_TXPDO then 0x6000 else 0x7000 :: u16)"
  define hd where "hd = [ucast (ix AND 0xFF), ucast (drop_bit 8 ix), of_nat (length cs), sm, 0, 0, 0, 0 :: u8]"
  define es where "es = concat (map (pdo_entry ei) (enumerate 0 cs))"
  have c: "sum_list cs = bytes" "length cs \<le> 64" "list_all (\<lambda>c. c \<le> 31) cs" using chunks_sum [of bytes 64] assms(2) by (simp_all add: cs_def)
  have w: "le_words (hd @ es) = le_words hd @ le_words es" by (rule le_words_append) (simp add: hd_def)
  have l: "length (le_words hd) = 4" "length (le_words es) = 4 * length cs" by (simp_all add: length_le_words hd_def es_def length_entries)
  have b: "cat_bits (le_words (hd @ es)) = 8 * bytes" unfolding cat_bits_def w using entries_bits [OF c(3), of ei 0] c(1) l by (simp add: es_def)
  have s: "(8 + 8 * length cs) div 2 = 4 + 4 * length cs" by simp
  have "append_pdo_category cap t ix sm bytes out = out @ [t, of_nat (4 + 4 * length cs)] @ le_words (hd @ es)"
    using assms(1,3) c(2) unfolding append_pdo_category_def Let_def cs_def [symmetric] ei_def [symmetric] hd_def [symmetric] es_def [symmetric] s
    by simp
  moreover have "unat (of_nat (4 + 4 * length cs) :: u16) = 4 + 4 * length cs" using c(2) by (simp only: unat_of_nat) simp
  ultimately show ?thesis using b w l c(2)
    by (intro exI [of _ "le_words (hd @ es)"] exI [of _ "of_nat (4 + 4 * length cs)"]) simp
qed

text \<open>C29. The EEPROM image describes the slave: walked by type and size from word 64, as the master does, it
  gives the general category if Complete Access is on, the four sync managers, and for a non-empty
  process image the input and the output PDO whose entries add up to exactly its bits, then the end
  marker, all within the 1024 words of the buffer.\<close>

theorem sii_walk:
  assumes "bytes \<le> 1984"
  shows "length (esc_build_sii ca bytes) \<le> 1024 \<and>
    (\<exists>gen sm tx rx. sii_cats (drop 64 (esc_build_sii ca bytes)) =
       Some ((if ca then [(SII_CAT_GENERAL, gen)] else []) @ [(SII_CAT_SYNCM, sm)] @
         (if bytes = 0 then [] else [(SII_CAT_TXPDO, tx), (SII_CAT_RXPDO, rx)])) \<and>
       length sm = 16 \<and> sm ! 9 = of_nat bytes \<and> sm ! 13 = of_nat bytes \<and>
       (if bytes = 0 then True else cat_bits tx = 8 * bytes \<and> cat_bits rx = 8 * bytes))"
proof -
  define w0 where "w0 = g_sii_image_default[7 := ucast (sii_config_crc8 g_sii_image_default)] @ replicate (64 - length g_sii_image_default) 0"
  have l0: "length w0 = 64" by (simp add: w0_def g_sii_image_default_def)
  define gen where "gen = (replicate 16 0)[2 := push_bit 8 (ucast (0x25 :: u8)) :: u16, 8 := 0x0011]"
  define g where "g = (if ca then SII_CAT_GENERAL # 16 # gen else [])"
  define act where "act = (if bytes \<noteq> 0 then 1 else 0 :: u16)"
  define sm where "sm = [0x1000, 0x0080, 0x26, 1, 0x1080, 0x0080, 0x22, 1,
       0x1100, of_nat bytes, 0x64, act, of_nat (0x1100 + ((bytes + 8 - 1) div 8) * 8), of_nat bytes, 0x20, act :: u16]"
  define w1 where "w1 = w0 @ g @ SII_CAT_SYNCM # 16 # sm"
  have lg: "length gen = 16" "length sm = 16" "length g \<le> 18" by (simp_all add: gen_def sm_def g_def)
  have l1: "length w1 \<le> 100" using l0 lg by (simp add: w1_def)
  have ag: "(if ca then append_general_category 1024 (0x01 OR 0x04 OR 0x20) w0 else w0) = w0 @ g"
    using l0 by (simp add: append_general_category_def g_def gen_def)
  have as: "append_sm_category 1024 bytes (w0 @ g) = w1"
    using l0 lg(3) by (simp add: append_sm_category_def w1_def sm_def act_def Let_def)
  have cg: "sii_cats (g @ ws) = map_option (\<lambda>cs. (if ca then [(SII_CAT_GENERAL, gen)] else []) @ cs) (sii_cats ws)" for ws
    using sii_cats_Cons [of SII_CAT_GENERAL 16 gen ws] lg(1) by (simp add: g_def option.map_ident)
  have cs: "sii_cats (SII_CAT_SYNCM # 16 # sm @ ws) = map_option (\<lambda>cs. (SII_CAT_SYNCM, sm) # cs) (sii_cats ws)" for ws
    using sii_cats_Cons [of SII_CAT_SYNCM 16 sm ws] lg(2) by simp
  have sm9: "sm ! 9 = of_nat bytes" "sm ! 13 = of_nat bytes" by (simp_all add: sm_def)
  show ?thesis
  proof (cases "bytes = 0")
    case True
    have b: "esc_build_sii ca bytes = w1 @ [SII_CAT_END]"
      using l1 True unfolding esc_build_sii_def Let_def w0_def [symmetric] ag as by (simp add: append_pdo_category_def)
    have "sii_cats (drop 64 (w1 @ [SII_CAT_END])) = Some ((if ca then [(SII_CAT_GENERAL, gen)] else []) @ [(SII_CAT_SYNCM, sm)])"
      using l0 cg cs [of "[SII_CAT_END]"] sii_cats_end by (simp add: w1_def)
    then show ?thesis using b l1 lg sm9 True by auto
  next
    case False
    obtain tx n where tx: "append_pdo_category 1024 SII_CAT_TXPDO 0x1A00 3 bytes w1 = w1 @ SII_CAT_TXPDO # n # tx" "unat n = length tx"
      "length tx \<le> 260" "cat_bits tx = 8 * bytes" using pdo_category [of bytes w1 1024 SII_CAT_TXPDO "0x1A00" 3] False assms l1 by auto
    define w2 where "w2 = w1 @ SII_CAT_TXPDO # n # tx"
    obtain rx m where rx: "append_pdo_category 1024 SII_CAT_RXPDO 0x1600 2 bytes w2 = w2 @ SII_CAT_RXPDO # m # rx" "unat m = length rx"
      "length rx \<le> 260" "cat_bits rx = 8 * bytes"
      using pdo_category [of bytes w2 1024 SII_CAT_RXPDO "0x1600" 2] False assms l1 tx(3) by (auto simp: w2_def)
    have b: "esc_build_sii ca bytes = w2 @ SII_CAT_RXPDO # m # rx @ [SII_CAT_END]"
      using l1 tx(3) rx(3) unfolding esc_build_sii_def Let_def w0_def [symmetric] ag as tx(1) w2_def [symmetric] rx(1) by (simp add: w2_def)
    have "sii_cats (drop 64 (w2 @ SII_CAT_RXPDO # m # rx @ [SII_CAT_END])) =
        Some ((if ca then [(SII_CAT_GENERAL, gen)] else []) @ [(SII_CAT_SYNCM, sm), (SII_CAT_TXPDO, tx), (SII_CAT_RXPDO, rx)])"
      using l0 cg cs sii_cats_Cons [OF _ tx(2)] sii_cats_Cons [OF _ rx(2)] sii_cats_end by (simp add: w1_def w2_def)
    then show ?thesis using b l1 lg sm9 tx(3,4) rx(3,4) False by (auto simp: w2_def)
  qed
qed

theorem sii_walk_witness: "length (esc_build_sii True 64) \<le> 1024 \<and> sii_cats (drop 64 (esc_build_sii True 64)) \<noteq> None"
  using sii_walk [of 64 True] by auto

end
