(* ===== verification/Diag.thy ===== *)
theory Diag
  imports Cstr
begin

text \<open>
  Bus diagnostics (\<open>libecmaster/diag/ecm_diag.c\<close>): classes of working counters, the two-slot
  handoff from the RT thread to the monitor, the accumulation of the error counters the slaves
  report, the rules that turn them into findings, emergency messages, and the texts. The handoff
  is given twice, as functions and as an interleaving of its atomic loads and stores. Arrays over
  slaves and ports are functions of the index; the two slots are indexed by \<open>bool\<close>.
\<close>

section \<open>Working counters\<close>

datatype ecm_wkc_class = ECM_WKC_OK | ECM_WKC_NOFRAME | ECM_WKC_ZERO | ECM_WKC_PARTIAL | ECM_WKC_OVER

record ecm_wkc_stats =
  wk_count :: "ecm_wkc_class \<Rightarrow> u64"
  wk_last_missing :: int
  wk_run_bad :: u32
  wk_max_run_bad :: u32

definition ecm_wkc_classify :: "int \<Rightarrow> int \<Rightarrow> ecm_wkc_class" where
  "ecm_wkc_classify wkc expected =
    (if wkc = expected then ECM_WKC_OK
     else if wkc < 0 then ECM_WKC_NOFRAME
     else if wkc = 0 then ECM_WKC_ZERO
     else if wkc < expected then ECM_WKC_PARTIAL
     else ECM_WKC_OVER)"

definition ecm_wkc_account :: "int \<Rightarrow> int \<Rightarrow> ecm_wkc_stats \<Rightarrow> ecm_wkc_stats" where
  "ecm_wkc_account wkc expected st =
    (let c = ecm_wkc_classify wkc expected;
         st = st\<lparr>wk_count := (wk_count st)(c := wk_count st c + 1)\<rparr>;
         st = (if c = ECM_WKC_PARTIAL then st\<lparr>wk_last_missing := expected - wkc\<rparr> else st)
     in if c = ECM_WKC_OK then st\<lparr>wk_run_bad := 0\<rparr>
        else let r = wk_run_bad st + 1; st = st\<lparr>wk_run_bad := r\<rparr>
             in if r > wk_max_run_bad st then st\<lparr>wk_max_run_bad := r\<rparr> else st)"

definition wkc_zero :: ecm_wkc_stats where
  "wkc_zero = \<lparr>wk_count = (\<lambda>_. 0), wk_last_missing = 0, wk_run_bad = 0, wk_max_run_bad = 0\<rparr>"

section \<open>The handoff\<close>

record 'r ecm_diag_handoff =
  ho_state :: "bool \<Rightarrow> nat"
  ho_put_seq :: "bool \<Rightarrow> u64"
  ho_drops :: u64
  ho_puts :: u64
  ho_next_put :: bool
  ho_slot :: "bool \<Rightarrow> 'r"

definition ecm_diag_handoff_init :: "'r \<Rightarrow> 'r ecm_diag_handoff" where
  "ecm_diag_handoff_init z = \<lparr>ho_state = (\<lambda>_. 0), ho_put_seq = (\<lambda>_. 0), ho_drops = 0, ho_puts = 0, ho_next_put = False, ho_slot = (\<lambda>_. z)\<rparr>"

definition ecm_diag_handoff_put :: "'r \<Rightarrow> 'r ecm_diag_handoff \<Rightarrow> 'r ecm_diag_handoff \<times> bool" where
  "ecm_diag_handoff_put raw h =
    (let k = ho_next_put h; k = (if ho_state h k \<noteq> 0 then \<not> k else k) in
     if ho_state h k \<noteq> 0 then (h\<lparr>ho_drops := ho_drops h + 1\<rparr>, False)
     else (h\<lparr>ho_slot := (ho_slot h)(k := raw), ho_puts := ho_puts h + 1, ho_put_seq := (ho_put_seq h)(k := ho_puts h + 1),
             ho_state := (ho_state h)(k := 1), ho_next_put := \<not> k\<rparr>, True))"

definition ho_pick :: "bool \<Rightarrow> bool \<Rightarrow> 'r ecm_diag_handoff \<Rightarrow> bool" where
  "ho_pick f0 f1 h = (if f0 \<and> f1 then \<not> (ho_put_seq h False < ho_put_seq h True) else \<not> f0)"

definition ecm_diag_handoff_get :: "'r ecm_diag_handoff \<Rightarrow> ('r \<times> 'r ecm_diag_handoff) option" where
  "ecm_diag_handoff_get h =
    (let f0 = (ho_state h False = 1); f1 = (ho_state h True = 1) in
     if \<not> f0 \<and> \<not> f1 then None
     else
      let both = (if f0 \<noteq> f1 then ho_state h f0 = 1 else f0 \<and> f1);
          k = (if both then ho_pick True True h else ho_pick f0 f1 h)
      in Some (ho_slot h k, h\<lparr>ho_state := (ho_state h)(k := 0)\<rparr>))"

section \<open>The model of the bus\<close>

abbreviation (input) ECM_DIAG_MAX_SLAVES :: nat where "ECM_DIAG_MAX_SLAVES \<equiv> 64"
abbreviation (input) ECM_DIAG_MAX_GROUPS :: nat where "ECM_DIAG_MAX_GROUPS \<equiv> 2"
abbreviation (input) ECM_DIAG_ERR_LEN :: nat where "ECM_DIAG_ERR_LEN \<equiv> 20"
abbreviation (input) ECM_DIAG_PORTS :: nat where "ECM_DIAG_PORTS \<equiv> 4"
abbreviation (input) ECM_DIAG_EMCY_KEEP :: nat where "ECM_DIAG_EMCY_KEEP \<equiv> 4"

record ecm_diag_raw_slave =
  rw_station_addr :: u16
  rw_wkc_err :: int
  rw_wkc_dl :: int
  rw_wkc_al :: int
  rw_err :: "nat \<Rightarrow> u8"
  rw_dl_status :: u16
  rw_al_status :: u16
  rw_al_code :: u16

record ecm_diag_raw =
  raw_seq :: u64
  raw_t_ns :: u64
  raw_frame_ok :: bool
  raw_clear_on_read :: bool
  raw_first :: nat
  raw_num :: nat
  raw_brd_count :: int
  raw_brd_al_or :: u16
  raw_frames_lost :: u64
  raw_handoff_drops :: u64
  raw_ngroups :: nat
  raw_wkc :: "nat \<Rightarrow> ecm_wkc_stats"
  raw_s :: "nat \<Rightarrow> ecm_diag_raw_slave"

record ecm_emcy =
  em_t_ns :: u64
  em_tick :: u64
  em_code :: u16
  em_reg :: u8
  em_data :: "u8 list"

record ecm_diag_counts =
  dc_inv :: "nat \<Rightarrow> u64"
  dc_rx :: "nat \<Rightarrow> u64"
  dc_fwd :: "nat \<Rightarrow> u64"
  dc_lost :: "nat \<Rightarrow> u64"
  dc_pu :: u64
  dc_pdi :: u64

record ecm_diag_slave =
  ds_tot :: ecm_diag_counts
  ds_last :: ecm_diag_counts
  ds_prev :: "nat \<Rightarrow> u8"
  ds_have_prev :: bool
  ds_saturated :: u64
  ds_answered :: bool
  ds_ever_answered :: bool
  ds_no_answer :: u64
  ds_station_addr :: u16
  ds_dl_status :: u16
  ds_al_status :: u16
  ds_al_code :: u16
  ds_seen_read :: u64
  ds_emcy_count :: u64
  ds_emcy :: "nat \<Rightarrow> ecm_emcy"
  ds_emcy_next :: nat

record ecm_diag =
  dg_n :: nat
  dg_expected_state :: u16
  dg_reads :: u64
  dg_frames_lost :: u64
  dg_handoff_drops :: u64
  dg_last_seq :: u64
  dg_last_t_ns :: u64
  dg_brd_count :: int
  dg_brd_al_or :: u16
  dg_ngroups :: nat
  dg_wkc :: "nat \<Rightarrow> ecm_wkc_stats"
  dg_s :: "nat \<Rightarrow> ecm_diag_slave"
  dg_emcy_total :: u64
  dg_emcy_lost :: u64
  dg_emcy_bad_slave :: u64

definition counts_zero :: ecm_diag_counts where
  "counts_zero = \<lparr>dc_inv = (\<lambda>_. 0), dc_rx = (\<lambda>_. 0), dc_fwd = (\<lambda>_. 0), dc_lost = (\<lambda>_. 0), dc_pu = 0, dc_pdi = 0\<rparr>"

definition emcy_zero :: ecm_emcy where
  "emcy_zero = \<lparr>em_t_ns = 0, em_tick = 0, em_code = 0, em_reg = 0, em_data = replicate 5 0\<rparr>"

definition diag_slave_zero :: ecm_diag_slave where
  "diag_slave_zero = \<lparr>ds_tot = counts_zero, ds_last = counts_zero, ds_prev = (\<lambda>_. 0), ds_have_prev = False, ds_saturated = 0,
    ds_answered = False, ds_ever_answered = False, ds_no_answer = 0, ds_station_addr = 0, ds_dl_status = 0, ds_al_status = 0,
    ds_al_code = 0, ds_seen_read = 0, ds_emcy_count = 0, ds_emcy = (\<lambda>_. emcy_zero), ds_emcy_next = 0\<rparr>"

definition ecm_diag_init :: "nat \<Rightarrow> u16 \<Rightarrow> ecm_diag" where
  "ecm_diag_init n expected_state =
    \<lparr>dg_n = min n ECM_DIAG_MAX_SLAVES, dg_expected_state = expected_state, dg_reads = 0, dg_frames_lost = 0, dg_handoff_drops = 0,
     dg_last_seq = 0, dg_last_t_ns = 0, dg_brd_count = - 1, dg_brd_al_or = 0, dg_ngroups = 0, dg_wkc = (\<lambda>_. wkc_zero),
     dg_s = (\<lambda>_. diag_slave_zero), dg_emcy_total = 0, dg_emcy_lost = 0, dg_emcy_bad_slave = 0\<rparr>"

definition diag_split :: "(nat \<Rightarrow> u8) \<Rightarrow> ecm_diag_counts" where
  "diag_split e = \<lparr>dc_inv = (\<lambda>p. ucast (e (2 * p))), dc_rx = (\<lambda>p. ucast (e (2 * p + 1))), dc_fwd = (\<lambda>p. ucast (e (8 + p))),
    dc_lost = (\<lambda>p. ucast (e (16 + p))), dc_pu = ucast (e 12), dc_pdi = ucast (e 13)\<rparr>"

definition diag_add :: "ecm_diag_counts \<Rightarrow> ecm_diag_counts \<Rightarrow> ecm_diag_counts" where
  "diag_add t d = \<lparr>dc_inv = (\<lambda>p. dc_inv t p + dc_inv d p), dc_rx = (\<lambda>p. dc_rx t p + dc_rx d p), dc_fwd = (\<lambda>p. dc_fwd t p + dc_fwd d p),
    dc_lost = (\<lambda>p. dc_lost t p + dc_lost d p), dc_pu = dc_pu t + dc_pu d, dc_pdi = dc_pdi t + dc_pdi d\<rparr>"

definition is_counter :: "nat \<Rightarrow> bool" where "is_counter j \<longleftrightarrow> j \<noteq> 14 \<and> j \<noteq> 15"

text \<open>The increase of one counter byte since it was read before.\<close>

definition diag_delta :: "bool \<Rightarrow> ecm_diag_slave \<Rightarrow> (nat \<Rightarrow> u8) \<Rightarrow> nat \<Rightarrow> u8" where
  "diag_delta clear s err j =
    (if \<not> is_counter j then 0
     else if clear \<or> \<not> ds_have_prev s then err j
     else if err j \<ge> ds_prev s j then err j - ds_prev s j else err j)"

definition ingest_err :: "bool \<Rightarrow> (nat \<Rightarrow> u8) \<Rightarrow> ecm_diag_slave \<Rightarrow> ecm_diag_slave" where
  "ingest_err clear err s =
    (let last = diag_split (diag_delta clear s err);
         sat = list_ex (\<lambda>j. is_counter j \<and> err j = 0xFF) [0..<ECM_DIAG_ERR_LEN]
     in s\<lparr>ds_prev := (if clear then (\<lambda>_. 0) else err), ds_have_prev := \<not> clear,
          ds_saturated := (if sat then ds_saturated s + 1 else ds_saturated s),
          ds_last := last, ds_tot := diag_add (ds_tot s) last\<rparr>)"

definition ingest_slave :: "u64 \<Rightarrow> bool \<Rightarrow> ecm_diag_raw_slave \<Rightarrow> ecm_diag_slave \<Rightarrow> ecm_diag_slave" where
  "ingest_slave reads clear r s0 =
    (let s = s0\<lparr>ds_seen_read := reads, ds_station_addr := rw_station_addr r, ds_last := counts_zero,
                 ds_answered := rw_wkc_err r > 0 \<or> rw_wkc_al r > 0\<rparr>
     in if \<not> ds_answered s then s\<lparr>ds_no_answer := ds_no_answer s + 1\<rparr>
        else
         let s = s\<lparr>ds_ever_answered := True\<rparr>;
             s = (if rw_wkc_err r > 0 then ingest_err clear (rw_err r) s else s);
             s = (if rw_wkc_dl r > 0 then s\<lparr>ds_dl_status := rw_dl_status r\<rparr> else s)
         in if rw_wkc_al r > 0 then s\<lparr>ds_al_status := rw_al_status r, ds_al_code := rw_al_code r\<rparr> else s)"

definition ecm_diag_ingest :: "ecm_diag_raw \<Rightarrow> ecm_diag \<Rightarrow> ecm_diag" where
  "ecm_diag_ingest raw d0 =
    (let d = d0\<lparr>dg_reads := dg_reads d0 + 1, dg_last_seq := raw_seq raw, dg_last_t_ns := raw_t_ns raw,
                 dg_frames_lost := raw_frames_lost raw, dg_handoff_drops := raw_handoff_drops raw,
                 dg_ngroups := min (raw_ngroups raw) ECM_DIAG_MAX_GROUPS, dg_wkc := raw_wkc raw\<rparr>
     in if \<not> raw_frame_ok raw then d
        else d\<lparr>dg_brd_count := raw_brd_count raw, dg_brd_al_or := raw_brd_al_or raw,
               dg_s := (\<lambda>i. if raw_first raw \<le> i \<and> i < min (raw_first raw + raw_num raw) (dg_n d)
                            then ingest_slave (dg_reads d) (raw_clear_on_read raw) (raw_s raw i) (dg_s d i) else dg_s d i)\<rparr>)"

section \<open>Emergency messages\<close>

definition ecm_diag_add_emcy :: "int \<Rightarrow> ecm_emcy \<Rightarrow> ecm_diag \<Rightarrow> ecm_diag" where
  "ecm_diag_add_emcy slave e d =
    (if slave < 1 \<or> slave > int (dg_n d) then d\<lparr>dg_emcy_bad_slave := dg_emcy_bad_slave d + 1\<rparr>
     else
      let i = nat (slave - 1); s = dg_s d i;
          s = s\<lparr>ds_emcy := (ds_emcy s)(ds_emcy_next s := e), ds_emcy_next := (ds_emcy_next s + 1) mod ECM_DIAG_EMCY_KEEP,
                ds_emcy_count := ds_emcy_count s + 1\<rparr>
      in d\<lparr>dg_s := (dg_s d)(i := s), dg_emcy_total := dg_emcy_total d + 1\<rparr>)"

definition ecm_diag_emcy :: "ecm_diag \<Rightarrow> int \<Rightarrow> int \<Rightarrow> ecm_emcy option" where
  "ecm_diag_emcy d slave k =
    (if slave < 1 \<or> slave > int (dg_n d) \<or> k < 0 \<or> k \<ge> int ECM_DIAG_EMCY_KEEP then None
     else
      let s = dg_s d (nat (slave - 1)) in
      if of_int k \<ge> ds_emcy_count s then None
      else Some (ds_emcy s (nat ((int (ds_emcy_next s) - 1 - k + 2 * int ECM_DIAG_EMCY_KEEP) smod int ECM_DIAG_EMCY_KEEP))))"

section \<open>Findings\<close>

datatype ecm_find_type = ECM_FIND_CHAIN_BROKEN | ECM_FIND_MISSING_LINK_UP | ECM_FIND_NO_ADDRESS | ECM_FIND_CABLE_FWD
  | ECM_FIND_CABLE_RET | ECM_FIND_FWD_NO_ORIGIN | ECM_FIND_PU_ONLY | ECM_FIND_PDI | ECM_FIND_LOST_LINK | ECM_FIND_STATE
  | ECM_FIND_SATURATED | ECM_FIND_DIAG_LOST | ECM_FIND_EMCY | ECM_FIND_EMCY_LOST

datatype ecm_sev = ECM_SEV_INFO | ECM_SEV_WARN | ECM_SEV_ERROR

definition sev_num :: "ecm_sev \<Rightarrow> nat" where
  "sev_num s = (case s of ECM_SEV_INFO \<Rightarrow> 0 | ECM_SEV_WARN \<Rightarrow> 1 | ECM_SEV_ERROR \<Rightarrow> 2)"

record ecm_diag_finding =
  fi_type :: ecm_find_type
  fi_sev :: ecm_sev
  fi_a :: int
  fi_b :: int
  fi_c :: u32
  fi_count :: u64
  fi_active :: bool

definition finding :: "ecm_find_type \<Rightarrow> ecm_sev \<Rightarrow> int \<Rightarrow> int \<Rightarrow> u32 \<Rightarrow> u64 \<Rightarrow> bool \<Rightarrow> ecm_diag_finding" where
  "finding t sev a b c count active =
    \<lparr>fi_type = t, fi_sev = sev, fi_a = a, fi_b = b, fi_c = c, fi_count = count, fi_active = active\<rparr>"

definition diag_push :: "nat \<Rightarrow> ecm_diag_finding \<Rightarrow> ecm_diag_finding list \<Rightarrow> ecm_diag_finding list" where
  "diag_push mx f out = (if length out \<ge> mx then out else out @ [f])"

text \<open>How far the frame gets.\<close>

definition find_topology :: "ecm_diag \<Rightarrow> ecm_diag_finding list" where
  "find_topology d =
    (let m = dg_brd_count d; n = int (dg_n d) in
     if 0 \<le> m \<and> m < n then
       if m = 0 then [finding ECM_FIND_CHAIN_BROKEN ECM_SEV_ERROR 0 n 0 0 True]
       else
        let s = dg_s d (nat (m - 1)) in
        if (ds_answered s \<and> ds_seen_read s = dg_reads d) \<and> bit (ds_dl_status s) 5
        then [finding ECM_FIND_MISSING_LINK_UP ECM_SEV_ERROR m n 0 0 True]
        else [finding ECM_FIND_CHAIN_BROKEN ECM_SEV_ERROR m n 0 0 True]
     else [])"

definition find_no_address :: "ecm_diag \<Rightarrow> ecm_diag_finding list" where
  "find_no_address d =
    (let n = int (dg_n d); on_bus = (if dg_brd_count d < 0 then n else if dg_brd_count d < n then dg_brd_count d else n) in
     concat (map (\<lambda>i. let s = dg_s d i in
       if ds_seen_read s = dg_reads d \<and> \<not> ds_answered s
       then [finding ECM_FIND_NO_ADDRESS ECM_SEV_ERROR (int i + 1) 0 (ucast (ds_station_addr s)) (ds_no_answer s) True] else [])
       [0..<nat on_bus]))"

text \<open>The frame errors first seen at port \<open>p\<close>.\<close>

definition port_origin :: "ecm_diag_slave \<Rightarrow> nat \<Rightarrow> u64" where
  "port_origin s p = (let t = ds_tot s in if dc_inv t p > dc_rx t p then dc_inv t p else dc_rx t p)"

definition find_origin :: "nat \<Rightarrow> ecm_diag_slave \<Rightarrow> nat \<Rightarrow> ecm_diag_finding list" where
  "find_origin i s p =
    (let g = port_origin s p; act = (dc_inv (ds_last s) p + dc_rx (ds_last s) p > 0) in
     if g = 0 then []
     else [finding (if p = 0 then ECM_FIND_CABLE_FWD else ECM_FIND_CABLE_RET) (if act then ECM_SEV_ERROR else ECM_SEV_WARN)
             (int i + 1) (int p) 0 g act])"

definition find_frame_errors :: "ecm_diag \<Rightarrow> ecm_diag_finding list" where
  "find_frame_errors d = concat (map (\<lambda>i. concat (map (find_origin i (dg_s d i)) [0..<ECM_DIAG_PORTS])) [0..<dg_n d])"

definition any_origin :: "ecm_diag \<Rightarrow> bool" where
  "any_origin d = list_ex (\<lambda>i. list_ex (\<lambda>p. port_origin (dg_s d i) p \<noteq> 0) [0..<ECM_DIAG_PORTS]) [0..<dg_n d]"

text \<open>One step of the loop over forwarded errors: the first slave with some that no origin explains, their sum, an origin so far.\<close>

definition fwd_step :: "ecm_diag \<Rightarrow> nat \<Rightarrow> nat \<times> u64 \<times> bool \<Rightarrow> nat \<times> u64 \<times> bool" where
  "fwd_step d i st =
    (case st of (fwd_first, fwd_sum, sofar) \<Rightarrow>
       let t = ds_tot (dg_s d i);
           sofar = (sofar \<or> dc_inv t 0 \<noteq> 0 \<or> dc_rx t 0 \<noteq> 0);
           fw = sum_list (map (dc_fwd t) [0..<ECM_DIAG_PORTS])
       in if (dc_fwd t 0 \<noteq> 0 \<and> \<not> sofar) \<or> (fw \<noteq> 0 \<and> \<not> any_origin d)
          then (if fwd_first = 0 then i + 1 else fwd_first, fwd_sum + fw, sofar)
          else (fwd_first, fwd_sum, sofar))"

definition find_fwd :: "ecm_diag \<Rightarrow> ecm_diag_finding list" where
  "find_fwd d =
    (case fold (fwd_step d) [0..<dg_n d] (0, 0, False) of
       (fwd_first, fwd_sum, _) \<Rightarrow>
         if fwd_first \<noteq> 0 then [finding ECM_FIND_FWD_NO_ORIGIN ECM_SEV_WARN (int fwd_first) 0 0 fwd_sum False] else [])"

definition find_slave :: "nat \<Rightarrow> ecm_diag_slave \<Rightarrow> ecm_diag_finding list" where
  "find_slave i s =
    (let t = ds_tot s; l = ds_last s; a = int i + 1;
         port_err = list_ex (\<lambda>p. dc_inv t p \<noteq> 0 \<or> dc_rx t p \<noteq> 0 \<or> dc_fwd t p \<noteq> 0) [0..<ECM_DIAG_PORTS]
     in (if dc_pu t \<noteq> 0 \<and> \<not> port_err then [finding ECM_FIND_PU_ONLY ECM_SEV_WARN a 0 0 (dc_pu t) (dc_pu l > 0)] else []) @
        (if dc_pdi t \<noteq> 0
         then [finding ECM_FIND_PDI (if dc_pdi l \<noteq> 0 then ECM_SEV_ERROR else ECM_SEV_WARN) a 0 0 (dc_pdi t) (dc_pdi l > 0)] else []) @
        concat (map (\<lambda>p. if dc_lost t p \<noteq> 0
          then [finding ECM_FIND_LOST_LINK ECM_SEV_WARN a (int p) 0 (dc_lost t p) (dc_lost l p > 0)] else []) [0..<ECM_DIAG_PORTS]) @
        (if ds_saturated s \<noteq> 0 then [finding ECM_FIND_SATURATED ECM_SEV_WARN a 0 0 (ds_saturated s) False] else []))"

definition find_state :: "ecm_diag \<Rightarrow> nat \<Rightarrow> ecm_diag_finding list" where
  "find_state d i =
    (let s = dg_s d i in
     if \<not> ds_answered s \<or> ds_seen_read s \<noteq> dg_reads d then []
     else if bit (ds_al_status s) 4 \<or> (dg_expected_state d \<noteq> 0 \<and> ds_al_status s AND 0x0F \<noteq> dg_expected_state d)
     then [finding ECM_FIND_STATE ECM_SEV_ERROR (int i + 1) (uint (ds_al_status s)) (ucast (ds_al_code s)) 0 True] else [])"

definition find_emcy :: "ecm_diag \<Rightarrow> nat \<Rightarrow> ecm_diag_finding list" where
  "find_emcy d i =
    (let s = dg_s d i in
     if ds_emcy_count s = 0 then []
     else (case ecm_diag_emcy d (int i + 1) 0 of
             None \<Rightarrow> []
           | Some e \<Rightarrow> [finding ECM_FIND_EMCY (if em_code e \<noteq> 0 then ECM_SEV_WARN else ECM_SEV_INFO) (int i + 1) (uint (em_reg e))
                          (ucast (em_code e)) (ds_emcy_count s) (em_code e \<noteq> 0)]))"

text \<open>All findings in the order the code looks for them.\<close>

definition diag_findings :: "ecm_diag \<Rightarrow> ecm_diag_finding list" where
  "diag_findings d =
    find_topology d @ find_no_address d @ find_frame_errors d @ find_fwd d @
    concat (map (\<lambda>i. find_slave i (dg_s d i)) [0..<dg_n d]) @
    concat (map (find_state d) [0..<dg_n d]) @
    (if dg_frames_lost d \<noteq> 0 then [finding ECM_FIND_DIAG_LOST ECM_SEV_INFO 0 0 0 (dg_frames_lost d) False] else []) @
    concat (map (find_emcy d) [0..<dg_n d]) @
    (if dg_emcy_lost d \<noteq> 0 then [finding ECM_FIND_EMCY_LOST ECM_SEV_WARN 0 0 0 (dg_emcy_lost d) False] else [])"

text \<open>The insertion sort: \<open>x\<close> moves left past the less severe ones.\<close>

definition sev_insert :: "ecm_diag_finding \<Rightarrow> ecm_diag_finding list \<Rightarrow> ecm_diag_finding list" where
  "sev_insert x out =
    (let less_sev = (\<lambda>y. sev_num (fi_sev y) < sev_num (fi_sev x)); r = rev out
     in rev (dropWhile less_sev r) @ [x] @ rev (takeWhile less_sev r))"

definition ecm_diag_analyze :: "ecm_diag \<Rightarrow> nat \<Rightarrow> ecm_diag_finding list" where
  "ecm_diag_analyze d mx = fold sev_insert (fold (diag_push mx) (diag_findings d) []) []"

section \<open>Texts\<close>

definition hexpad :: "nat \<Rightarrow> nat \<Rightarrow> string" where
  "hexpad w n = (let k = length (takeWhile (\<lambda>j. 16 ^ j \<le> n) [0..<16]) in hexw (max w (max 1 k)) n)"

definition padl :: "nat \<Rightarrow> string \<Rightarrow> string" where "padl w s = replicate (w - length s) (CHR '' '') @ s"
definition padr :: "nat \<Rightarrow> string \<Rightarrow> string" where "padr w s = s @ replicate (w - length s) (CHR '' '')"

definition ecm_emcy_class_name :: "u16 \<Rightarrow> string" where
  "ecm_emcy_class_name code =
    (let h = drop_bit 8 code in
     if code = 0 then ''error reset / no error''
     else if h = 0x10 then ''generic error''
     else if h \<in> {0x20, 0x21, 0x22, 0x23} then ''current''
     else if h \<in> {0x30, 0x31, 0x32, 0x33} then ''voltage''
     else if h \<in> {0x40, 0x41, 0x42} then ''temperature''
     else if h = 0x50 then ''device hardware''
     else if h \<in> {0x60, 0x61, 0x62, 0x63} then ''device software''
     else if h = 0x70 then ''additional modules''
     else if h \<in> {0x80, 0x81, 0x82} then ''monitoring / communication''
     else if h = 0x90 then ''external error''
     else if h = 0xF0 then ''additional functions''
     else if h = 0xFF then ''device specific''
     else ''unknown class'')"

definition diag_state_name :: "u16 \<Rightarrow> string" where
  "diag_state_name al =
    (let s = al AND 0x0F in
     if s = 1 then ''INIT'' else if s = 2 then ''PREOP'' else if s = 3 then ''BOOT'' else if s = 4 then ''SAFEOP''
     else if s = 8 then ''OP'' else ''?'')"

definition sev_name :: "ecm_sev \<Rightarrow> string" where
  "sev_name s = (case s of ECM_SEV_ERROR \<Rightarrow> ''ERROR'' | ECM_SEV_WARN \<Rightarrow> ''WARN '' | ECM_SEV_INFO \<Rightarrow> ''INFO '')"

definition finding_text :: "(u16 \<Rightarrow> string option) \<Rightarrow> ecm_diag_finding \<Rightarrow> string" where
  "finding_text al_str f =
    (let a = dec_int (fi_a f); a1 = dec_int (fi_a f + 1); b = dec_int (fi_b f); c = dec (unat (fi_count f));
         act = (if fi_active f then '' [active]'' else '' [not in last read]'') in
     case fi_type f of
       ECM_FIND_CHAIN_BROKEN \<Rightarrow>
         if fi_a f = 0
         then ''no slave answers (BRD WKC 0 of '' @ b @ ''): link master -> slave 1 down, '' @ ''or slave 1 off''
         else ''chain broken after slave '' @ a @ '': '' @ a @ '' of '' @ b @ '' slaves answer, slave '' @ a @ '' port 1 '' @
              ''has no link -> check slave '' @ a1 @ '' / cable slave '' @ a @ '' - slave '' @ a1
     | ECM_FIND_MISSING_LINK_UP \<Rightarrow>
         a @ '' of '' @ b @ '' slaves answer, but slave '' @ a @ '' port 1 still has link: slave '' @ a1 @ '' '' @
         ''is connected but its ESC does not process frames''
     | ECM_FIND_NO_ADDRESS \<Rightarrow>
         ''slave '' @ a @ '' is on the bus (BRD counts it) but ignores station address '' @ ''0x'' @ hexpad 4 (unat (fi_c f)) @
         '': power-cycled or lost its configuration ('' @ c @ '' reads)''
     | ECM_FIND_CABLE_FWD \<Rightarrow>
         if fi_a f = 1
         then ''fault between master and slave 1: '' @ c @ '' frame errors first detected '' @ ''at slave 1 port 0'' @ act
         else ''fault between slave '' @ dec_int (fi_a f - 1) @ '' and slave '' @ a @ '': '' @ c @ '' frame errors first '' @
              ''detected at slave '' @ a @ '' port 0'' @ act
     | ECM_FIND_CABLE_RET \<Rightarrow>
         ''fault on slave '' @ a @ '' port '' @ b @ '' (return path'' @ (if fi_b f = 1 then '', link to the next slave'' else []) @
         ''): '' @ c @ '' frame errors first '' @ ''detected there'' @ act
     | ECM_FIND_FWD_NO_ORIGIN \<Rightarrow>
         c @ '' forwarded errors from slave '' @ a @ '' on with no origin in the counters '' @
         ''read (origin cleared, or at a slave that did not answer)''
     | ECM_FIND_PU_ONLY \<Rightarrow>
         ''slave '' @ a @ '': '' @ c @ '' EtherCAT processing unit errors without port errors '' @ ''(malformed frames?)'' @ act
     | ECM_FIND_PDI \<Rightarrow> ''slave '' @ a @ '': '' @ c @ '' PDI errors (interface ESC <-> microcontroller)'' @ act
     | ECM_FIND_LOST_LINK \<Rightarrow> ''slave '' @ a @ '' port '' @ b @ '': link lost '' @ c @ '' time(s)'' @ act
     | ECM_FIND_STATE \<Rightarrow>
         ''slave '' @ a @ '': AL state '' @ diag_state_name (of_int (fi_b f)) @ (if bit (fi_b f) 4 then ''+ERR'' else []) @
         '', AL status code 0x'' @ hexpad 4 (unat (fi_c f)) @
         (case al_str (ucast (fi_c f)) of None \<Rightarrow> [] | Some txt \<Rightarrow> '' ('' @ txt @ '')'')
     | ECM_FIND_SATURATED \<Rightarrow>
         ''slave '' @ a @ '': a counter reached 0xFF within one read period ('' @ c @ '' times): '' @ ''counts are lower bounds''
     | ECM_FIND_DIAG_LOST \<Rightarrow> c @ '' diagnostic frames lost''
     | ECM_FIND_EMCY \<Rightarrow>
         if fi_c f \<noteq> 0
         then ''slave '' @ a @ '': '' @ c @ '' emergency message(s), last: code 0x'' @ hexpad 4 (unat (fi_c f)) @ '' ('' @
              ecm_emcy_class_name (ucast (fi_c f)) @ ''), '' @ ''error register 0x'' @ hexpad 2 (unat (of_int (fi_b f) :: u32))
         else ''slave '' @ a @ '': '' @ c @ '' emergency message(s), last one is an error reset '' @ ''(code 0x0000)''
     | ECM_FIND_EMCY_LOST \<Rightarrow>
         c @ '' emergency message(s) lost between the RT thread and the monitor '' @ ''(event ring full)'')"

definition ecm_diag_finding_str :: "(u16 \<Rightarrow> string option) \<Rightarrow> nat \<Rightarrow> ecm_diag_finding \<Rightarrow> string" where
  "ecm_diag_finding_str al_str cap f = fit cap (finding_text al_str f)"

text \<open>\<open>APPEND\<close>: as much of the text as fits before the terminating NUL.\<close>

definition diag_append :: "nat \<Rightarrow> string \<Rightarrow> string \<Rightarrow> string" where
  "diag_append cap txt buf =
    (if length buf < cap then (let b = buf @ fit (cap - length buf) txt in
       if length buf + length txt \<ge> cap then take (cap - 1) b else b)
     else buf)"

definition nl :: string where "nl = [CHR 0x0A]"

abbreviation (input) num :: "u64 \<Rightarrow> string" where "num x \<equiv> dec (unat x)"

definition format_wkc :: "string option \<Rightarrow> ecm_wkc_stats \<Rightarrow> string" where
  "format_wkc name w =
    ''wkc '' @ padr 7 (case name of Some x \<Rightarrow> x | None \<Rightarrow> ''group'') @ '' ok='' @ num (wk_count w ECM_WKC_OK) @
    '' noframe='' @ num (wk_count w ECM_WKC_NOFRAME) @ '' zero='' @ num (wk_count w ECM_WKC_ZERO) @
    '' partial='' @ num (wk_count w ECM_WKC_PARTIAL) @ ''(last missing '' @ dec_int (wk_last_missing w) @ '') over='' @
    num (wk_count w ECM_WKC_OVER) @ '' '' @ ''max_run_bad='' @ dec (unat (wk_max_run_bad w)) @ nl"

definition format_slave :: "ecm_diag \<Rightarrow> nat \<Rightarrow> string" where
  "format_slave d i =
    (let s = dg_s d i; t = ds_tot s;
         st = fit 16 (diag_state_name (ds_al_status s) @ (if bit (ds_al_status s) 4 then ''+ERR'' else []));
         up = (\<lambda>p. if bit (ds_dl_status s) (4 + p) then ''up'' else ''--'');
         errs = (\<lambda>p. padl 4 (num (dc_inv t p)) @ ''/'' @ num (dc_rx t p) @ ''/'' @ num (dc_fwd t p))
     in padl 5 (dec (i + 1)) @ '' 0x'' @ hexpad 4 (unat (ds_station_addr s)) @ '' '' @ padr 11 (if ds_ever_answered s then st else ''-'') @
        '' 0x'' @ hexpad 4 (unat (ds_al_code s)) @ '' '' @ up 0 @ ''/'' @ up 1 @ ''    '' @ errs 0 @ ''      '' @ errs 1 @ ''      '' @
        padr 3 (num (dc_pu t)) @ '' '' @ padr 4 (num (dc_pdi t)) @ '' '' @ num (dc_lost t 0) @ ''/'' @ num (dc_lost t 1) @ ''      '' @
        (if ds_seen_read s \<noteq> dg_reads d then ''not read'' else if ds_answered s then ''yes'' else ''NO'') @ nl)"

definition format_emcy :: "(u64 \<Rightarrow> string) \<Rightarrow> ecm_diag \<Rightarrow> nat \<Rightarrow> string list" where
  "format_emcy secs d i =
    (if ds_emcy_count (dg_s d i) = 0 then []
     else
      (''  slave '' @ dec (i + 1) @ '': '' @ num (ds_emcy_count (dg_s d i)) @ '' message(s), newest first:'' @ nl) #
      map (\<lambda>e. case e of None \<Rightarrow> [] | Some e \<Rightarrow>
        ''    t_mono='' @ secs (em_t_ns e) @ '' tick='' @ num (em_tick e) @ '' code=0x'' @ hexpad 4 (unat (em_code e)) @ '' ('' @
        ecm_emcy_class_name (em_code e) @ '') reg=0x'' @ hexpad 2 (unat (em_reg e)) @ '' data='' @
        concat (map (\<lambda>k. (if k = 0 then [] else '' '') @ hexpad 2 (unat (em_data e ! k))) [0..<5]) @ nl)
      (takeWhile (\<lambda>e. e \<noteq> None) (map (\<lambda>k. ecm_diag_emcy d (int i + 1) (int k)) [0..<ECM_DIAG_EMCY_KEEP])))"

text \<open>The pieces of the snapshot in order; \<open>secs\<close> prints nanoseconds as seconds with three decimals.\<close>

definition format_pieces :: "(u64 \<Rightarrow> string) \<Rightarrow> ecm_diag \<Rightarrow> ecm_diag_finding list \<Rightarrow> (nat \<Rightarrow> string option) \<Rightarrow> string option \<Rightarrow>
    (u16 \<Rightarrow> string option) \<Rightarrow> string list" where
  "format_pieces secs d fs group_names source al_str =
    [''# ecm_diag snapshot v1 source='' @ (case source of Some x \<Rightarrow> x | None \<Rightarrow> ''?'') @ '' seq='' @ num (dg_last_seq d) @ '' t_mono='' @
       secs (dg_last_t_ns d) @ '' reads='' @ num (dg_reads d) @ nl,
     ''bus: configured='' @ dec (dg_n d) @ '' answering(BRD)='' @ dec_int (dg_brd_count d) @ '' AL_or=0x'' @ hexpad 2 (unat (dg_brd_al_or d)) @
       '' diag_frames_lost='' @ num (dg_frames_lost d) @ '' handoff_drops='' @ num (dg_handoff_drops d) @ nl] @
    map (\<lambda>g. format_wkc (group_names g) (dg_wkc d g)) [0..<dg_ngroups d] @
    [''SLAVE ADDR   STATE       CODE   LINK0/1  p0:inv/rx/fwd  p1:inv/rx/fwd  PU  PDI  LOST0/1  ANSWER'' @ nl] @
    map (format_slave d) [0..<dg_n d] @
    (if dg_emcy_total d \<noteq> 0 \<or> dg_emcy_lost d \<noteq> 0
     then (''emcy: total='' @ num (dg_emcy_total d) @ '' lost='' @ num (dg_emcy_lost d) @ nl) #
          concat (map (format_emcy secs d) [0..<dg_n d])
     else []) @
    (if fs = [] then [''findings: none'' @ nl]
     else (''findings:'' @ nl) #
          map (\<lambda>f. ''  ['' @ sev_name (fi_sev f) @ ''] '' @ ecm_diag_finding_str al_str 256 f @ nl) fs)"

definition ecm_diag_format :: "(u64 \<Rightarrow> string) \<Rightarrow> ecm_diag \<Rightarrow> ecm_diag_finding list \<Rightarrow> (nat \<Rightarrow> string option) \<Rightarrow> string option \<Rightarrow>
    (u16 \<Rightarrow> string option) \<Rightarrow> nat \<Rightarrow> string" where
  "ecm_diag_format secs d fs group_names source al_str cap =
    (if cap = 0 then [] else fold (diag_append cap) (format_pieces secs d fs group_names source al_str) [])"

section \<open>Statistics of the working counters\<close>

abbreviation wkc_bad :: "int \<times> int \<Rightarrow> bool" where
  "wkc_bad c \<equiv> ecm_wkc_classify (fst c) (snd c) \<noteq> ECM_WKC_OK"

definition wkc_run :: "(int \<times> int) list \<Rightarrow> ecm_wkc_stats" where
  "wkc_run cs = fold (\<lambda>c. ecm_wkc_account (fst c) (snd c)) cs wkc_zero"

lemma wkc_run_snoc: "wkc_run (cs @ [c]) = ecm_wkc_account (fst c) (snd c) (wkc_run cs)"
  by (simp add: wkc_run_def)

text \<open>Every cycle is counted in its class; the current run of bad cycles is the one at the end, and the
  longest run seen is at least \<open>k\<close> exactly if there was a run of \<open>k\<close> bad cycles.\<close>

lemma wkc_count_exact:
  "wk_count (wkc_run cs) k = of_nat (length (filter (\<lambda>c. ecm_wkc_classify (fst c) (snd c) = k) cs))"
  by (induction cs rule: rev_induct)
    (auto simp: wkc_run_snoc ecm_wkc_account_def Let_def, simp_all add: wkc_run_def wkc_zero_def)

lemma trailing_le: "trailing P xs \<le> length xs"
  using length_takeWhile_le [of P "rev xs"] by (simp add: trailing_def)

lemma wkc_runs_exact:
  assumes "length cs < 2 ^ 32"
  shows "unat (wk_run_bad (wkc_run cs)) = trailing wkc_bad cs \<and> (k \<le> unat (wk_max_run_bad (wkc_run cs)) \<longleftrightarrow> has_run wkc_bad k cs)"
  using assms
proof (induction cs arbitrary: k rule: rev_induct)
  case Nil
  then show ?case by (simp add: wkc_run_def wkc_zero_def trailing_def has_run_Nil)
next
  case (snoc c cs)
  define st where "st = wkc_run cs"
  have IH: "unat (wk_run_bad st) = trailing wkc_bad cs" "\<And>k. k \<le> unat (wk_max_run_bad st) \<longleftrightarrow> has_run wkc_bad k cs"
    using snoc by (auto simp: st_def)
  show ?case
  proof (cases "wkc_bad c")
    case False
    then have "has_run wkc_bad k (cs @ [c]) \<longleftrightarrow> has_run wkc_bad k cs"
      unfolding has_run_snoc using IH(2) [of k] by (auto simp: trailing_snoc)
    then show ?thesis using False IH by (simp add: wkc_run_snoc ecm_wkc_account_def st_def [symmetric] trailing_snoc)
  next
    case True
    have "unat (wk_run_bad st) < 2 ^ 32 - 1"
      using IH(1) trailing_le [of wkc_bad cs] snoc.prems by simp
    then have r: "unat (wk_run_bad st + 1) = Suc (trailing wkc_bad cs)"
      using IH(1) by (simp add: unat_word_ariths)
    have h: "has_run wkc_bad k (cs @ [c]) \<longleftrightarrow> k \<le> max (unat (wk_max_run_bad st)) (Suc (trailing wkc_bad cs))"
      unfolding has_run_snoc using IH(2) [of k] True by (auto simp: trailing_snoc)
    show ?thesis using True r h
      by (auto simp: wkc_run_snoc ecm_wkc_account_def st_def [symmetric] Let_def trailing_snoc word_less_nat_alt split: if_splits)
  qed
qed

section \<open>The order of the findings\<close>

definition of_sev :: "ecm_sev \<Rightarrow> ecm_diag_finding list \<Rightarrow> ecm_diag_finding list" where
  "of_sev s fs = filter (\<lambda>f. fi_sev f = s) fs"

text \<open>Errors, then warnings, then the rest, each in the order found.\<close>

definition by_severity :: "ecm_diag_finding list \<Rightarrow> ecm_diag_finding list" where
  "by_severity fs = of_sev ECM_SEV_ERROR fs @ of_sev ECM_SEV_WARN fs @ of_sev ECM_SEV_INFO fs"

lemma push_all: "fold (diag_push mx) fs out = out @ take (mx - length out) fs"
  by (induction fs arbitrary: out) (auto simp: diag_push_def take_Cons' Suc_diff_le)

lemma drop_sevs:
  assumes "\<forall>f\<in>set us. Q f" "\<forall>f\<in>set vs. \<not> Q f"
  shows "rev (dropWhile Q (rev (vs @ us))) = vs" "rev (takeWhile Q (rev (vs @ us))) = us"
proof -
  have "dropWhile Q (rev vs) = rev vs" "takeWhile Q (rev vs) = []" using assms(2)
    by (cases vs rule: rev_cases; simp)+
  then show "rev (dropWhile Q (rev (vs @ us))) = vs" "rev (takeWhile Q (rev (vs @ us))) = us"
    using assms(1) dropWhile_append2 [of "rev us" Q "rev vs"] takeWhile_append2 [of "rev us" Q "rev vs"] by simp_all
qed

lemma sev_insert_by_severity: "sev_insert x (by_severity fs) = by_severity (fs @ [x])"
proof -
  let ?Q = "\<lambda>y. sev_num (fi_sev y) < sev_num (fi_sev x)"
  define vs us where "vs = (case fi_sev x of ECM_SEV_ERROR \<Rightarrow> of_sev ECM_SEV_ERROR fs
      | ECM_SEV_WARN \<Rightarrow> of_sev ECM_SEV_ERROR fs @ of_sev ECM_SEV_WARN fs
      | ECM_SEV_INFO \<Rightarrow> by_severity fs)"
    and "us = (case fi_sev x of ECM_SEV_ERROR \<Rightarrow> of_sev ECM_SEV_WARN fs @ of_sev ECM_SEV_INFO fs
      | ECM_SEV_WARN \<Rightarrow> of_sev ECM_SEV_INFO fs | ECM_SEV_INFO \<Rightarrow> [])"
  have "by_severity fs = vs @ us" by (simp add: vs_def us_def by_severity_def split: ecm_sev.splits)
  moreover have "\<forall>f\<in>set us. ?Q f" "\<forall>f\<in>set vs. \<not> ?Q f"
    by (auto simp: vs_def us_def by_severity_def of_sev_def sev_num_def split: ecm_sev.splits)
  ultimately have "sev_insert x (by_severity fs) = vs @ [x] @ us"
    using drop_sevs [of us ?Q vs] by (simp add: sev_insert_def)
  then show ?thesis by (simp add: vs_def us_def by_severity_def of_sev_def split: ecm_sev.splits)
qed

lemma sort_by_severity: "fold sev_insert fs [] = by_severity fs"
proof (induction fs rule: rev_induct)
  case Nil
  then show ?case by (simp add: by_severity_def of_sev_def)
next
  case (snoc x fs)
  then show ?case using sev_insert_by_severity by simp
qed

text \<open>The findings reported are the first \<open>max\<close> that the rules give, sorted by severity, in the
  order found within a severity: the in-place insertion sort is the stable partition.\<close>

lemma diag_analyze_sorted:
  "ecm_diag_analyze d mx = by_severity (take mx (diag_findings d))"
  by (simp add: ecm_diag_analyze_def push_all sort_by_severity)

section \<open>Accumulated counters\<close>

text \<open>The total behind byte \<open>j\<close> of the counter block.\<close>

definition counter_at :: "nat \<Rightarrow> ecm_diag_counts \<Rightarrow> u64" where
  "counter_at j c =
    (if j < 8 then (if even j then dc_inv c (j div 2) else dc_rx c (j div 2))
     else if j < 12 then dc_fwd c (j - 8) else if j = 12 then dc_pu c else if j = 13 then dc_pdi c else dc_lost c (j - 16))"

text \<open>
  A saturating counter of a slave that has \<open>es ! i\<close> events before read \<open>i\<close>: the values read, with
  or without the read clearing it.
\<close>

fun counter_reads :: "bool \<Rightarrow> nat \<Rightarrow> nat list \<Rightarrow> nat list" where
  "counter_reads clear c [] = []"
| "counter_reads clear c (e # es) = (let v = min 255 (c + e) in v # counter_reads clear (if clear then 0 else v) es)"

lemma counter_at_split:
  assumes "j < 20" "is_counter j"
  shows "counter_at j (diag_split e) = ucast (e j)"
proof -
  have "j < 8 \<or> (8 \<le> j \<and> j < 12) \<or> j = 12 \<or> j = 13 \<or> 16 \<le> j" using assms by (auto simp: is_counter_def)
  then show ?thesis by (auto simp: counter_at_def diag_split_def)
qed

lemma counter_at_add: "counter_at j (diag_add t d) = counter_at j t + counter_at j d"
  by (simp add: counter_at_def diag_add_def)

text \<open>Slave \<open>i\<close> is in the read and answers it.\<close>

definition reads_slave :: "bool \<Rightarrow> nat \<Rightarrow> ecm_diag_raw \<Rightarrow> bool" where
  "reads_slave clear i raw \<longleftrightarrow> raw_frame_ok raw \<and> raw_clear_on_read raw = clear \<and>
     raw_first raw \<le> i \<and> i < raw_first raw + raw_num raw \<and> rw_wkc_err (raw_s raw i) > 0"

lemma diag_delta_frame [simp]:
  "diag_delta c (s\<lparr>ds_seen_read := a\<rparr>) = diag_delta c s" "diag_delta c (s\<lparr>ds_station_addr := b\<rparr>) = diag_delta c s"
  "diag_delta c (s\<lparr>ds_last := l\<rparr>) = diag_delta c s" "diag_delta c (s\<lparr>ds_answered := x\<rparr>) = diag_delta c s"
  "diag_delta c (s\<lparr>ds_ever_answered := y\<rparr>) = diag_delta c s"
  by (simp_all add: diag_delta_def fun_eq_iff)

lemma ingest_slave_reads:
  assumes "rw_wkc_err r > 0" "s' = ingest_slave n clear r s" "err = rw_err r"
  shows "ds_tot s' = diag_add (ds_tot s) (diag_split (diag_delta clear s err)) \<and>
    ds_prev s' = (if clear then (\<lambda>_. 0) else err) \<and> ds_have_prev s' = (\<not> clear) \<and>
    ds_saturated s' = ds_saturated s + (if list_ex (\<lambda>j. is_counter j \<and> err j = 0xFF) [0..<20] then 1 else 0)"
  using assms by (simp add: ingest_slave_def ingest_err_def Let_def)

lemma ingest_reads:
  assumes "reads_slave clear i raw" "i < dg_n d"
  shows "dg_n (ecm_diag_ingest raw d) = dg_n d \<and>
    dg_s (ecm_diag_ingest raw d) i = ingest_slave (dg_reads d + 1) clear (raw_s raw i) (dg_s d i)"
  using assms by (simp add: ecm_diag_ingest_def reads_slave_def Let_def)

text \<open>What the slave's model holds after the reads, against the events \<open>n\<close> of the counter and its value \<open>c\<close> after the last read.\<close>

definition counter_inv :: "bool \<Rightarrow> nat \<Rightarrow> nat \<Rightarrow> nat \<Rightarrow> ecm_diag_slave \<Rightarrow> bool" where
  "counter_inv clear j c n s \<longleftrightarrow>
     unat (counter_at j (ds_tot s)) \<le> n \<and> (ds_saturated s = 0 \<longrightarrow> unat (counter_at j (ds_tot s)) = n) \<and>
     c \<le> 255 \<and> (if clear then c = 0 \<and> \<not> ds_have_prev s else if ds_have_prev s then unat (ds_prev s j) = c else c = 0)"

lemma counter_inv_step:
  assumes inv: "counter_inv clear j c n s" and j: "j < 20" "is_counter j" and r: "rw_wkc_err r > 0"
    and v: "v = min 255 (c + e)" "unat (rw_err r j) = v" and lim: "n + e < 2 ^ 64" "unat (ds_saturated s) < 2 ^ 64 - 1"
  shows "counter_inv clear j (if clear then 0 else v) (n + e) (ingest_slave k clear r s)"
    and "unat (ds_saturated (ingest_slave k clear r s)) \<le> Suc (unat (ds_saturated s))"
proof -
  define s' where "s' = ingest_slave k clear r s"
  define b where "b = list_ex (\<lambda>j. is_counter j \<and> rw_err r j = 0xFF) [0..<20]"
  note I = ingest_slave_reads [OF r s'_def refl]
  have d: "unat (diag_delta clear s (rw_err r) j) = v - (if clear then 0 else c)"
    using inv j(2) v by (auto simp: diag_delta_def counter_inv_def word_le_nat_alt unat_sub split: if_splits)
  have de: "v - (if clear then 0 else c) \<le> e" using v(1) inv by (auto simp: counter_inv_def split: if_splits)
  have tot: "counter_at j (ds_tot s') = counter_at j (ds_tot s) + ucast (diag_delta clear s (rw_err r) j)"
    using I counter_at_split [OF j] by (simp add: counter_at_add)
  have t: "unat (counter_at j (ds_tot s')) = unat (counter_at j (ds_tot s)) + (v - (if clear then 0 else c))"
    unfolding tot using d de inv lim by (subst unat_add_lem [THEN iffD1]) (auto simp: counter_inv_def unat_ucast_up)
  have sat: "ds_saturated s' = ds_saturated s + (if b then 1 else 0)" using I by (simp add: b_def)
  have full: "b" if "v = 255"
  proof -
    have "rw_err r j = 0xFF" using v(2) that by (simp add: word_unat_eq_iff)
    then show ?thesis using j by (auto simp: b_def list_ex_iff)
  qed
  have s0: "ds_saturated s = 0 \<and> \<not> b" if "ds_saturated s' = 0"
  proof (cases b)
    case True
    then have "unat (ds_saturated s') = Suc (unat (ds_saturated s))" using sat lim(2) by (simp add: unat_word_ariths)
    then show ?thesis using that by simp
  qed (use that sat in simp)
  have eq: "v - (if clear then 0 else c) = e" if "v \<noteq> 255" using v(1) that inv by (auto simp: counter_inv_def split: if_splits)
  have "unat (counter_at j (ds_tot s')) \<le> n + e" using t de inv by (simp add: counter_inv_def)
  moreover have "unat (counter_at j (ds_tot s')) = n + e" if "ds_saturated s' = 0"
  proof -
    have "unat (counter_at j (ds_tot s)) = n" "v \<noteq> 255" using s0 [OF that] inv full by (auto simp: counter_inv_def)
    then show ?thesis using t eq by simp
  qed
  moreover have "v \<le> 255" using v(1) by simp
  ultimately show "counter_inv clear j (if clear then 0 else v) (n + e) (ingest_slave k clear r s)"
    unfolding s'_def [symmetric] counter_inv_def using I v(2) by simp
  show "unat (ds_saturated (ingest_slave k clear r s)) \<le> Suc (unat (ds_saturated s))"
    unfolding s'_def [symmetric] sat using lim(2) by (simp add: unat_word_ariths)
qed

lemma ingest_run_inv:
  assumes "counter_inv clear j c n (dg_s d i)" "i < dg_n d" "j < 20" "is_counter j"
    and "list_all (reads_slave clear i) rs" "map (\<lambda>r. unat (rw_err (raw_s r i) j)) rs = counter_reads clear c es"
    and "n + sum_list es < 2 ^ 64" "unat (ds_saturated (dg_s d i)) + length rs < 2 ^ 64"
  shows "\<exists>c'. counter_inv clear j c' (n + sum_list es) (dg_s (fold ecm_diag_ingest rs d) i)"
  using assms
proof (induction rs arbitrary: d c n es)
  case Nil
  then show ?case by (cases es) (auto simp: Let_def)
next
  case (Cons r rs)
  then obtain e es' where es: "es = e # es'" by (cases es) auto
  define v where "v = min 255 (c + e)"
  define d' where "d' = ecm_diag_ingest r d"
  have v: "unat (rw_err (raw_s r i) j) = v"
    "map (\<lambda>r. unat (rw_err (raw_s r i) j)) rs = counter_reads clear (if clear then 0 else v) es'"
    using Cons.prems(6) by (simp_all add: es Let_def v_def)
  have r: "reads_slave clear i r" "list_all (reads_slave clear i) rs" using Cons.prems(5) by simp_all
  note G = ingest_reads [OF r(1) Cons.prems(2), folded d'_def]
  have pos: "rw_wkc_err (raw_s r i) > 0" using r(1) by (simp add: reads_slave_def)
  note S = counter_inv_step [OF Cons.prems(1,3,4) pos v_def v(1), where k = "dg_reads d + 1"]
  have "counter_inv clear j (if clear then 0 else v) (n + e) (dg_s d' i)"
    "unat (ds_saturated (dg_s d' i)) \<le> Suc (unat (ds_saturated (dg_s d i)))"
    using S Cons.prems(7,8) G by (simp_all add: es)
  then show ?case using Cons.IH [of "if clear then 0 else v" "n + e" d' es'] v(2) r(2) G Cons.prems
    by (simp add: es d'_def [symmetric] add.assoc)
qed

text \<open>Counting errors: a slave's saturating counter has some numbers of events between the reads,
  each read is a read-and-clear (or, in passive mode, a plain read), and every read is answered. Then
  the total never exceeds the number of events, and it is exactly that number unless the slave's
  model says that some read found a counter at its limit.\<close>

lemma diag_counts_exact:
  assumes "i < n" "n \<le> 64" "j < 20" "is_counter j"
    and "list_all (reads_slave clear i) rs" "map (\<lambda>r. unat (rw_err (raw_s r i) j)) rs = counter_reads clear 0 es"
    and "sum_list es < 2 ^ 64" "length rs < 2 ^ 64"
    and s_def: "s = dg_s (fold ecm_diag_ingest rs (ecm_diag_init n expected)) i"
  shows "unat (counter_at j (ds_tot s)) \<le> sum_list es \<and> (ds_saturated s = 0 \<longrightarrow> unat (counter_at j (ds_tot s)) = sum_list es)"
proof -
  define d where "d = ecm_diag_init n expected"
  have d: "counter_inv clear j 0 0 (dg_s d i)" "i < dg_n d" "ds_saturated (dg_s d i) = 0"
    using assms(1,2) by (auto simp: d_def ecm_diag_init_def counter_inv_def diag_slave_zero_def counts_zero_def counter_at_def)
  show ?thesis using ingest_run_inv [OF d(1,2) assms(3-6)] assms(7,8) d(3)
    by (auto simp: s_def d_def [symmetric] counter_inv_def)
qed

section \<open>Localisation\<close>

definition cable_finding :: "ecm_diag_finding \<Rightarrow> bool" where
  "cable_finding f \<longleftrightarrow> fi_type f \<in> {ECM_FIND_CABLE_FWD, ECM_FIND_CABLE_RET, ECM_FIND_FWD_NO_ORIGIN}"

text \<open>
  The counters after a fault at port \<open>p\<close> of slave \<open>k\<close> (from 0): only that port has seen bad frames
  first. The slaves behind it on the way out, and every slave on the way back, have only forwarded
  them: no slave before \<open>k\<close> has forwarded errors at port 0, and for a fault on the way back no slave has.
\<close>

definition single_fault :: "ecm_diag \<Rightarrow> nat \<Rightarrow> nat \<Rightarrow> bool" where
  "single_fault d k p \<longleftrightarrow> k < dg_n d \<and> p < 4 \<and> port_origin (dg_s d k) p \<noteq> 0 \<and>
     (\<forall>i < dg_n d. \<forall>q < 4. (i, q) \<noteq> (k, p) \<longrightarrow> dc_inv (ds_tot (dg_s d i)) q = 0 \<and> dc_rx (ds_tot (dg_s d i)) q = 0) \<and>
     (\<forall>i < dg_n d. i < k \<or> p \<noteq> 0 \<longrightarrow> dc_fwd (ds_tot (dg_s d i)) 0 = 0)"

lemma concat_map_single:
  assumes "k < n" "\<forall>i < n. i \<noteq> k \<longrightarrow> f i = []"
  shows "concat (map f [0..<n]) = f k"
  using assms
proof (induction n)
  case (Suc n)
  show ?case
  proof (cases "k = n")
    case True
    then have "\<forall>i < n. f i = []" using Suc.prems(2) by auto
    then show ?thesis using True by simp
  next
    case False
    then show ?thesis using Suc by auto
  qed
qed simp

lemma frame_errors_single:
  assumes "single_fault d k p"
  shows "find_frame_errors d = find_origin k (dg_s d k) p"
proof -
  have z: "find_origin i (dg_s d i) q = []" if "i < dg_n d" "q < 4" "(i, q) \<noteq> (k, p)" for i q
    using assms that by (auto simp: single_fault_def find_origin_def port_origin_def Let_def)
  have kp: "k < dg_n d" "p < 4" using assms by (simp_all add: single_fault_def)
  have "concat (map (find_origin k (dg_s d k)) [0..<4]) = find_origin k (dg_s d k) p"
    by (rule concat_map_single) (use z kp in auto)
  moreover have "concat (map (find_origin i (dg_s d i)) [0..<4]) = []" if "i < dg_n d" "i \<noteq> k" for i
    using z [OF that(1)] that(2) by simp
  ultimately show ?thesis unfolding find_frame_errors_def
    by (subst concat_map_single [OF kp(1)]) auto
qed

lemma fwd_step_explained:
  assumes "any_origin d" "dc_fwd (ds_tot (dg_s d i)) 0 \<noteq> 0 \<Longrightarrow> b \<or> dc_inv (ds_tot (dg_s d i)) 0 \<noteq> 0 \<or> dc_rx (ds_tot (dg_s d i)) 0 \<noteq> 0"
  shows "fwd_step d i (0, y, b) = (0, y, b \<or> dc_inv (ds_tot (dg_s d i)) 0 \<noteq> 0 \<or> dc_rx (ds_tot (dg_s d i)) 0 \<noteq> 0)"
  using assms by (auto simp: fwd_step_def Let_def)

lemma no_unexplained:
  assumes "single_fault d k p"
  shows "find_fwd d = []"
proof -
  have any: "any_origin d" unfolding any_origin_def list_ex_iff
    by (rule bexI [of _ k], rule bexI [of _ p]) (use assms in \<open>auto simp: single_fault_def\<close>)
  have "\<exists>y b. fold (fwd_step d) [0..<m] (0, 0, False) = (0, y, b) \<and> (p = 0 \<longrightarrow> k < m \<longrightarrow> b)" if "m \<le> dg_n d" for m
    using that
  proof (induction m)
    case 0
    show ?case by (rule exI, rule exI) auto
  next
    case (Suc m)
    then obtain y b where IH: "fold (fwd_step d) [0..<m] (0, 0, False) = (0, y, b)" "p = 0 \<longrightarrow> k < m \<longrightarrow> b" by auto
    have o: "p = 0 \<Longrightarrow> dc_inv (ds_tot (dg_s d k)) 0 \<noteq> 0 \<or> dc_rx (ds_tot (dg_s d k)) 0 \<noteq> 0"
      using assms by (auto simp: single_fault_def port_origin_def Let_def split: if_splits)
    have f: "m < k \<or> p \<noteq> 0 \<Longrightarrow> dc_fwd (ds_tot (dg_s d m)) 0 = 0" using assms Suc.prems by (auto simp: single_fault_def)
    have e: "dc_fwd (ds_tot (dg_s d m)) 0 \<noteq> 0 \<Longrightarrow> b \<or> dc_inv (ds_tot (dg_s d m)) 0 \<noteq> 0 \<or> dc_rx (ds_tot (dg_s d m)) 0 \<noteq> 0"
      using f o IH(2) by (cases m k rule: linorder_cases) auto
    have "fold (fwd_step d) [0..<Suc m] (0, 0, False) = (0, y, b \<or> dc_inv (ds_tot (dg_s d m)) 0 \<noteq> 0 \<or> dc_rx (ds_tot (dg_s d m)) 0 \<noteq> 0)"
      using IH(1) by (simp add: fwd_step_explained [OF any e])
    moreover have "p = 0 \<longrightarrow> k < Suc m \<longrightarrow> b \<or> dc_inv (ds_tot (dg_s d m)) 0 \<noteq> 0 \<or> dc_rx (ds_tot (dg_s d m)) 0 \<noteq> 0"
      using IH(2) o by (auto simp: less_Suc_eq)
    ultimately show ?case by blast
  qed
  from this [of "dg_n d"] show ?thesis by (auto simp: find_fwd_def)
qed

lemma other_findings:
  "filter cable_finding (find_topology d) = []" "filter cable_finding (find_no_address d) = []"
  "filter cable_finding (find_slave i s) = []" "filter cable_finding (find_state d i) = []" "filter cable_finding (find_emcy d i) = []"
  by (auto simp: cable_finding_def find_topology_def find_no_address_def find_slave_def find_state_def find_emcy_def finding_def Let_def
    filter_concat filter_empty_conv split: option.splits if_splits)

lemma filter_by_severity: "filter P (by_severity fs) = by_severity (filter P fs)"
  by (simp add: by_severity_def of_sev_def conj_commute)

text \<open>C23. Fault localisation: when one port of one slave is the origin of all frame errors, the
  analysis reports exactly one cable fault, at that slave and port, on the outgoing path for port 0
  and on the return path otherwise, with the larger of its two error counts, an error if it grew since the last read and a warning otherwise, however many slaves
  have forwarded the bad frames; and it never reports forwarded errors without an origin.\<close>

theorem diag_localises:
  assumes "single_fault d k p" "length (diag_findings d) \<le> mx"
  shows "filter cable_finding (ecm_diag_analyze d mx) =
    (let act = (dc_inv (ds_last (dg_s d k)) p + dc_rx (ds_last (dg_s d k)) p > 0) in
    [finding (if p = 0 then ECM_FIND_CABLE_FWD else ECM_FIND_CABLE_RET) (if act then ECM_SEV_ERROR else ECM_SEV_WARN)
       (int k + 1) (int p) 0 (max (dc_inv (ds_tot (dg_s d k)) p) (dc_rx (ds_tot (dg_s d k)) p)) act])"
proof -
  have o: "filter cable_finding (find_origin k (dg_s d k) p) = find_origin k (dg_s d k) p"
    by (simp add: find_origin_def cable_finding_def finding_def Let_def)
  have "filter cable_finding (diag_findings d) = find_origin k (dg_s d k) p"
    unfolding diag_findings_def
    by (simp add: other_findings frame_errors_single [OF assms(1)] no_unexplained [OF assms(1)] o filter_concat comp_def)
      (simp add: cable_finding_def finding_def)
  then have e: "filter cable_finding (ecm_diag_analyze d mx) = by_severity (find_origin k (dg_s d k) p)"
    using assms(2) by (simp add: ecm_diag_analyze_def push_all sort_by_severity filter_by_severity)
  have g: "port_origin (dg_s d k) p = max (dc_inv (ds_tot (dg_s d k)) p) (dc_rx (ds_tot (dg_s d k)) p)" "port_origin (dg_s d k) p \<noteq> 0"
    using assms(1) by (auto simp: single_fault_def port_origin_def Let_def max_def)
  show ?thesis using e g by (simp add: find_origin_def by_severity_def of_sev_def finding_def Let_def)
qed

text \<open>Three slaves, bad frames on the way into the second, forwarded by the third and back.\<close>

definition demo_diag :: ecm_diag where
  "demo_diag = (ecm_diag_init 3 8)\<lparr>dg_s := (\<lambda>i. diag_slave_zero\<lparr>ds_tot :=
     (if i = 1 then counts_zero\<lparr>dc_inv := (\<lambda>q. if q = 0 then 4 else 0), dc_fwd := (\<lambda>q. if q = 1 then 4 else 0)\<rparr>
      else if i = 2 then counts_zero\<lparr>dc_fwd := (\<lambda>q. if q = 0 then 4 else 0)\<rparr> else counts_zero\<lparr>dc_fwd := (\<lambda>q. if q = 1 then 4 else 0)\<rparr>)\<rparr>)\<rparr>"

theorem diag_localises_witness:
  "filter cable_finding (ecm_diag_analyze demo_diag 64) = [finding ECM_FIND_CABLE_FWD ECM_SEV_WARN 2 0 0 4 False]"
proof -
  have f: "single_fault demo_diag 1 0"
    by (auto simp: single_fault_def demo_diag_def ecm_diag_init_def counts_zero_def port_origin_def diag_slave_zero_def)
  have l: "length (diag_findings demo_diag) \<le> 64"
    unfolding diag_findings_def frame_errors_single [OF f] no_unexplained [OF f]
    by (simp add: demo_diag_def ecm_diag_init_def diag_slave_zero_def counts_zero_def find_topology_def find_no_address_def find_origin_def
      find_slave_def find_state_def find_emcy_def port_origin_def Let_def upt_rec)
  show ?thesis using diag_localises [OF f l]
    by (simp add: demo_diag_def ecm_diag_init_def diag_slave_zero_def counts_zero_def)
qed

section \<open>The handoff between two threads\<close>

text \<open>
  The RT thread calls \<open>ecm_diag_handoff_put\<close> and the monitor \<open>ecm_diag_handoff_get\<close>, each one shared
  access at a time and in any interleaving. A copy into a slot is two steps, with anything in the slot
  in between. The ghost fields list the epochs whose put has published them and those handed out.
\<close>

datatype 'r ho_prod = PIdle | PSecond 'r bool | PFill 'r bool | PFilling 'r bool | PPublish 'r bool
datatype 'r ho_cons = CIdle | CFirst bool | CAgain bool | CPick bool bool | CRead bool | CFree bool 'r

record 'r ho_sys =
  x_h :: "'r ecm_diag_handoff"
  x_p :: "'r ho_prod"
  x_c :: "'r ho_cons"
  g_pushed :: "'r list"
  g_popped :: "'r list"

definition ho_sys_init :: "'r \<Rightarrow> 'r ho_sys" where
  "ho_sys_init z = \<lparr>x_h = ecm_diag_handoff_init z, x_p = PIdle, x_c = CIdle, g_pushed = [], g_popped = []\<rparr>"

inductive handoff_put_step :: "'r ho_sys \<Rightarrow> 'r ho_sys \<Rightarrow> bool" where
  P_first_full: "x_p s = PIdle \<Longrightarrow> k = ho_next_put (x_h s) \<Longrightarrow> ho_state (x_h s) k \<noteq> 0 \<Longrightarrow> handoff_put_step s (s\<lparr>x_p := PSecond x (\<not> k)\<rparr>)"
| P_first_free: "x_p s = PIdle \<Longrightarrow> k = ho_next_put (x_h s) \<Longrightarrow> ho_state (x_h s) k = 0 \<Longrightarrow> handoff_put_step s (s\<lparr>x_p := PFill x k\<rparr>)"
| P_drop: "x_p s = PSecond x k \<Longrightarrow> ho_state (x_h s) k \<noteq> 0 \<Longrightarrow>
    handoff_put_step s (s\<lparr>x_p := PIdle, x_h := (x_h s)\<lparr>ho_drops := ho_drops (x_h s) + 1\<rparr>\<rparr>)"
| P_second_free: "x_p s = PSecond x k \<Longrightarrow> ho_state (x_h s) k = 0 \<Longrightarrow> handoff_put_step s (s\<lparr>x_p := PFill x k\<rparr>)"
| P_fill: "x_p s = PFill x k \<Longrightarrow>
    handoff_put_step s (s\<lparr>x_p := PFilling x k, x_h := (x_h s)\<lparr>ho_slot := (ho_slot (x_h s))(k := torn)\<rparr>\<rparr>)"
| P_filled: "x_p s = PFilling x k \<Longrightarrow>
    handoff_put_step s (s\<lparr>x_p := PPublish x k, x_h := (x_h s)\<lparr>ho_slot := (ho_slot (x_h s))(k := x), ho_puts := ho_puts (x_h s) + 1,
      ho_put_seq := (ho_put_seq (x_h s))(k := ho_puts (x_h s) + 1)\<rparr>\<rparr>)"
| P_publish: "x_p s = PPublish x k \<Longrightarrow>
    handoff_put_step s (s\<lparr>x_p := PIdle, x_h := (x_h s)\<lparr>ho_state := (ho_state (x_h s))(k := 1), ho_next_put := \<not> k\<rparr>,
      g_pushed := g_pushed s @ [x]\<rparr>)"

inductive handoff_get_step :: "'r ho_sys \<Rightarrow> 'r ho_sys \<Rightarrow> bool" where
  C_first: "x_c s = CIdle \<Longrightarrow> handoff_get_step s (s\<lparr>x_c := CFirst (ho_state (x_h s) False = 1)\<rparr>)"
| C_none: "x_c s = CFirst False \<Longrightarrow> ho_state (x_h s) True \<noteq> 1 \<Longrightarrow> handoff_get_step s (s\<lparr>x_c := CIdle\<rparr>)"
| C_both: "x_c s = CFirst True \<Longrightarrow> ho_state (x_h s) True = 1 \<Longrightarrow> handoff_get_step s (s\<lparr>x_c := CPick True True\<rparr>)"
| C_one: "x_c s = CFirst f0 \<Longrightarrow> f0 \<noteq> (ho_state (x_h s) True = 1) \<Longrightarrow> handoff_get_step s (s\<lparr>x_c := CAgain f0\<rparr>)"
| C_again_full: "x_c s = CAgain f0 \<Longrightarrow> ho_state (x_h s) f0 = 1 \<Longrightarrow> handoff_get_step s (s\<lparr>x_c := CPick True True\<rparr>)"
| C_again_free: "x_c s = CAgain f0 \<Longrightarrow> ho_state (x_h s) f0 \<noteq> 1 \<Longrightarrow> handoff_get_step s (s\<lparr>x_c := CPick f0 (\<not> f0)\<rparr>)"
| C_pick: "x_c s = CPick f0 f1 \<Longrightarrow> handoff_get_step s (s\<lparr>x_c := CRead (ho_pick f0 f1 (x_h s))\<rparr>)"
| C_read: "x_c s = CRead k \<Longrightarrow> handoff_get_step s (s\<lparr>x_c := CFree k (ho_slot (x_h s) k)\<rparr>)"
| C_free: "x_c s = CFree k v \<Longrightarrow>
    handoff_get_step s (s\<lparr>x_c := CIdle, x_h := (x_h s)\<lparr>ho_state := (ho_state (x_h s))(k := 0)\<rparr>, g_popped := g_popped s @ [v]\<rparr>)"

definition handoff_step :: "'r ho_sys \<Rightarrow> 'r ho_sys \<Rightarrow> bool" where
  "handoff_step s s' \<longleftrightarrow> handoff_put_step s s' \<or> handoff_get_step s s'"

abbreviation handoff_reach :: "'r \<Rightarrow> 'r ho_sys \<Rightarrow> bool" where
  "handoff_reach z s \<equiv> handoff_step\<^sup>*\<^sup>* (ho_sys_init z) s"

text \<open>Run alone, the steps are the functions above.\<close>

lemma handoff_put_alone:
  assumes "x_p s = PIdle"
  shows "\<exists>s'. handoff_step\<^sup>*\<^sup>* s s' \<and> x_p s' = PIdle \<and> x_h s' = fst (ecm_diag_handoff_put x (x_h s))"
proof -
  define k where "k = ho_next_put (x_h s)"
  have st: "\<And>a b c. handoff_put_step a b \<Longrightarrow> handoff_step\<^sup>*\<^sup>* b c \<Longrightarrow> handoff_step\<^sup>*\<^sup>* a c"
    by (auto simp: handoff_step_def intro: converse_rtranclp_into_rtranclp)
  have fill: "\<exists>s'. handoff_step\<^sup>*\<^sup>* t s' \<and> x_p s' = PIdle \<and> x_h s' = (x_h t)\<lparr>ho_slot := (ho_slot (x_h t))(j := x),
      ho_puts := ho_puts (x_h t) + 1, ho_put_seq := (ho_put_seq (x_h t))(j := ho_puts (x_h t) + 1),
      ho_state := (ho_state (x_h t))(j := 1), ho_next_put := \<not> j\<rparr>" if "x_p t = PFill x j" for t j
    by (intro exI conjI, rule st [OF P_fill [OF that, of x]], rule st [OF P_filled [of _ x j]], simp, rule st [OF P_publish [of _ x j]], simp,
      rule rtranclp.rtrancl_refl) simp_all
  show ?thesis
  proof (cases "ho_state (x_h s) k = 0")
    case True
    then show ?thesis using fill [of "s\<lparr>x_p := PFill x k\<rparr>" k] st [OF P_first_free [OF assms k_def, of x]]
      by (fastforce simp: ecm_diag_handoff_put_def k_def Let_def)
  next
    case full: False
    show ?thesis
    proof (cases "ho_state (x_h s) (\<not> k) = 0")
      case True
      then show ?thesis using full fill [of "s\<lparr>x_p := PFill x (\<not> k)\<rparr>" "\<not> k"]
          st [OF P_first_full [OF assms k_def full, of x], OF st [OF P_second_free [of _ x "\<not> k"]]]
        by (fastforce simp: ecm_diag_handoff_put_def k_def Let_def)
    next
      case False
      then show ?thesis using full st [OF P_first_full [OF assms k_def full, of x], OF st [OF P_drop [of _ x "\<not> k"] rtranclp.rtrancl_refl]]
        by (fastforce simp: ecm_diag_handoff_put_def k_def Let_def)
    qed
  qed
qed

text \<open>
  The full slots in the order they were put. A slot a put is filling is not full, and the slot a get
  has chosen stays full and the oldest until the get frees it.
\<close>

definition ho_oldest :: "'r ecm_diag_handoff \<Rightarrow> bool \<Rightarrow> bool" where
  "ho_oldest h k \<longleftrightarrow> ho_state h k = 1 \<and> (ho_state h (\<not> k) = 1 \<longrightarrow> ho_put_seq h k < ho_put_seq h (\<not> k))"

definition ho_content :: "'r ecm_diag_handoff \<Rightarrow> 'r list" where
  "ho_content h =
    (if ho_oldest h False then ho_slot h False # (if ho_state h True = 1 then [ho_slot h True] else [])
     else if ho_state h True = 1 then ho_slot h True # (if ho_state h False = 1 then [ho_slot h False] else [])
     else [])"

primrec ho_filling :: "'r ho_prod \<Rightarrow> bool option" where
  "ho_filling PIdle = None"
| "ho_filling (PSecond x k) = None"
| "ho_filling (PFill x k) = Some k"
| "ho_filling (PFilling x k) = Some k"
| "ho_filling (PPublish x k) = Some k"

primrec ho_reading :: "'r ho_cons \<Rightarrow> bool option" where
  "ho_reading CIdle = None"
| "ho_reading (CFirst f0) = None"
| "ho_reading (CAgain f0) = None"
| "ho_reading (CPick f0 f1) = None"
| "ho_reading (CRead k) = Some k"
| "ho_reading (CFree k v) = Some k"

primrec prod_inv :: "'r ho_sys \<Rightarrow> 'r ho_prod \<Rightarrow> bool" where
  "prod_inv s PIdle = (ho_puts (x_h s) = of_nat (length (g_pushed s)))"
| "prod_inv s (PSecond x k) = (ho_puts (x_h s) = of_nat (length (g_pushed s)))"
| "prod_inv s (PFill x k) = (ho_puts (x_h s) = of_nat (length (g_pushed s)) \<and> ho_state (x_h s) k = 0)"
| "prod_inv s (PFilling x k) = (ho_puts (x_h s) = of_nat (length (g_pushed s)) \<and> ho_state (x_h s) k = 0)"
| "prod_inv s (PPublish x k) = (ho_puts (x_h s) = of_nat (length (g_pushed s) + 1) \<and> ho_state (x_h s) k = 0 \<and>
     ho_slot (x_h s) k = x \<and> ho_put_seq (x_h s) k = of_nat (length (g_pushed s) + 1))"

primrec cons_inv :: "'r ecm_diag_handoff \<Rightarrow> 'r ho_cons \<Rightarrow> bool" where
  "cons_inv h CIdle = True"
| "cons_inv h (CFirst f0) = (f0 \<longrightarrow> ho_state h False = 1)"
| "cons_inv h (CAgain f0) = (ho_state h (\<not> f0) = 1)"
| "cons_inv h (CPick f0 f1) = (if f0 \<and> f1 then ho_state h False = 1 \<and> ho_state h True = 1 else ho_oldest h (\<not> f0))"
| "cons_inv h (CRead k) = ho_oldest h k"
| "cons_inv h (CFree k v) = (ho_oldest h k \<and> v = ho_slot h k)"

definition seq_inv :: "nat \<Rightarrow> 'r ecm_diag_handoff \<Rightarrow> bool" where
  "seq_inv n h \<longleftrightarrow> (\<forall>k. ho_state h k \<in> {0, 1} \<and> (ho_state h k = 1 \<longrightarrow> unat (ho_put_seq h k) \<le> n)) \<and>
     (ho_state h False = 1 \<longrightarrow> ho_state h True = 1 \<longrightarrow> ho_put_seq h False \<noteq> ho_put_seq h True)"

definition handoff_inv :: "'r ho_sys \<Rightarrow> bool" where
  "handoff_inv s \<longleftrightarrow> prod_inv s (x_p s) \<and> cons_inv (x_h s) (x_c s) \<and> seq_inv (length (g_pushed s)) (x_h s) \<and>
     g_popped s @ ho_content (x_h s) = g_pushed s"

lemmas ho_defs = ho_oldest_def ho_content_def seq_inv_def

lemma ho_oldest_frame [simp]:
  "ho_oldest (h\<lparr>ho_slot := a\<rparr>) k = ho_oldest h k" "ho_oldest (h\<lparr>ho_drops := b\<rparr>) k = ho_oldest h k"
  by (simp_all add: ho_oldest_def)

lemma ho_content_unfull:
  assumes "ho_state h k = 0"
  shows "ho_content (h\<lparr>ho_slot := (ho_slot h)(k := y)\<rparr>) = ho_content h"
    "ho_content (h\<lparr>ho_slot := (ho_slot h)(k := y), ho_puts := a, ho_put_seq := (ho_put_seq h)(k := b)\<rparr>) = ho_content h"
  using assms by (cases k; simp add: ho_content_def ho_oldest_def)+

lemma ho_publish:
  assumes "seq_inv n h" "ho_state h k = 0" "ho_put_seq h k = of_nat (n + 1)" "n + 1 < 2 ^ 64"
  shows "ho_content (h\<lparr>ho_state := (ho_state h)(k := 1), ho_next_put := b\<rparr>) = ho_content h @ [ho_slot h k]"
    "seq_inv (n + 1) (h\<lparr>ho_state := (ho_state h)(k := 1), ho_next_put := b\<rparr>)"
    "ho_state h j = 1 \<Longrightarrow> ho_put_seq h j < ho_put_seq h k"
proof -
  have u: "unat (ho_put_seq h k) = n + 1" unfolding assms(3) using assms(4) by (simp only: unat_of_nat) simp
  have lt: "ho_put_seq h j < ho_put_seq h k" if "ho_state h j = 1" for j
  proof -
    have "unat (ho_put_seq h j) \<le> n" using assms(1) that by (auto simp: seq_inv_def)
    then show ?thesis using u by (simp add: word_less_nat_alt)
  qed
  then show "ho_state h j = 1 \<Longrightarrow> ho_put_seq h j < ho_put_seq h k" .
  show "ho_content (h\<lparr>ho_state := (ho_state h)(k := 1), ho_next_put := b\<rparr>) = ho_content h @ [ho_slot h k]"
    using assms(2) lt [of "\<not> k"] by (cases k) (auto simp: ho_content_def ho_oldest_def)
  show "seq_inv (n + 1) (h\<lparr>ho_state := (ho_state h)(k := 1), ho_next_put := b\<rparr>)"
    using assms(1,2) lt [of "\<not> k"] u unfolding seq_inv_def
    by (cases k) (auto simp: le_Suc_eq split: if_splits)
qed

lemma ho_free:
  assumes "seq_inv n h" "ho_oldest h k"
  shows "ho_content h = ho_slot h k # ho_content (h\<lparr>ho_state := (ho_state h)(k := 0)\<rparr>)"
    "seq_inv n (h\<lparr>ho_state := (ho_state h)(k := 0)\<rparr>)"
  using assms by (cases k; auto simp: ho_defs dest: less_imp_not_less)+

lemma ho_pick_oldest:
  assumes "seq_inv n h" "cons_inv h (CPick f0 f1)"
  shows "ho_oldest h (ho_pick f0 f1 h)"
  using assms by (cases "ho_put_seq h False < ho_put_seq h True") (auto simp: ho_pick_def ho_oldest_def seq_inv_def split: if_splits)

lemma cons_inv_slot:
  assumes "cons_inv h c" "ho_state h k = 0"
  shows "cons_inv (h\<lparr>ho_slot := (ho_slot h)(k := y)\<rparr>) c"
    "cons_inv (h\<lparr>ho_slot := (ho_slot h)(k := y), ho_puts := a, ho_put_seq := (ho_put_seq h)(k := b)\<rparr>) c"
  using assms by (cases c; auto simp: ho_oldest_def split: if_splits)+

lemma cons_inv_publish:
  assumes "cons_inv h c" "ho_state h k = 0" "\<And>j. ho_state h j = 1 \<Longrightarrow> ho_put_seq h j < ho_put_seq h k"
  shows "cons_inv (h\<lparr>ho_state := (ho_state h)(k := 1), ho_next_put := b\<rparr>) c"
  using assms by (cases c) (auto simp: ho_oldest_def split: if_splits)

lemma handoff_put_inv:
  assumes "handoff_put_step s s'" "handoff_inv s" "length (g_pushed s') < 2 ^ 64"
  shows "handoff_inv s'"
  using assms
proof (induction rule: handoff_put_step.induct)
  case (P_drop s x k)
  then show ?case by (cases "x_c s") (auto simp: handoff_inv_def ho_defs)
next
  case (P_fill s x k torn)
  then show ?case by (auto simp: handoff_inv_def ho_content_unfull cons_inv_slot) (auto simp: seq_inv_def)
next
  case (P_filled s x k)
  then show ?case by (auto simp: handoff_inv_def ho_content_unfull cons_inv_slot) (auto simp: seq_inv_def add.commute)
next
  case (P_publish s x k)
  then have i: "seq_inv (length (g_pushed s)) (x_h s)" "ho_state (x_h s) k = 0" "ho_put_seq (x_h s) k = of_nat (length (g_pushed s) + 1)"
    "length (g_pushed s) + 1 < 2 ^ 64" by (simp_all add: handoff_inv_def)
  show ?case using P_publish ho_publish(1,2) [OF i] cons_inv_publish [OF _ i(2) ho_publish(3) [OF i]]
    by (simp add: handoff_inv_def)
qed (auto simp: handoff_inv_def)

lemma prod_inv_frame [simp]: "prod_inv (s\<lparr>x_c := c\<rparr>) p = prod_inv s p"
  by (cases p) simp_all

lemma handoff_get_inv:
  assumes "handoff_get_step s s'" "handoff_inv s"
  shows "handoff_inv s'"
  using assms
proof (induction rule: handoff_get_step.induct)
  case (C_pick s f0 f1)
  then show ?case by (auto simp: handoff_inv_def simp del: cons_inv.simps(4) intro: ho_pick_oldest)
next
  case (C_one s f0)
  then show ?case by (cases f0) (auto simp: handoff_inv_def)
next
  case (C_again_full s f0)
  then show ?case by (cases f0) (auto simp: handoff_inv_def)
next
  case (C_free s k v)
  then have i: "seq_inv (length (g_pushed s)) (x_h s)" "ho_oldest (x_h s) k" by (simp_all add: handoff_inv_def)
  have "prod_inv (s\<lparr>x_c := CIdle, x_h := (x_h s)\<lparr>ho_state := (ho_state (x_h s))(k := 0)\<rparr>, g_popped := g_popped s @ [v]\<rparr>) (x_p s)"
    using C_free by (cases "x_p s") (auto simp: handoff_inv_def)
  then show ?case using C_free ho_free [OF i] by (simp add: handoff_inv_def)
qed (auto simp: handoff_inv_def ho_oldest_def)

lemma handoff_reach_inv:
  assumes "handoff_reach z s" "length (g_pushed s) < 2 ^ 64"
  shows "handoff_inv s"
  using assms
proof (induction rule: rtranclp_induct)
  case base
  show ?case by (simp add: handoff_inv_def ho_sys_init_def ecm_diag_handoff_init_def ho_defs)
next
  case (step s t)
  have "length (g_pushed s) \<le> length (g_pushed t)"
    using step.hyps(2) by (auto simp: handoff_step_def elim!: handoff_put_step.cases handoff_get_step.cases)
  then show ?case using step by (auto simp: handoff_step_def intro: handoff_put_inv handoff_get_inv)
qed

text \<open>C22. The two-slot handoff, under every interleaving of the producer's and the consumer's accesses
  and for as long as the 64-bit sequence number does not wrap: the epochs handed out, followed by the
  ones waiting in the slots, are exactly the published epochs in order (none lost, repeated, reordered
  or torn, although a copy in progress leaves anything in the slot), and the producer never fills the
  slot the consumer is reading.\<close>

theorem handoff_in_order:
  assumes "handoff_reach z s" "length (g_pushed s) < 2 ^ 64"
  shows "g_popped s @ ho_content (x_h s) = g_pushed s \<and>
    (ho_filling (x_p s) = None \<or> ho_reading (x_c s) = None \<or> ho_filling (x_p s) \<noteq> ho_reading (x_c s))"
proof -
  have i: "handoff_inv s" by (rule handoff_reach_inv [OF assms])
  show ?thesis
  proof
    show "g_popped s @ ho_content (x_h s) = g_pushed s" using i by (simp add: handoff_inv_def)
    have f: "ho_filling (x_p s) = Some k \<Longrightarrow> ho_state (x_h s) k = 0" for k using i by (cases "x_p s") (auto simp: handoff_inv_def)
    have "ho_reading (x_c s) = Some k \<Longrightarrow> ho_state (x_h s) k = 1" for k using i by (cases "x_c s") (auto simp: handoff_inv_def ho_oldest_def)
    with f show "ho_filling (x_p s) = None \<or> ho_reading (x_c s) = None \<or> ho_filling (x_p s) \<noteq> ho_reading (x_c s)"
      by (cases "ho_filling (x_p s)"; cases "ho_reading (x_c s)") fastforce+
  qed
qed

text \<open>A put of 7 published while the consumer has looked at slot 0 and found it empty.\<close>

theorem handoff_in_order_witness:
  "\<exists>s. handoff_reach (0 :: nat) s \<and> x_c s = CFirst False \<and> g_popped s @ ho_content (x_h s) = [7]"
proof -
  define h :: "nat ecm_diag_handoff" where "h = ecm_diag_handoff_init 0"
  define i :: "nat ho_sys" where "i = ho_sys_init 0"
  have i: "i = \<lparr>x_h = h, x_p = PIdle, x_c = CIdle, g_pushed = [], g_popped = []\<rparr>" by (simp add: i_def h_def ho_sys_init_def)
  have f: "ho_state h = (\<lambda>_. 0)" "ho_next_put h = False" by (simp_all add: h_def ecm_diag_handoff_init_def)
  define s1 where "s1 = i\<lparr>x_c := CFirst False\<rparr>"
  have 1: "handoff_step i s1" using C_first [of i] by (simp add: handoff_step_def s1_def i f)
  define s2 where "s2 = s1\<lparr>x_p := PFill 7 False\<rparr>"
  have 2: "handoff_step s1 s2" using P_first_free [of s1 False 7] by (simp add: handoff_step_def s2_def s1_def i f)
  obtain s3 where 3: "handoff_step s2 s3" and s3: "s3 = s2\<lparr>x_p := PFilling 7 False, x_h := h\<lparr>ho_slot := (ho_slot h)(False := 99)\<rparr>\<rparr>"
    using P_fill [of s2 7 False 99] by (auto simp: handoff_step_def s2_def s1_def i)
  obtain s4 where 4: "handoff_step s3 s4" and s4: "x_p s4 = PPublish 7 False" "x_c s4 = CFirst False" "g_pushed s4 = []" "g_popped s4 = []"
    using P_filled [of s3 7 False] by (fastforce simp: handoff_step_def s3 s2_def s1_def i)
  obtain s5 where 5: "handoff_step s4 s5" and s5: "x_c s5 = CFirst False" "g_pushed s5 = [7]"
    using P_publish [OF s4(1)] s4 by (fastforce simp: handoff_step_def)
  have r: "handoff_reach 0 s5" using 1 2 3 4 5 unfolding i_def by (meson rtranclp.rtrancl_into_rtrancl rtranclp.rtrancl_refl)
  from handoff_in_order [OF r] s5 show ?thesis using r by (intro exI [of _ s5]) simp
qed

section \<open>Emergency messages and the report\<close>

text \<open>Among messages of any slaves in any order, \<open>ecm_diag_emcy\<close> returns the last four of a slave, newest first.\<close>

definition emcy_ring :: "ecm_diag_slave \<Rightarrow> ecm_emcy list \<Rightarrow> bool" where
  "emcy_ring s es \<longleftrightarrow> ds_emcy_next s = length es mod 4 \<and> ds_emcy_count s = of_nat (length es) \<and>
     (\<forall>j < length es. length es \<le> j + 4 \<longrightarrow> ds_emcy s (j mod 4) = es ! j)"

lemma emcy_ring_add:
  assumes "emcy_ring s es"
  shows "emcy_ring (s\<lparr>ds_emcy := (ds_emcy s)(ds_emcy_next s := e), ds_emcy_next := (ds_emcy_next s + 1) mod 4,
    ds_emcy_count := ds_emcy_count s + 1\<rparr>) (es @ [e])"
proof -
  have "ds_emcy s (j mod 4) = es ! j \<and> j mod 4 \<noteq> length es mod 4" if "j < length es" "length es + 1 \<le> j + 4" for j
  proof
    show "ds_emcy s (j mod 4) = es ! j" using assms that by (simp add: emcy_ring_def)
    show "j mod 4 \<noteq> length es mod 4"
    proof
      assume "j mod 4 = length es mod 4"
      then have "4 dvd length es - j" using that(1) by (metis mod_eq_dvd_iff_nat less_imp_le)
      then show False using that by (auto dest: dvd_imp_le)
    qed
  qed
  then show ?thesis using assms by (auto simp: emcy_ring_def mod_Suc_eq nth_append less_Suc_eq add.commute)
qed

lemma emcy_ring_run:
  assumes "1 \<le> slave" "slave \<le> int (dg_n d)" "emcy_ring (dg_s d (nat (slave - 1))) []"
  shows "emcy_ring (dg_s (fold (\<lambda>m. ecm_diag_add_emcy (fst m) (snd m)) ms d) (nat (slave - 1)))
      (map snd (filter (\<lambda>m. fst m = slave) ms)) \<and> dg_n (fold (\<lambda>m. ecm_diag_add_emcy (fst m) (snd m)) ms d) = dg_n d"
proof (induction ms rule: rev_induct)
  case (snoc m ms)
  have ne: "nat (slave - 1) \<noteq> nat (fst m - 1)" if "fst m \<noteq> slave" "1 \<le> fst m" using that assms(1) by auto
  obtain D where D: "D = fold (\<lambda>m. ecm_diag_add_emcy (fst m) (snd m)) ms d" by simp
  show ?case using snoc assms(1,2) ne emcy_ring_add unfolding fold_append comp_apply fold.simps id_apply D [symmetric]
    by (auto simp: ecm_diag_add_emcy_def Let_def)
qed (use assms(3) in simp)

lemma emcy_newest_first:
  assumes "1 \<le> slave" "slave \<le> int (dg_n d)" "emcy_ring (dg_s d (nat (slave - 1))) es" "length es < 2 ^ 64" "0 \<le> k"
  shows "ecm_diag_emcy d slave k = (if nat k < min 4 (length es) then Some (rev es ! nat k) else None)"
proof (cases "k < 4")
  case True
  define s where "s = dg_s d (nat (slave - 1))"
  have r: "ds_emcy_next s = length es mod 4" "ds_emcy_count s = of_nat (length es)"
    "\<And>j. j < length es \<Longrightarrow> length es \<le> j + 4 \<Longrightarrow> ds_emcy s (j mod 4) = es ! j"
    using assms(3) by (auto simp: emcy_ring_def s_def)
  have u: "unat (of_int k :: u64) = nat k" using True assms(5) by (simp add: unat_eq_nat_uint uint_word_of_int)
  have c: "(of_nat (length es) :: u64) \<le> of_int k \<longleftrightarrow> length es \<le> nat k"
    using assms(4) by (simp add: word_le_nat_alt u unat_of_nat)
  have i: "nat ((int (length es mod 4) - 1 - k + 8) smod 4) = (length es - 1 - nat k) mod 4" if "nat k < length es"
  proof -
    have q: "int (length es mod 4) - 1 - k + 8 = int (length es) - 1 - k + (2 - int (length es) div 4) * 4"
      by (simp add: zmod_int minus_div_mult_eq_mod [symmetric] algebra_simps)
    have p: "0 \<le> int (length es mod 4) - 1 - k + 8" using True by linarith
    have "(int (length es mod 4) - 1 - k + 8) smod 4 = (int (length es mod 4) - 1 - k + 8) mod 4"
      using p by (cases "int (length es mod 4) - 1 - k + 8 = 0") (simp_all add: signed_modulo_int_def)
    also have "\<dots> = (int (length es) - 1 - k) mod 4" unfolding q by (rule mod_mult_self1)
    also have "\<dots> = int ((length es - 1 - nat k) mod 4)" using that assms(5) by (simp add: zmod_int of_nat_diff algebra_simps)
    finally show ?thesis by simp
  qed
  show ?thesis using True assms(1,2,5) c i r(3) [of "length es - 1 - nat k"]
    by (auto simp: ecm_diag_emcy_def Let_def s_def [symmetric] r(1,2) rev_nth)
qed (use assms(5) in \<open>auto simp: ecm_diag_emcy_def\<close>)

text \<open>The report is the whole text cut at the size of the buffer, however it falls on the pieces.\<close>

lemma diag_append_take: "length buf < cap \<Longrightarrow> diag_append cap txt buf = take (cap - 1) (buf @ txt)"
  by (auto simp: diag_append_def fit_def Let_def min_def)

lemma diag_append_run: "length buf < cap \<Longrightarrow> fold (diag_append cap) ps buf = take (cap - 1) (buf @ concat ps)"
proof (induction ps arbitrary: buf)
  case (Cons p ps)
  have l: "length (take (cap - 1) (buf @ p)) < cap" using Cons.prems by auto
  have "take (cap - 1) (take (cap - 1) (buf @ p) @ concat ps) = take (cap - 1) ((buf @ p) @ concat ps)"
    using Cons.prems by (cases "length (buf @ p) \<le> cap - 1") (auto simp: min_def)
  then show ?case using Cons l by (simp add: diag_append_take)
qed (auto simp: take_all)

lemma diag_format_prefix:
  "ecm_diag_format secs d fs names src al cap = take (cap - 1) (concat (format_pieces secs d fs names src al))"
  by (simp add: ecm_diag_format_def diag_append_run)

end
