(* ===== verification/Esc_Diag.thy ===== *)
theory Esc_Diag
  imports Esc Diag
begin

text \<open>
  The diagnostics of the master over the counters of the simulated slave. The master reads the twenty
  bytes from 0x0300 with FPRW (read and clear) or FPRD (\<open>ecm_diag_soem.c\<close>); the slave counts with
  \<open>esc_cnt_inc\<close> and clears the groups on a write.
\<close>

definition read_errs :: "'x esc_env \<Rightarrow> bool \<Rightarrow> 'x esc \<Rightarrow> 'x esc \<times> u8 list" where
  "read_errs env clear e =
    (case node_access env (if clear then CMD_FPRW else CMD_FPRD) True clear 0x0300 (replicate 20 0) 0 e of (e, d, _) \<Rightarrow> (e, d))"

text \<open>Between two reads the counter \<open>j\<close> of the slave counts the given numbers of events; the bytes the master gets.\<close>

fun sim_reads :: "'x esc_env \<Rightarrow> bool \<Rightarrow> nat \<Rightarrow> 'x esc \<Rightarrow> nat list \<Rightarrow> u8 list list" where
  "sim_reads env clear j e [] = []"
| "sim_reads env clear j e (k # ks) =
    (let (e, d) = read_errs env clear ((esc_cnt_inc (0x0300 + j) ^^ k) e) in d # sim_reads env clear j e ks)"

definition mbx_high :: "'x esc \<Rightarrow> bool" where
  "mbx_high e \<longleftrightarrow> 0x1000 \<le> e_mbx_out e \<and> 0x1000 \<le> e_mbx_in e"

lemma cnt_inc_iter:
  "unat (e_regs ((esc_cnt_inc reg ^^ k) e) reg) = min 255 (unat (e_regs e reg) + k) \<and> mbx_high ((esc_cnt_inc reg ^^ k) e) = mbx_high e"
proof (induction k)
  case 0
  show ?case using unat_bound [of "e_regs e reg"] by simp
next
  case (Suc k)
  define f where "f = (esc_cnt_inc reg ^^ k) e"
  have "unat (e_regs (esc_cnt_inc reg f) reg) = min 255 (unat (e_regs f reg) + 1)"
  proof (cases "e_regs f reg < 0xFF")
    case True
    then have "unat (e_regs f reg) < 255" by (simp add: word_less_nat_alt)
    then show ?thesis using True by (simp add: esc_cnt_inc_def unat_word_ariths)
  next
    case False
    then show ?thesis using unat_bound [of "e_regs f reg"] by (simp add: esc_cnt_inc_def word_less_nat_alt)
  qed
  moreover have "mbx_high (esc_cnt_inc reg f) = mbx_high f" by (simp add: esc_cnt_inc_def mbx_high_def)
  ultimately show ?case using Suc by (simp add: f_def)
qed

lemma read_before_300: "esc_dc_before_read c 0x0300 20 e = e" "esc_dc_after_write c n 0x0300 (replicate 20 x) e = e"
  by (simp_all add: esc_dc_before_read_def esc_dc_after_write_def read_systime_def read_sysdiff_def read_start0_def overlaps_def Let_def)

lemma wd_on_write_keeps:
  "e_mbx_out (esc_wd_on_write off len e) = e_mbx_out e" "e_mbx_in (esc_wd_on_write off len e) = e_mbx_in e"
  "i \<noteq> 0x0440 \<Longrightarrow> e_regs (esc_wd_on_write off len e) i = e_regs e i"
proof -
  have "e_mbx_out (fold (wd_trigger off len) ks e) = e_mbx_out e \<and> e_mbx_in (fold (wd_trigger off len) ks e) = e_mbx_in e \<and>
      (i \<noteq> 0x0440 \<longrightarrow> e_regs (fold (wd_trigger off len) ks e) i = e_regs e i)" for ks
    by (induction ks arbitrary: e) (simp_all add: wd_trigger_def Let_def)
  then show "e_mbx_out (esc_wd_on_write off len e) = e_mbx_out e" "e_mbx_in (esc_wd_on_write off len e) = e_mbx_in e"
    "i \<noteq> 0x0440 \<Longrightarrow> e_regs (esc_wd_on_write off len e) i = e_regs e i" by (simp_all add: esc_wd_on_write_def)
qed

lemma phys_read_300:
  assumes "mbx_high e"
  shows "\<exists>e'. esc_phys_read env 0x0300 (replicate 20 x) e = (e', rd_bytes 0x0300 20 (e_regs e)) \<and> mbx_high e' \<and>
    (\<forall>i < 0x0800. e_regs e' i = e_regs e i)"
  using assms
  by (auto simp: esc_phys_read_def read_before_300 esc_sm1_sync_irq_write_def sm1_read_def rd_bytes_def mbx_high_def word_le_nat_alt Let_def)

lemma phys_write_300:
  assumes "mbx_high e" "j < 20"
  shows "e_regs (esc_phys_write env 0x0300 (replicate 20 x) e) (0x0300 + j) = 0 \<and> mbx_high (esc_phys_write env 0x0300 (replicate 20 x) e)"
proof -
  define r where "r = clear_counters 0x0300 20 (\<lambda>i. if esc_ro i then e_regs e i else e_regs (e\<lparr>e_regs := wr_bytes 0x0300 (replicate 20 x) (e_regs e)\<rparr>) i)"
  have z: "r (0x0300 + j) = 0" using assms(2) by (auto simp: r_def clear_counters_def range_hits_def zero_bytes_def Let_def)
  define f where "f = esc_wd_on_write 0x0300 20 (e\<lparr>e_regs := r\<rparr>)"
  have "esc_phys_write env 0x0300 (replicate 20 x) e = f"
    unfolding esc_phys_write_def Let_def read_before_300 length_replicate
    using assms(1) by (simp add: mbx_repeat_def sii_command_def address_caches_def range_hits_def r_def [symmetric] f_def [symmetric])
      (simp add: f_def wd_on_write_keeps mbx_high_def word_le_nat_alt)
  then show ?thesis using z assms by (simp add: f_def wd_on_write_keeps mbx_high_def)
qed

lemma nth_rd_bytes: "j < n \<Longrightarrow> rd_bytes p n r ! j = r (p + j)"
  by (simp add: rd_bytes_def)

lemma read_errs_counter:
  assumes "mbx_high e" "j < 20" "read_errs env clear e = (e', d)"
  shows "mbx_high e'" "d ! j = e_regs e (0x0300 + j)" "e_regs e' (0x0300 + j) = (if clear then 0 else e_regs e (0x0300 + j))"
proof -
  obtain f where f: "esc_phys_read env 0x0300 (replicate 20 0) e = (f, rd_bytes 0x0300 20 (e_regs e))" "mbx_high f"
    "e_regs f (0x0300 + j) = e_regs e (0x0300 + j)" using phys_read_300 [OF assms(1), of env 0] assms(2) by auto
  have r: "e' = (if clear then esc_phys_write env 0x0300 (replicate 20 0) f else f)" "d = rd_bytes 0x0300 20 (e_regs e)"
    using assms(3) f(1) by (auto simp: read_errs_def node_access_def node_write_def Let_def split: if_splits)
  show "mbx_high e'" "e_regs e' (0x0300 + j) = (if clear then 0 else e_regs e (0x0300 + j))"
    using r(1) f(2,3) phys_write_300 [OF f(2) assms(2), of env 0] by (auto split: if_splits)
  show "d ! j = e_regs e (0x0300 + j)" using assms(2) r(2) nth_rd_bytes [of j 20] by simp
qed

text \<open>The slave's register behaves as the saturating counter of the master's analysis.\<close>

lemma sim_reads_counter:
  assumes "mbx_high e" "j < 20"
  shows "map (\<lambda>d. unat (d ! j)) (sim_reads env clear j e ks) = counter_reads clear (unat (e_regs e (0x0300 + j))) ks"
  using assms
proof (induction ks arbitrary: e)
  case (Cons k ks)
  define f where "f = (esc_cnt_inc (0x0300 + j) ^^ k) e"
  obtain e' d where r: "read_errs env clear f = (e', d)" by (metis prod.exhaust)
  have f: "mbx_high f" "unat (e_regs f (0x0300 + j)) = min 255 (unat (e_regs e (0x0300 + j)) + k)"
    using cnt_inc_iter [where reg = "0x0300 + j" and k = k and e = e] Cons.prems(1) by (simp_all add: f_def)
  note q = read_errs_counter [OF f(1) Cons.prems(2) r]
  show ?case using Cons.IH [OF q(1) Cons.prems(2)] q(2,3) f(2) by (simp add: f_def [symmetric] r Let_def)
qed simp

text \<open>C26. Errors counted end to end: whatever numbers of errors the simulated slave counts between the
  master's reads, in the read-and-clear or the passive mode, the total the master accumulates for that
  counter never exceeds them, and is exactly their sum unless it noted that some read found a counter
  at its limit.\<close>

theorem errors_end_to_end:
  assumes "i < n" "n \<le> 64" "j < 20" "is_counter j" "mbx_high e" "e_regs e (0x0300 + j) = 0"
    and "list_all (reads_slave clear i) rs" "map (\<lambda>r. map (rw_err (raw_s r i)) [0..<20]) rs = sim_reads env clear j e ks"
    and "sum_list ks < 2 ^ 64" "length rs < 2 ^ 64"
    and "s = dg_s (fold ecm_diag_ingest rs (ecm_diag_init n expected)) i"
  shows "unat (counter_at j (ds_tot s)) \<le> sum_list ks \<and> (ds_saturated s = 0 \<longrightarrow> unat (counter_at j (ds_tot s)) = sum_list ks)"
proof -
  have "map (\<lambda>r. unat (rw_err (raw_s r i) j)) rs = map (\<lambda>d. unat (d ! j)) (map (\<lambda>r. map (rw_err (raw_s r i)) [0..<20]) rs)"
    using assms(3) by (simp add: comp_def)
  also have "\<dots> = counter_reads clear 0 ks" unfolding assms(8) using sim_reads_counter [OF assms(5,3)] assms(6) by simp
  finally show ?thesis by (rule diag_counts_exact [OF assms(1-4,7) _ assms(9-11)])
qed

text \<open>Five and seven invalid frames at port 0 of the second of two slaves.\<close>

definition demo_raw :: "u8 list \<Rightarrow> ecm_diag_raw" where
  "demo_raw d = \<lparr>raw_seq = 1, raw_t_ns = 0, raw_frame_ok = True, raw_clear_on_read = True, raw_first = 0, raw_num = 2, raw_brd_count = 2,
    raw_brd_al_or = 8, raw_frames_lost = 0, raw_handoff_drops = 0, raw_ngroups = 1, raw_wkc = (\<lambda>_. wkc_zero),
    raw_s = (\<lambda>_. \<lparr>rw_station_addr = 0x1001, rw_wkc_err = 3, rw_wkc_dl = 1, rw_wkc_al = 1, rw_err = (!) d,
      rw_dl_status = 0, rw_al_status = 8, rw_al_code = 0\<rparr>)\<rparr>"

definition quiet_esc :: "unit esc" where
  "quiet_esc = \<lparr>e_regs = (\<lambda>_. 0), e_station_address = 0x1001, e_station_alias = 0, e_alias_enabled = False,
     e_position = 1, e_got_valid_outputs = False, e_force_reject_al = False, e_sii = [], e_dc = dc_zero,
     e_fault = \<lparr>ft_powered_off = False, ft_skip_logical = False, ft_sm1_consumed = False, ft_mbx_repeats_served = 0,
       ft_op_delay_ms = 0, ft_reject_al_code = 0, ft_reject_al_state = 0, ft_reject_al_sticky = False\<rparr>,
     e_wd = \<lparr>wd_now_ns = 0, wd_last_trigger_ns = 0, wd_running = False, wd_react = True, wd_expire_events = 0\<rparr>,
     e_sii_cmd_reads = 0, e_mbx_out = 0x1000, e_mbx_out_len = 0x80, e_mbx_in = 0x1080, e_mbx_in_len = 0x80, e_prof = False, e_app = ()\<rparr>"

definition quiet_env :: "unit esc_env" where
  "quiet_env = \<lparr>v_dc = \<lparr>cf_width = 0, cf_hop_ns = 0, cf_ref_drift_ppb = 0, cf_other_drift_ppb = 0, cf_no_dc_mask = 0\<rparr>, v_n = 2,
     v_coe = id, v_check_pd = (\<lambda>_. 0)\<rparr>"

theorem errors_end_to_end_witness:
  "unat (counter_at 0 (ds_tot (dg_s (fold ecm_diag_ingest (map demo_raw (sim_reads quiet_env True 0 quiet_esc [5, 7])) (ecm_diag_init 2 8)) 1))) \<le> 12"
proof -
  have m: "mbx_high quiet_esc" "e_regs quiet_esc 0x0300 = 0" by (simp_all add: mbx_high_def quiet_esc_def)
  have len: "length d = 20" if "d \<in> set (sim_reads quiet_env True 0 e ks)" "mbx_high e" for d e ks
    using that
  proof (induction ks arbitrary: e)
    case (Cons k ks)
    have h: "mbx_high ((esc_cnt_inc 0x0300 ^^ k) e)" using cnt_inc_iter Cons.prems(2) by blast
    obtain e' d' where r: "read_errs quiet_env True ((esc_cnt_inc 0x0300 ^^ k) e) = (e', d')" by (metis prod.exhaust)
    have "length d' = 20" using r phys_read_300 [OF h, of quiet_env 0] by (auto simp: read_errs_def node_access_def rd_bytes_def)
    then show ?case using Cons r read_errs_counter(1) [OF h _ r, of 0] by auto
  qed simp
  have "map (\<lambda>r. map (rw_err (raw_s r 1)) [0..<20]) (map demo_raw (sim_reads quiet_env True 0 quiet_esc [5, 7])) = sim_reads quiet_env True 0 quiet_esc [5, 7]"
    unfolding map_map
  proof (rule map_idI)
    fix d assume "d \<in> set (sim_reads quiet_env True 0 quiet_esc [5, 7])"
    then have "length d = 20" using len m(1) by blast
    then show "((\<lambda>r. map (rw_err (raw_s r 1)) [0..<20]) \<circ> demo_raw) d = d" using map_nth [of d] by (simp add: demo_raw_def)
  qed
  moreover have "length (sim_reads quiet_env True 0 quiet_esc [5, 7]) = 2" by (simp add: case_prod_unfold Let_def)
  ultimately show ?thesis
    using errors_end_to_end [of 1 2 0 quiet_esc True "map demo_raw (sim_reads quiet_env True 0 quiet_esc [5, 7])" quiet_env "[5, 7]" _ 8] m
    by (simp add: is_counter_def list_all_iff reads_slave_def demo_raw_def)
qed

end
