(* ===== verification/Spec2Isabelle.thy ===== *)
theory Spec2Isabelle
  imports Spsc Seqlock Cia402_Safety Policy Dc Telemetry Eni Mailbox Closed_Loop Sha256 Ctl_Srv Esc_Sdo_Down Esc_Esm Esc_Sii Esc_Diag
begin

text \<open>
  Verification of ecmaster, an EtherCAT master in C with its CiA 402 axis layer, its diagnostics and
  remote interface, and the software bus it is tested against (sources under \<open>src/\<close>).

  \<^bold>\<open>The program and its parts.\<close> A real-time thread runs the cycle: it sends the process image, waits for
  it with a timeout, steps the fault policy (\<open>policy/ecm_policy.c\<close>), follows the reference clock
  (\<open>core/ecm_dc.c\<close>) and runs the exchange hook (\<open>xchg/ecm_xchg.c\<close>), which moves commands and setpoints of
  the application into the process image and publishes states. The axis layer (\<open>libecm_cia402\<close>) sits in
  the hook and walks each drive through its power states. Objects are bound to places of the image by the
  process data table (\<open>pdo/ecm_pdo.c\<close>), and the bus is compared with its configuration by the ENI loader
  (\<open>config/ecm_eni.c\<close>). Other threads share data with the real-time thread without locks: rings
  (\<open>telemetry/ring_spsc.c\<close> and those of the policy and the exchange), seqlock records, and a two-slot
  handoff (\<open>diag/ecm_diag.c\<close>). SDO transfers go through a job queue and a worker (\<open>mailbox/ecm_mailbox.c\<close>);
  the remote interface (\<open>api/ecm_ctl.c\<close> over \<open>api/ecm_json.c\<close>) reads and writes objects on request and
  publishes the hash of its configuration (\<open>api/ecm_sha256.c\<close>). On the other end of the wire
  \<open>tools/soft_bus\<close> simulates slave controllers (\<open>esc_core.c\<close>, \<open>esc_dc.c\<close>, \<open>esc_coe.c\<close>) and drives (\<open>esc_cia402.c\<close>).

  \<^bold>\<open>Conventions.\<close> Unsigned C integers are words of their width, so they wrap as in C; signed ones are
  \<open>int\<close> with the conversions \<open>to_i8\<close> to \<open>to_i64\<close> where the code converts, and C division truncates. A
  structure is a record, an array a list or a function on indices, an out parameter part of the result, an
  error code the value the code returns. A big function of the code is cut into stages, one definition
  each, in the order of the code. The arithmetic of floating point, SOEM and the kernel are parameters.

  \<^bold>\<open>Theories.\<close>

  \<^item> \<open>Prelude\<close>, \<open>Cstr\<close>: integer types, words, lists, circular windows; the part of the C library the
    parsers call (\<open>strtoul\<close>, \<open>strtok\<close>, number texts).

  \<^item> \<open>Fifo\<close>: the contract of a bounded FIFO as the locale \<open>bounded_fifo\<close>, with the client lemmas proved
    once, and the telemetry ring. The locale is interpreted on every queue of the program: the telemetry
    ring, the exchange rings, the event and command rings of the policy, the send order ring and the
    mailbox queue.

  \<^item> \<open>Spsc\<close>, \<open>Seqlock\<close>: the lock-free protocols as step relations over the atomic accesses of the two
    threads, with copies that can be seen half done. Shown: nothing is lost, duplicated, reordered or
    torn in any interleaving; a seqlock read gives the newest record complete when it began, unless the
    32-bit counter went round during the attempt. Sequentially consistent steps are assumed: the acquire and release
    annotations of the code are not modelled beyond that.

  \<^item> \<open>Pdo\<close>, \<open>Xchg\<close>: the table, binding and bit access, and the exchange with its slots. Shown: write then
    read gives the value back and leaves every other bit; bound objects do not overlap; in a whole tick a
    setpoint reaches exactly the frame it names, and late ones are counted.

  \<^item> \<open>Cia402_Cfg\<close>, \<open>Cia402_Axis\<close>, \<open>Cia402_Stages\<close>, \<open>Cia402_Safety\<close>: axis file, the step of an axis stage by
    stage (\<open>ecm_cia402_axis.c\<close>), what each stage may change, and the safety rules: enabled only by a
    command, no restart after shutdown, a bounded position step, latches on a lost bus and on a timeout.

  \<^item> \<open>Policy\<close>, \<open>Dc\<close>, \<open>Telemetry\<close>: bus state machine, recovery planner, freshness; the phase lock; histogram
    and the pairing of sends with receives. Shown: the bus is lost after exactly the configured run of
    failures and returns only by a recovery; attempts are bounded; the unwrapped reference time is exact
    across wrap-around; the correction is bounded; pairing implements its list specification.

  \<^item> \<open>Eni\<close>, \<open>Mailbox\<close>: parser and checks of the configuration; queue, worker and callers as a step
    relation. Shown: what is accepted is well formed and names declared slaves, positions of \<open>2\<^sup>3\<^sup>1\<close> and more
    aside; the checks pass exactly on the configured bus; calls behave as single transfers as long as none
    times out, and none starves while the worker runs; a call that times out leaves the address of its
    frame behind.

  \<^item> \<open>Json\<close>, \<open>Sha256\<close>, \<open>Ctl\<close>, \<open>Ctl_Srv\<close>: tokenizer, hash, request handler, and the socket server with its
    line buffers. Shown: the tokenizer always ends and its tokens are the parse of the text in a grammar
    of its own; hashing in pieces equals
    hashing at once; a write happens only with every permission; requests do not depend on how bytes
    arrive.

  \<^item> \<open>Diag\<close>: working counter classes, error counters, the handoff to the diagnostics thread as an
    interleaving, findings and report. Shown: snapshots arrive whole and in order; the first failing link
    is the one reported.

  \<^item> \<open>Drive\<close>, \<open>Closed_Loop\<close>: the virtual drive with its motion in every mode, and master and drive run
    against each other: the axis is enabled after a bounded number of ticks, if the drive does not watch its
    following error and the mode display is not mapped.

  \<^item> \<open>Esc_Dc\<close>, \<open>Esc\<close>, \<open>Esc_Bus\<close>, \<open>Esc_Esm\<close>, \<open>Esc_Sii\<close>, \<open>Esc_Diag\<close>: the simulated slave: clock, registers, logical
    addressing, state machine, frames through a chain, EEPROM image. Shown: a frame keeps its structure and
    runs its datagrams in order; a logical exchange moves exactly the mapped bytes of every slave; state
    changes follow the state machine; the clock keeps its rate however time is divided; a walk over the
    image finds what the master configures from; and with \<open>Diag\<close>, the errors counted by a slave are the
    totals the master reports.

  \<^item> \<open>Esc_Coe\<close>, \<open>Esc_Sdo\<close>, \<open>Esc_Sdo_Down\<close>: the object dictionary and the SDO server of the simulated slave
    (\<open>esc_coe.c\<close>), and a client that reaches it through the memory of the node. Shown: an upload gives
    exactly the value of the object, and a download is one atomic write of exactly the data, in whatever
    number of segments either is sent; Complete Access never stops half way.

  \<^bold>\<open>Bounds and fuel.\<close> Sizes are those of the code (ring capacities, table sizes, line and token limits). The
  JSON tokenizer recurses on fuel derived from the length of the text, and it is proved that this fuel is
  never used up. Loops over counters that the code bounds are recursions on that bound; loops over input
  are recursions on the rest of the input; the read loop of a client ends because the socket's results do.

  \<^bold>\<open>Not modelled, and why.\<close> \<open>apps/ecm_run\<close> starts threads, parses options and calls SOEM and the kernel; its
  decisions are in the libraries above. The glue to SOEM (\<open>*_soem.c\<close>) only moves data between SOEM's
  context, whose definition is outside the repository, and the tables modelled here. \<open>api/ecm_api.c\<close>, \<open>ecm_cia402_diag.c\<close>,
  the viewers and the report functions format text. Of the software bus, nodes with a profile file
  (\<open>esc_profile.c\<close>), the fault commands and the main programs are left out; in \<open>Esc\<close> the object dictionary
  server is a parameter, which \<open>Esc_Sdo\<close> instantiates with the model of \<open>esc_coe.c\<close>. Probes,
  clock tools, tests, scripts and the installer are not part of the running master. Error texts are left
  out where only their presence decides anything.
\<close>

section \<open>Properties\<close>

text \<open>C4. Lock-free rings deliver in order: in every interleaving of a producer and a
  consumer, whatever garbage the slot copy may show half way, the elements consumed
  so far followed by the elements in the ring are the elements published, in order,
  and the producer never writes the slot the consumer is reading.\<close>

theorem spsc_order_no_race:
  fixes s :: "('a, 'w::len word) spsc"
  assumes "m dvd 2 ^ LENGTH('w)" and "m < 2 ^ LENGTH('w)" and "spsc_reach m z s"
  shows "s_popped s @ ring_win m (s_buf s) (s_tail s) (s_head s) = s_pushed s \<and>
    unat (s_head s - s_tail s) \<le> m \<and>
    \<not> (\<exists>x h t. s_prod s = PCopy x h \<and> s_cons s = CCopy t \<and> unat h mod m = unat t mod m)"
  using spsc_reach_inv [OF assms] spsc_reach_no_race [OF assms]
  by (auto simp: spsc_inv_def)

theorem spsc_order_no_race_witness:
  "let s = (spsc_init 0)\<lparr>s_prod := PHead 7 0\<rparr> :: (nat, u64) spsc in
   s_popped s @ ring_win 4096 (s_buf s) (s_tail s) (s_head s) = s_pushed s"
proof -
  let ?s = "(spsc_init 0)\<lparr>s_prod := PHead 7 0\<rparr> :: (nat, u64) spsc"
  have "spsc_step 4096 (spsc_init 0) ?s"
    using P_load_head [of "spsc_init 0 :: (nat, u64) spsc" 4096 7] by (simp add: spsc_init_def)
  then have "spsc_reach 4096 0 ?s" by simp
  from spsc_order_no_race [OF _ _ this] show ?thesis by (simp add: Let_def)
qed

end
